(* ===== verification/Prelude.thy ===== *)
theory Prelude
  imports Main "HOL-Library.AList" "HOL-Library.Signed_Division"
begin

text \<open>
  What every component of the development shares: the outcome of a Go computation (it
  returns, or the process stops in a panic, an exit or a self-deadlock), sequencing and the
  two loop shapes of the sources, a predicate that says which states a computation keeps and
  which crashes it may end in, Go's maps (nil or a finite table, iterated in an order that
  the runtime chooses), Go's slices where an element is cut out of them, and Go's fixed
  width integers.
\<close>

section \<open>Computations\<close>

subsection \<open>Outcomes and sequencing\<close>

text \<open>
  \<open>NilDeref\<close>, \<open>OutOfRange\<close>, \<open>NilMapWrite\<close> and \<open>TypeAssertion\<close> are the runtime panics the
  sources can reach, \<open>Panic\<close> a call of \<^verbatim>\<open>panic\<close>, \<open>Fatal\<close> a call of \<^verbatim>\<open>log.Fatal\<close> or
  \<^verbatim>\<open>os.Exit\<close>, and \<open>Deadlock\<close> a \<^verbatim>\<open>Lock\<close> of a mutex that the same goroutine already holds
  (\<^verbatim>\<open>sync.Mutex\<close> is not reentrant, so the goroutine blocks for ever).
\<close>

datatype crash = NilDeref | OutOfRange | NilMapWrite | TypeAssertion
  | Panic string | Fatal string | Deadlock string

datatype ('s, 'a) outcome = Ret 'a 's | Crash crash

type_synonym ('s, 'a) prog = "'s \<Rightarrow> ('s, 'a) outcome"

definition ret :: "'a \<Rightarrow> ('s, 'a) prog" where
  "ret x = (\<lambda>s. Ret x s)"

definition bnd :: "('s, 'a) prog \<Rightarrow> ('a \<Rightarrow> ('s, 'b) prog) \<Rightarrow> ('s, 'b) prog" where
  "bnd m f = (\<lambda>s. case m s of Ret x t \<Rightarrow> f x t | Crash c \<Rightarrow> Crash c)"

definition thn :: "('s, 'a) prog \<Rightarrow> ('s, 'b) prog \<Rightarrow> ('s, 'b) prog" where
  "thn m n = bnd m (\<lambda>_. n)"

definition crash_with :: "crash \<Rightarrow> ('s, 'a) prog" where
  "crash_with c = (\<lambda>s. Crash c)"

definition reading :: "('s \<Rightarrow> 'a) \<Rightarrow> ('a \<Rightarrow> ('s, 'b) prog) \<Rightarrow> ('s, 'b) prog" where
  "reading f k = (\<lambda>s. k (f s) s)"

definition modify :: "('s \<Rightarrow> 's) \<Rightarrow> ('s, unit) prog" where
  "modify f = (\<lambda>s. Ret () (f s))"

definition skip :: "('s, unit) prog" where
  "skip = ret ()"

text \<open>A \<^verbatim>\<open>for\<close> loop over a slice without an early return, and one whose body may return
  from the enclosing function (\<open>Some\<close>).\<close>

fun for_each :: "'a list \<Rightarrow> ('a \<Rightarrow> ('s, unit) prog) \<Rightarrow> ('s, unit) prog" where
  "for_each [] f = skip"
| "for_each (x # xs) f = thn (f x) (for_each xs f)"

fun for_return :: "'a list \<Rightarrow> ('a \<Rightarrow> ('s, 'r option) prog) \<Rightarrow> ('s, 'r option) prog" where
  "for_return [] f = ret None"
| "for_return (x # xs) f =
     bnd (f x) (\<lambda>r. case r of Some y \<Rightarrow> ret (Some y) | None \<Rightarrow> for_return xs f)"

text \<open>A loop that collects values, as \<^verbatim>\<open>errs = append(errs, err)\<close> does.\<close>

fun for_collect :: "'a list \<Rightarrow> ('a \<Rightarrow> ('s, 'b list) prog) \<Rightarrow> ('s, 'b list) prog" where
  "for_collect [] f = ret []"
| "for_collect (x # xs) f =
     bnd (f x) (\<lambda>ys. bnd (for_collect xs f) (\<lambda>zs. ret (ys @ zs)))"

lemma ret_run [simp]: "ret x s = Ret x s"
  by (simp add: ret_def)

lemma skip_run [simp]: "skip s = Ret () s"
  by (simp add: skip_def)

lemma modify_run [simp]: "modify f s = Ret () (f s)"
  by (simp add: modify_def)

lemma reading_run [simp]: "reading f k s = k (f s) s"
  by (simp add: reading_def)

lemma crash_with_run [simp]: "crash_with c s = Crash c"
  by (simp add: crash_with_def)

lemma bnd_run [simp]: "bnd m f s = (case m s of Ret x t \<Rightarrow> f x t | Crash c \<Rightarrow> Crash c)"
  by (simp add: bnd_def)

lemma thn_run [simp]: "thn m n s = (case m s of Ret x t \<Rightarrow> n t | Crash c \<Rightarrow> Crash c)"
  by (simp add: thn_def)

lemma bnd_assoc: "bnd (bnd m f) g = bnd m (\<lambda>x. bnd (f x) g)"
  by (rule ext) (simp split: outcome.split)

lemma for_each_append: "for_each (xs @ ys) f = thn (for_each xs f) (for_each ys f)"
proof (induction xs)
  case Nil
  show ?case by (rule ext) simp
next
  case (Cons x xs)
  then show ?case by (intro ext) (simp split: outcome.split)
qed

lemma outcome_bnd_Ret:
  "bnd m f s = Ret y u \<longleftrightarrow> (\<exists>x t. m s = Ret x t \<and> f x t = Ret y u)"
  by (auto split: outcome.splits)

lemma outcome_thn_Ret: "thn m n s = Ret y u \<longleftrightarrow> (\<exists>x t. m s = Ret x t \<and> n t = Ret y u)"
  by (auto split: outcome.splits)

subsection \<open>What a computation keeps\<close>

text \<open>
  \<open>safe I C m\<close>: started in a state of \<open>I\<close>, the computation \<open>m\<close> either returns in a state
  of \<open>I\<close> or stops in a crash that \<open>C\<close> allows. With \<open>C = (\<lambda>_. True)\<close> this is "keeps the
  invariant", with \<open>C = (\<lambda>_. False)\<close> it adds "and always returns". \<open>total P m Q\<close> is a total
  correctness triple, and \<open>partial P m Q\<close> the partial one.
\<close>

definition partial :: "('s \<Rightarrow> bool) \<Rightarrow> (crash \<Rightarrow> bool) \<Rightarrow> ('s, 'a) prog \<Rightarrow> ('a \<Rightarrow> 's \<Rightarrow> bool) \<Rightarrow> bool" where
  "partial P C m Q \<longleftrightarrow>
     (\<forall>s. P s \<longrightarrow> (case m s of Ret x t \<Rightarrow> Q x t | Crash c \<Rightarrow> C c))"

definition safe :: "('s \<Rightarrow> bool) \<Rightarrow> (crash \<Rightarrow> bool) \<Rightarrow> ('s, 'a) prog \<Rightarrow> bool" where
  "safe I C m \<longleftrightarrow> partial I C m (\<lambda>_. I)"

named_theorems safe_intro "rules that push \<open>safe\<close> through a computation"

lemma partialI:
  assumes "\<And>s x t. P s \<Longrightarrow> m s = Ret x t \<Longrightarrow> Q x t"
    and "\<And>s c. P s \<Longrightarrow> m s = Crash c \<Longrightarrow> C c"
  shows "partial P C m Q"
  using assms by (auto simp: partial_def split: outcome.split)

lemma partialD: "partial P C m Q \<Longrightarrow> P s \<Longrightarrow> m s = Ret x t \<Longrightarrow> Q x t"
  by (auto simp: partial_def dest: spec [of _ s])

lemma partial_crashD: "partial P C m Q \<Longrightarrow> P s \<Longrightarrow> m s = Crash c \<Longrightarrow> C c"
  by (auto simp: partial_def dest: spec [of _ s])

lemma partial_bnd:
  assumes "partial P C m R" and "\<And>x. partial (R x) C (f x) Q"
  shows "partial P C (bnd m f) Q"
  using assms unfolding partial_def by (fastforce split: outcome.splits)

lemma partial_weaken:
  assumes "partial P C m Q" and "\<And>s. P' s \<Longrightarrow> P s" and "\<And>x s. Q x s \<Longrightarrow> Q' x s"
  shows "partial P' C m Q'"
  using assms unfolding partial_def by (fastforce split: outcome.splits)

lemma safeD: "safe I C m \<Longrightarrow> I s \<Longrightarrow> m s = Ret x t \<Longrightarrow> I t"
  unfolding safe_def by (rule partialD)

lemma safe_crashD: "safe I C m \<Longrightarrow> I s \<Longrightarrow> m s = Crash c \<Longrightarrow> C c"
  unfolding safe_def by (rule partial_crashD)

lemma safe_totalD: "safe I (\<lambda>_. False) m \<Longrightarrow> I s \<Longrightarrow> \<exists>x t. m s = Ret x t \<and> I t"
  by (cases "m s") (auto dest: safeD safe_crashD)

lemma safe_weaken_crash: "safe I C m \<Longrightarrow> (\<And>c. C c \<Longrightarrow> D c) \<Longrightarrow> safe I D m"
  unfolding safe_def partial_def by (fastforce split: outcome.splits)

lemma safe_ret [safe_intro]: "safe I C (ret x)"
  by (simp add: safe_def partial_def)

lemma safe_skip [safe_intro]: "safe I C skip"
  by (simp add: safe_def partial_def)

lemma safe_crash [safe_intro]: "C c \<Longrightarrow> safe I C (crash_with c)"
  by (simp add: safe_def partial_def)

lemma safe_bnd [safe_intro]:
  "safe I C m \<Longrightarrow> (\<And>x. safe I C (f x)) \<Longrightarrow> safe I C (bnd m f)"
  unfolding safe_def by (rule partial_bnd)

lemma safe_thn [safe_intro]: "safe I C m \<Longrightarrow> safe I C n \<Longrightarrow> safe I C (thn m n)"
  unfolding thn_def by (rule safe_bnd)

lemma safe_modify [safe_intro]: "(\<And>s. I s \<Longrightarrow> I (f s)) \<Longrightarrow> safe I C (modify f)"
  by (simp add: safe_def partial_def)

lemma safe_reading [safe_intro]:
  "(\<And>s. I s \<Longrightarrow> safe I C (k (f s))) \<Longrightarrow> safe I C (reading f k)"
  by (simp add: safe_def partial_def)

lemma safe_if [safe_intro]:
  "(b \<Longrightarrow> safe I C m) \<Longrightarrow> (\<not> b \<Longrightarrow> safe I C n) \<Longrightarrow> safe I C (if b then m else n)"
  by simp

lemma safe_case_option [safe_intro]:
  "(x = None \<Longrightarrow> safe I C m) \<Longrightarrow> (\<And>y. x = Some y \<Longrightarrow> safe I C (f y)) \<Longrightarrow>
     safe I C (case x of None \<Rightarrow> m | Some y \<Rightarrow> f y)"
  by (simp split: option.split)

lemma safe_case_sum [safe_intro]:
  "(\<And>y. x = Inl y \<Longrightarrow> safe I C (f y)) \<Longrightarrow> (\<And>y. x = Inr y \<Longrightarrow> safe I C (g y)) \<Longrightarrow>
     safe I C (case x of Inl y \<Rightarrow> f y | Inr y \<Rightarrow> g y)"
  by (simp split: sum.split)

lemma safe_case_prod [safe_intro]:
  "(\<And>y z. x = (y, z) \<Longrightarrow> safe I C (f y z)) \<Longrightarrow> safe I C (case x of (y, z) \<Rightarrow> f y z)"
  by (simp split: prod.split)

lemma safe_Let [safe_intro]: "safe I C (f x) \<Longrightarrow> safe I C (let y = x in f y)"
  by (simp add: Let_def)

lemma safe_for_each [safe_intro]:
  "(\<And>x. x \<in> set xs \<Longrightarrow> safe I C (f x)) \<Longrightarrow> safe I C (for_each xs f)"
  by (induction xs) (auto intro: safe_intro)

lemma safe_for_return [safe_intro]:
  "(\<And>x. x \<in> set xs \<Longrightarrow> safe I C (f x)) \<Longrightarrow> safe I C (for_return xs f)"
  by (induction xs) (auto intro!: safe_intro)

lemma safe_for_collect [safe_intro]:
  "(\<And>x. x \<in> set xs \<Longrightarrow> safe I C (f x)) \<Longrightarrow> safe I C (for_collect xs f)"
  by (induction xs) (auto intro!: safe_intro)

text \<open>A crash every proof of invariance allows, and the one that rules out deadlocks.\<close>

abbreviation any_crash :: "crash \<Rightarrow> bool" where
  "any_crash \<equiv> (\<lambda>_. True)"

definition not_deadlock :: "crash \<Rightarrow> bool" where
  "not_deadlock c = (case c of Deadlock _ \<Rightarrow> False | _ \<Rightarrow> True)"

lemma not_deadlock_simps [simp]:
  "not_deadlock NilDeref" "not_deadlock OutOfRange" "not_deadlock NilMapWrite"
  "not_deadlock TypeAssertion" "not_deadlock (Panic p)" "not_deadlock (Fatal p)"
  "\<not> not_deadlock (Deadlock p)"
  by (simp_all add: not_deadlock_def)

section \<open>Searching lists\<close>

lemma find_SomeD: "find P xs = Some x \<Longrightarrow> x \<in> set xs \<and> P x"
  by (induction xs) (auto split: if_splits)

lemma find_unique:
  assumes "x \<in> set xs" and "P x" and "\<And>y. y \<in> set xs \<Longrightarrow> P y \<Longrightarrow> y = x"
  shows "find P xs = Some x"
proof (cases "find P xs")
  case None
  with assms(1,2) show ?thesis by (simp add: find_None_iff)
next
  case (Some y)
  then have "y \<in> set xs" and "P y" by (auto dest: find_SomeD)
  then show ?thesis using Some assms(3) by simp
qed

section \<open>Go's maps\<close>

text \<open>
  A Go map is nil (\<open>None\<close>) or a finite table, here an association list with distinct keys.
  Reading a nil map finds nothing, writing to one panics. \<^verbatim>\<open>range\<close> visits the entries in
  an order the runtime picks anew for each loop: the order is an argument \<open>\<pi>\<close>, which maps the
  list of keys to the list in which they are visited. An answer that is not a permutation of
  the keys is not an order Go can take and is replaced by the stored one, so that a theorem
  for every \<open>\<pi>\<close> is a theorem for exactly the possible orders.
\<close>

type_synonym 'v gomap = "(string \<times> 'v) list option"
type_synonym order = "string list \<Rightarrow> string list"

definition entries :: "'v gomap \<Rightarrow> (string \<times> 'v) list" where
  "entries m = (case m of None \<Rightarrow> [] | Some es \<Rightarrow> es)"

definition keys :: "'v gomap \<Rightarrow> string list" where
  "keys m = map fst (entries m)"

definition lookup :: "'v gomap \<Rightarrow> string \<Rightarrow> 'v option" where
  "lookup m k = map_of (entries m) k"

definition mlen :: "'v gomap \<Rightarrow> int" where
  "mlen m = int (length (entries m))"

text \<open>A write to a map that is not nil; \<open>is_nil\<close> guards it where the source can panic.\<close>

definition is_nil :: "'v gomap \<Rightarrow> bool" where
  "is_nil m \<longleftrightarrow> m = None"

definition put :: "'v gomap \<Rightarrow> string \<Rightarrow> 'v \<Rightarrow> 'v gomap" where
  "put m k v = map_option (AList.update k v) m"

definition del :: "'v gomap \<Rightarrow> string \<Rightarrow> 'v gomap" where
  "del m k = map_option (AList.delete k) m"

definition range_by :: "order \<Rightarrow> 'v gomap \<Rightarrow> (string \<times> 'v) list" where
  "range_by \<pi> m =
     (let ks = \<pi> (keys m)
      in if distinct ks \<and> set ks = set (keys m)
         then map (\<lambda>k. (k, the (lookup m k))) ks
         else entries m)"

definition wf_map :: "'v gomap \<Rightarrow> bool" where
  "wf_map m \<longleftrightarrow> distinct (keys m)"

definition map_ok :: "('v \<Rightarrow> bool) \<Rightarrow> 'v gomap \<Rightarrow> bool" where
  "map_ok P m \<longleftrightarrow> wf_map m \<and> (\<forall>v \<in> snd ` set (entries m). P v)"

lemma entries_simps [simp]: "entries None = []" "entries (Some es) = es"
  by (simp_all add: entries_def)

lemma is_nil_simps [simp]: "is_nil None" "\<not> is_nil (Some es)"
  by (simp_all add: is_nil_def)

lemma is_nil_put [simp]: "is_nil (put m k v) = is_nil m"
  by (simp add: is_nil_def put_def)

lemma is_nil_del [simp]: "is_nil (del m k) = is_nil m"
  by (simp add: is_nil_def del_def)

lemma entries_put [simp]: "\<not> is_nil m \<Longrightarrow> entries (put m k v) = AList.update k v (entries m)"
  by (cases m) (simp_all add: put_def)

lemma entries_del [simp]: "entries (del m k) = AList.delete k (entries m)"
  by (cases m) (simp_all add: del_def)

lemma lookup_put: "\<not> is_nil m \<Longrightarrow> lookup (put m k v) = (lookup m)(k \<mapsto> v)"
  by (rule ext) (simp add: lookup_def update_conv)

lemma lookup_del: "lookup (del m k) = (lookup m)(k := None)"
  by (rule ext) (simp add: lookup_def delete_conv)

lemma wf_map_put: "wf_map m \<Longrightarrow> wf_map (put m k v)"
  by (cases m) (simp_all add: wf_map_def keys_def put_def distinct_update)

lemma wf_map_del: "wf_map m \<Longrightarrow> wf_map (del m k)"
  by (cases m) (simp_all add: wf_map_def keys_def del_def distinct_delete)

lemma wf_map_empty [simp]: "wf_map (Some [])" "wf_map None"
  by (simp_all add: wf_map_def keys_def)

lemma keys_put: "\<not> is_nil m \<Longrightarrow> set (keys (put m k v)) = insert k (set (keys m))"
  by (cases m) (auto simp: keys_def put_def dom_update)

lemma keys_del: "set (keys (del m k)) = set (keys m) - {k}"
  by (cases m) (auto simp: keys_def del_def delete_keys)

lemma lookup_None_iff: "lookup m k = None \<longleftrightarrow> k \<notin> set (keys m)"
  by (simp add: lookup_def keys_def map_of_eq_None_iff)

lemma lookup_in_entries: "lookup m k = Some v \<Longrightarrow> (k, v) \<in> set (entries m)"
  by (simp add: lookup_def map_of_SomeD)

lemma in_entries_lookup: "wf_map m \<Longrightarrow> (k, v) \<in> set (entries m) \<Longrightarrow> lookup m k = Some v"
  by (simp add: lookup_def wf_map_def keys_def)

lemma set_range_by: "wf_map m \<Longrightarrow> set (range_by \<pi> m) = set (entries m)"
proof (cases "distinct (\<pi> (keys m)) \<and> set (\<pi> (keys m)) = set (keys m)")
  case True
  assume wf: "wf_map m"
  have "set (range_by \<pi> m) = (\<lambda>k. (k, the (lookup m k))) ` set (keys m)"
    using True by (simp add: range_by_def)
  also have "\<dots> = set (entries m)"
  proof (intro set_eqI iffI)
    fix p assume "p \<in> (\<lambda>k. (k, the (lookup m k))) ` set (keys m)"
    then obtain k where k: "k \<in> set (keys m)" and p: "p = (k, the (lookup m k))" by auto
    from k obtain v where "lookup m k = Some v" using lookup_None_iff by fastforce
    then show "p \<in> set (entries m)" using p by (simp add: lookup_in_entries)
  next
    fix p assume p: "p \<in> set (entries m)"
    obtain k v where kv: "p = (k, v)" by (cases p)
    with p have "k \<in> set (keys m)" by (force simp: keys_def)
    moreover from p kv have "lookup m k = Some v" by (simp add: in_entries_lookup [OF wf])
    ultimately show "p \<in> (\<lambda>k. (k, the (lookup m k))) ` set (keys m)" using kv by force
  qed
  finally show ?thesis .
next
  case False
  then show ?thesis by (auto simp: range_by_def Let_def)
qed

lemma distinct_range_by: "wf_map m \<Longrightarrow> distinct (map fst (range_by \<pi> m))"
  by (simp add: range_by_def Let_def wf_map_def keys_def comp_def)

lemma length_range_by: "wf_map m \<Longrightarrow> length (range_by \<pi> m) = length (entries m)"
proof -
  assume wf: "wf_map m"
  have "length (range_by \<pi> m) = card (set (range_by \<pi> m))"
    using distinct_range_by [OF wf] by (metis distinct_card distinct_map)
  also have "\<dots> = card (set (entries m))" by (simp add: set_range_by [OF wf])
  also have "\<dots> = length (entries m)"
    using wf by (metis distinct_card distinct_map wf_map_def keys_def)
  finally show ?thesis .
qed

lemma range_by_lookup:
  "wf_map m \<Longrightarrow> (k, v) \<in> set (range_by \<pi> m) \<longleftrightarrow> lookup m k = Some v"
  by (simp add: set_range_by) (metis in_entries_lookup lookup_in_entries)

lemma range_by_None [simp]: "range_by \<pi> None = []"
  by (simp add: range_by_def keys_def Let_def)

subsection \<open>The contract of a table, and what its clients prove from it\<close>

text \<open>
  The interface the components use of a table: an invariant, a lookup, a write and a removal.
  The client lemmas (a write is seen, other keys are not touched, removing what was added
  restores the table) are proved once, from the laws.
\<close>

locale table =
  fixes invar :: "'m \<Rightarrow> bool"
    and find :: "'m \<Rightarrow> 'k \<Rightarrow> 'v option"
    and store :: "'m \<Rightarrow> 'k \<Rightarrow> 'v \<Rightarrow> 'm"
    and remove :: "'m \<Rightarrow> 'k \<Rightarrow> 'm"
  assumes find_store: "invar m \<Longrightarrow> find (store m k v) = (find m)(k \<mapsto> v)"
    and find_remove: "invar m \<Longrightarrow> find (remove m k) = (find m)(k := None)"
    and invar_store: "invar m \<Longrightarrow> invar (store m k v)"
    and invar_remove: "invar m \<Longrightarrow> invar (remove m k)"
begin

lemma store_found: "invar m \<Longrightarrow> find (store m k v) k = Some v"
  by (simp add: find_store)

lemma store_other: "invar m \<Longrightarrow> j \<noteq> k \<Longrightarrow> find (store m k v) j = find m j"
  by (simp add: find_store)

lemma remove_gone: "invar m \<Longrightarrow> find (remove m k) k = None"
  by (simp add: find_remove)

lemma remove_other: "invar m \<Longrightarrow> j \<noteq> k \<Longrightarrow> find (remove m k) j = find m j"
  by (simp add: find_remove)

lemma store_remove: "invar m \<Longrightarrow> find m k = None \<Longrightarrow> find (remove (store m k v) k) = find m"
  by (rule ext) (simp add: find_remove invar_store find_store)

lemma dom_store: "invar m \<Longrightarrow> dom (find (store m k v)) = insert k (dom (find m))"
  by (simp add: find_store)

lemma dom_remove: "invar m \<Longrightarrow> dom (find (remove m k)) = dom (find m) - {k}"
  by (simp add: find_remove)

end

interpretation gomap: table "\<lambda>m. wf_map m \<and> \<not> is_nil m" lookup put del
  by unfold_locales (auto simp: lookup_put lookup_del wf_map_put wf_map_del)

section \<open>Slices and integers\<close>

text \<open>\<open>cut i xs\<close> is \<^verbatim>\<open>append(xs[:i], xs[i+1:]...)\<close>. \<open>index_of\<close> is the scan
  \<^verbatim>\<open>for index, y := range xs { if y == x { return true, index } }; return false, -1\<close>.\<close>

definition cut :: "nat \<Rightarrow> 'a list \<Rightarrow> 'a list" where
  "cut i xs = take i xs @ drop (Suc i) xs"

fun index_from :: "'a \<Rightarrow> nat \<Rightarrow> 'a list \<Rightarrow> bool \<times> int" where
  "index_from x i [] = (False, -1)"
| "index_from x i (y # ys) = (if y = x then (True, int i) else index_from x (Suc i) ys)"

definition index_of :: "'a \<Rightarrow> 'a list \<Rightarrow> bool \<times> int" where
  "index_of x xs = index_from x 0 xs"

lemma index_from_found: "fst (index_from x i xs) \<longleftrightarrow> x \<in> set xs"
  by (induction xs arbitrary: i) auto

lemma index_of_found [simp]: "fst (index_of x xs) \<longleftrightarrow> x \<in> set xs"
  by (simp add: index_of_def index_from_found)

lemma index_from_cut:
  "x \<in> set xs \<Longrightarrow> nat (snd (index_from x i xs)) \<ge> i \<and>
     cut (nat (snd (index_from x i xs)) - i) xs = remove1 x xs"
proof (induction xs arbitrary: i)
  case Nil
  then show ?case by simp
next
  case (Cons y ys)
  show ?case
  proof (cases "y = x")
    case True
    then show ?thesis by (simp add: cut_def)
  next
    case False
    with Cons.prems have "x \<in> set ys" by simp
    from Cons.IH [OF this, of "Suc i"] obtain j
      where j: "nat (snd (index_from x (Suc i) ys)) = Suc i + j" and c: "cut j ys = remove1 x ys"
      by (metis le_Suc_ex add_diff_cancel_left')
    from j c False show ?thesis by (simp add: cut_def)
  qed
qed

lemma cut_index_of: "x \<in> set xs \<Longrightarrow> cut (nat (snd (index_of x xs))) xs = remove1 x xs"
  using index_from_cut [of x xs 0] by (simp add: index_of_def)

lemma index_of_pair: "index_of x xs = (b, i) \<Longrightarrow> b \<longleftrightarrow> x \<in> set xs"
  using index_of_found [of x xs] by simp

text \<open>Conversions to \<^verbatim>\<open>int32\<close> and the wrap-around of \<^verbatim>\<open>int\<close> (64 bits on the supported
  platforms).\<close>

definition int32 :: "int \<Rightarrow> int" where
  "int32 x = signed_take_bit 31 x"

definition int64 :: "int \<Rightarrow> int" where
  "int64 x = signed_take_bit 63 x"

lemma int32_range: "- (2 ^ 31) \<le> int32 x \<and> int32 x < 2 ^ 31"
  unfolding int32_def
  using signed_take_bit_int_greater_eq_minus_exp [of 31 x] signed_take_bit_int_less_exp [of 31 x]
  by simp

lemma int32_id: "- (2 ^ 31) \<le> x \<Longrightarrow> x < 2 ^ 31 \<Longrightarrow> int32 x = x"
  by (simp add: int32_def signed_take_bit_int_eq_self)

lemma int64_id: "- (2 ^ 63) \<le> x \<Longrightarrow> x < 2 ^ 63 \<Longrightarrow> int64 x = x"
  by (simp add: int64_def signed_take_bit_int_eq_self)

section \<open>Rules for triples\<close>

lemma partial_thn: "partial P C m (\<lambda>_. R) \<Longrightarrow> partial R C n Q \<Longrightarrow> partial P C (thn m n) Q"
  unfolding thn_def by (rule partial_bnd)

lemma partial_ret: "(\<And>s. P s \<Longrightarrow> Q x s) \<Longrightarrow> partial P C (ret x) Q"
  by (simp add: partial_def)

lemma partial_skip: "(\<And>s. P s \<Longrightarrow> Q () s) \<Longrightarrow> partial P C skip Q"
  by (simp add: partial_def)

lemma partial_modify: "(\<And>s. P s \<Longrightarrow> Q () (f s)) \<Longrightarrow> partial P C (modify f) Q"
  by (simp add: partial_def)

lemma partial_crash: "C c \<Longrightarrow> partial P C (crash_with c) Q"
  by (simp add: partial_def)

lemma partial_reading:
  "(\<And>s0. P s0 \<Longrightarrow> partial (\<lambda>s. P s \<and> f s = f s0) C (k (f s0)) Q) \<Longrightarrow> partial P C (reading f k) Q"
  by (auto simp: partial_def)

lemma partial_pre: "partial P C m Q \<Longrightarrow> (\<And>s. P' s \<Longrightarrow> P s) \<Longrightarrow> partial P' C m Q"
  by (rule partial_weaken)

lemma partial_post: "partial P C m Q \<Longrightarrow> (\<And>x s. Q x s \<Longrightarrow> Q' x s) \<Longrightarrow> partial P C m Q'"
  by (rule partial_weaken)

lemma partial_if:
  "(b \<Longrightarrow> partial P C m Q) \<Longrightarrow> (\<not> b \<Longrightarrow> partial P C n Q) \<Longrightarrow> partial P C (if b then m else n) Q"
  by simp

lemma safe_partial: "safe I C m \<Longrightarrow> partial I C m (\<lambda>_. I)"
  by (simp add: safe_def)

lemma partial_any_reading: "(\<And>x. partial P C (k x) Q) \<Longrightarrow> partial P C (reading f k) Q"
  by (simp add: partial_def)

lemma partial_case_prod: "(\<And>y z. partial P C (f y z) Q) \<Longrightarrow> partial P C (case x of (y, z) \<Rightarrow> f y z) Q"
  by (simp split: prod.split)

lemma partial_case_sum:
  "(\<And>y. partial P C (f y) Q) \<Longrightarrow> (\<And>y. partial P C (g y) Q) \<Longrightarrow>
     partial P C (case x of Inl y \<Rightarrow> f y | Inr y \<Rightarrow> g y) Q"
  by (simp split: sum.split)

lemma partial_case_option:
  "partial P C m Q \<Longrightarrow> (\<And>y. partial P C (f y) Q) \<Longrightarrow> partial P C (case x of None \<Rightarrow> m | Some y \<Rightarrow> f y) Q"
  by (simp split: option.split)

lemma partial_conj:
  "partial P C m (\<lambda>_. Q) \<Longrightarrow> partial P' C m (\<lambda>_. Q') \<Longrightarrow>
     partial (\<lambda>s. P s \<and> P' s) C m (\<lambda>_ s. Q s \<and> Q' s)"
  by (fastforce simp: partial_def split: outcome.splits)

lemma partial_totalD: "partial P (\<lambda>_. False) m Q \<Longrightarrow> P s \<Longrightarrow> \<exists>x t. m s = Ret x t \<and> Q x t"
  by (cases "m s") (auto dest: partialD partial_crashD)

end
