(* ===== verification/Strconv.thy ===== *)
theory Strconv
  imports Prelude
begin

text \<open>
  What the program uses of Go's \<^verbatim>\<open>strconv\<close> and \<^verbatim>\<open>strings\<close>: decimal printing
  (\<^verbatim>\<open>Itoa\<close>), decimal parsing with its syntax and range errors (\<^verbatim>\<open>ParseUint\<close>,
  \<^verbatim>\<open>ParseInt\<close>, \<^verbatim>\<open>Atoi\<close>), \<^verbatim>\<open>ParseBool\<close> and a few string helpers. Printing
  followed by parsing gives the number back, so printing is injective.
\<close>

section \<open>Decimal digits\<close>

definition is_digit :: "char \<Rightarrow> bool" where
  "is_digit c \<longleftrightarrow> 48 \<le> (of_char c :: nat) \<and> (of_char c :: nat) \<le> 57"

definition digit_val :: "char \<Rightarrow> nat" where
  "digit_val c = (of_char c :: nat) - 48"

definition digit_char :: "nat \<Rightarrow> char" where
  "digit_char d = (char_of (48 + d) :: char)"

lemma digit_char_is_digit: "d < 10 \<Longrightarrow> is_digit (digit_char d)"
  by (simp add: is_digit_def digit_char_def)

lemma digit_val_char: "d < 10 \<Longrightarrow> digit_val (digit_char d) = d"
  by (simp add: digit_val_def digit_char_def)

section \<open>Printing\<close>

fun utoa :: "nat \<Rightarrow> string" where
  "utoa n = (if n < 10 then [digit_char n] else utoa (n div 10) @ [digit_char (n mod 10)])"

declare utoa.simps [simp del]

definition Itoa :: "int \<Rightarrow> string" where
  "Itoa i = (if i < 0 then ''-'' @ utoa (nat (- i)) else utoa (nat i))"

section \<open>Parsing\<close>

datatype num_error = ErrSyntax | ErrRange

text \<open>\<^verbatim>\<open>ParseUint(s, 10, 64)\<close>: the loop checks each character before it checks that the
  value still fits.\<close>

fun parse_loop :: "string \<Rightarrow> nat \<Rightarrow> num_error + nat" where
  "parse_loop [] n = Inr n"
| "parse_loop (c # cs) n =
     (if is_digit c
      then (let n1 = n * 10 + digit_val c in if n1 < 2 ^ 64 then parse_loop cs n1 else Inl ErrRange)
      else Inl ErrSyntax)"

definition ParseUint :: "string \<Rightarrow> num_error + nat" where
  "ParseUint s = (if s = [] then Inl ErrSyntax else parse_loop s 0)"

text \<open>\<^verbatim>\<open>ParseInt(s, 10, 64)\<close>: an optional sign, then \<^verbatim>\<open>ParseUint\<close>, then the signed range.
  The value that goes with a range error is the nearest bound; it is the second component.\<close>

definition signed_parse :: "bool \<Rightarrow> string \<Rightarrow> int \<times> num_error option" where
  "signed_parse neg s =
     (case ParseUint s of
        Inl ErrSyntax \<Rightarrow> (0, Some ErrSyntax)
      | Inl ErrRange \<Rightarrow> (if neg then - (2 ^ 63) else 2 ^ 63 - 1, Some ErrRange)
      | Inr un \<Rightarrow>
          if \<not> neg \<and> un \<ge> 2 ^ 63 then (2 ^ 63 - 1, Some ErrRange)
          else if neg \<and> un > 2 ^ 63 then (- (2 ^ 63), Some ErrRange)
          else (if neg then - int un else int un, None))"

definition ParseInt :: "string \<Rightarrow> int \<times> num_error option" where
  "ParseInt s =
     (case s of
        [] \<Rightarrow> (0, Some ErrSyntax)
      | c # cs \<Rightarrow>
          if c = CHR ''+'' then signed_parse False cs
          else if c = CHR ''-'' then signed_parse True cs
          else signed_parse False s)"

definition Atoi :: "string \<Rightarrow> int \<times> num_error option" where
  "Atoi s = ParseInt s"

definition ParseBool :: "string \<Rightarrow> bool option" where
  "ParseBool s =
     (if s \<in> set [''1'', ''t'', ''T'', ''true'', ''TRUE'', ''True''] then Some True
      else if s \<in> set [''0'', ''f'', ''F'', ''false'', ''FALSE'', ''False''] then Some False
      else None)"

section \<open>Printing and parsing are inverse\<close>

lemma utoa_nonempty [simp]: "utoa n \<noteq> []"
  by (subst utoa.simps) simp

lemma utoa_digits: "c \<in> set (utoa n) \<Longrightarrow> is_digit c"
proof (induction n rule: utoa.induct)
  case (1 n)
  then show ?case
    by (cases "n < 10") (auto simp: utoa.simps [of n] digit_char_is_digit)
qed

lemma parse_loop_append:
  "parse_loop (xs @ ys) n =
     (case parse_loop xs n of Inl e \<Rightarrow> Inl e | Inr m \<Rightarrow> parse_loop ys m)"
  by (induction xs arbitrary: n) (auto simp: Let_def)

lemma parse_loop_utoa: "n < 2 ^ 64 \<Longrightarrow> parse_loop (utoa n) 0 = Inr n"
proof (induction n rule: utoa.induct)
  case (1 n)
  show ?case
  proof (cases "n < 10")
    case True
    then show ?thesis by (simp add: utoa.simps [of n] digit_char_is_digit digit_val_char)
  next
    case False
    from "1.prems" have "n div 10 < 2 ^ 64" by simp
    with False "1.IH" have "parse_loop (utoa (n div 10)) 0 = Inr (n div 10)" by simp
    moreover have "n div 10 * 10 + n mod 10 = n" by simp
    ultimately show ?thesis using False "1.prems"
      by (simp add: utoa.simps [of n] parse_loop_append digit_char_is_digit digit_val_char)
  qed
qed

lemma utoa_first_digit: "\<exists>c cs. utoa n = c # cs \<and> c \<noteq> CHR ''+'' \<and> c \<noteq> CHR ''-''"
proof -
  obtain c cs where u: "utoa n = c # cs" by (meson neq_Nil_conv utoa_nonempty)
  then have "is_digit c" using utoa_digits [of c n] by simp
  then have "c \<noteq> CHR ''+''" and "c \<noteq> CHR ''-''" by (auto simp: is_digit_def)
  with u show ?thesis by blast
qed

lemma ParseInt_Itoa:
  assumes "- (2 ^ 63) \<le> i" and "i < 2 ^ 63"
  shows "ParseInt (Itoa i) = (i, None)"
proof (cases "i < 0")
  case True
  with assms have b: "nat (- i) < 2 ^ 64" and c: "\<not> nat (- i) > 2 ^ 63" by auto
  from b have "ParseUint (utoa (nat (- i))) = Inr (nat (- i))"
    by (simp add: ParseUint_def parse_loop_utoa)
  with True c show ?thesis by (simp add: ParseInt_def Itoa_def signed_parse_def)
next
  case False
  with assms have b: "nat i < 2 ^ 64" and c: "\<not> nat i \<ge> 2 ^ 63" by auto
  from b have "ParseUint (utoa (nat i)) = Inr (nat i)"
    by (simp add: ParseUint_def parse_loop_utoa)
  moreover obtain d ds where "utoa (nat i) = d # ds" and "d \<noteq> CHR ''+''" and "d \<noteq> CHR ''-''"
    using utoa_first_digit by blast
  ultimately show ?thesis using False c by (simp add: ParseInt_def Itoa_def signed_parse_def)
qed

text \<open>Printing is injective without a bound: the digits determine the value.\<close>

fun digits_val :: "string \<Rightarrow> nat \<Rightarrow> nat" where
  "digits_val [] n = n"
| "digits_val (c # cs) n = digits_val cs (n * 10 + digit_val c)"

lemma digits_val_append: "digits_val (xs @ ys) n = digits_val ys (digits_val xs n)"
  by (induction xs arbitrary: n) auto

lemma digits_val_utoa: "digits_val (utoa n) 0 = n"
proof (induction n rule: utoa.induct)
  case (1 n)
  then show ?case
    by (cases "n < 10") (auto simp: utoa.simps [of n] digits_val_append digit_val_char)
qed

lemma utoa_inject [simp]: "utoa m = utoa n \<longleftrightarrow> m = n"
  by (metis digits_val_utoa)

lemma Itoa_inject: "0 \<le> i \<Longrightarrow> 0 \<le> j \<Longrightarrow> Itoa i = Itoa j \<longleftrightarrow> i = j"
  by (auto simp: Itoa_def)

lemma Atoi_Itoa: "0 \<le> i \<Longrightarrow> i < 2 ^ 63 \<Longrightarrow> Atoi (Itoa i) = (i, None)"
  unfolding Atoi_def by (rule ParseInt_Itoa) auto

section \<open>Strings\<close>

definition newline :: char where
  "newline = char_of (10::nat)"

definition TrimSuffix :: "string \<Rightarrow> string \<Rightarrow> string" where
  "TrimSuffix s suf =
     (if length suf \<le> length s \<and> drop (length s - length suf) s = suf
      then take (length s - length suf) s else s)"

definition remove_all :: "char \<Rightarrow> string \<Rightarrow> string" where
  "remove_all c s = filter (\<lambda>d. d \<noteq> c) s"

fun split_at :: "char \<Rightarrow> string \<Rightarrow> string list" where
  "split_at c [] = [[]]"
| "split_at c (d # ds) =
     (if d = c then [] # split_at c ds
      else (case split_at c ds of [] \<Rightarrow> [[d]] | w # ws \<Rightarrow> (d # w) # ws))"

lemma split_at_nonempty [simp]: "split_at c s \<noteq> []"
  by (induction s) (auto split: list.split)

end
