(* ===== verification/JsonHelper.thy ===== *)
theory JsonHelper
  imports Strconv
begin

text \<open>
  The package \<^verbatim>\<open>packages/jsonHelper\<close>: a field of a struct is set from a string, the field
  being chosen by its \<^verbatim>\<open>json\<close> tag through reflection. A struct is the list of its fields, each
  with its tag and a value of one of the kinds the package tells apart; \<open>FOther\<close> is any other
  kind, which the package refuses.
\<close>

datatype field_value = FInt int | FString string | FBool bool | FOther string

type_synonym struct = "(string \<times> field_value) list"

definition ErrInvalidConfigValue :: string where
  "ErrInvalidConfigValue = ''invalid config value''"

definition ErrInvalidConfigKey :: string where
  "ErrInvalidConfigKey = ''invalid config key''"

text \<open>\<open>None\<close> is the error return: the value does not parse, or the kind is not supported.\<close>

fun setField :: "field_value \<Rightarrow> string \<Rightarrow> field_value option" where
  "setField (FString _) value = Some (FString value)"
| "setField (FBool _) value = map_option FBool (ParseBool value)"
| "setField (FInt _) value =
     (case ParseInt value of (i, None) \<Rightarrow> Some (FInt i) | (_, Some _) \<Rightarrow> None)"
| "setField (FOther _) value = None"

fun SetStructFieldByTag :: "string \<Rightarrow> string \<Rightarrow> struct \<Rightarrow> string + struct" where
  "SetStructFieldByTag tag value [] = Inl ErrInvalidConfigKey"
| "SetStructFieldByTag tag value ((t, v) # fs) =
     (if t = tag
      then (case setField v value of
              None \<Rightarrow> Inl ErrInvalidConfigValue
            | Some v' \<Rightarrow> Inr ((t, v') # fs))
      else map_sum id ((#) (t, v)) (SetStructFieldByTag tag value fs))"

section \<open>The tags and kinds of a struct never change, and only the tagged field does\<close>

fun kind :: "field_value \<Rightarrow> nat" where
  "kind (FInt _) = 0"
| "kind (FString _) = 1"
| "kind (FBool _) = 2"
| "kind (FOther _) = 3"

lemma setField_kind: "setField v value = Some v' \<Longrightarrow> kind v' = kind v"
  by (cases v) (auto split: prod.splits option.splits)

lemma set_struct_tags:
  "SetStructFieldByTag tag value fs = Inr gs \<Longrightarrow> map fst gs = map fst fs"
  by (induction fs arbitrary: gs) (auto simp: map_sum_def split: if_splits option.splits sum.splits)

lemma set_struct_kinds:
  "SetStructFieldByTag tag value fs = Inr gs \<Longrightarrow> map (kind \<circ> snd) gs = map (kind \<circ> snd) fs"
  by (induction fs arbitrary: gs)
    (auto simp: map_sum_def setField_kind split: if_splits option.splits sum.splits)

lemma set_struct_other:
  "SetStructFieldByTag tag value fs = Inr gs \<Longrightarrow> t \<noteq> tag \<Longrightarrow> map_of gs t = map_of fs t"
  by (induction fs arbitrary: gs) (auto simp: map_sum_def split: if_splits option.splits sum.splits)

lemma set_struct_key_error:
  "SetStructFieldByTag tag value fs = Inl ErrInvalidConfigKey \<longleftrightarrow> tag \<notin> fst ` set fs"
proof (induction fs)
  case Nil
  then show ?case by simp
next
  case (Cons f fs)
  have ne: "ErrInvalidConfigValue \<noteq> ErrInvalidConfigKey"
    by (simp add: ErrInvalidConfigKey_def ErrInvalidConfigValue_def)
  obtain t v where "f = (t, v)" by (cases f)
  with Cons ne show ?case
    by (cases "t = tag"; cases "SetStructFieldByTag tag value fs")
      (auto split: option.split)
qed

lemma set_struct_tagged:
  "SetStructFieldByTag tag value fs = Inr gs \<Longrightarrow>
     \<exists>v v'. map_of fs tag = Some v \<and> setField v value = Some v' \<and> map_of gs tag = Some v'"
  by (induction fs arbitrary: gs) (auto simp: map_sum_def split: if_splits option.splits sum.splits)

lemma set_struct_int_roundtrip:
  assumes "map_of fs tag = Some (FInt j)" and "- (2 ^ 63) \<le> i" and "i < 2 ^ 63"
  shows "\<exists>gs. SetStructFieldByTag tag (Itoa i) fs = Inr gs \<and> map_of gs tag = Some (FInt i)"
  using assms(1)
proof (induction fs)
  case Nil
  then show ?case by simp
next
  case (Cons f fs)
  obtain t v where f: "f = (t, v)" by (cases f)
  show ?case
  proof (cases "t = tag")
    case True
    with Cons.prems f ParseInt_Itoa [OF assms(2,3)] show ?thesis by simp
  next
    case False
    with Cons f show ?thesis by auto
  qed
qed

end
