(* ===== verification/ConfigPkg.thy ===== *)
theory ConfigPkg
  imports JsonHelper
begin

text \<open>
  The data and the pure operations of \<^verbatim>\<open>packages/config/config.go\<close>, and
  \<^verbatim>\<open>utils.GetHostname\<close> which they call. Operations that read or write the config file are
  in \<^verbatim>\<open>ConfigStore\<close>. A loop over a map takes the order in which it visits the entries.
\<close>

section \<open>Data\<close>

text \<open>JSON values; numbers are integers here.\<close>

datatype json = JNull | JBool bool | JNum int | JString string
  | JArray "json list" | JObject "(string \<times> json) list"

text \<open>A plugin section is an \<^verbatim>\<open>interface{}\<close>. One that was decoded from a document is the value that
  \<^verbatim>\<open>encoding/json\<close> makes of its JSON, an object being a \<^verbatim>\<open>map[string]interface{}\<close>; one that a plugin
  has stored is a pointer to a struct of the plugin, of which only the JSON that it is written as is
  kept. The two are told apart by a type assertion, not by what is written to a file.\<close>

datatype plugin_value = StructValue json | JsonValue json

fun section_json :: "plugin_value \<Rightarrow> json" where
  "section_json (StructValue j) = j"
| "section_json (JsonValue j) = j"

definition decode_section :: "plugin_value \<Rightarrow> plugin_value" where
  "decode_section v = JsonValue (section_json v)"

record Local =
  HealthCheckInterval :: int
  FailOverInterval :: int
  FailOverLimit :: int
  LocalNodeUid :: string
  ClusterToken :: string
  LoggingLevel :: string
  AutoFailback :: bool
  LogToFile :: bool
  LogFileLocation :: string

record Node =
  NodeHostname :: string
  IP :: string
  Port :: string
  IPGroups :: "string list gomap"

record Config =
  Pulse :: Local
  Groups :: "string list gomap"
  Nodes :: "Node gomap"
  PluginConfigs :: "plugin_value gomap"

definition zeroNode :: Node where
  "zeroNode = \<lparr>NodeHostname = '''', IP = '''', Port = '''', IPGroups = None\<rparr>"

text \<open>Bytes that are decoded as JSON: a document of the expected shape, given by a value that is
  marshalled to it, or not one.\<close>

datatype 'a json_doc = Valid 'a | Invalid string

section \<open>Operations\<close>

text \<open>\<^verbatim>\<open>utils.GetHostname\<close>: the output of the command \<^verbatim>\<open>hostname\<close>, which is an argument
  (\<open>Inl\<close> its error), without the final newline.\<close>

definition GetHostname :: "string + string \<Rightarrow> string + string" where
  "GetHostname hostname_cmd =
     (case hostname_cmd of Inl e \<Rightarrow> Inl e | Inr out \<Rightarrow> Inr (TrimSuffix out [newline]))"

definition NodeCount :: "Config \<Rightarrow> int" where
  "NodeCount c = mlen (Nodes c)"

definition GetLocalNodeUUID :: "Config \<Rightarrow> string" where
  "GetLocalNodeUUID c = LocalNodeUid (Pulse c)"

definition ClusterCheck :: "Config \<Rightarrow> bool" where
  "ClusterCheck c = (let total = mlen (Nodes c) in total > 0)"

definition GetLocalNode :: "Config \<Rightarrow> string + Node" where
  "GetLocalNode c =
     (if \<not> ClusterCheck c then Inl ''cluster check failed''
      else (case lookup (Nodes c) (LocalNodeUid (Pulse c)) of
              Some node \<Rightarrow> Inr node
            | None \<Rightarrow> Inl ''local node not found in config''))"

definition Validate :: "string + string \<Rightarrow> Config \<Rightarrow> string option" where
  "Validate hostname_cmd c =
     (case GetHostname hostname_cmd of
        Inl _ \<Rightarrow> Some ''unable to get local hostname''
      | Inr hostname \<Rightarrow>
          if is_nil (Groups c) then Some ''unable to load groups section of the config''
          else if is_nil (Nodes c) then Some ''unable to load nodes section of the config''
          else if ClusterCheck c \<and> \<not> (\<exists>(uid, node) \<in> set (entries (Nodes c)). NodeHostname node = hostname)
          then Some ''hostname mismatch. Local hostname does not exist in nodes section''
          else if FailOverInterval (Pulse c) < 1000 \<or> FailOverLimit (Pulse c) < 1000
               \<or> HealthCheckInterval (Pulse c) < 1000
          then Some ''please make sure the interval and limit values in your config are valid millisecond values of at least one second''
          else if FailOverLimit (Pulse c) < FailOverInterval (Pulse c)
          then Some ''the fos_interval value must be a smaller value then your fo_limit''
          else None)"

definition GetNodeByHostname :: "order \<Rightarrow> Config \<Rightarrow> string \<Rightarrow> string + string \<times> Node" where
  "GetNodeByHostname \<pi> c hostname =
     (case find (\<lambda>(uid, node). NodeHostname node = hostname) (range_by \<pi> (Nodes c)) of
        Some (uid, node) \<Rightarrow> Inr (uid, node)
      | None \<Rightarrow> Inl (''unable to find node with hostname '' @ hostname))"

definition LocalNode :: "string + string \<Rightarrow> order \<Rightarrow> Config \<Rightarrow> Node" where
  "LocalNode hostname_cmd \<pi> c =
     (case GetHostname hostname_cmd of
        Inl _ \<Rightarrow> zeroNode
      | Inr hostname \<Rightarrow>
          (case GetNodeByHostname \<pi> c hostname of Inl _ \<Rightarrow> zeroNode | Inr (_, node) \<Rightarrow> node))"

definition GetGroupIface :: "order \<Rightarrow> order \<Rightarrow> Config \<Rightarrow> string \<Rightarrow> string \<Rightarrow> string + string" where
  "GetGroupIface \<pi> \<rho> c hostname groupName =
     (case find (\<lambda>(iface, groups). groupName \<in> set groups)
             (concat (map (\<lambda>(uid, n). if NodeHostname n = hostname then range_by \<rho> (IPGroups n) else [])
                (range_by \<pi> (Nodes c)))) of
        Some (iface, _) \<Rightarrow> Inr iface
      | None \<Rightarrow> Inl ''cannot find interface assignment for group'')"

definition GetNodeHostnameByAddress :: "order \<Rightarrow> Config \<Rightarrow> string \<Rightarrow> string + string" where
  "GetNodeHostnameByAddress \<pi> c address =
     (case find (\<lambda>(uid, node). IP node = address) (range_by \<pi> (Nodes c)) of
        Some (_, node) \<Rightarrow> Inr (NodeHostname node)
      | None \<Rightarrow> Inl (''unable to find node with IP address '' @ address))"

text \<open>\<^verbatim>\<open>UpdateHostname\<close>: the local node is dereferenced without a check.\<close>

definition UpdateHostname :: "string \<Rightarrow> Config \<Rightarrow> crash + Config" where
  "UpdateHostname newHostname c =
     (case lookup (Nodes c) (GetLocalNodeUUID c) of
        None \<Rightarrow> Inl NilDeref
      | Some node \<Rightarrow>
          Inr (c\<lparr>Nodes := put (Nodes c) (GetLocalNodeUUID c) (node\<lparr>NodeHostname := newHostname\<rparr>)\<rparr>))"

definition defaultConfig :: Config where
  "defaultConfig =
     \<lparr>Pulse = \<lparr>HealthCheckInterval = 1000, FailOverInterval = 5000, FailOverLimit = 10000,
        LocalNodeUid = '''', ClusterToken = '''', LoggingLevel = ''info'', AutoFailback = True,
        LogToFile = True, LogFileLocation = ''/etc/pulseha/pulseha.log''\<rparr>,
      Groups = Some [], Nodes = Some [], PluginConfigs = Some []\<rparr>"

definition GetPluginConfig :: "Config \<Rightarrow> string \<Rightarrow> string + plugin_value" where
  "GetPluginConfig c pName =
     (case lookup (PluginConfigs c) pName of
        None \<Rightarrow> Inl ''plugin does not exist in config''
      | Some v \<Rightarrow> if v = JsonValue JNull then Inl ''plugin does not exist in config'' else Inr v)"

text \<open>The section \<^verbatim>\<open>pulseha\<close> as reflection sees it: the tags in declaration order.\<close>

definition local_struct :: "Local \<Rightarrow> struct" where
  "local_struct l =
     [(''hcs_interval'', FInt (HealthCheckInterval l)), (''fos_interval'', FInt (FailOverInterval l)),
      (''fo_limit'', FInt (FailOverLimit l)), (''local_node'', FString (LocalNodeUid l)),
      (''cluster_token'', FString (ClusterToken l)), (''logging_level'', FString (LoggingLevel l)),
      (''auto_failback'', FBool (AutoFailback l)), (''log_to_file'', FBool (LogToFile l)),
      (''log_file_location'', FString (LogFileLocation l))]"

fun field_int :: "field_value option \<Rightarrow> int" where
  "field_int (Some (FInt i)) = i"
| "field_int _ = 0"

fun field_string :: "field_value option \<Rightarrow> string" where
  "field_string (Some (FString s)) = s"
| "field_string _ = []"

fun field_bool :: "field_value option \<Rightarrow> bool" where
  "field_bool (Some (FBool b)) = b"
| "field_bool _ = False"

definition struct_local :: "struct \<Rightarrow> Local" where
  "struct_local s =
     \<lparr>HealthCheckInterval = field_int (map_of s ''hcs_interval''),
      FailOverInterval = field_int (map_of s ''fos_interval''),
      FailOverLimit = field_int (map_of s ''fo_limit''),
      LocalNodeUid = field_string (map_of s ''local_node''),
      ClusterToken = field_string (map_of s ''cluster_token''),
      LoggingLevel = field_string (map_of s ''logging_level''),
      AutoFailback = field_bool (map_of s ''auto_failback''),
      LogToFile = field_bool (map_of s ''log_to_file''),
      LogFileLocation = field_string (map_of s ''log_file_location'')\<rparr>"

definition setLocalField :: "string \<Rightarrow> string \<Rightarrow> Local \<Rightarrow> string + Local" where
  "setLocalField key val l = map_sum id struct_local (SetStructFieldByTag key val (local_struct l))"

text \<open>\<^verbatim>\<open>json.Unmarshal\<close> into a config that already holds values. A JSON object is decoded
  into an existing map by adding its members to the entries that are there; \<^verbatim>\<open>null\<close> makes the
  map nil. A plugin section is decoded into a fresh interface value, whatever was there before. The
  document has all four sections, as every file written by \<^verbatim>\<open>Save\<close> has.\<close>

definition merge :: "'v gomap \<Rightarrow> 'v gomap \<Rightarrow> 'v gomap" where
  "merge old doc =
     (case doc of
        None \<Rightarrow> None
      | Some es \<Rightarrow> Some (fold (\<lambda>(k, v). AList.update k v) es (entries old)))"

text \<open>A key that an object of a document repeats has its last value.\<close>

definition parse_node :: "Node \<Rightarrow> Node" where
  "parse_node n = n\<lparr>IPGroups := merge None (IPGroups n)\<rparr>"

definition decode_sections :: "plugin_value gomap \<Rightarrow> plugin_value gomap" where
  "decode_sections m = map_option (map (\<lambda>(k, v). (k, decode_section v))) m"

definition unmarshal_into :: "Config json_doc \<Rightarrow> Config \<Rightarrow> string + Config" where
  "unmarshal_into doc c =
     (case doc of
        Invalid e \<Rightarrow> Inl e
      | Valid d \<Rightarrow>
          Inr \<lparr>Pulse = Pulse d, Groups = merge (Groups c) (Groups d),
               Nodes = merge (Nodes c) (map_option (map (\<lambda>(uid, n). (uid, parse_node n))) (Nodes d)),
               PluginConfigs = merge (PluginConfigs c) (decode_sections (PluginConfigs d))\<rparr>)"

definition emptyConfig :: Config where
  "emptyConfig =
     \<lparr>Pulse = \<lparr>HealthCheckInterval = 0, FailOverInterval = 0, FailOverLimit = 0,
        LocalNodeUid = '''', ClusterToken = '''', LoggingLevel = '''', AutoFailback = False,
        LogToFile = False, LogFileLocation = ''''\<rparr>,
      Groups = None, Nodes = None, PluginConfigs = None\<rparr>"

section \<open>Well-formed configs\<close>

definition wf_node :: "Node \<Rightarrow> bool" where
  "wf_node n \<longleftrightarrow> wf_map (IPGroups n)"

definition wf_config :: "Config \<Rightarrow> bool" where
  "wf_config c \<longleftrightarrow> wf_map (Groups c) \<and> map_ok wf_node (Nodes c) \<and> wf_map (PluginConfigs c)"

lemma wf_config_default: "wf_config defaultConfig"
  by (simp add: wf_config_def defaultConfig_def map_ok_def)

subsection \<open>Validation and the local section\<close>

lemma Validate_None_iff:
  "Validate hostname_cmd c = None \<longleftrightarrow>
     (\<exists>h. GetHostname hostname_cmd = Inr h \<and> \<not> is_nil (Groups c) \<and> \<not> is_nil (Nodes c) \<and>
       (ClusterCheck c \<longrightarrow> h \<in> NodeHostname ` snd ` set (entries (Nodes c))) \<and>
       1000 \<le> HealthCheckInterval (Pulse c) \<and>
       1000 \<le> FailOverInterval (Pulse c) \<and> FailOverInterval (Pulse c) \<le> FailOverLimit (Pulse c))"
  by (cases "GetHostname hostname_cmd") (force simp: Validate_def image_iff split: if_splits)+

lemma Validate_default: "Validate (Inr out) defaultConfig = None"
  by (simp add: Validate_None_iff defaultConfig_def ClusterCheck_def mlen_def GetHostname_def)

lemma struct_local_inverse: "struct_local (local_struct l) = l"
  by (simp add: struct_local_def local_struct_def)

lemma local_struct_tags:
  "fst ` set (local_struct l) =
     {''hcs_interval'', ''fos_interval'', ''fo_limit'', ''local_node'', ''cluster_token'',
      ''logging_level'', ''auto_failback'', ''log_to_file'', ''log_file_location''}"
  by (simp add: local_struct_def insert_commute)

lemma local_struct_distinct: "distinct (map fst (local_struct l))"
  by (simp add: local_struct_def)

lemma setLocalField_unknown:
  "key \<notin> fst ` set (local_struct l) \<Longrightarrow> setLocalField key val l = Inl ErrInvalidConfigKey"
  using set_struct_key_error [of key val "local_struct l"] by (simp add: setLocalField_def)

lemma setLocalField_cases:
  assumes "setLocalField key val l = Inr l'"
  obtains gs where "SetStructFieldByTag key val (local_struct l) = Inr gs" and "l' = struct_local gs"
  using assms unfolding setLocalField_def
  by (cases "SetStructFieldByTag key val (local_struct l)") auto

lemma setLocalField_token:
  assumes "setLocalField key val l = Inr l'" and "key \<noteq> ''cluster_token''"
  shows "ClusterToken l' = ClusterToken l"
proof -
  obtain gs where gs: "SetStructFieldByTag key val (local_struct l) = Inr gs"
    and l': "l' = struct_local gs" using assms(1) by (rule setLocalField_cases)
  from set_struct_other [OF gs, of "''cluster_token''"] assms(2)
  have "map_of gs ''cluster_token'' = Some (FString (ClusterToken l))"
    by (simp add: local_struct_def)
  then show ?thesis by (simp add: l' struct_local_def)
qed

lemma setLocalField_uid:
  assumes "setLocalField key val l = Inr l'" and "key \<noteq> ''local_node''"
  shows "LocalNodeUid l' = LocalNodeUid l"
proof -
  obtain gs where gs: "SetStructFieldByTag key val (local_struct l) = Inr gs"
    and l': "l' = struct_local gs" using assms(1) by (rule setLocalField_cases)
  from set_struct_other [OF gs, of "''local_node''"] assms(2)
  have "map_of gs ''local_node'' = Some (FString (LocalNodeUid l))"
    by (simp add: local_struct_def)
  then show ?thesis by (simp add: l' struct_local_def)
qed

lemma setLocalField_local_node:
  "setLocalField ''local_node'' uid l = Inr (l\<lparr>LocalNodeUid := uid\<rparr>)"
  by (simp add: setLocalField_def local_struct_def struct_local_def)

subsection \<open>Merging a document into a config\<close>

lemma fold_update_lookup:
  "distinct (map fst es) \<Longrightarrow>
     map_of (fold (\<lambda>(k, v). AList.update k v) es xs) = map_of xs ++ map_of es"
proof (induction es arbitrary: xs)
  case Nil
  then show ?case by simp
next
  case (Cons e es)
  obtain k v where e: "e = (k, v)" by (cases e)
  with Cons have "map_of (fold (\<lambda>(k, v). AList.update k v) (e # es) xs)
      = map_of (AList.update k v xs) ++ map_of es" by simp
  also have "\<dots> = map_of xs ++ map_of (e # es)"
  proof (rule ext)
    fix x
    have "map_of es k = None" using Cons.prems e by (simp add: map_of_eq_None_iff)
    then show "(map_of (AList.update k v xs) ++ map_of es) x = (map_of xs ++ map_of (e # es)) x"
      by (cases "x = k") (simp_all add: update_conv e map_add_def split: option.split)
  qed
  finally show ?case .
qed

lemma fold_update_distinct:
  "distinct (map fst xs) \<Longrightarrow> distinct (map fst (fold (\<lambda>(k, v). AList.update k v) es xs))"
  by (induction es arbitrary: xs) (auto simp: distinct_update split: prod.splits)

lemma lookup_merge:
  "wf_map doc \<Longrightarrow> \<not> is_nil doc \<Longrightarrow> lookup (merge old doc) = lookup old ++ lookup doc"
  unfolding lookup_def
  by (cases doc) (auto simp: merge_def wf_map_def keys_def fold_update_lookup)

lemma wf_map_merge: "wf_map old \<Longrightarrow> wf_map (merge old doc)"
  by (cases doc) (auto simp: merge_def wf_map_def keys_def fold_update_distinct)

lemma update_same: "map_of xs k = Some v \<Longrightarrow> AList.update k v xs = xs"
  by (induction xs) (auto split: if_splits)

lemma fold_update_same:
  "(\<And>k v. (k, v) \<in> set es \<Longrightarrow> map_of xs k = Some v) \<Longrightarrow>
     fold (\<lambda>(k, v). AList.update k v) es xs = xs"
  by (induction es) (auto simp: update_same split: prod.split)

lemma merge_same: "wf_map m \<Longrightarrow> merge m m = m"
  by (cases m) (auto simp: merge_def wf_map_def keys_def fold_update_same)

lemma fold_update_fresh:
  "distinct (map fst (xs @ es)) \<Longrightarrow> fold (\<lambda>(k, v). AList.update k v) es xs = xs @ es"
proof (induction es arbitrary: xs)
  case (Cons e es)
  obtain k v where e: "e = (k, v)" by (cases e)
  with Cons.prems have "k \<notin> fst ` set xs" by auto
  then have "AList.update k v xs = xs @ [(k, v)]" by (induction xs) auto
  with Cons.IH [of "xs @ [(k, v)]"] Cons.prems e show ?case by simp
qed simp

lemma merge_empty: "wf_map m \<Longrightarrow> merge None m = m"
  by (cases m) (simp_all add: merge_def wf_map_def keys_def fold_update_fresh)

lemma parse_node_wf: "wf_node n \<Longrightarrow> parse_node n = n"
  by (simp add: parse_node_def wf_node_def merge_empty)

lemma wf_parse_node: "wf_node (parse_node n)"
  by (simp add: wf_node_def parse_node_def wf_map_merge)

lemma parse_nodes_wf: "map_ok wf_node m \<Longrightarrow> map_option (map (\<lambda>(uid, n). (uid, parse_node n))) m = m"
proof (cases m)
  case (Some es)
  assume "map_ok wf_node m"
  with Some have "map (\<lambda>(uid, n). (uid, parse_node n)) es = es"
    by (intro map_idI) (auto simp: map_ok_def parse_node_wf)

  with Some show ?thesis by simp
qed simp

text \<open>The config as it is read back from the document that it was written to: the same, but for the
  plugin sections, of which every struct has become the value decoded from its JSON.\<close>

definition decoded :: "Config \<Rightarrow> Config" where
  "decoded c = c\<lparr>PluginConfigs := decode_sections (PluginConfigs c)\<rparr>"

lemma decoded_fields [simp]:
  "Pulse (decoded c) = Pulse c" "Groups (decoded c) = Groups c" "Nodes (decoded c) = Nodes c"
  "PluginConfigs (decoded c) = decode_sections (PluginConfigs c)"
  by (simp_all add: decoded_def)

lemma decode_section_idem [simp]: "decode_section (decode_section v) = decode_section v"
  by (simp add: decode_section_def)

lemma decode_section_same: "decode_section v = v \<longleftrightarrow> (\<exists>j. v = JsonValue j)"
  by (cases v) (auto simp: decode_section_def)

lemma decode_sections_nil [simp]: "is_nil (decode_sections m) = is_nil m" "decode_sections None = None" "decode_sections (Some []) = Some []"
  by (cases m) (simp_all add: decode_sections_def)

lemma decode_sections_idem [simp]: "decode_sections (decode_sections m) = decode_sections m"
  by (cases m) (auto simp: decode_sections_def)

lemma decoded_idem [simp]: "decoded (decoded c) = decoded c"
  by (simp add: decoded_def)

lemma decoded_no_sections [simp]: "PluginConfigs c = Some [] \<Longrightarrow> decoded c = c"
  by (cases c) (simp add: decoded_def)

lemma lookup_decode_sections:
 "lookup (decode_sections m) k = map_option decode_section (lookup m k)"
  by (cases m) (simp_all add: decode_sections_def lookup_def map_of_map)

lemma wf_decode_sections [simp]: "wf_map (decode_sections m) = wf_map m"
  by (cases m) (simp_all add: decode_sections_def wf_map_def keys_def case_prod_beta comp_def)

lemma wf_decoded [simp]: "wf_config (decoded c) = wf_config c"
  by (simp add: wf_config_def)

lemma Validate_decoded [simp]: "Validate h (decoded c) = Validate h c"
  by (cases "GetHostname h") (simp_all add: Validate_def ClusterCheck_def)

lemma decode_sections_same:
  assumes "wf_map m"
  shows "decode_sections m = m \<longleftrightarrow> (\<forall>k v. lookup m k = Some v \<longrightarrow> (\<exists>j. v = JsonValue j))"
proof (cases m)
  case (Some es)
  have "map (\<lambda>(k, v). (k, decode_section v)) es = es \<longleftrightarrow> (\<forall>(k, v) \<in> set es. decode_section v = v)"
    by (induction es) auto
  moreover have "(\<forall>(k, v) \<in> set es. decode_section v = v) \<longleftrightarrow> (\<forall>k v. lookup m k = Some v \<longrightarrow> decode_section v = v)"
    using assms Some by (auto simp: lookup_def wf_map_def keys_def)
  ultimately show ?thesis by (simp add: Some decode_sections_def decode_section_same [symmetric])
qed (simp add: lookup_def)

lemma fold_update_all:
  assumes "distinct (map fst es)" and "fst ` set pre \<inter> fst ` set es = {}"
  shows "fold (\<lambda>(k, v). AList.update k v) (map (\<lambda>(k, v). (k, f v)) es) (pre @ es) = pre @ map (\<lambda>(k, v). (k, f v)) es"
  using assms
proof (induction es arbitrary: pre)
  case (Cons e es)
  obtain k v where e: "e = (k, v)" by (cases e)
  from Cons.prems e have "k \<notin> fst ` set pre" by auto
  then have "AList.update k (f v) (pre @ e # es) = (pre @ [(k, f v)]) @ es" by (induction pre) (auto simp: e)
  with Cons.IH [of "pre @ [(k, f v)]"] Cons.prems e show ?case by (auto simp: image_iff)
qed simp

lemma merge_decoded: "wf_map m \<Longrightarrow> merge m (decode_sections m) = decode_sections m"
  using fold_update_all [of "entries m" "[]" decode_section]

  by (cases m) (simp_all add: merge_def decode_sections_def wf_map_def keys_def)

lemma unmarshal_saved: "wf_config c \<Longrightarrow> unmarshal_into (Valid c) c = Inr (decoded c)"
  by (simp add: unmarshal_into_def decoded_def wf_config_def parse_nodes_wf merge_same merge_decoded) (simp add: map_ok_def merge_same)

lemma unmarshal_empty: "wf_config c \<Longrightarrow> unmarshal_into (Valid c) emptyConfig = Inr (decoded c)"
  by (simp add: unmarshal_into_def decoded_def emptyConfig_def wf_config_def parse_nodes_wf merge_empty) (simp add: map_ok_def merge_empty)

lemma set_fold_update:
  "set (fold (\<lambda>(k, v). AList.update k v) es xs) \<subseteq> set es \<union> set xs"
proof (induction es arbitrary: xs)
  case Nil
  then show ?case by simp
next
  case (Cons e es)
  obtain k v where e: "e = (k, v)" by (cases e)
  have "set (AList.update k v xs) \<subseteq> insert (k, v) (set xs)"
    by (induction xs) auto
  with Cons.IH [of "AList.update k v xs"] show ?case unfolding e by auto
qed

lemma map_ok_merge:
  assumes "map_ok P old" and "\<forall>v \<in> snd ` set (entries doc). P v"
  shows "map_ok P (merge old doc)"
proof -
  from assms(1) have "wf_map (merge old doc)" by (simp add: map_ok_def wf_map_merge)
  moreover have "set (entries (merge old doc)) \<subseteq> set (entries doc) \<union> set (entries old)"
    using set_fold_update [of "entries doc" "entries old"] by (cases doc) (auto simp: merge_def)
  ultimately show ?thesis using assms by (auto simp: map_ok_def)
qed

lemma wf_config_unmarshal:
  assumes "wf_config c" and "unmarshal_into doc c = Inr c'"
  shows "wf_config c'"
proof (cases doc)
  case (Valid d)
  have "\<forall>v \<in> snd ` set (entries (map_option (map (\<lambda>(uid, n). (uid, parse_node n))) (Nodes d))). wf_node v"
    by (cases "Nodes d") (auto simp: wf_parse_node)
  with assms Valid show ?thesis by (auto simp: unmarshal_into_def wf_config_def map_ok_merge wf_map_merge)

next
  case (Invalid e)
  with assms(2) show ?thesis by (simp add: unmarshal_into_def)
qed

lemma wf_config_empty: "wf_config emptyConfig"
  by (simp add: wf_config_def emptyConfig_def map_ok_def wf_map_def keys_def)


subsection \<open>Searching the nodes\<close>

definition unique_hostnames :: "Config \<Rightarrow> bool" where
  "unique_hostnames c \<longleftrightarrow> distinct (map (NodeHostname \<circ> snd) (entries (Nodes c)))"

lemma GetNodeByHostname_sound:
  assumes "wf_map (Nodes c)" and "GetNodeByHostname \<pi> c h = Inr (uid, node)"
  shows "lookup (Nodes c) uid = Some node \<and> NodeHostname node = h"
  using assms range_by_lookup [OF assms(1), of uid node \<pi>]
  by (auto simp: GetNodeByHostname_def split: option.splits dest!: find_SomeD)

lemma GetNodeByHostname_complete:
  assumes "wf_map (Nodes c)"
  shows "(\<exists>e. GetNodeByHostname \<pi> c h = Inl e) \<longleftrightarrow>
    h \<notin> NodeHostname ` snd ` set (entries (Nodes c))"
proof -
  have "(\<exists>e. GetNodeByHostname \<pi> c h = Inl e) \<longleftrightarrow>
      find (\<lambda>(uid, node). NodeHostname node = h) (range_by \<pi> (Nodes c)) = None"
    by (auto simp: GetNodeByHostname_def split: option.splits)
  also have "\<dots> \<longleftrightarrow> h \<notin> NodeHostname ` snd ` set (entries (Nodes c))"
    using set_range_by [OF assms, of \<pi>] by (force simp: find_None_iff)
  finally show ?thesis .
qed

lemma GetGroupIface_sound:
  assumes "wf_map (Nodes c)" and "map_ok wf_node (Nodes c)"
    and "GetGroupIface \<pi> \<rho> c h g = Inr iface"
  shows "\<exists>uid node gs. lookup (Nodes c) uid = Some node \<and> NodeHostname node = h \<and>
    lookup (IPGroups node) iface = Some gs \<and> g \<in> set gs"
proof -
  from assms(3) obtain gs where f: "find (\<lambda>(iface, groups). g \<in> set groups)
             (concat (map (\<lambda>(uid, n). if NodeHostname n = h then range_by \<rho> (IPGroups n) else [])
                (range_by \<pi> (Nodes c)))) = Some (iface, gs)"
    by (auto simp: GetGroupIface_def split: option.splits)
  then have g: "g \<in> set gs" and "(iface, gs) \<in> set (concat (map (\<lambda>(uid, n). if NodeHostname n = h
      then range_by \<rho> (IPGroups n) else []) (range_by \<pi> (Nodes c))))"
    by (blast dest: find_SomeD)+
  then obtain uid n where n: "(uid, n) \<in> set (range_by \<pi> (Nodes c))" "NodeHostname n = h"
      "(iface, gs) \<in> set (range_by \<rho> (IPGroups n))"
    by (auto split: if_splits)
  from n(1) have l: "lookup (Nodes c) uid = Some n" by (simp add: range_by_lookup [OF assms(1)])
  then have "wf_map (IPGroups n)" using assms(2) lookup_in_entries [of "Nodes c" uid n]
    by (force simp: map_ok_def wf_node_def)
  with n(3) have "lookup (IPGroups n) iface = Some gs" by (simp add: range_by_lookup)
  with l n(2) g show ?thesis by blast
qed

end
