(* ===== verification/Rpc.thy ===== *)
theory Rpc
  imports ConfigPkg
begin

text \<open>
  The messages of \<^verbatim>\<open>rpc/pulse.proto\<close> (\<^verbatim>\<open>rpc/pulse.pb.go\<close>) that the daemon exchanges:
  the enumerations, one record per message, and the functions a client can call
  (\<^verbatim>\<open>client.ProtoFunction\<close>) with the message each of them takes. Fields that no code of
  the program sets or reads are left out. The bytes of a config or of a node are the JSON
  document they encode.
\<close>

section \<open>Enumerations\<close>

datatype Status = ACTIVE | LEAVING | PASSIVE | UNAVAILABLE | SUSPICIOUS | MONITORING | UNCONFIGURED

datatype Level = INFO | WARNING | ERROR | DEBUG

section \<open>Messages between daemons\<close>

record MemberlistMember =
  MlHostname :: string
  MlStatus :: Status
  MlLastReceived :: string
  MlLatency :: string
  MlScore :: int

record HealthCheckRequest =
  Memberlist :: "MemberlistMember list"

record HealthCheckResponse =
  HcScore :: int

record JoinRequest =
  JoinBindIp :: string
  JoinBindPort :: string
  JoinIp :: string
  JoinPort :: string
  JoinReplicated :: bool
  JoinConfig :: "Node json_doc"
  JoinToken :: string
  JoinUid :: string

text \<open>\<open>Response\<close> is the shape that all replies share: success, message, error code.\<close>

record Response =
  Success :: bool
  Message :: string
  ErrorCode :: int

record JoinResponse = Response +
  JoinedConfig :: "Config json_doc"
  CaCrt :: string
  CaKey :: string

record ConfigSyncRequest =
  SyncReplicated :: bool
  SyncConfigDoc :: "Config json_doc"

record LeaveRequest =
  LeaveReplicated :: bool
  LeaveHostname :: string

record RemoveRequest =
  RemoveReplicated :: bool
  RemoveHostname :: string

record PromoteRequest =
  PromoteTarget :: string

record MakePassiveRequest =
  MakePassiveTarget :: string

record UpIpRequest =
  UpIface :: string
  UpIps :: "string list"

record DownIpRequest =
  DownIface :: string
  DownIps :: "string list"

record LogsRequest =
  LogMessage :: string
  LogNode :: string
  LogLevel :: Level

record DescribeRequest =
  DescribeMessage :: string
  DescribeCpuUsage :: int
  DescribeMemUsage :: int
  DescribeUid :: string
  DescribeDiskUsage :: int
  DescribeUptime :: string
  DescribeStatus :: string
  DescribeLatency :: string
  DescribeHostname :: string
  DescribeBindAddress :: string
  DescribeLastReceived :: string

section \<open>Calls\<close>

datatype ProtoFunction = SendConfigSync | SendJoin | SendLeave | SendMakePassive | SendBringUpIP
  | SendBringDownIP | SendHealthCheck | SendPromote | SendLogs | SendRemove

datatype request = ReqConfigSync ConfigSyncRequest | ReqJoin JoinRequest | ReqLeave LeaveRequest
  | ReqMakePassive MakePassiveRequest | ReqBringUpIP UpIpRequest | ReqBringDownIP DownIpRequest
  | ReqHealthCheck HealthCheckRequest | ReqPromote PromoteRequest | ReqLogs LogsRequest
  | ReqRemove RemoveRequest | ReqDescribe DescribeRequest

datatype response = RespHealthCheck HealthCheckResponse | RespJoin JoinResponse | RespOther Response

text \<open>\<^verbatim>\<open>GetProtoFuncList\<close>: the type that each call asserts its argument to have. No call of the list
  takes the request of \<^verbatim>\<open>Describe\<close>, which the server answers but no daemon sends.\<close>

fun GetProtoFunc :: "request \<Rightarrow> ProtoFunction option" where
  "GetProtoFunc (ReqConfigSync _) = Some SendConfigSync"
| "GetProtoFunc (ReqJoin _) = Some SendJoin"
| "GetProtoFunc (ReqLeave _) = Some SendLeave"
| "GetProtoFunc (ReqMakePassive _) = Some SendMakePassive"
| "GetProtoFunc (ReqBringUpIP _) = Some SendBringUpIP"
| "GetProtoFunc (ReqBringDownIP _) = Some SendBringDownIP"
| "GetProtoFunc (ReqHealthCheck _) = Some SendHealthCheck"
| "GetProtoFunc (ReqPromote _) = Some SendPromote"
| "GetProtoFunc (ReqLogs _) = Some SendLogs"
| "GetProtoFunc (ReqRemove _) = Some SendRemove"
| "GetProtoFunc (ReqDescribe _) = None"

text \<open>\<^verbatim>\<open>Client.Send\<close> finds the call by its name, \<^verbatim>\<open>String\<close>, which is a position in the list of names. The list has
  a name for every constant, and no two of them are the same, so each constant finds its own call.\<close>

definition protoConstants :: "ProtoFunction list" where
  "protoConstants = [SendConfigSync, SendJoin, SendLeave, SendMakePassive, SendBringUpIP, SendBringDownIP, SendHealthCheck, SendPromote, SendLogs, SendRemove]"

definition protoFunctions :: "string list" where
  "protoFunctions = [''ConfigSync'', ''Join'', ''Leave'', ''MakePassive'', ''BringUpIP'', ''BringDownIP'', ''HealthCheck'', ''Promote'', ''Logs'', ''Remove'']"

definition protoNumber :: "ProtoFunction \<Rightarrow> nat" where
  "protoNumber f = 1 + length (takeWhile (\<lambda>g. g \<noteq> f) protoConstants)"

definition protoString :: "ProtoFunction \<Rightarrow> string" where
  "protoString f = protoFunctions ! (protoNumber f - 1)"

lemma protoNumber_range: "1 \<le> protoNumber f \<and> protoNumber f \<le> length protoFunctions"
  by (cases f) (simp_all add: protoNumber_def protoConstants_def protoFunctions_def)

lemma protoString_inject: "protoString f = protoString g \<longleftrightarrow> f = g"
  by (cases f; cases g) (simp_all add: protoString_def protoNumber_def protoConstants_def protoFunctions_def)

definition reply :: "bool
 \<Rightarrow> string \<Rightarrow> int \<Rightarrow> Response" where
  "reply s m e = \<lparr>Success = s, Message = m, ErrorCode = e\<rparr>"

lemma reply_simps [simp]:
  "Success (reply s m e) = s" "Message (reply s m e) = m" "ErrorCode (reply s m e) = e"
  by (simp_all add: reply_def)

end
