(* ===== verification/World.thy ===== *)
theory World
  imports Rpc
begin

text \<open>
  The state of one PulseHA daemon and the primitive steps on it. \<open>world\<close> is the global
  \<^verbatim>\<open>DB\<close> of \<^verbatim>\<open>src/pulseha\<close> (\<^verbatim>\<open>database.go\<close>) together with the config file, the two
  mutexes that are held across calls, the certificate directory (\<open>None\<close> when it does not exist), the trace of what the daemon did to its surroundings,
  and the surroundings themselves: \<open>Env\<close> holds the answers of the operating system, of the
  network, of other packages and of the Go runtime. Members are pointers in the sources, so
  they live in a heap and the member list is a list of addresses.
\<close>

section \<open>Data\<close>

text \<open>A gRPC connection that was closed reports \<^verbatim>\<open>Shutdown\<close>; an open one reports one of the
  four live states, which the transport decides.\<close>

datatype live_state = Idle | Connecting | Ready | TransientFailure

datatype connectivity = Live live_state | Shutdown

datatype conn = Opened | Closed

record Client =
  Connection :: "conn option"
  Requester :: bool

text \<open>\<^verbatim>\<open>LastHCResponse\<close> counts nanoseconds since Go's zero time, so \<^verbatim>\<open>time.Time{}\<close> is 0.\<close>

record Member =
  Hostname :: string
  Status :: Status
  LastHCResponse :: int
  Latency :: string
  HCBusy :: bool
  Score :: int
  MemberClient :: "Client option"

datatype pluginType = PluginHealthCheck | PluginNetworking | PluginGeneral

record Plugin =
  PluginName :: string
  PluginKind :: pluginType

text \<open>The routines that the daemon starts with \<^verbatim>\<open>go\<close>.\<close>

datatype task = TaskMonitorReceivedHCs nat | TaskMonitorClientConns | TaskAddHealthCheckHandler
  | TaskProcessHCs "Plugin list" | TaskRoutineHC nat HealthCheckRequest | TaskServerSetup

text \<open>What the daemon does to its surroundings, in the order in which it does it.\<close>

datatype effect =
    SentRpc string request
  | Logged Level string
  | BroughtUp string "string list"
  | BroughtDown string "string list"
  | StatusChange string "Member list"
  | MemberFailover string Member
  | Started task
  | WroteConfig Config
  | StoppedServer

text \<open>What \<^verbatim>\<open>packages/security\<close> puts into a certificate before it is signed.\<close>

record CertTemplate =
  SerialNumber :: int
  Organization :: string
  NotBefore :: int
  NotAfter :: int
  IsCA :: bool
  CertSign :: bool
  DigitalSignature :: bool
  ServerAuth :: bool
  ClientAuth :: bool
  IPAddress :: string

text \<open>The key pair and the CA certificate that a TLS connection loads from disk.\<close>

datatype tls_files = TlsFilesOk | KeyPairError string | CaReadError string | CaParseError

datatype config_file = NoFile | Unreadable string | ConfigFile "Config json_doc"

text \<open>
  The surroundings of one call. The answer of a remote daemon may depend on everything that
  happened before it in the call, so it is given the trace. \<open>map_order\<close> gives the order of a
  loop over a map, by the name of the function that runs the loop. Keys and certificates are
  what Go's \<^verbatim>\<open>crypto\<close> packages make of them: a key stands for its PKCS #1 bytes, a certificate
  for its DER bytes, and a generator is asked by the name of the function that calls it.
\<close>

record Env =
  hostname_cmd :: "string + string"
  map_order :: "string \<Rightarrow> order"
  now :: int
  rpc_result :: "effect list \<Rightarrow> string \<Rightarrow> request \<Rightarrow> string + response"
  rpc_time :: "effect list \<Rightarrow> string \<Rightarrow> int"
  cert_read_error :: "string \<Rightarrow> string option"
  cert_write_error :: "string \<Rightarrow> string option"
  mkdir_ok :: bool
  rmdir_ok :: bool
  x509_key_pair :: "string \<Rightarrow> string \<Rightarrow> string option"
  append_certs :: "string \<Rightarrow> bool"
  rsa_generate :: "string \<Rightarrow> string + string"
  rand_serial :: "string \<Rightarrow> string + int"
  create_cert :: "CertTemplate \<Rightarrow> string \<Rightarrow> string \<Rightarrow> string \<Rightarrow> string + string"
  pem_encode_cert :: "string \<Rightarrow> string"
  pem_encode_key :: "string \<Rightarrow> string"
  pem_cert :: "string \<Rightarrow> (string + string) option"
  pem_key :: "string \<Rightarrow> (string + string) option"
  listen :: "string \<Rightarrow> string option"
  serve :: "string option"
  dial :: "effect list \<Rightarrow> string \<Rightarrow> string option"
  link_state :: "effect list \<Rightarrow> string \<Rightarrow> live_state"
  interface_names :: "string list"
  interface_exists :: "string \<Rightarrow> bool"
  net_up :: "string \<Rightarrow> string list \<Rightarrow> string option"
  net_down :: "string \<Rightarrow> string list \<Rightarrow> string option"
  write_error :: "string option"
  new_uuid :: string
  random_bytes :: "nat \<Rightarrow> string + string"
  sha256_hex :: "string \<Rightarrow> string"
  hc_send :: "string \<Rightarrow> string option"
  hc_weight :: "string \<Rightarrow> int"
  format_rfc1123 :: "int \<Rightarrow> string"
  parse_rfc1123 :: "string \<Rightarrow> int option"

record world =
  DBConfig :: Config
  modules :: "Plugin list"
  heap :: "Member list"
  Members :: "nat list"
  LogHostname :: string
  StartDelay :: bool
  StartInterval :: int
  ml_lock :: bool
  cfg_lock :: bool
  ServerRunning :: bool
  disk :: config_file
  certs :: "string gomap"
  trace :: "effect list"
  env :: Env

type_synonym 'a go = "(world, 'a) prog"

section \<open>Primitive steps\<close>

definition emit :: "effect \<Rightarrow> unit go" where
  "emit e = modify (\<lambda>w. w\<lparr>trace := trace w @ [e]\<rparr>)"

definition member :: "world \<Rightarrow> nat \<Rightarrow> Member" where
  "member w r = heap w ! r"

definition update_member :: "nat \<Rightarrow> (Member \<Rightarrow> Member) \<Rightarrow> world \<Rightarrow> world" where
  "update_member r f w = w\<lparr>heap := (heap w)[r := f (heap w ! r)]\<rparr>"

definition members :: "world \<Rightarrow> Member list" where
  "members w = map (member w) (Members w)"

definition order_at :: "world \<Rightarrow> string \<Rightarrow> order" where
  "order_at w site = map_order (env w) site"

definition set_config :: "(Config \<Rightarrow> Config) \<Rightarrow> world \<Rightarrow> world" where
  "set_config f w = w\<lparr>DBConfig := f (DBConfig w)\<rparr>"

text \<open>\<^verbatim>\<open>MemberList.Lock\<close> and \<^verbatim>\<open>Config.Lock\<close>. A goroutine that locks a mutex it already
  holds never gets further. \<open>locked_ml body\<close> is \<^verbatim>\<open>m.Lock(); defer m.Unlock()\<close> around a body.\<close>

definition lock_ml :: "unit go" where
  "lock_ml = reading ml_lock (\<lambda>b.
     if b then crash_with (Deadlock ''MemberList'') else modify (\<lambda>w. w\<lparr>ml_lock := True\<rparr>))"

definition unlock_ml :: "unit go" where
  "unlock_ml = modify (\<lambda>w. w\<lparr>ml_lock := False\<rparr>)"

definition locked_ml :: "'a go \<Rightarrow> 'a go" where
  "locked_ml body = thn lock_ml (bnd body (\<lambda>x. thn unlock_ml (ret x)))"

definition lock_cfg :: "unit go" where
  "lock_cfg = reading cfg_lock (\<lambda>b.
     if b then crash_with (Deadlock ''Config'') else modify (\<lambda>w. w\<lparr>cfg_lock := True\<rparr>))"

definition unlock_cfg :: "unit go" where
  "unlock_cfg = modify (\<lambda>w. w\<lparr>cfg_lock := False\<rparr>)"

definition locked_cfg :: "'a go \<Rightarrow> 'a go" where
  "locked_cfg body = thn lock_cfg (bnd body (\<lambda>x. thn unlock_cfg (ret x)))"

section \<open>The well-formedness invariant\<close>

text \<open>
  Every address of the member list is in the heap and occurs once, no two members of the list
  have the same host name, and the config is well formed.
\<close>

definition wf_members :: "world \<Rightarrow> bool" where
  "wf_members w \<longleftrightarrow>
     (\<forall>r \<in> set (Members w). r < length (heap w)) \<and> distinct (map Hostname (members w))"

definition wf_disk :: "world \<Rightarrow> bool" where
  "wf_disk w \<longleftrightarrow> (\<forall>d. disk w = ConfigFile (Valid d) \<longrightarrow> wf_config d)"

definition wf :: "world \<Rightarrow> bool" where
  "wf w \<longleftrightarrow> wf_members w \<and> wf_config (DBConfig w) \<and> wf_disk w"

text \<open>The invariant together with which of the two mutexes are held.\<close>

definition inv :: "bool \<Rightarrow> bool \<Rightarrow> world \<Rightarrow> bool" where
  "inv ml cfg w \<longleftrightarrow> wf w \<and> ml_lock w = ml \<and> cfg_lock w = cfg"

lemma member_frame [simp]:
  "member (w\<lparr>DBConfig := x_DBConfig\<rparr>) = member w"
  "member (w\<lparr>modules := x_modules\<rparr>) = member w"
  "member (w\<lparr>LogHostname := x_LogHostname\<rparr>) = member w"
  "member (w\<lparr>StartDelay := x_StartDelay\<rparr>) = member w"
  "member (w\<lparr>StartInterval := x_StartInterval\<rparr>) = member w"
  "member (w\<lparr>ml_lock := x_ml_lock\<rparr>) = member w"
  "member (w\<lparr>cfg_lock := x_cfg_lock\<rparr>) = member w"
  "member (w\<lparr>ServerRunning := x_ServerRunning\<rparr>) = member w"
  "member (w\<lparr>disk := x_disk\<rparr>) = member w"
  "member (w\<lparr>trace := x_trace\<rparr>) = member w"
  "member (w\<lparr>certs := x_certs\<rparr>) = member w"
  "member (w\<lparr>env := x_env\<rparr>) = member w"
  "member (w\<lparr>Members := x_Members\<rparr>) = member w"
  by (simp_all add: member_def fun_eq_iff)

lemma members_frame [simp]:
  "members (w\<lparr>DBConfig := x_DBConfig\<rparr>) = members w"
  "members (w\<lparr>modules := x_modules\<rparr>) = members w"
  "members (w\<lparr>LogHostname := x_LogHostname\<rparr>) = members w"
  "members (w\<lparr>StartDelay := x_StartDelay\<rparr>) = members w"
  "members (w\<lparr>StartInterval := x_StartInterval\<rparr>) = members w"
  "members (w\<lparr>ml_lock := x_ml_lock\<rparr>) = members w"
  "members (w\<lparr>cfg_lock := x_cfg_lock\<rparr>) = members w"
  "members (w\<lparr>ServerRunning := x_ServerRunning\<rparr>) = members w"
  "members (w\<lparr>disk := x_disk\<rparr>) = members w"
  "members (w\<lparr>trace := x_trace\<rparr>) = members w"
  "members (w\<lparr>certs := x_certs\<rparr>) = members w"
  "members (w\<lparr>env := x_env\<rparr>) = members w"
  by (simp_all add: members_def)

lemma wf_members_frame [simp]:
  "wf_members (w\<lparr>DBConfig := x_DBConfig\<rparr>) = wf_members w"
  "wf_members (w\<lparr>modules := x_modules\<rparr>) = wf_members w"
  "wf_members (w\<lparr>LogHostname := x_LogHostname\<rparr>) = wf_members w"
  "wf_members (w\<lparr>StartDelay := x_StartDelay\<rparr>) = wf_members w"
  "wf_members (w\<lparr>StartInterval := x_StartInterval\<rparr>) = wf_members w"
  "wf_members (w\<lparr>ml_lock := x_ml_lock\<rparr>) = wf_members w"
  "wf_members (w\<lparr>cfg_lock := x_cfg_lock\<rparr>) = wf_members w"
  "wf_members (w\<lparr>ServerRunning := x_ServerRunning\<rparr>) = wf_members w"
  "wf_members (w\<lparr>disk := x_disk\<rparr>) = wf_members w"
  "wf_members (w\<lparr>trace := x_trace\<rparr>) = wf_members w"
  "wf_members (w\<lparr>certs := x_certs\<rparr>) = wf_members w"
  "wf_members (w\<lparr>env := x_env\<rparr>) = wf_members w"
  by (simp_all add: wf_members_def)

lemma wf_disk_frame [simp]:
  "wf_disk (w\<lparr>DBConfig := x_DBConfig\<rparr>) = wf_disk w"
  "wf_disk (w\<lparr>modules := x_modules\<rparr>) = wf_disk w"
  "wf_disk (w\<lparr>LogHostname := x_LogHostname\<rparr>) = wf_disk w"
  "wf_disk (w\<lparr>StartDelay := x_StartDelay\<rparr>) = wf_disk w"
  "wf_disk (w\<lparr>StartInterval := x_StartInterval\<rparr>) = wf_disk w"
  "wf_disk (w\<lparr>ml_lock := x_ml_lock\<rparr>) = wf_disk w"
  "wf_disk (w\<lparr>cfg_lock := x_cfg_lock\<rparr>) = wf_disk w"
  "wf_disk (w\<lparr>ServerRunning := x_ServerRunning\<rparr>) = wf_disk w"
  "wf_disk (w\<lparr>trace := x_trace\<rparr>) = wf_disk w"
  "wf_disk (w\<lparr>certs := x_certs\<rparr>) = wf_disk w"
  "wf_disk (w\<lparr>env := x_env\<rparr>) = wf_disk w"
  "wf_disk (w\<lparr>heap := x_heap\<rparr>) = wf_disk w"
  "wf_disk (w\<lparr>Members := x_Members\<rparr>) = wf_disk w"
  by (simp_all add: wf_disk_def)

lemma wf_frame [simp]:
  "wf (w\<lparr>modules := x_modules\<rparr>) = wf w"
  "wf (w\<lparr>LogHostname := x_LogHostname\<rparr>) = wf w"
  "wf (w\<lparr>StartDelay := x_StartDelay\<rparr>) = wf w"
  "wf (w\<lparr>StartInterval := x_StartInterval\<rparr>) = wf w"
  "wf (w\<lparr>ml_lock := x_ml_lock\<rparr>) = wf w"
  "wf (w\<lparr>cfg_lock := x_cfg_lock\<rparr>) = wf w"
  "wf (w\<lparr>ServerRunning := x_ServerRunning\<rparr>) = wf w"
  "wf (w\<lparr>trace := x_trace\<rparr>) = wf w"
  "wf (w\<lparr>certs := x_certs\<rparr>) = wf w"
  "wf (w\<lparr>env := x_env\<rparr>) = wf w"
  by (simp_all add: wf_def wf_members_def wf_disk_def)

lemma inv_frame [simp]:
  "inv ml cfg (w\<lparr>modules := x_modules\<rparr>) = inv ml cfg w"
  "inv ml cfg (w\<lparr>LogHostname := x_LogHostname\<rparr>) = inv ml cfg w"
  "inv ml cfg (w\<lparr>StartDelay := x_StartDelay\<rparr>) = inv ml cfg w"
  "inv ml cfg (w\<lparr>StartInterval := x_StartInterval\<rparr>) = inv ml cfg w"
  "inv ml cfg (w\<lparr>ServerRunning := x_ServerRunning\<rparr>) = inv ml cfg w"
  "inv ml cfg (w\<lparr>trace := x_trace\<rparr>) = inv ml cfg w"
  "inv ml cfg (w\<lparr>certs := x_certs\<rparr>) = inv ml cfg w"
  "inv ml cfg (w\<lparr>env := x_env\<rparr>) = inv ml cfg w"
  by (simp_all add: inv_def)

lemma distinct_Members: "wf_members w \<Longrightarrow> distinct (Members w)"
  unfolding wf_members_def members_def by (metis distinct_map)

lemma member_update_member:
  "r < length (heap w) \<Longrightarrow> member (update_member r f w) q = (if q = r then f (member w r) else member w q)"
  by (simp add: member_def update_member_def nth_list_update)

lemma update_member_fields [simp]:
  "Members (update_member r f w) = Members w"
  "length (heap (update_member r f w)) = length (heap w)"
  "DBConfig (update_member r f w) = DBConfig w"
  "modules (update_member r f w) = modules w"
  "trace (update_member r f w) = trace w"
  "env (update_member r f w) = env w"
  "ml_lock (update_member r f w) = ml_lock w"
  "cfg_lock (update_member r f w) = cfg_lock w"
  "disk (update_member r f w) = disk w"
  "StartDelay (update_member r f w) = StartDelay w"
  "StartInterval (update_member r f w) = StartInterval w"
  "ServerRunning (update_member r f w) = ServerRunning w"
  "LogHostname (update_member r f w) = LogHostname w"
  "certs (update_member r f w) = certs w"
  by (simp_all add: update_member_def)

lemma map_field_update_member:
  "(\<And>m. g (f m) = g m) \<Longrightarrow> map g (members (update_member r f w)) = map g (members w)"
proof -
  assume g: "\<And>m. g (f m) = g m"
  have "g (member (update_member r f w) q) = g (member w q)" for q
  proof (cases "r < length (heap w)")
    case True
    then show ?thesis by (simp add: member_update_member g)
  next
    case False
    then show ?thesis by (simp add: member_def update_member_def list_update_beyond)
  qed
  then show ?thesis by (simp add: members_def)
qed

lemma wf_update_member:
  "(\<And>m. Hostname (f m) = Hostname m) \<Longrightarrow> wf (update_member r f w) = wf w"
  by (simp add: wf_def wf_members_def wf_disk_def map_field_update_member)

lemma inv_update_member:
  "(\<And>m. Hostname (f m) = Hostname m) \<Longrightarrow> inv ml cfg (update_member r f w) = inv ml cfg w"
  by (simp add: inv_def wf_update_member)

lemma safe_emit [safe_intro]:
  "(\<And>w t. I w \<Longrightarrow> I (w\<lparr>trace := t\<rparr>)) \<Longrightarrow> safe I C (emit e)"
  by (auto simp: emit_def intro: safe_intro)

subsection \<open>Rules for the locks\<close>

text \<open>
  What both mutexes have in common: \<open>locked body\<close> runs the body while the mutex is held, a
  mutex that is held blocks, and an invariant with the mutex free is kept when the body keeps the
  invariant with the mutex held.
\<close>

locale mutex =
  fixes lock :: "unit go" and unlock :: "unit go" and locked :: "'a go \<Rightarrow> 'a go"
    and held :: "world \<Rightarrow> bool" and hold :: "bool \<Rightarrow> world \<Rightarrow> world" and name :: string
  assumes locked_is: "locked body = thn lock (bnd body (\<lambda>x. thn unlock (ret x)))"
    and lock_run: "lock w = (if held w then Crash (Deadlock name) else Ret () (hold True w))"
    and unlock_run: "unlock w = Ret () (hold False w)"
begin

lemma locked_Ret: "locked body w = Ret x v \<longleftrightarrow> \<not> held w \<and> (\<exists>u. body (hold True w) = Ret x u \<and> v = hold False u)"
  by (auto simp: locked_is lock_run unlock_run split: outcome.splits if_splits)

lemma locked_Crash: "locked body w = Crash c \<longleftrightarrow> (if held w then c = Deadlock name else body (hold True w) = Crash c)"
  by (auto simp: locked_is lock_run unlock_run split: outcome.splits if_splits)

lemma locked_safe:
  assumes "safe J C body" and "\<And>w. I w \<Longrightarrow> \<not> held w \<and> J (hold True w)" and "\<And>w. J w \<Longrightarrow> I (hold False w)"
  shows "safe I C (locked body)"
  unfolding safe_def
proof (rule partialI)
  fix w x v assume "I w" and "locked body w = Ret x v"
  then show "I v" using assms(2) [of w] assms(3) safeD [OF assms(1)] by (auto simp: locked_Ret)
next
  fix w c assume "I w" and "locked body w = Crash c"
  then show "C c" using assms(2) [of w] safe_crashD [OF assms(1)] by (auto simp: locked_Crash)
qed

end

interpretation ml_mutex: mutex lock_ml unlock_ml locked_ml ml_lock "\<lambda>b w. w\<lparr>ml_lock := b\<rparr>" "''MemberList''"
  by unfold_locales (simp_all add: locked_ml_def lock_ml_def unlock_ml_def)

interpretation cfg_mutex: mutex lock_cfg unlock_cfg locked_cfg cfg_lock "\<lambda>b w. w\<lparr>cfg_lock := b\<rparr>" "''Config''"
  by unfold_locales (simp_all add: locked_cfg_def lock_cfg_def unlock_cfg_def)

lemmas lock_ml_run = ml_mutex.lock_run and lock_cfg_run = cfg_mutex.lock_run
lemmas locked_ml_Ret = ml_mutex.locked_Ret and locked_cfg_Ret = cfg_mutex.locked_Ret
lemmas locked_ml_Crash = ml_mutex.locked_Crash

lemma locked_ml_safe: "safe (inv True cfg) C body \<Longrightarrow> safe (inv False cfg) C (locked_ml body)"
  by (erule ml_mutex.locked_safe) (auto simp: inv_def)

lemma locked_cfg_safe: "safe (inv ml True) C body \<Longrightarrow> safe (inv ml False) C (locked_cfg body)"
  by (erule cfg_mutex.locked_safe) (auto simp: inv_def)

section \<open>What most of the daemon can see of a state\<close>

text \<open>
  \<open>core\<close> leaves out of a state the trace and the clients of the members: reaching other
  daemons, which logging does all the time, changes nothing else. \<open>quiet m\<close> says that \<open>m\<close>
  keeps the core.
\<close>

definition strip :: "Member \<Rightarrow> Member" where
  "strip m = m\<lparr>MemberClient := None\<rparr>"

definition core :: "world \<Rightarrow> world" where
  "core w = w\<lparr>heap := map strip (heap w), trace := []\<rparr>"

definition quiet :: "'a go \<Rightarrow> bool" where
  "quiet m \<longleftrightarrow> (\<forall>c. safe (\<lambda>w. core w = c) any_crash m)"

lemma quietD:
  assumes "quiet m" and "m w = Ret x v"
  shows "core v = core w"
proof -
  from assms(1) have "safe (\<lambda>u. core u = core w) any_crash m" by (simp add: quiet_def)
  from safeD [OF this refl assms(2)] show ?thesis .
qed

lemma quietI: "(\<And>w x v. m w = Ret x v \<Longrightarrow> core v = core w) \<Longrightarrow> quiet m"
  by (auto simp: quiet_def safe_def intro: partialI)

lemma quiet_safe: "quiet m \<longleftrightarrow> (\<forall>c. safe (\<lambda>w. core w = c) any_crash m)"
  by (rule quiet_def)

lemma core_trace [simp]: "core (w\<lparr>trace := t\<rparr>) = core w"
  by (simp add: core_def)

lemma core_client: "core (update_member r (\<lambda>m. m\<lparr>MemberClient := f m\<rparr>) w) = core w"
proof -
  have "map strip ((heap w)[r := (heap w ! r)\<lparr>MemberClient := f (heap w ! r)\<rparr>]) = map strip (heap w)"
  proof (rule nth_equalityI)
    fix i assume "i < length (map strip ((heap w)[r := (heap w ! r)\<lparr>MemberClient := f (heap w ! r)\<rparr>]))"
    then show "map strip ((heap w)[r := (heap w ! r)\<lparr>MemberClient := f (heap w ! r)\<rparr>]) ! i
        = map strip (heap w) ! i"
      by (cases "i = r") (simp_all add: strip_def)
  qed simp
  then show ?thesis by (simp add: core_def update_member_def)
qed

lemma core_fields:
  assumes "core v = core w"
  shows "DBConfig v = DBConfig w" "modules v = modules w" "Members v = Members w"
    "StartDelay v = StartDelay w" "StartInterval v = StartInterval w" "ml_lock v = ml_lock w"
    "cfg_lock v = cfg_lock w" "ServerRunning v = ServerRunning w" "disk v = disk w"
    "env v = env w" "LogHostname v = LogHostname w" "length (heap v) = length (heap w)"
    "certs v = certs w"
proof -
  have heap: "map strip (heap v) = map strip (heap w)"
    using arg_cong [OF assms, of heap] by (simp add: core_def)
  then show "length (heap v) = length (heap w)" by (metis length_map)
  show "DBConfig v = DBConfig w" using arg_cong [OF assms, of DBConfig] by (simp add: core_def)
  show "modules v = modules w" using arg_cong [OF assms, of modules] by (simp add: core_def)
  show "Members v = Members w" using arg_cong [OF assms, of Members] by (simp add: core_def)
  show "StartDelay v = StartDelay w" using arg_cong [OF assms, of StartDelay] by (simp add: core_def)
  show "StartInterval v = StartInterval w" using arg_cong [OF assms, of StartInterval] by (simp add: core_def)
  show "ml_lock v = ml_lock w" using arg_cong [OF assms, of ml_lock] by (simp add: core_def)
  show "cfg_lock v = cfg_lock w" using arg_cong [OF assms, of cfg_lock] by (simp add: core_def)
  show "ServerRunning v = ServerRunning w" using arg_cong [OF assms, of ServerRunning] by (simp add: core_def)
  show "disk v = disk w" using arg_cong [OF assms, of disk] by (simp add: core_def)
  show "env v = env w" using arg_cong [OF assms, of env] by (simp add: core_def)
  show "LogHostname v = LogHostname w" using arg_cong [OF assms, of LogHostname] by (simp add: core_def)
  show "certs v = certs w" using arg_cong [OF assms, of certs] by (simp add: core_def)
qed

lemma core_member:
  assumes "core v = core w" and "r < length (heap w)"
  shows "strip (member v r) = strip (member w r)"
proof -
  have "map strip (heap v) = map strip (heap w)"
    using arg_cong [OF assms(1), of heap] by (simp add: core_def)
  with assms core_fields(12) [OF assms(1)] show ?thesis
    unfolding member_def by (metis nth_map)
qed

lemma strip_eq_fields:
  assumes "strip m = strip n"
  shows "Hostname m = Hostname n" "Status m = Status n" "Score m = Score n"
    "LastHCResponse m = LastHCResponse n" "Latency m = Latency n" "HCBusy m = HCBusy n"
proof -
  show "Hostname m = Hostname n" using arg_cong [OF assms, of Hostname] by (simp add: strip_def)
  show "Status m = Status n" using arg_cong [OF assms, of Status] by (simp add: strip_def)
  show "Score m = Score n" using arg_cong [OF assms, of Score] by (simp add: strip_def)
  show "LastHCResponse m = LastHCResponse n"
    using arg_cong [OF assms, of LastHCResponse] by (simp add: strip_def)
  show "Latency m = Latency n" using arg_cong [OF assms, of Latency] by (simp add: strip_def)
  show "HCBusy m = HCBusy n" using arg_cong [OF assms, of HCBusy] by (simp add: strip_def)
qed

lemma core_members:
  assumes "core v = core w" and "\<And>m. g (strip m) = g m" and "\<forall>r \<in> set (Members w). r < length (heap w)"
  shows "map g (members v) = map g (members w)"
proof -
  have "g (member v r) = g (member w r)" if "r \<in> set (Members w)" for r
    using core_member [OF assms(1), of r] assms(2,3) that by metis
  then show ?thesis by (simp add: members_def core_fields(3) [OF assms(1)])
qed

text \<open>
  A property that looks at the core only is kept by everything quiet. The locale collects
  that for the invariants of the components; \<open>wf\<close> and \<open>inv\<close> are its first instances.
\<close>

locale core_property =
  fixes I :: "world \<Rightarrow> bool"
  assumes core_only: "core v = core w \<Longrightarrow> I w \<Longrightarrow> I v"
begin

lemma quiet_keeps: "quiet m \<Longrightarrow> safe I any_crash m"
  unfolding safe_def by (rule partialI) (auto dest: quietD intro: core_only)

lemma keeps_trace: "I w \<Longrightarrow> I (w\<lparr>trace := t\<rparr>)"
  by (rule core_only [of _ w]) simp_all

lemma keeps_emit: "safe I C (emit e)"
  by (rule safe_emit) (rule keeps_trace)

end

lemma core_wf_members:
  assumes "core v = core w" and "wf_members w"
  shows "wf_members v"
proof -
  from assms(2) have b: "\<forall>r \<in> set (Members w). r < length (heap w)"
    by (simp add: wf_members_def)
  have "map Hostname (members v) = map Hostname (members w)"
    by (rule core_members [OF assms(1) _ b]) (simp add: strip_def)
  with assms(2) b core_fields [OF assms(1)] show ?thesis by (simp add: wf_members_def)
qed

interpretation wf: core_property wf
proof unfold_locales
  fix v w :: world assume c: "core v = core w" and w: "wf w"
  from core_fields [OF c] core_wf_members [OF c] w show "wf v"
    by (simp add: wf_def wf_disk_def)
qed

interpretation inv: core_property "inv ml cfg" for ml cfg
proof unfold_locales
  fix v w :: world assume c: "core v = core w" and w: "inv ml cfg w"
  from core_fields [OF c] wf.core_only [OF c] w show "inv ml cfg v"
    by (simp add: inv_def)
qed

end
