(* ===== verification/Plugins.thy ===== *)
theory Plugins
  imports World
begin

text \<open>
  \<^verbatim>\<open>src/pulseha/plugins.go\<close>: which plugins of a list of shared objects are loaded, and the
  getters by kind. A shared object is the list of its exported symbols; a symbol has the name
  that the plugin reports and says which of the three interfaces its methods satisfy.
  \<^verbatim>\<open>plugin.Open\<close> and the search for files are outside.
\<close>

section \<open>Loading\<close>

record Symbol =
  SymbolName :: string
  IsPluginHC :: bool
  IsPluginNet :: bool
  IsPluginGen :: bool

type_synonym shared_object = "(string \<times> Symbol) list"

fun pluginTypeString :: "pluginType \<Rightarrow> string" where
  "pluginTypeString PluginHealthCheck = ''PluginHC''"
| "pluginTypeString PluginNetworking = ''PluginNet''"
| "pluginTypeString PluginGeneral = ''PluginGeneral''"

definition GetHealthCheckPlugins :: "Plugin list \<Rightarrow> Plugin list" where
  "GetHealthCheckPlugins ms = filter (\<lambda>p. PluginKind p = PluginHealthCheck) ms"

definition GetNetworkingPlugin :: "Plugin list \<Rightarrow> Plugin option" where
  "GetNetworkingPlugin ms = find (\<lambda>p. PluginKind p = PluginNetworking) ms"

definition GetGeneralPlugins :: "Plugin list \<Rightarrow> Plugin list" where
  "GetGeneralPlugins ms = filter (\<lambda>p. PluginKind p = PluginGeneral) ms"

text \<open>One plugin of the loop in \<^verbatim>\<open>Load\<close>; the second component are the plugins whose
  \<^verbatim>\<open>Run\<close> is started.\<close>

definition load_one ::
  "pluginType \<Rightarrow> shared_object \<Rightarrow> Plugin list \<times> string list \<Rightarrow> Plugin list \<times> string list" where
  "load_one t so st =
     (case st of (ms, started) \<Rightarrow>
        if t = PluginNetworking \<and> GetNetworkingPlugin ms \<noteq> None then (ms, started)
        else (case map_of so (pluginTypeString t) of
          None \<Rightarrow> (ms, started)
        | Some e \<Rightarrow>
            (case t of
               PluginGeneral \<Rightarrow>
                 if IsPluginGen e
                 then (ms @ [\<lparr>PluginName = SymbolName e, PluginKind = t\<rparr>], started @ [SymbolName e])
                 else (ms, started)
             | PluginHealthCheck \<Rightarrow>
                 if IsPluginHC e
                 then (ms @ [\<lparr>PluginName = SymbolName e, PluginKind = t\<rparr>], started @ [SymbolName e])
                 else (ms, started)
             | PluginNetworking \<Rightarrow>
                 if IsPluginNet e
                 then (ms @ [\<lparr>PluginName = SymbolName e, PluginKind = t\<rparr>], started)
                 else (ms, started))))"

definition Load :: "pluginType \<Rightarrow> shared_object list \<Rightarrow> Plugin list \<times> string list \<Rightarrow> Plugin list \<times> string list" where
  "Load t sos st = fold (load_one t) sos st"

definition Plugins_Setup :: "shared_object list \<Rightarrow> Plugin list \<times> string list \<Rightarrow> Plugin list \<times> string list" where
  "Plugins_Setup sos st =
     Load PluginGeneral sos (Load PluginNetworking sos (Load PluginHealthCheck sos st))"

text \<open>\<^verbatim>\<open>Validate\<close> warns when the daemon runs without a networking plugin.\<close>

definition Plugins_Validate :: "Plugin list \<Rightarrow> bool" where
  "Plugins_Validate ms = (GetNetworkingPlugin ms \<noteq> None)"

section \<open>At most one networking plugin\<close>

definition networking :: "Plugin list \<Rightarrow> Plugin list" where
  "networking ms = filter (\<lambda>p. PluginKind p = PluginNetworking) ms"

lemma GetNetworkingPlugin_hd:
  "GetNetworkingPlugin ms = (case networking ms of [] \<Rightarrow> None | p # _ \<Rightarrow> Some p)"
  unfolding GetNetworkingPlugin_def networking_def by (induction ms) auto

lemma load_one_networking:
  "length (networking (fst st)) \<le> 1 \<Longrightarrow> length (networking (fst (load_one t so st))) \<le> 1"
  by (cases st; cases t)
    (auto simp: load_one_def networking_def GetNetworkingPlugin_hd split: option.split list.splits)

lemma Load_networking:
  "length (networking (fst st)) \<le> 1 \<Longrightarrow> length (networking (fst (Load t sos st))) \<le> 1"
  unfolding Load_def
  by (erule fold_invariant [where Q = "\<lambda>_. True", rotated]) (blast intro: load_one_networking)+

lemma load_one_keeps: "set (fst st) \<subseteq> set (fst (load_one t so st))"
  by (cases st; cases t) (auto simp: load_one_def split: option.split)

lemma Load_keeps: "set (fst st) \<subseteq> set (fst (Load t sos st))"
  unfolding Load_def
proof (induction sos arbitrary: st)
  case Nil
  then show ?case by simp
next
  case (Cons so sos)
  from load_one_keeps [of st t so] Cons.IH [of "load_one t so st"] show ?case by simp
qed

lemma load_one_net_found:
  assumes "map_of so ''PluginNet'' = Some e" and "IsPluginNet e"
  shows "networking (fst (load_one PluginNetworking so st)) \<noteq> []"
  using assms by (cases st)
    (auto simp: load_one_def networking_def GetNetworkingPlugin_hd split: list.split)

lemma Load_net_found:
  assumes "so \<in> set sos" and "map_of so ''PluginNet'' = Some e" and "IsPluginNet e"
  shows "networking (fst (Load PluginNetworking sos st)) \<noteq> []"
  using assms(1) unfolding Load_def
proof (induction sos arbitrary: st)
  case Nil
  then show ?case by simp
next
  case (Cons s sos)
  show ?case
  proof (cases "s = so")
    case True
    from load_one_net_found [OF assms(2,3)] have "networking (fst (load_one PluginNetworking s st)) \<noteq> []"
      by (simp add: True)
    moreover have "set (networking (fst (load_one PluginNetworking s st))) \<subseteq>
        set (networking (fst (fold (load_one PluginNetworking) sos (load_one PluginNetworking s st))))"
      using Load_keeps [of "load_one PluginNetworking s st" PluginNetworking sos]
      by (auto simp: networking_def Load_def)
    ultimately show ?thesis by auto
  next
    case False
    with Cons show ?thesis by simp
  qed
qed

lemma Load_same_net:
  assumes "t \<noteq> PluginNetworking"
  shows "networking (fst (Load t sos st)) = networking (fst st)"
proof -
  have "networking (fst (load_one t so st)) = networking (fst st)" for so st
    using assms by (cases st; cases t) (auto simp: load_one_def networking_def split: option.split)
  then show ?thesis unfolding Load_def by (induction sos arbitrary: st) auto
qed

text \<open>Setting up the plugins of any list of shared objects, from a daemon without plugins,
  loads at most one networking plugin, and it loads one exactly when some object exports a
  symbol \<^verbatim>\<open>PluginNet\<close> whose methods satisfy the interface.\<close>

theorem one_networking_plugin:
  fixes sos :: "shared_object list"
  defines "ms \<equiv> fst (Plugins_Setup sos ([], []))"
  shows "length (networking ms) \<le> 1 \<and>
    (GetNetworkingPlugin ms \<noteq> None \<longleftrightarrow>
       (\<exists>so \<in> set sos. \<exists>e. map_of so ''PluginNet'' = Some e \<and> IsPluginNet e))"
proof -
  let ?hc = "Load PluginHealthCheck sos ([], [])"
  let ?net = "Load PluginNetworking sos ?hc"
  have hc: "networking (fst ?hc) = []"
    using Load_same_net [of PluginHealthCheck sos "([], [])"] by (simp add: networking_def)
  have ms: "networking ms = networking (fst ?net)"
    unfolding ms_def Plugins_Setup_def by (rule Load_same_net) simp
  have "networking (fst (Load PluginNetworking ss st)) = []"
    if "networking (fst st) = []"
      and "\<not> (\<exists>so \<in> set ss. \<exists>e. map_of so ''PluginNet'' = Some e \<and> IsPluginNet e)" for ss st
    using that unfolding Load_def
  proof (induction ss arbitrary: st)
    case Nil
    then show ?case by simp
  next
    case (Cons s ss)
    from Cons.prems have "networking (fst (load_one PluginNetworking s st)) = []"
      by (cases st) (auto simp: load_one_def networking_def split: option.split)
    with Cons show ?case by simp
  qed
  from this [of ?hc sos] hc have none: "networking ms = []"
    if "\<not> (\<exists>so \<in> set sos. \<exists>e. map_of so ''PluginNet'' = Some e \<and> IsPluginNet e)"
    using that ms by simp
  have some: "networking ms \<noteq> []"
    if "so \<in> set sos" "map_of so ''PluginNet'' = Some e" "IsPluginNet e" for so e
    using Load_net_found [OF that, of ?hc] ms by simp
  have "length (networking ms) \<le> 1" unfolding ms by (rule Load_networking) (simp add: hc)
  moreover have "GetNetworkingPlugin ms \<noteq> None \<longleftrightarrow> networking ms \<noteq> []"
    by (simp add: GetNetworkingPlugin_hd split: list.split)
  ultimately show ?thesis using none some by blast
qed

end
