(* ===== verification/Registry.thy ===== *)
theory Registry
  imports ConfigPkg
begin

text \<open>
  The questions that \<^verbatim>\<open>src/pulseha/nodes.go\<close> and \<^verbatim>\<open>src/pulseha/groups.go\<close> ask of the
  config: which nodes exist and under which identifier, which floating IP groups exist, where
  a group is assigned and where an address occurs. A scan whose answer cannot depend on the
  order of a map is written over the entries.
\<close>

section \<open>Nodes\<close>

definition CLUSTER_NODE_NOTFOUND :: string where
  "CLUSTER_NODE_NOTFOUND = ''unable to find node in config''"

definition nodeExistsByHostname :: "Config \<Rightarrow> string \<Rightarrow> bool" where
  "nodeExistsByHostname c hostname \<longleftrightarrow>
     (\<exists>(uid, node) \<in> set (entries (Nodes c)). NodeHostname node = hostname)"

definition nodeExistsByUUID :: "Config \<Rightarrow> string \<Rightarrow> bool" where
  "nodeExistsByUUID c uid \<longleftrightarrow> uid \<in> set (keys (Nodes c))"

definition nodeGetByUUID :: "Config \<Rightarrow> string \<Rightarrow> string + Node" where
  "nodeGetByUUID c uid =
     (case lookup (Nodes c) uid of Some node \<Rightarrow> Inr node | None \<Rightarrow> Inl CLUSTER_NODE_NOTFOUND)"

definition nodeGetByHostname :: "order \<Rightarrow> Config \<Rightarrow> string \<Rightarrow> string + string \<times> Node" where
  "nodeGetByHostname \<pi> c hostname =
     (case find (\<lambda>(uid, node). NodeHostname node = hostname) (range_by \<pi> (Nodes c)) of
        Some (uid, node) \<Rightarrow> Inr (uid, node)
      | None \<Rightarrow> Inl CLUSTER_NODE_NOTFOUND)"

definition nodeAssignedToInterface :: "Config \<Rightarrow> string \<Rightarrow> bool" where
  "nodeAssignedToInterface c grp \<longleftrightarrow>
     (\<exists>(uid, node) \<in> set (entries (Nodes c)). \<exists>(iface, groups) \<in> set (entries (IPGroups node)).
        grp \<in> set groups)"

text \<open>\<open>None\<close>: \<^verbatim>\<open>Nodes[uid]\<close> is nil and is dereferenced.\<close>

definition nodeInterfaceGroupExists ::
  "Config \<Rightarrow> string \<Rightarrow> string \<Rightarrow> string \<Rightarrow> (bool \<times> int) option" where
  "nodeInterfaceGroupExists c uid iface grp =
     (case lookup (Nodes c) uid of
        None \<Rightarrow> None
      | Some node \<Rightarrow>
          Some (case lookup (IPGroups node) iface of
                  None \<Rightarrow> (False, -1)
                | Some groups \<Rightarrow> index_of grp groups))"

section \<open>Floating IP groups\<close>

definition groupExist :: "Config \<Rightarrow> string \<Rightarrow> bool" where
  "groupExist c name \<longleftrightarrow> lookup (Groups c) name \<noteq> None"

definition group_ips :: "Config \<Rightarrow> string \<Rightarrow> string list" where
  "group_ips c name = (case lookup (Groups c) name of None \<Rightarrow> [] | Some ips \<Rightarrow> ips)"

definition groupIPExist :: "Config \<Rightarrow> string \<Rightarrow> string \<Rightarrow> bool \<times> int" where
  "groupIPExist c name ip = index_of ip (group_ips c name)"

definition groupIpExistAll :: "Config \<Rightarrow> string \<Rightarrow> bool" where
  "groupIpExistAll c ip \<longleftrightarrow> (\<exists>(name, ips) \<in> set (entries (Groups c)). ip \<in> set ips)"

definition getGroupNodes :: "order \<Rightarrow> order \<Rightarrow> Config \<Rightarrow> string \<Rightarrow> string list \<times> string list" where
  "getGroupNodes \<pi> \<rho> c grp =
     (let found = concat (map (\<lambda>(uid, node).
            concat (map (\<lambda>(iface, groups).
              map (\<lambda>_. (NodeHostname node, iface)) (filter (\<lambda>g. g = grp) groups))
            (range_by \<rho> (IPGroups node)))) (range_by \<pi> (Nodes c)))
      in (map fst found, map snd found))"

definition genGroupName :: "Config \<Rightarrow> string" where
  "genGroupName c =
     (let totalGroups = mlen (Groups c)
      in case find (\<lambda>newName. lookup (Groups c) newName = None)
                (map (\<lambda>i. ''group'' @ Itoa i) [1..totalGroups]) of
           Some newName \<Rightarrow> newName
         | None \<Rightarrow> ''group'' @ Itoa (totalGroups + 1))"

section \<open>What the answers mean\<close>

lemma nodeExistsByUUID_lookup: "nodeExistsByUUID c uid \<longleftrightarrow> lookup (Nodes c) uid \<noteq> None"
  by (simp add: nodeExistsByUUID_def lookup_None_iff)

lemma nodeGetByHostname_eq:
  "(\<exists>e. nodeGetByHostname \<pi> c h = Inl e \<and> (\<exists>e'. GetNodeByHostname \<pi> c h = Inl e')) \<or>
   (\<exists>p. nodeGetByHostname \<pi> c h = Inr p \<and> GetNodeByHostname \<pi> c h = Inr p)"
  by (auto simp: nodeGetByHostname_def GetNodeByHostname_def split: option.splits)

lemma nodeGetByHostname_sound:
  assumes "wf_map (Nodes c)" and "nodeGetByHostname \<pi> c h = Inr (uid, node)"
  shows "lookup (Nodes c) uid = Some node \<and> NodeHostname node = h"
proof -
  from assms(2) nodeGetByHostname_eq [of \<pi> c h] have "GetNodeByHostname \<pi> c h = Inr (uid, node)"
    by auto
  then show ?thesis by (rule GetNodeByHostname_sound [OF assms(1)])
qed

lemma nodeAssignedToInterface_iff:
  assumes "wf_config c"
  shows "nodeAssignedToInterface c g \<longleftrightarrow>
    (\<exists>uid node iface gs. lookup (Nodes c) uid = Some node \<and> lookup (IPGroups node) iface = Some gs \<and> g \<in> set gs)"
proof -
  from assms have n: "wf_map (Nodes c)" by (simp add: wf_config_def map_ok_def)
  have i: "wf_map (IPGroups node)" if "(uid, node) \<in> set (entries (Nodes c))" for uid node
    using assms that by (force simp: wf_config_def map_ok_def wf_node_def)
  show ?thesis
  proof
    assume "nodeAssignedToInterface c g"
    then obtain uid node iface gs where e: "(uid, node) \<in> set (entries (Nodes c))"
        "(iface, gs) \<in> set (entries (IPGroups node))" "g \<in> set gs"
      by (auto simp: nodeAssignedToInterface_def)
    then have "lookup (Nodes c) uid = Some node" and "lookup (IPGroups node) iface = Some gs"
      by (auto intro: in_entries_lookup n i)
    with e(3) show "\<exists>uid node iface gs. lookup (Nodes c) uid = Some node \<and>
        lookup (IPGroups node) iface = Some gs \<and> g \<in> set gs" by blast
  next
    assume "\<exists>uid node iface gs. lookup (Nodes c) uid = Some node \<and>
        lookup (IPGroups node) iface = Some gs \<and> g \<in> set gs"
    then show "nodeAssignedToInterface c g"
      by (fastforce simp: nodeAssignedToInterface_def dest!: lookup_in_entries)
  qed
qed

lemma getGroupNodes_parallel: "length (fst (getGroupNodes \<pi> \<rho> c g)) = length (snd (getGroupNodes \<pi> \<rho> c g))"
  by (simp add: getGroupNodes_def Let_def)

subsection \<open>A generated group name is new\<close>

lemma group_names_distinct:
  "distinct (map (\<lambda>i. ''group'' @ Itoa i) [1..n])"
  unfolding distinct_map by (auto simp: Itoa_inject intro!: inj_onI)

lemma group_name_beyond: "0 \<le> n \<Longrightarrow> ''group'' @ Itoa (n + 1) \<notin> set (map (\<lambda>i. ''group'' @ Itoa i) [1..n])"
  by (auto simp: Itoa_inject)

text \<open>The name that is generated for a group is not the name of an existing group: the
  loop tries one name per existing group, so when all of them are taken they are all the
  groups there are, and the name after the last one is free.\<close>

theorem genGroupName_fresh:
  assumes "wf_map (Groups c)"
  shows "lookup (Groups c) (genGroupName c) = None"
proof (cases "find (\<lambda>newName. lookup (Groups c) newName = None)
    (map (\<lambda>i. ''group'' @ Itoa i) [1..mlen (Groups c)])")
  case (Some newName)
  then show ?thesis by (auto simp: genGroupName_def dest: find_SomeD)
next
  case None
  let ?names = "map (\<lambda>i. ''group'' @ Itoa i) [1..mlen (Groups c)]"
  from None have sub: "set ?names \<subseteq> set (keys (Groups c))"
    by (auto simp: find_None_iff lookup_None_iff)
  have "card (set ?names) = length ?names"
    by (rule distinct_card) (rule group_names_distinct)
  also have "\<dots> = length (keys (Groups c))" by (simp add: mlen_def keys_def)
  also have "\<dots> = card (set (keys (Groups c)))"
    using assms by (simp add: wf_map_def distinct_card)
  finally have "set ?names = set (keys (Groups c))"
    by (intro card_subset_eq sub) simp_all
  then have "''group'' @ Itoa (mlen (Groups c) + 1) \<notin> set (keys (Groups c))"
    using group_name_beyond [of "mlen (Groups c)"] by (simp add: mlen_def)
  with None show ?thesis by (simp add: genGroupName_def lookup_None_iff)
qed

theorem genGroupName_fresh_witness:
  "lookup (Groups (defaultConfig\<lparr>Groups := Some [(''group1'', []), (''group3'', [''10.0.0.1/24''])]\<rparr>))
     (genGroupName (defaultConfig\<lparr>Groups := Some [(''group1'', []), (''group3'', [''10.0.0.1/24''])]\<rparr>)) = None"
  by (rule genGroupName_fresh) (simp add: wf_map_def keys_def)

end
