(* ===== verification/Example.thy ===== *)
theory Example
  imports World
begin

text \<open>
  A concrete daemon, at which the theorems of the development are instantiated: the node
  \<^verbatim>\<open>alpha\<close> of a cluster of two, active, with one floating IP group that both nodes serve on
  \<^verbatim>\<open>eth0\<close>, a networking and a health check plugin, and surroundings in which every call succeeds.
\<close>

definition ex_node :: "string \<Rightarrow> string \<Rightarrow> Node" where
  "ex_node h ip = \<lparr>NodeHostname = h, IP = ip, Port = ''8443'',
     IPGroups = Some [(''eth0'', [''group1''])]\<rparr>"

definition ex_config :: Config where
  "ex_config = defaultConfig\<lparr>
     Pulse := (Pulse defaultConfig)\<lparr>LocalNodeUid := ''u1'', ClusterToken := ''hash''\<rparr>,
     Groups := Some [(''group1'', [''10.0.0.1/24''])],
     Nodes := Some [(''u1'', ex_node ''alpha'' ''10.0.0.11''), (''u2'', ex_node ''beta'' ''10.0.0.12'')]\<rparr>"

definition ex_env :: Env where
  "ex_env = \<lparr>
     hostname_cmd = Inr ''alpha'', map_order = (\<lambda>_ ks. ks), now = 5000000000,
     rpc_result = (\<lambda>_ _ req. case req of
         ReqHealthCheck _ \<Rightarrow> Inr (RespHealthCheck \<lparr>HcScore = 3\<rparr>)
       | _ \<Rightarrow> Inr (RespOther (reply True '''' 0))),
     rpc_time = (\<lambda>_ _. 0), cert_read_error = (\<lambda>_. None), cert_write_error = (\<lambda>_. None),
     mkdir_ok = True, rmdir_ok = True, x509_key_pair = (\<lambda>_ _. None), append_certs = (\<lambda>_. True),
     rsa_generate = (\<lambda>site. Inr (''key of '' @ site)), rand_serial = (\<lambda>_. Inr 7),
     create_cert = (\<lambda>_ _ _ _. Inr ''cert''), pem_encode_cert = (\<lambda>d. ''C'' @ d), pem_encode_key = (\<lambda>d. ''K'' @ d),
     pem_cert = (\<lambda>p. case p of [] \<Rightarrow> None | c # d \<Rightarrow> if c = CHR ''C'' then Some (Inr d) else None),
     pem_key = (\<lambda>p. case p of [] \<Rightarrow> None | c # d \<Rightarrow> if c = CHR ''K'' then Some (Inr d) else None),
     listen = (\<lambda>_. None), serve = None,
     dial = (\<lambda>_ _. None), link_state = (\<lambda>_ _. Ready),
     interface_names = [''lo'', ''eth0''], interface_exists = (\<lambda>i. i = ''lo'' \<or> i = ''eth0''),
     net_up = (\<lambda>_ _. None), net_down = (\<lambda>_ _. None), write_error = None, new_uuid = ''u3'',
     random_bytes = (\<lambda>n. Inr (replicate n (CHR ''a''))), sha256_hex = (\<lambda>s. ''hash''), hc_send = (\<lambda>_. None), hc_weight = (\<lambda>_. 1),
     format_rfc1123 = (\<lambda>_. ''''), parse_rfc1123 = (\<lambda>_. None)\<rparr>"

definition ex_member :: "string \<Rightarrow> Status \<Rightarrow> int \<Rightarrow> Member" where
  "ex_member h st sc = \<lparr>Hostname = h, Status = st, LastHCResponse = 0, Latency = '''', HCBusy = False,
     Score = sc, MemberClient = Some \<lparr>Connection = Some Opened, Requester = True\<rparr>\<rparr>"

definition ex_world :: world where
  "ex_world = \<lparr>DBConfig = ex_config,
     modules = [\<lparr>PluginName = ''ping'', PluginKind = PluginHealthCheck\<rparr>,
                \<lparr>PluginName = ''netcore'', PluginKind = PluginNetworking\<rparr>],
     heap = [ex_member ''alpha'' ACTIVE 2, ex_member ''beta'' PASSIVE 1], Members = [0, 1],
     LogHostname = ''alpha'', StartDelay = False, StartInterval = 0, ml_lock = False, cfg_lock = False,
     ServerRunning = True, disk = ConfigFile (Valid ex_config),
     certs = Some [(''ca.crt'', ''Cca''), (''ca.key'', ''Kca''), (''pulseha.crt'', ''Ccrt''), (''pulseha.key'', ''Kkey'')],
     trace = [], env = ex_env\<rparr>"

lemmas ex_defs = ex_world_def ex_env_def ex_config_def ex_node_def ex_member_def defaultConfig_def

lemma wf_ex_config: "wf_config ex_config"
  by (simp add: ex_defs wf_config_def map_ok_def wf_map_def keys_def wf_node_def)

lemma wf_ex_world: "wf ex_world"
  by (simp add: wf_def wf_members_def members_def member_def wf_disk_def ex_world_def ex_member_def
      wf_ex_config)

lemma inv_ex_world: "inv False False ex_world"
  by (simp add: inv_def wf_ex_world) (simp add: ex_world_def)

text \<open>The fields, so that proofs need not unfold the whole state.\<close>

lemma ex_world_fields [simp]:
  "DBConfig ex_world = ex_config" "env ex_world = ex_env" "Members ex_world = [0, 1]"
  "heap ex_world = [ex_member ''alpha'' ACTIVE 2, ex_member ''beta'' PASSIVE 1]"
  "\<not> ml_lock ex_world" "\<not> cfg_lock ex_world" "trace ex_world = []"
  "disk ex_world = ConfigFile (Valid ex_config)" "LogHostname ex_world = ''alpha''"
  "modules ex_world = [\<lparr>PluginName = ''ping'', PluginKind = PluginHealthCheck\<rparr>,
     \<lparr>PluginName = ''netcore'', PluginKind = PluginNetworking\<rparr>]"
  "StartDelay ex_world = False" "StartInterval ex_world = 0"
  "certs ex_world = Some [(''ca.crt'', ''Cca''), (''ca.key'', ''Kca''), (''pulseha.crt'', ''Ccrt''), (''pulseha.key'', ''Kkey'')]"
  by (simp_all add: ex_world_def)

lemma ex_env_fields [simp]:
  "hostname_cmd ex_env = Inr ''alpha''" "map_order ex_env = (\<lambda>_ ks. ks)" "write_error ex_env = None"
  "dial ex_env = (\<lambda>_ _. None)" "link_state ex_env = (\<lambda>_ _. Ready)"
  "net_up ex_env = (\<lambda>_ _. None)" "net_down ex_env = (\<lambda>_ _. None)" "now ex_env = 5000000000"
  "interface_names ex_env = [''lo'', ''eth0'']"
  "interface_exists ex_env = (\<lambda>i. i = ''lo'' \<or> i = ''eth0'')"
  "new_uuid ex_env = ''u3''" "sha256_hex ex_env = (\<lambda>s. ''hash'')" "rpc_time ex_env = (\<lambda>_ _. 0)"
  "random_bytes ex_env = (\<lambda>n. Inr (replicate n (CHR ''a'')))"
  "cert_read_error ex_env = (\<lambda>_. None)" "cert_write_error ex_env = (\<lambda>_. None)" "mkdir_ok ex_env" "rmdir_ok ex_env"
  "x509_key_pair ex_env = (\<lambda>_ _. None)" "append_certs ex_env = (\<lambda>_. True)"
  "rsa_generate ex_env = (\<lambda>site. Inr (''key of '' @ site))" "rand_serial ex_env = (\<lambda>_. Inr 7)"
  "create_cert ex_env = (\<lambda>_ _ _ _. Inr ''cert'')" "listen ex_env = (\<lambda>_. None)" "serve ex_env = None"
  by (simp_all add: ex_env_def)

lemma ex_config_fields [simp]:
  "Groups ex_config = Some [(''group1'', [''10.0.0.1/24''])]"
  "Nodes ex_config = Some [(''u1'', ex_node ''alpha'' ''10.0.0.11''), (''u2'', ex_node ''beta'' ''10.0.0.12'')]"
  "PluginConfigs ex_config = Some []" "LocalNodeUid (Pulse ex_config) = ''u1''"
  "ClusterToken (Pulse ex_config) = ''hash''" "HealthCheckInterval (Pulse ex_config) = 1000"
  "FailOverInterval (Pulse ex_config) = 5000" "FailOverLimit (Pulse ex_config) = 10000"
  by (simp_all add: ex_config_def defaultConfig_def)

lemma ex_node_fields [simp]:
  "NodeHostname (ex_node h ip) = h" "IP (ex_node h ip) = ip" "Port (ex_node h ip) = ''8443''"
  "IPGroups (ex_node h ip) = Some [(''eth0'', [''group1''])]"
  by (simp_all add: ex_node_def)

lemma ex_member_fields [simp]:
  "Hostname (ex_member h st sc) = h" "Status (ex_member h st sc) = st" "Score (ex_member h st sc) = sc"
  "MemberClient (ex_member h st sc) = Some \<lparr>Connection = Some Opened, Requester = True\<rparr>"
  by (simp_all add: ex_member_def)

lemma GetHostname_ex [simp]: "GetHostname (Inr ''alpha'') = Inr ''alpha''"
  by code_simp

lemma Validate_ex: "Validate (Inr ''alpha'') ex_config = None"
  by (simp add: Validate_None_iff)

text \<open>The same daemon on standby: \<^verbatim>\<open>beta\<close> is active.\<close>

definition ex_standby :: world where
  "ex_standby = ex_world\<lparr>heap := [ex_member ''alpha'' PASSIVE 2, ex_member ''beta'' ACTIVE 1]\<rparr>"

lemma ex_standby_fields [simp]:
  "DBConfig ex_standby = ex_config" "env ex_standby = ex_env" "Members ex_standby = [0, 1]"
  "heap ex_standby = [ex_member ''alpha'' PASSIVE 2, ex_member ''beta'' ACTIVE 1]"
  "\<not> ml_lock ex_standby" "\<not> cfg_lock ex_standby" "trace ex_standby = []"
  "disk ex_standby = ConfigFile (Valid ex_config)" "modules ex_standby = modules ex_world"
  "StartDelay ex_standby = False" "StartInterval ex_standby = 0" "certs ex_standby = certs ex_world"
  by (simp_all add: ex_standby_def)

lemma wf_ex_standby: "wf ex_standby"
  by (simp add: wf_def wf_members_def members_def member_def wf_disk_def wf_ex_config)

lemma ex_member_LastHCResponse [simp]: "LastHCResponse (ex_member h st sc) = 0"
  by (simp add: ex_member_def)

end
