(* ===== verification/Certs.thy ===== *)
theory Certs
  imports Example
begin

text \<open>
  The certificate directory: the file helpers of \<^verbatim>\<open>packages/utils/utils.go\<close> as they are used on it,
  \<^verbatim>\<open>packages/security\<close> (the CA certificate, the node's own key pair, token hashes), the random
  tokens of \<^verbatim>\<open>src/pulseha/utils.go\<close>, and what a TLS connection loads from the directory. Keys and
  certificates come from Go's \<^verbatim>\<open>crypto\<close> packages, whose answers are part of the surroundings.
\<close>

section \<open>Files\<close>

definition CertDir :: string where
  "CertDir = ''/etc/pulseha/certs/''"

definition read_cert :: "world \<Rightarrow> string \<Rightarrow> string + string" where
  "read_cert w name = (case lookup (certs w) name of
     None \<Rightarrow> Inl (''open '' @ CertDir @ name @ '': no such file or directory'')
   | Some s \<Rightarrow> (case cert_read_error (env w) name of Some err \<Rightarrow> Inl err | None \<Rightarrow> Inr s))"

definition CheckFileExists :: "world \<Rightarrow> string \<Rightarrow> bool" where
  "CheckFileExists w name \<longleftrightarrow> lookup (certs w) name \<noteq> None"

definition LoadFile :: "world \<Rightarrow> string \<Rightarrow> string + string" where
  "LoadFile w name = (case read_cert w name of
     Inl _ \<Rightarrow> Inl (''unable to load file: '' @ CertDir @ name)
   | Inr s \<Rightarrow> Inr s)"

text \<open>\<^verbatim>\<open>CreateFolder(CertDir)\<close> reports that it created the folder also when \<^verbatim>\<open>os.Mkdir\<close> failed. A folder
  that \<^verbatim>\<open>os.RemoveAll\<close> cannot remove is taken to stay as it is.\<close>

definition CreateFolder :: "bool go" where
  "CreateFolder = reading (\<lambda>w. (certs w = None, mkdir_ok (env w))) (\<lambda>(missing, ok).
     thn (if missing \<and> ok then modify (\<lambda>w. w\<lparr>certs := Some []\<rparr>) else skip) (ret missing))"

definition DeleteFolder :: "bool go" where
  "DeleteFolder = reading (\<lambda>w. rmdir_ok (env w)) (\<lambda>ok.
     thn (if ok then modify (\<lambda>w. w\<lparr>certs := None\<rparr>) else skip) (ret ok))"

definition write_cert :: "string \<Rightarrow> string \<Rightarrow> unit go" where
  "write_cert name content = reading (\<lambda>w. (is_nil (certs w), cert_write_error (env w) name)) (\<lambda>(missing, err).
     if missing \<or> err \<noteq> None then crash_with (Fatal ''Failed writing key:'')
     else modify (\<lambda>w. w\<lparr>certs := put (certs w) name content\<rparr>))"

definition WriteCertFile :: "string \<Rightarrow> string \<Rightarrow> unit go" where
  "WriteCertFile fileName cert = write_cert (fileName @ ''.crt'') cert"

definition WriteKeyFile :: "string \<Rightarrow> string \<Rightarrow> unit go" where
  "WriteKeyFile fileName key = write_cert (fileName @ ''.key'') key"

definition WriteKeyFileFromRSAKey :: "string \<Rightarrow> string \<Rightarrow> unit go" where
  "WriteKeyFileFromRSAKey fileName key =
     reading (\<lambda>w. pem_encode_key (env w) key) (write_cert (fileName @ ''.key''))"

text \<open>Two helpers that the program has and nothing calls, here on the same directory: whether it is there, and
  writing a text file into it.\<close>

definition CheckFolderExist :: "world \<Rightarrow> bool" where
  "CheckFolderExist w \<longleftrightarrow> certs w \<noteq> None"

definition WriteTextFile :: "string \<Rightarrow> string \<Rightarrow> string option go" where
  "WriteTextFile contents name = reading (\<lambda>w. (is_nil (certs w), cert_write_error (env w) name)) (\<lambda>(missing, err).
     if missing \<or> err \<noteq> None then crash_with (Fatal ''Failed to write tls config'')
     else thn (modify (\<lambda>w. w\<lparr>certs := put (certs w) name contents\<rparr>)) (ret None))"

section \<open>Certificates\<close>

text \<open>730 days, in nanoseconds.\<close>

definition certTemplate :: "string \<Rightarrow> (string + CertTemplate) go" where
  "certTemplate site = reading (\<lambda>w. (rand_serial (env w) site, now (env w))) (\<lambda>(serial, t). ret (case serial of
     Inl err \<Rightarrow> Inl (''failed to generate serial number: '' @ err)
   | Inr n \<Rightarrow> Inr \<lparr>SerialNumber = n, Organization = ''PulseHA'', NotBefore = t,
       NotAfter = t + 730 * 24 * 3600 * 1000000000, IsCA = False, CertSign = False, DigitalSignature = False,
       ServerAuth = False, ClientAuth = False, IPAddress = ''''\<rparr>))"

text \<open>\<^verbatim>\<open>createCert\<close>: the certificate is DER encoded, parsed again and PEM encoded. The public key is
  named by the private key that it belongs to.\<close>

definition createCert :: "CertTemplate \<Rightarrow> string \<Rightarrow> string \<Rightarrow> string \<Rightarrow> (string + string) go" where
  "createCert template parent pub parentPriv =
     reading (\<lambda>w. (create_cert (env w) template parent pub parentPriv, pem_encode_cert (env w))) (\<lambda>(der, pem).
       ret (map_sum id pem der))"

text \<open>Both generators: a fresh key, a template that is filled in, a certificate signed by the parent (a
  root signs itself, \<open>None\<close>), and two files.\<close>

definition generate :: "string \<Rightarrow> (CertTemplate \<Rightarrow> CertTemplate) \<Rightarrow> (string \<times> string) option \<Rightarrow> string \<Rightarrow> unit go" where
  "generate site fill parent fileName =
     thn CreateFolder
    (reading (\<lambda>w. rsa_generate (env w) site) (\<lambda>key. case key of
       Inl err \<Rightarrow> crash_with (Fatal (''generating random key: '' @ err))
     | Inr key \<Rightarrow> bnd (certTemplate site) (\<lambda>tmpl. case tmpl of
         Inl err \<Rightarrow> crash_with (Fatal (''creating cert template: '' @ err))
       | Inr tmpl \<Rightarrow> bnd (case parent of
             None \<Rightarrow> createCert (fill tmpl) '''' key key
           | Some (caCert, caKey) \<Rightarrow> createCert (fill tmpl) caCert key caKey) (\<lambda>cert. case cert of
           Inl err \<Rightarrow> crash_with (Fatal (''error creating cert: '' @ err))
         | Inr pem \<Rightarrow> thn (WriteCertFile fileName pem) (WriteKeyFileFromRSAKey fileName key)))))"

definition GenerateCACert :: "string \<Rightarrow> unit go" where
  "GenerateCACert ip = generate ''GenerateCACert''
     (\<lambda>t. t\<lparr>IsCA := True, CertSign := True, DigitalSignature := True, ServerAuth := True, ClientAuth := True, IPAddress := ip\<rparr>)
     None ''ca''"

definition GenerateCerts :: "string \<Rightarrow> string \<Rightarrow> string \<Rightarrow> unit go" where
  "GenerateCerts ip caCert caKey = generate ''GenerateCerts''
     (\<lambda>t. t\<lparr>DigitalSignature := True, ServerAuth := True, IPAddress := ip\<rparr>) (Some (caCert, caKey)) ''pulseha''"

text \<open>\<^verbatim>\<open>GenTLSKeys\<close>. A file without a PEM block gives a nil block, which is dereferenced.\<close>

definition sign_with :: "string \<Rightarrow> string \<Rightarrow> string \<Rightarrow> unit go" where
  "sign_with ip caCert caKey = reading (\<lambda>w. (pem_cert (env w) caCert, pem_key (env w) caKey)) (\<lambda>(cpb, kpb).
     case cpb of
       None \<Rightarrow> crash_with NilDeref
     | Some (Inl err) \<Rightarrow> crash_with (Fatal (''parsex509:'' @ err))
     | Some (Inr cert) \<Rightarrow> (case kpb of
         None \<Rightarrow> crash_with NilDeref
       | Some (Inl err) \<Rightarrow> crash_with (Fatal (''parsekey:'' @ err))
       | Some (Inr key) \<Rightarrow> GenerateCerts ip cert key))"

definition GenTLSKeys :: "string \<Rightarrow> string option go" where
  "GenTLSKeys ip =
     thn CreateFolder
    (reading (\<lambda>w. (CheckFileExists w ''ca.crt'' \<and> CheckFileExists w ''ca.key'', LoadFile w ''ca.crt'', LoadFile w ''ca.key''))
       (\<lambda>(exist, cert, key).
        if \<not> exist then ret (Some ''unable to generate TLS keys as ca.crt/ca.key are missing'')
        else case cert of
          Inl err \<Rightarrow> ret (Some err)
        | Inr caCert \<Rightarrow> (case key of
            Inl err \<Rightarrow> ret (Some err)
          | Inr caKey \<Rightarrow>
              if caKey = [] \<or> caCert = [] then ret (Some ''invalid ca.cert ca.key values'')
              else thn (sign_with ip caCert caKey) (ret None))))"

text \<open>What \<^verbatim>\<open>Client.Connect\<close> loads.\<close>

definition load_tls :: "world \<Rightarrow> tls_files" where
  "load_tls w = (case read_cert w ''pulseha.crt'' of
     Inl err \<Rightarrow> KeyPairError err
   | Inr crt \<Rightarrow> (case read_cert w ''pulseha.key'' of
       Inl err \<Rightarrow> KeyPairError err
     | Inr key \<Rightarrow> (case x509_key_pair (env w) crt key of
         Some err \<Rightarrow> KeyPairError err
       | None \<Rightarrow> (case read_cert w ''ca.crt'' of
           Inl err \<Rightarrow> CaReadError err
         | Inr ca \<Rightarrow> if append_certs (env w) ca then TlsFilesOk else CaParseError))))"

section \<open>Tokens\<close>

definition GenerateSHA256Hash :: "Env \<Rightarrow> string \<Rightarrow> string" where
  "GenerateSHA256Hash e str = sha256_hex e str"

definition SHA256StringValidation :: "Env \<Rightarrow> string \<Rightarrow> string \<Rightarrow> bool" where
  "SHA256StringValidation e str strHash \<longleftrightarrow> strHash = GenerateSHA256Hash e str"

text \<open>\<^verbatim>\<open>fmt.Sprintf("%X", b)\<close>: two upper case digits for each byte.\<close>

definition hex_digit :: "nat \<Rightarrow> char" where
  "hex_digit n = ''0123456789ABCDEF'' ! n"

definition hex_upper :: "string \<Rightarrow> string" where
  "hex_upper b = concat (map (\<lambda>c. [hex_digit (of_char c div 16), hex_digit (of_char c mod 16)]) b)"

definition generateRandomString :: "nat \<Rightarrow> string go" where
  "generateRandomString n = reading (\<lambda>w. random_bytes (env w) n) (\<lambda>b. case b of
     Inl err \<Rightarrow> crash_with (Panic err)
   | Inr b \<Rightarrow> ret (hex_upper b))"

section \<open>What is left in the directory\<close>

text \<open>What was written is loaded again, and files of other names are as they were.\<close>

lemma WriteTextFile_LoadFile:
  assumes "CheckFolderExist w" and "cert_write_error (env w) name = None" and "cert_read_error (env w) name = None"
  shows "\<exists>v. WriteTextFile contents name w = Ret None v \<and> CheckFileExists v name \<and> LoadFile v name = Inr contents \<and>
    (\<forall>m. m \<noteq> name \<longrightarrow> LoadFile v m = LoadFile w m)"
proof -
  have "\<not> is_nil (certs w)" using assms(1) by (simp add: CheckFolderExist_def is_nil_def)
  with assms(2,3) show ?thesis
    by (simp add: WriteTextFile_def CheckFileExists_def LoadFile_def read_cert_def lookup_put cong: option.case_cong)
qed

lemma load_tls_cong:
  assumes "certs v = certs w" and "cert_read_error (env v) = cert_read_error (env w)"
    and "x509_key_pair (env v) = x509_key_pair (env w)" and "append_certs (env v) = append_certs (env w)"
  shows "load_tls v = load_tls w"
  unfolding load_tls_def read_cert_def assms ..

lemma load_tls_frame [simp]:
  "load_tls (w\<lparr>trace := t\<rparr>) = load_tls w" "load_tls (w\<lparr>heap := h\<rparr>) = load_tls w"
  "load_tls (w\<lparr>Members := ms\<rparr>) = load_tls w" "load_tls (w\<lparr>ml_lock := b\<rparr>) = load_tls w"
  "load_tls (w\<lparr>cfg_lock := b\<rparr>) = load_tls w" "load_tls (w\<lparr>DBConfig := c\<rparr>) = load_tls w"
  "load_tls (w\<lparr>disk := d\<rparr>) = load_tls w" "load_tls (w\<lparr>StartDelay := b\<rparr>) = load_tls w"
  "load_tls (w\<lparr>StartInterval := i\<rparr>) = load_tls w" "load_tls (w\<lparr>ServerRunning := b\<rparr>) = load_tls w"
  "load_tls (w\<lparr>modules := p\<rparr>) = load_tls w"
  by (rule load_tls_cong; simp)+

lemma load_tls_update_member [simp]: "load_tls (update_member r f w) = load_tls w"
  by (rule load_tls_cong) simp_all


lemma load_tls_env [simp]:
  "load_tls (w\<lparr>env := e\<lparr>now := t\<rparr>\<rparr>) = load_tls (w\<lparr>env := e\<rparr>)"
  "load_tls (w\<lparr>env := e\<lparr>link_state := l\<rparr>\<rparr>) = load_tls (w\<lparr>env := e\<rparr>)"
  "env w = e \<Longrightarrow> load_tls (w\<lparr>env := e\<rparr>) = load_tls w"
  by (rule load_tls_cong; simp)+


lemma load_tls_ex [simp]
: "load_tls ex_world = TlsFilesOk" "load_tls ex_standby = TlsFilesOk"
  by (simp_all add: load_tls_def read_cert_def lookup_def)

end
