(* ===== verification/Comms.thy ===== *)
theory Comms
  imports Plugins Registry Certs
begin

text \<open>
  How a daemon talks to the others: \<^verbatim>\<open>packages/client\<close> (connect, close, send), the accessors
  of \<^verbatim>\<open>Member\<close>, \<^verbatim>\<open>Member.Connect\<close>, \<^verbatim>\<open>MemberList.Broadcast\<close>, \<^verbatim>\<open>packages/logging\<close> and
  \<^verbatim>\<open>InformMLSChange\<close>. The distributed logger broadcasts every warning, notice and error to all
  members, so it needs the mutex of the member list. Its level is INFO from its construction on,
  so \<^verbatim>\<open>Debug\<close> does nothing; calls of it, and calls of the process-local logger, are left out
  of the models of their callers.
\<close>

section \<open>The client\<close>

definition newClient :: Client where
  "newClient = \<lparr>Connection = None, Requester = False\<rparr>"

text \<open>
  In the TLS branch \<^verbatim>\<open>peerCert, err := \<dots>\<close> declares a new \<^verbatim>\<open>err\<close>, which hides the one that is
  tested after the branch: the error of \<^verbatim>\<open>grpc.Dial\<close> is lost there.
\<close>

definition Client_Connect ::
  "world \<Rightarrow> string \<Rightarrow> string \<Rightarrow> bool \<Rightarrow> Client \<Rightarrow> string option \<times> Client" where
  "Client_Connect w ip port tlsEnabled c =
     (let dialled = dial (env w) (trace w) (ip @ '':'' @ port);
          conn = (case dialled of None \<Rightarrow> Some Opened | Some _ \<Rightarrow> None)
      in if tlsEnabled
         then (case load_tls w of
                 KeyPairError err \<Rightarrow> (Some (''Could not connect to host: '' @ err), c)
               | CaReadError err \<Rightarrow> (Some (''Could not connect to host: '' @ err), c)
               | CaParseError \<Rightarrow> (Some ''failed to append ca certs'', c)
               | TlsFilesOk \<Rightarrow> (None, c\<lparr>Connection := conn, Requester := True\<rparr>))
         else (case dialled of
                 Some err \<Rightarrow> (Some (''Could not connect to host: '' @ err), c\<lparr>Connection := conn\<rparr>)
               | None \<Rightarrow> (None, c\<lparr>Connection := conn, Requester := True\<rparr>)))"

definition Client_Close :: "Client \<Rightarrow> Client" where
  "Client_Close c = (case Connection c of None \<Rightarrow> c | Some _ \<Rightarrow> c\<lparr>Connection := Some Closed\<rparr>)"

definition GetState :: "Env \<Rightarrow> effect list \<Rightarrow> string \<Rightarrow> conn \<Rightarrow> connectivity" where
  "GetState e tr host c = (case c of Closed \<Rightarrow> Shutdown | Opened \<Rightarrow> Live (link_state e tr host))"

text \<open>\<^verbatim>\<open>Client.Send\<close> to the daemon on \<open>host\<close>: the argument must have the type that the called
  function asserts; a client that was never connected has no requester, and a requester over a
  nil connection is dereferenced; a closed connection refuses the call.\<close>

definition Client_Send :: "string \<Rightarrow> ProtoFunction \<Rightarrow> request \<Rightarrow> Client \<Rightarrow> (string + response) go" where
  "Client_Send host funcName data c =
     (if GetProtoFunc data \<noteq> Some funcName then crash_with TypeAssertion
      else if \<not> Requester c then crash_with NilDeref
      else (case Connection c of
              None \<Rightarrow> crash_with NilDeref
            | Some Closed \<Rightarrow> ret (Inl ''grpc: the client connection is closing'')
            | Some Opened \<Rightarrow>
                reading (\<lambda>w. rpc_result (env w) (trace w) host data) (\<lambda>res.
                thn (emit (SentRpc host data)) (ret res))))"

section \<open>Members\<close>

definition zeroMember :: Member where
  "zeroMember = \<lparr>Hostname = '''', Status = ACTIVE, LastHCResponse = 0, Latency = '''',
     HCBusy = False, Score = 0, MemberClient = None\<rparr>"

definition InformMLSChange :: "unit go" where
  "InformMLSChange =
     reading (\<lambda>w. (GetGeneralPlugins (modules w), members w)) (\<lambda>(plugins, safeMemberList).
       for_each plugins (\<lambda>p. emit (StatusChange (PluginName p) safeMemberList)))"

definition SetHCBusy :: "nat \<Rightarrow> bool \<Rightarrow> unit go" where
  "SetHCBusy r busy = modify (update_member r (\<lambda>m. m\<lparr>HCBusy := busy\<rparr>))"

definition SetLatency :: "nat \<Rightarrow> string \<Rightarrow> unit go" where
  "SetLatency r latency = modify (update_member r (\<lambda>m. m\<lparr>Latency := latency\<rparr>))"

definition SetScore :: "nat \<Rightarrow> int \<Rightarrow> unit go" where
  "SetScore r score = modify (update_member r (\<lambda>m. m\<lparr>Score := score\<rparr>))"

definition SetLastHCResponse :: "nat \<Rightarrow> int \<Rightarrow> unit go" where
  "SetLastHCResponse r t = modify (update_member r (\<lambda>m. m\<lparr>LastHCResponse := t\<rparr>))"

definition SetStatus :: "nat \<Rightarrow> Status \<Rightarrow> unit go" where
  "SetStatus r status =
     thn (modify (update_member r (\<lambda>m. m\<lparr>Status := status\<rparr>))) InformMLSChange"

definition SetClient :: "nat \<Rightarrow> Client \<Rightarrow> unit go" where
  "SetClient r c = modify (update_member r (\<lambda>m. m\<lparr>MemberClient := Some c\<rparr>))"

text \<open>The fields promoted from \<^verbatim>\<open>*client.Client\<close> are read through a pointer that may be nil.\<close>

definition with_client :: "nat \<Rightarrow> (Client \<Rightarrow> 'a go) \<Rightarrow> 'a go" where
  "with_client r k = reading (\<lambda>w. MemberClient (member w r)) (\<lambda>c.
     case c of None \<Rightarrow> crash_with NilDeref | Some c \<Rightarrow> k c)"

text \<open>\<^verbatim>\<open>Member.Connect\<close>. The error of \<^verbatim>\<open>nodeGetByHostname\<close> is dropped: an unknown host name
  dials the address \<^verbatim>\<open>":"\<close>.\<close>

definition Connect :: "nat \<Rightarrow> string option go" where
  "Connect r =
     with_client r (\<lambda>c.
       if Connection c = None \<or> Connection c = Some Closed
       then reading (\<lambda>w. let node = (case nodeGetByHostname (order_at w ''Connect'') (DBConfig w)
                                         (Hostname (member w r)) of
                                       Inl _ \<Rightarrow> zeroNode | Inr (_, node) \<Rightarrow> node)
                          in Client_Connect w (IP node) (Port node) True c)

            (\<lambda>(err, c'). thn (SetClient r c') (ret err))
       else ret None)"

definition Close :: "nat \<Rightarrow> unit go" where
  "Close r = with_client r (\<lambda>c. SetClient r (Client_Close c))"

definition Send :: "nat \<Rightarrow> ProtoFunction \<Rightarrow> request \<Rightarrow> (string + response) go" where
  "Send r funcName data =
     with_client r (\<lambda>c. reading (\<lambda>w. Hostname (member w r)) (\<lambda>host. Client_Send host funcName data c))"

section \<open>Broadcast and the distributed log\<close>

definition broadcast_one :: "ProtoFunction \<Rightarrow> request \<Rightarrow> nat \<Rightarrow> string list go" where
  "broadcast_one funcName data r =
     reading (\<lambda>w. (GetHostname (hostname_cmd (env w)), Hostname (member w r))) (\<lambda>(local, host).
       case local of
         Inl _ \<Rightarrow> ret [''unable to broadcast as unable to get local hostname'']
       | Inr hostname \<Rightarrow>
           if host = hostname then ret []
           else bnd (Connect r) (\<lambda>err. case err of
                  Some e \<Rightarrow> ret [e]
                | None \<Rightarrow> bnd (Send r funcName data) (\<lambda>res. case res of
                    Inl e \<Rightarrow> ret [e]
                  | Inr _ \<Rightarrow> ret [])))"

definition Broadcast :: "ProtoFunction \<Rightarrow> request \<Rightarrow> string list go" where
  "Broadcast funcName data =
     locked_ml (reading Members (\<lambda>ms. for_collect ms (broadcast_one funcName data)))"

definition log_send :: "string \<Rightarrow> Level \<Rightarrow> unit go" where
  "log_send message level =
     reading LogHostname (\<lambda>h.
       thn (Broadcast SendLogs (ReqLogs \<lparr>LogMessage = message, LogNode = h, LogLevel = level\<rparr>)) skip)"

definition Logging_Warn :: "string \<Rightarrow> unit go" where
  "Logging_Warn message = thn (emit (Logged WARNING message)) (log_send message WARNING)"

definition Logging_Info :: "string \<Rightarrow> unit go" where
  "Logging_Info message = thn (emit (Logged INFO message)) (log_send message INFO)"

definition Logging_Error :: "string \<Rightarrow> unit go" where
  "Logging_Error message = thn (emit (Logged ERROR message)) (log_send message ERROR)"

text \<open>The level of a logger is what \<^verbatim>\<open>NewLogger\<close> gave it and is never changed, so that \<^verbatim>\<open>Debug\<close> does nothing; the
  calls of it are left out of the model for this reason.\<close>

definition logger_level :: Level where
  "logger_level = INFO"

definition Logging_Debug :: "string \<Rightarrow> unit go" where
  "Logging_Debug message = (if logger_level = DEBUG then thn (emit (Logged DEBUG message)) (log_send message DEBUG) else skip)"

lemma Logging_Debug_skip: "Logging_Debug message = skip"
  by (simp add: Logging_Debug_def logger_level_def)

lemmas setter_defs = SetHCBusy_def SetLatency_def SetScore_def SetLastHCResponse_def SetClient_def

section \<open>Communication changes clients and the trace, nothing else\<close>

lemma core_SetClient [simp]:
  "core (update_member r (\<lambda>m. m\<lparr>MemberClient := Some c\<rparr>) w) = core w"
  using core_client [of r "\<lambda>_. Some c" w] by simp

lemma safe_core_Client_Send:
  "(\<And>w t. I w \<Longrightarrow> I (w\<lparr>trace := t\<rparr>)) \<Longrightarrow> C NilDeref \<Longrightarrow> C TypeAssertion \<Longrightarrow>
     safe I C (Client_Send host f d c)"
  unfolding Client_Send_def
  by (auto intro!: safe_intro split: option.split conn.split)

lemma safe_with_client:
  "C NilDeref \<Longrightarrow> (\<And>c. safe I C (k c)) \<Longrightarrow> safe I C (with_client r k)"
  unfolding with_client_def by (auto intro!: safe_intro)

text \<open>What it takes of a property to be kept by every communication: clients and the trace
  must not matter. The locale of core properties provides it.\<close>

context core_property
begin

lemma keeps_client: "I w \<Longrightarrow> I (update_member r (\<lambda>m. m\<lparr>MemberClient := Some c\<rparr>) w)"
  by (rule core_only [of _ w]) simp_all

lemma keeps_SetClient: "safe I C (SetClient r c)"
  unfolding SetClient_def by (rule safe_modify) (rule keeps_client)

lemma keeps_Connect: "C NilDeref \<Longrightarrow> safe I C (Connect r)"
  unfolding Connect_def by (auto intro!: safe_intro safe_with_client keeps_SetClient)

lemma keeps_Close: "C NilDeref \<Longrightarrow> safe I C (Close r)"
  unfolding Close_def by (auto intro!: safe_intro safe_with_client keeps_SetClient)

lemma keeps_Send: "C NilDeref \<Longrightarrow> C TypeAssertion \<Longrightarrow> safe I C (Send r f d)"
  unfolding Send_def
  by (auto intro!: safe_intro safe_with_client safe_core_Client_Send keeps_trace)

lemma keeps_broadcast_one:
  "C NilDeref \<Longrightarrow> C TypeAssertion \<Longrightarrow> safe I C (broadcast_one f d r)"
  unfolding broadcast_one_def by (auto intro!: safe_intro keeps_Connect keeps_Send)

lemma keeps_InformMLSChange: "safe I C InformMLSChange"
  unfolding InformMLSChange_def by (auto intro!: safe_intro keeps_emit)

end

interpretation core_eq: core_property "\<lambda>w. core w = c" for c
  by unfold_locales simp

lemma quiet_Connect: "quiet (Connect r)"
  unfolding quiet_def by (blast intro: core_eq.keeps_Connect)

lemma quiet_Send: "quiet (Send r f d)"
  unfolding quiet_def by (blast intro: core_eq.keeps_Send)

lemma quiet_InformMLSChange: "quiet InformMLSChange"
  unfolding quiet_def by (blast intro: core_eq.keeps_InformMLSChange)

text \<open>A body that keeps the core, run between \<^verbatim>\<open>Lock\<close> and \<^verbatim>\<open>Unlock\<close>, keeps it.\<close>

lemma core_ml_lock: "core (w\<lparr>ml_lock := b\<rparr>) = (core w)\<lparr>ml_lock := b\<rparr>"
  by (simp add: core_def)

lemma quiet_locked_ml:
  assumes "quiet body"
  shows "quiet (locked_ml body)"
proof (rule quietI)
  fix w x v assume "locked_ml body w = Ret x v"
  then obtain u where l: "\<not> ml_lock w" and b: "body (w\<lparr>ml_lock := True\<rparr>) = Ret x u"
      and v: "v = u\<lparr>ml_lock := False\<rparr>" by (auto simp: locked_ml_Ret)
  from quietD [OF assms b] have "core u = (core w)\<lparr>ml_lock := True\<rparr>" by (simp add: core_ml_lock)
  then have "core v = (core w)\<lparr>ml_lock := False\<rparr>" by (simp add: v core_ml_lock)
  also have "\<dots> = core (w\<lparr>ml_lock := ml_lock w\<rparr>)" using l by (simp only: core_ml_lock)
  finally show "core v = core w" by simp
qed

lemma quiet_Broadcast: "quiet (Broadcast f d)"
  unfolding Broadcast_def
  by (rule quiet_locked_ml)
    (auto simp: quiet_def intro!: safe_intro core_eq.keeps_broadcast_one)

lemma quiet_log_send: "quiet (log_send m l)"
  using quiet_Broadcast unfolding quiet_def log_send_def by (auto intro!: safe_intro)

lemma quiet_emit: "quiet (emit e)"
  unfolding quiet_def by (blast intro: core_eq.keeps_emit)

lemma quiet_Logging: "quiet (Logging_Warn m)" "quiet (Logging_Info m)" "quiet (Logging_Error m)"
  using quiet_log_send quiet_emit
  unfolding quiet_def Logging_Warn_def Logging_Info_def Logging_Error_def
  by (auto intro!: safe_intro)

text \<open>No communication deadlocks when the member list is not locked.\<close>

lemma inv_Broadcast: "safe (inv False cfg) not_deadlock (Broadcast f d)"
  unfolding Broadcast_def
  by (rule locked_ml_safe) (auto intro!: safe_intro inv.keeps_broadcast_one)

lemma inv_Logging:
  "safe (inv False cfg) not_deadlock (Logging_Warn m)"
  "safe (inv False cfg) not_deadlock (Logging_Info m)"
  "safe (inv False cfg) not_deadlock (Logging_Error m)"
  unfolding Logging_Warn_def Logging_Info_def Logging_Error_def log_send_def
  by (auto intro!: safe_intro inv.keeps_emit inv_Broadcast)

section \<open>What is added to the trace\<close>

text \<open>\<open>only_added P t w\<close>: the trace of \<open>w\<close> is \<open>t\<close> and then entries that satisfy \<open>P\<close>. Logging adds
  log entries only.\<close>

definition only_added :: "(effect \<Rightarrow> bool) \<Rightarrow> effect list \<Rightarrow> world \<Rightarrow> bool" where
  "only_added P t w \<longleftrightarrow> (\<exists>l. trace w = t @ l \<and> list_all P l)"

fun log_entry :: "effect \<Rightarrow> bool" where
  "log_entry (Logged _ _) = True"
| "log_entry (SentRpc _ (ReqLogs _)) = True"
| "log_entry _ = False"

lemma only_added_refl: "only_added P (trace w) w"
  by (simp add: only_added_def)

lemma only_added_trans: "only_added P (trace u) v \<Longrightarrow> only_added P t u \<Longrightarrow> only_added P t v"
  by (auto simp: only_added_def)

lemma only_added_emit: "P e \<Longrightarrow> safe (only_added P t) C (emit e)"
  unfolding emit_def by (rule safe_modify) (auto simp: only_added_def)

lemma only_added_frame:
  "only_added P t w \<Longrightarrow> only_added P t (w\<lparr>ml_lock := b\<rparr>)" "only_added P t w \<Longrightarrow> only_added P t (update_member r f w)"
  by (simp_all add: only_added_def)

lemma only_added_locked_ml: "safe (only_added P t) any_crash body \<Longrightarrow> safe (only_added P t) any_crash (locked_ml body)"
  unfolding locked_ml_def lock_ml_def unlock_ml_def by (intro safe_intro) (auto intro: only_added_frame)

lemma only_added_Connect: "safe (only_added P t) any_crash (Connect r)"
  unfolding Connect_def with_client_def SetClient_def by (intro safe_intro) (auto intro: only_added_frame)

lemma only_added_Client_Send: "P (SentRpc host data) \<Longrightarrow> safe (only_added P t) any_crash (Client_Send host f data c)"
  unfolding Client_Send_def by (auto intro!: safe_intro only_added_emit split: option.split conn.split)

lemma only_added_log_send: "(\<And>e. log_entry e \<Longrightarrow> P e) \<Longrightarrow> safe (only_added P t) any_crash (log_send m l)"
  unfolding log_send_def Broadcast_def broadcast_one_def Send_def with_client_def
  by (intro safe_intro only_added_locked_ml only_added_Connect only_added_Client_Send) simp_all

lemma only_added_Logging:
  assumes "\<And>e. log_entry e \<Longrightarrow> P e"
  shows "safe (only_added P t) any_crash (Logging_Warn m)" "safe (only_added P t) any_crash (Logging_Info m)"
    "safe (only_added P t) any_crash (Logging_Error m)"
  unfolding Logging_Warn_def Logging_Info_def Logging_Error_def
  by (intro safe_intro only_added_emit only_added_log_send assms; simp)+

end
