(* ===== verification/ConfigStore.thy ===== *)
theory ConfigStore

  imports Comms
begin

text \<open>
  The operations of \<^verbatim>\<open>packages/config/config.go\<close> that read or write \<^verbatim>\<open>config.json\<close>, and
  \<^verbatim>\<open>Database.SetConfig\<close>. The file holds the JSON document of the config that was written;
  whether a write fails is an answer of the surroundings.
\<close>

section \<open>Operations\<close>

definition write_config :: "Config \<Rightarrow> string option go" where
  "write_config c =
     reading (\<lambda>w. write_error (env w)) (\<lambda>e. case e of
       Some err \<Rightarrow> ret (Some err)
     | None \<Rightarrow> thn (modify (\<lambda>w. w\<lparr>disk := ConfigFile (Valid c)\<rparr>))
                (thn (emit (WroteConfig c)) (ret None)))"

definition Save :: "string option go" where
  "Save =
     locked_cfg (reading (\<lambda>w. Validate (hostname_cmd (env w)) (DBConfig w)) (\<lambda>err. case err of
       Some e \<Rightarrow> ret (Some e)
     | None \<Rightarrow> reading DBConfig write_config))"

definition SaveDefaultLocalConfig :: "string option go" where
  "SaveDefaultLocalConfig =
     thn (modify (\<lambda>w. w\<lparr>DBConfig := defaultConfig\<rparr>)) (write_config defaultConfig)"

definition Load_config :: "string option go" where
  "Load_config =
     locked_cfg (reading disk (\<lambda>d. case d of
       Unreadable err \<Rightarrow> crash_with (Fatal (''Error reading config file: '' @ err))
     | NoFile \<Rightarrow> bnd SaveDefaultLocalConfig (\<lambda>err. case err of
           Some _ \<Rightarrow> crash_with (Fatal ''unable to load PulseHA config'')
         | None \<Rightarrow> ret None)
     | ConfigFile doc \<Rightarrow> reading (\<lambda>w. unmarshal_into doc (DBConfig w)) (\<lambda>res. case res of
           Inl err \<Rightarrow> crash_with (Fatal (''Unable to unmarshal config: '' @ err))
         | Inr c \<Rightarrow> thn (modify (\<lambda>w. w\<lparr>DBConfig := c\<rparr>))
             (reading (\<lambda>w. Validate (hostname_cmd (env w)) c) (\<lambda>err. case err of
                Some e \<Rightarrow> crash_with (Fatal e)
              | None \<Rightarrow> ret None)))))"

text \<open>\<^verbatim>\<open>Reload\<close> panics on an error of \<^verbatim>\<open>Load\<close>, which has none left to return.\<close>

definition Reload_config :: "unit go" where
  "Reload_config = bnd Load_config (\<lambda>err. case err of
     Some e \<Rightarrow> crash_with (Panic e) | None \<Rightarrow> skip)"

definition UpdateValue :: "string \<Rightarrow> string \<Rightarrow> string option go" where
  "UpdateValue key val =
     reading (\<lambda>w. setLocalField key val (Pulse (DBConfig w))) (\<lambda>res. case res of
       Inl err \<Rightarrow> ret (Some err)
     | Inr l \<Rightarrow> thn (modify (set_config (\<lambda>c. c\<lparr>Pulse := l\<rparr>)))
         (reading (\<lambda>w. Validate (hostname_cmd (env w)) (DBConfig w)) (\<lambda>err. case err of
            Some _ \<Rightarrow> ret (Some ''invalid configuration value'')
          | None \<Rightarrow> Save)))"

definition SetConfig :: "Config \<Rightarrow> unit go" where
  "SetConfig c = locked_cfg (modify (\<lambda>w. w\<lparr>DBConfig := c\<rparr>))"

definition SetPluginConfig :: "string \<Rightarrow> plugin_value \<Rightarrow> string option go" where
  "SetPluginConfig pName data =
     reading (\<lambda>w. GetPluginConfig (DBConfig w) pName) (\<lambda>res.
     thn (case res of
            Inr _ \<Rightarrow> skip
          | Inl _ \<Rightarrow> locked_cfg (reading DBConfig (\<lambda>c.
              if is_nil (PluginConfigs c) then crash_with NilMapWrite
              else modify (set_config (\<lambda>c. c\<lparr>PluginConfigs := put (PluginConfigs c) pName data\<rparr>)))))
       (thn Save (ret None)))"

section \<open>The invariant\<close>

lemma wf_DBConfig: "wf (w\<lparr>DBConfig := c\<rparr>) \<longleftrightarrow> wf_members w \<and> wf_config c \<and> wf_disk w"
  by (simp add: wf_def)

lemma inv_DBConfig: "inv ml cfg w \<Longrightarrow> wf_config c \<Longrightarrow> inv ml cfg (w\<lparr>DBConfig := c\<rparr>)"
  by (simp add: inv_def wf_def)

lemma inv_disk: "inv ml cfg w \<Longrightarrow> wf_config c \<Longrightarrow> inv ml cfg (w\<lparr>disk := ConfigFile (Valid c)\<rparr>)"
  by (simp add: inv_def wf_def) (simp add: wf_disk_def)

lemma inv_wf_config: "inv ml cfg w \<Longrightarrow> wf_config (DBConfig w)"
  by (simp add: inv_def wf_def)

lemma inv_wf_disk: "inv ml cfg w \<Longrightarrow> disk w = ConfigFile (Valid d) \<Longrightarrow> wf_config d"
  by (simp add: inv_def wf_def wf_disk_def)

lemma inv_set_config:
  "inv ml cfg w \<Longrightarrow> wf_config (f (DBConfig w)) \<Longrightarrow> inv ml cfg (set_config f w)"
  by (simp add: set_config_def inv_DBConfig)

lemma set_config_fields [simp]:
  "DBConfig (set_config f w) = f (DBConfig w)" "Members (set_config f w) = Members w"
  "heap (set_config f w) = heap w" "modules (set_config f w) = modules w"
  "env (set_config f w) = env w" "trace (set_config f w) = trace w" "disk (set_config f w) = disk w"
  "ml_lock (set_config f w) = ml_lock w" "cfg_lock (set_config f w) = cfg_lock w"
  "members (set_config f w) = members w" "member (set_config f w) = member w"
  "StartDelay (set_config f w) = StartDelay w" "StartInterval (set_config f w) = StartInterval w"
  by (simp_all add: set_config_def)

lemma safe_case_file [safe_intro]:
  "(d = NoFile \<Longrightarrow> safe I C m) \<Longrightarrow> (\<And>e. d = Unreadable e \<Longrightarrow> safe I C (f e)) \<Longrightarrow>
   (\<And>doc. d = ConfigFile doc \<Longrightarrow> safe I C (g doc)) \<Longrightarrow>
     safe I C (case d of NoFile \<Rightarrow> m | Unreadable e \<Rightarrow> f e | ConfigFile doc \<Rightarrow> g doc)"
  by (simp split: config_file.split)

lemma inv_write_config: "wf_config c \<Longrightarrow> safe (inv ml cfg) C (write_config c)"
  unfolding write_config_def by (intro safe_intro inv.keeps_emit inv_disk)

lemma inv_Save: "safe (inv ml False) not_deadlock Save"
  unfolding Save_def
  by (intro locked_cfg_safe safe_intro inv_write_config inv_wf_config)

lemma inv_SaveDefault: "safe (inv ml cfg) C SaveDefaultLocalConfig"
  unfolding SaveDefaultLocalConfig_def
  by (intro safe_intro inv_write_config wf_config_default inv_DBConfig)

lemma unmarshal_wf: "inv ml cfg w \<Longrightarrow> unmarshal_into doc (DBConfig w) = Inr c \<Longrightarrow> wf_config c"
  by (blast intro: wf_config_unmarshal inv_wf_config)


lemma inv_Load: "safe (inv ml False) not_deadlock Load_config"
  unfolding Load_config_def
  by (intro locked_cfg_safe safe_intro inv_SaveDefault inv_DBConfig not_deadlock_simps)
    (assumption | erule (1) unmarshal_wf)+

lemma inv_Reload: "safe (inv ml False) not_deadlock Reload_config"
  unfolding Reload_config_def by (intro safe_intro inv_Load not_deadlock_simps)

lemma inv_UpdateValue: "safe (inv ml False) not_deadlock (UpdateValue key val)"
  unfolding UpdateValue_def
  by (intro safe_intro inv_Save inv_set_config) (auto dest!: inv_wf_config simp: wf_config_def)

lemma inv_SetConfig: "wf_config c \<Longrightarrow> safe (inv ml False) not_deadlock (SetConfig c)"
  unfolding SetConfig_def by (intro locked_cfg_safe safe_intro inv_DBConfig)

lemma inv_SetPluginConfig: "safe (inv ml False) not_deadlock (SetPluginConfig pName data)"
  unfolding SetPluginConfig_def
  by (intro safe_intro locked_cfg_safe inv_Save inv_set_config not_deadlock_simps)
    (auto dest!: inv_wf_config simp: wf_config_def wf_map_put)

section \<open>What is written, and reading it back\<close>

lemma Save_Ret:
  "Save w = Ret x v \<longleftrightarrow>
     \<not> cfg_lock w \<and>
     (case Validate (hostname_cmd (env w)) (DBConfig w) of
        Some e \<Rightarrow> x = Some e \<and> v = w\<lparr>cfg_lock := False\<rparr>
      | None \<Rightarrow> (case write_error (env w) of
          Some e \<Rightarrow> x = Some e \<and> v = w\<lparr>cfg_lock := False\<rparr>
        | None \<Rightarrow> x = None \<and> v = w\<lparr>cfg_lock := False, disk := ConfigFile (Valid (DBConfig w)),
              trace := trace w @ [WroteConfig (DBConfig w)]\<rparr>))"
  by (auto simp: Save_def locked_cfg_Ret write_config_def emit_def split: option.splits)

lemma Save_total: "\<not> cfg_lock w \<Longrightarrow> \<exists>x v. Save w = Ret x v"
  by (auto simp: Save_def locked_cfg_def lock_cfg_run unlock_cfg_def write_config_def emit_def
      split: option.split)

lemma Save_Ret_None:
  "Save w = Ret None v \<Longrightarrow> Validate (hostname_cmd (env w)) (DBConfig w) = None \<and>
     v = w\<lparr>cfg_lock := False, disk := ConfigFile (Valid (DBConfig w)), trace := trace w @ [WroteConfig (DBConfig w)]\<rparr>"
  by (auto simp: Save_Ret split: option.splits)

text \<open>\<^bold>\<open>C33.\<close> A save that reports success has written a config that validates, and loading the
  file afterwards succeeds. The config in memory is then the one that was saved, except that every
  plugin section that was a struct is now the value decoded from its JSON: nothing has changed
  exactly when no section was a struct that a plugin had stored.\<close>

theorem save_load_roundtrip:
  assumes "wf w" and "Save w = Ret None v"
  shows "Validate (hostname_cmd (env w)) (DBConfig w) = None \<and>
    disk v = ConfigFile (Valid (DBConfig w)) \<and>
    (\<exists>u. Load_config v = Ret None u \<and> disk u = disk v \<and>
      DBConfig u = (DBConfig w)\<lparr>PluginConfigs := decode_sections (PluginConfigs (DBConfig w))\<rparr> \<and>
      (\<forall>p. lookup (PluginConfigs (DBConfig u)) p = map_option (\<lambda>s. JsonValue (section_json s)) (lookup (PluginConfigs (DBConfig w)) p)) \<and>
      (DBConfig u = DBConfig w \<longleftrightarrow> (\<nexists>p j. lookup (PluginConfigs (DBConfig w)) p = Some (StructValue j))))"
proof -
  note v = Save_Ret_None [OF assms(2)]
  from assms(1) have wf: "wf_config (DBConfig w)" by (simp add: wf_def)
  with v have "\<exists>u. Load_config v = Ret None u \<and> DBConfig u = decoded (DBConfig w) \<and> disk u = disk v"
    by (simp add: unmarshal_saved Load_config_def locked_cfg_Ret)
  then obtain u where u: "Load_config v = Ret None u" "DBConfig u = decoded (DBConfig w)" "disk u = disk v" by blast
  have look: "lookup (PluginConfigs (DBConfig u)) p = map_option (\<lambda>s. JsonValue (section_json s)) (lookup (PluginConfigs (DBConfig w)) p)" for p
    by (simp add: u(2) lookup_decode_sections decode_section_def [abs_def])
  have "decoded (DBConfig w) = DBConfig w \<longleftrightarrow> decode_sections (PluginConfigs (DBConfig w)) = PluginConfigs (DBConfig w)"
    by (cases "DBConfig w") (simp add: decoded_def)
  also have "\<dots> \<longleftrightarrow> (\<nexists>p j. lookup (PluginConfigs (DBConfig w)) p = Some (StructValue j))"
    using wf decode_sections_same [of "PluginConfigs (DBConfig w)"]
    by (auto simp: wf_config_def) (metis plugin_value.exhaust plugin_value.distinct(1))+
  finally have same: "DBConfig u = DBConfig w \<longleftrightarrow> (\<nexists>p j. lookup (PluginConfigs (DBConfig w)) p = Some (StructValue j))"
    unfolding u(2) .
  from v have "disk v = ConfigFile (Valid (DBConfig w))" by simp
  with v u look same show ?thesis unfolding decoded_def by blast
qed

lemma ex_Save:
  "Save ex_world = Ret None (ex_world\<lparr>trace := [WroteConfig ex_config]\<rparr>)"
  by (simp add: Save_Ret Validate_ex)

text \<open>A config in which the ping plugin has just stored its default.\<close>


definition ex_section_world :: world where
  "ex_section_world = ex_world\<lparr>DBConfig := ex_config\<lparr>PluginConfigs := Some [(''PingHC'', StructValue (JObject [(''weight'', JNum 10)]))]\<rparr>\<rparr>"

theorem save_load_roundtrip_witness:
  "\<exists>v u. Save ex_section_world = Ret None v \<and> Load_config v = Ret None u \<and> DBConfig u \<noteq> DBConfig ex_section_world \<and>
     lookup (PluginConfigs (DBConfig u)) ''PingHC'' = Some (JsonValue (JObject [(''weight'', JNum 10)]))"
proof -
  have val: "Validate (hostname_cmd (env ex_section_world)) (DBConfig ex_section_world) = None"
    by (simp add: ex_section_world_def Validate_None_iff)
  then obtain v where v: "Save ex_section_world = Ret None v"
    by (simp add: Save_Ret) (simp add: ex_section_world_def)
  have "wf ex_section_world"
    using wf_ex_world by (simp add: ex_section_world_def wf_def wf_config_def wf_map_def keys_def)
  from save_load_roundtrip [OF this v] obtain u where u: "Load_config v = Ret None u"
    "lookup (PluginConfigs (DBConfig u)) ''PingHC'' = map_option (\<lambda>s. JsonValue (section_json s)) (lookup (PluginConfigs (DBConfig ex_section_world)) ''PingHC'')"
    "DBConfig u = DBConfig ex_section_world \<longleftrightarrow> (\<nexists>p j. lookup (PluginConfigs (DBConfig ex_section_world)) p = Some (StructValue j))" by blast
  have s: "lookup (PluginConfigs (DBConfig ex_section_world)) ''PingHC'' = Some (StructValue (JObject [(''weight'', JNum 10)]))"
    by (simp add: ex_section_world_def lookup_def)
  with u(3) have "DBConfig u \<noteq> DBConfig ex_section_world" by blast
  with u(1,2) s v show ?thesis by auto

qed

section \<open>The sections of plugins\<close>

definition has_section :: "Config \<Rightarrow> string \<Rightarrow> bool" where
  "has_section c pName \<longleftrightarrow> (\<exists>j. GetPluginConfig c pName = Inr j)"

definition with_section :: "Config \<Rightarrow> string \<Rightarrow> plugin_value \<Rightarrow> Config" where
  "with_section c pName data = (if has_section c pName then c else c\<lparr>PluginConfigs := put (PluginConfigs c) pName data\<rparr>)"

lemma Save_config: "\<not> cfg_lock w \<Longrightarrow> \<exists>x v. Save w = Ret x v \<and> DBConfig v = DBConfig w \<and> \<not> cfg_lock v"
proof -
  assume "\<not> cfg_lock w"
  then obtain x v where v: "Save w = Ret x v" using Save_total by blast
  then have "DBConfig v = DBConfig w \<and> \<not> cfg_lock v" by (auto simp: Save_Ret split: option.splits)
  with v show ?thesis by blast
qed

text \<open>A section that is there stays as it is, a missing one is added, and nothing else of the config
  changes; without a table of sections the write panics.\<close>

lemma SetPluginConfig_run:
  assumes "\<not> cfg_lock w" and "has_section (DBConfig w) pName \<or> \<not> is_nil (PluginConfigs (DBConfig w))"
  shows "\<exists>v. SetPluginConfig pName data w = Ret None v \<and> DBConfig v = with_section (DBConfig w) pName data \<and> \<not> cfg_lock v"
proof (cases "GetPluginConfig (DBConfig w) pName")
  case (Inr j)
  with Save_config [OF assms(1)] show ?thesis by (auto simp: SetPluginConfig_def with_section_def has_section_def)
next
  case (Inl e)
  let ?u = "set_config (\<lambda>c. c\<lparr>PluginConfigs := put (PluginConfigs c) pName data\<rparr>) w"
  have "\<not> cfg_lock (?u\<lparr>cfg_lock := False\<rparr>)" by simp
  from Save_config [OF this] assms Inl show ?thesis
    by (auto simp: SetPluginConfig_def with_section_def has_section_def locked_cfg_def lock_cfg_run unlock_cfg_def set_config_def)
qed

lemma SetPluginConfig_nil:
  assumes "\<not> cfg_lock w" and "\<not> has_section (DBConfig w) pName" and "is_nil (PluginConfigs (DBConfig w))"
  shows "SetPluginConfig pName data w = Crash NilMapWrite"
  using assms by (auto simp: SetPluginConfig_def has_section_def locked_cfg_def lock_cfg_run split: sum.split)

end
