(* ===== verification/MemberList.thy ===== *)
theory MemberList
  imports ConfigStore
begin

text \<open>
  The member list of \<^verbatim>\<open>src/pulseha/member_list.go\<close>: adding, finding and removing members,
  loading them from the config, taking over the statuses that the active node sends, syncing
  the config, and the two ways in which a new active node is chosen.
\<close>

section \<open>Operations\<close>

text \<open>A pointer that is dereferenced without a check for nil.\<close>

definition with_ref :: "nat option \<Rightarrow> (nat \<Rightarrow> 'a go) \<Rightarrow> 'a go" where
  "with_ref p k = (case p of None \<Rightarrow> crash_with NilDeref | Some r \<Rightarrow> k r)"

definition new_member :: "nat go" where
  "new_member = reading (\<lambda>w. length (heap w)) (\<lambda>r.
     thn (modify (\<lambda>w. w\<lparr>heap := heap w @ [zeroMember]\<rparr>)) (ret r))"

definition MemberExists :: "string \<Rightarrow> bool go" where
  "MemberExists hostname =
     locked_ml (reading (\<lambda>w. \<exists>r \<in> set (Members w). Hostname (member w r) = hostname) ret)"

definition SetHostname :: "nat \<Rightarrow> string \<Rightarrow> unit go" where
  "SetHostname r hostname = modify (update_member r (\<lambda>m. m\<lparr>Hostname := hostname\<rparr>))"

definition AddMember :: "string \<Rightarrow> Client \<Rightarrow> unit go" where
  "AddMember hostname c =
     bnd (MemberExists hostname) (\<lambda>exists.
       if exists then skip
       else locked_ml (bnd new_member (\<lambda>r.
              thn (SetHostname r hostname)
             (thn (SetStatus r UNAVAILABLE)
             (thn (SetClient r c)
             (thn (SetScore r 0)
                  (modify (\<lambda>w. w\<lparr>Members := Members w @ [r]\<rparr>))))))))"

text \<open>
  \<^verbatim>\<open>MemberRemoveByHostname\<close> shifts the slice it iterates over. The loop runs over the
  length \<open>n\<close> that the slice had at its start and reads the backing array \<open>arr\<close>, which each
  removal shifts in place from position \<open>i\<close> on; \<open>len\<close> is the current length of the slice.
  \<open>None\<close> is the panic of \<^verbatim>\<open>m.Members[i+1:]\<close> when \<open>i + 1\<close> is beyond the length.
\<close>

function remove_loop :: "(nat \<Rightarrow> bool) \<Rightarrow> nat \<Rightarrow> nat \<Rightarrow> nat list \<Rightarrow> nat \<Rightarrow> nat list option" where
  "remove_loop hit i n arr len =
     (if i < n
      then (if hit (arr ! i)
            then (if i + 1 \<le> len
                  then remove_loop hit (i + 1) n
                         (take i arr @ drop (i + 1) (take len arr) @ drop (len - 1) arr) (len - 1)
                  else None)
            else remove_loop hit (i + 1) n arr len)
      else Some (take len arr))"
  by pat_completeness auto
termination
  by (relation "measure (\<lambda>(hit, i, n, arr, len). n - i)") auto

declare remove_loop.simps [simp del]

definition MemberRemoveByHostname :: "string \<Rightarrow> unit go" where
  "MemberRemoveByHostname hostname =
     locked_ml (reading (\<lambda>w. remove_loop (\<lambda>r. Hostname (member w r) = hostname) 0
                          (length (Members w)) (Members w) (length (Members w))) (\<lambda>res.
       case res of
         None \<Rightarrow> crash_with OutOfRange
       | Some ms \<Rightarrow> modify (\<lambda>w. w\<lparr>Members := ms\<rparr>)))"

definition find_member :: "world \<Rightarrow> string \<Rightarrow> nat option" where
  "find_member w hostname = find (\<lambda>r. Hostname (member w r) = hostname) (Members w)"

definition GetMemberByHostname :: "string \<Rightarrow> nat option go" where
  "GetMemberByHostname hostname =
     locked_ml
       (thn (if hostname = '''' then Logging_Warn ''MemberList:GetMemberByHostname() Unable to get member by hostname as hostname is empty!'' else skip)
            (reading (\<lambda>w. find_member w hostname) ret))"

definition LoadMembers :: "unit go" where
  "LoadMembers =
     reading (\<lambda>w. range_by (order_at w ''LoadMembers'') (Nodes (DBConfig w))) (\<lambda>nodes.
       for_each nodes (\<lambda>(uid, node). AddMember (NodeHostname node) newClient))"

definition MemberList_Reload :: "unit go" where
  "MemberList_Reload = thn Reload_config LoadMembers"

definition MemberGetStatus :: "string \<Rightarrow> (string + Status) go" where
  "MemberGetStatus hostname =
     locked_ml (reading (\<lambda>w. case find_member w hostname of
         Some r \<Rightarrow> Inr (Status (member w r))
       | None \<Rightarrow> Inl (''unable to find member with hostname '' @ hostname)) ret)"

definition GetActiveMember :: "world \<Rightarrow> string \<times> nat option" where
  "GetActiveMember w =
     (case find (\<lambda>r. Status (member w r) = ACTIVE) (Members w) of
        Some r \<Rightarrow> (Hostname (member w r), Some r)
      | None \<Rightarrow> ('''', None))"

text \<open>On an error \<^verbatim>\<open>GetLocalMember\<close> returns a pointer to a fresh zero member.\<close>

definition GetLocalMember :: "(nat \<times> string option) go" where
  "GetLocalMember =
     locked_ml (reading (\<lambda>w. case GetLocalNode (DBConfig w) of
           Inl err \<Rightarrow> Inl err
         | Inr localNode \<Rightarrow>
             (case find_member w (NodeHostname localNode) of
                Some r \<Rightarrow> Inr r
              | None \<Rightarrow> Inl ''cannot get local member. Perhaps we are no longer in a cluster'')) (\<lambda>res.
       case res of
         Inr r \<Rightarrow> ret (r, None)
       | Inl err \<Rightarrow> bnd new_member (\<lambda>r. ret (r, Some err))))"

definition Reset :: "unit go" where
  "Reset = locked_ml (modify (\<lambda>w. w\<lparr>Members := []\<rparr>))"

definition SyncConfig :: "string option go" where
  "SyncConfig =
     reading DBConfig (\<lambda>c.
       thn (Broadcast SendConfigSync (ReqConfigSync \<lparr>SyncReplicated = True, SyncConfigDoc = Valid c\<rparr>))
           (ret None))"

text \<open>\<^verbatim>\<open>Update\<close>: one entry of the list that the active node sent, applied to the first local
  member of that name. A time that does not parse is the zero time.\<close>

definition update_from :: "string \<Rightarrow> MemberlistMember \<Rightarrow> nat \<Rightarrow> unit go" where
  "update_from localHostname m r =
     thn (SetStatus r (MlStatus m))
    (thn (SetLatency r (MlLatency m))
    (reading (\<lambda>w. (Hostname (member w r), parse_rfc1123 (env w) (MlLastReceived m))) (\<lambda>(host, parsed).
       thn (if host \<noteq> localHostname then SetScore r (MlScore m) else skip)
           (if MlHostname m \<noteq> localHostname
            then SetLastHCResponse r (case parsed of Some t \<Rightarrow> t | None \<Rightarrow> 0)
            else skip))))"

definition update_entry :: "string \<Rightarrow> MemberlistMember \<Rightarrow> unit go" where
  "update_entry localHostname m =
     reading (\<lambda>w. find_member w (MlHostname m)) (\<lambda>found. case found of
       Some r \<Rightarrow> update_from localHostname m r
     | None \<Rightarrow> skip)"

definition Update :: "MemberlistMember list \<Rightarrow> unit go" where
  "Update memberlist =
     locked_ml (reading (\<lambda>w. GetLocalNode (DBConfig w)) (\<lambda>localNode. case localNode of
       Inl _ \<Rightarrow> Logging_Error ''MemberList:update() Failed to find local node. Update failed.''
     | Inr node \<Rightarrow>
         for_each memberlist (update_entry (NodeHostname node))))"

definition GetNextActiveMember :: "(string + nat) go" where
  "GetNextActiveMember =
     reading (\<lambda>w. range_by (order_at w ''GetNextActiveMember'') (Nodes (DBConfig w))) (\<lambda>nodes.
     bnd (for_return nodes (\<lambda>(uid, node).
            bnd (GetMemberByHostname (NodeHostname node)) (\<lambda>m. case m of
              None \<Rightarrow> crash_with (Panic (''MemberList:getNextActiveMember() Cannot get member by hostname '' @ NodeHostname node))
            | Some r \<Rightarrow> reading (\<lambda>w. Status (member w r)) (\<lambda>st.
                ret (if st = PASSIVE then Some r else None)))))
       (\<lambda>res. ret (case res of
          Some r \<Rightarrow> Inr r
        | None \<Rightarrow> Inl ''MemberList:getNextActiveMember() No new active member found'')))"

text \<open>
  \<^verbatim>\<open>GetHighestScoreMember\<close>. \<open>all_same\<close> is its first loop, with the variable \<^verbatim>\<open>score\<close> as its
  argument: \<open>Some p\<close> is an early return of \<open>p\<close> (possibly nil), \<open>None\<close> goes on to the second
  loop with the score given beside it. \<open>best_score\<close> is the second loop.
\<close>

fun all_same :: "bool \<Rightarrow> (string \<times> Node) list \<Rightarrow> int \<Rightarrow> (nat option option \<times> int) go" where
  "all_same only [] score = ret (None, score)"
| "all_same only ((uid, node) # nodes) score =
     bnd (GetMemberByHostname (NodeHostname node)) (\<lambda>m.
       if only then ret (Some m, score)
       else with_ref m (\<lambda>r. reading (\<lambda>w. Score (member w r)) (\<lambda>sc.
              if score < 0 then all_same only nodes sc
              else if score \<noteq> sc then ret (None, - 1)
              else reading (\<lambda>w. snd (GetActiveMember w)) (\<lambda>active. ret (Some active, score)))))"

fun best_score :: "(string \<times> Node) list \<Rightarrow> int \<Rightarrow> nat option \<Rightarrow> nat option go" where
  "best_score [] score winning = ret winning"
| "best_score ((uid, node) # nodes) score winning =
     bnd (GetMemberByHostname (NodeHostname node)) (\<lambda>m. case m of
       None \<Rightarrow> crash_with (Panic (''MemberList:getNextActiveMember() Cannot get member by hostname '' @ NodeHostname node))
     | Some r \<Rightarrow> reading (\<lambda>w. Score (member w r)) (\<lambda>sc.
         if sc > score then best_score nodes sc (Some r) else best_score nodes score winning))"

definition GetHighestScoreMember :: "(string + nat option) go" where
  "GetHighestScoreMember =
     reading (\<lambda>w. (range_by (order_at w ''GetHighestScoreMember 1'') (Nodes (DBConfig w)),
                   range_by (order_at w ''GetHighestScoreMember 2'') (Nodes (DBConfig w)),
                   NodeCount (DBConfig w) = 1)) (\<lambda>(nodes1, nodes2, only).
     bnd (all_same only nodes1 (- 1)) (\<lambda>(early, score). case early of
       Some p \<Rightarrow> ret (Inr p)
     | None \<Rightarrow> bnd (best_score nodes2 score None) (\<lambda>winning. ret (case winning of
           None \<Rightarrow> Inl ''failed to find winning member''
         | Some r \<Rightarrow> Inr (Some r)))))"

section \<open>Running the lookups\<close>

lemma ml_unlocked [simp]: "\<not> ml_lock w \<Longrightarrow> w\<lparr>ml_lock := False\<rparr> = w"
  by (cases w) simp

lemma find_member_frame [simp]:
  "find_member (w\<lparr>ml_lock := b\<rparr>) = find_member w" "find_member (w\<lparr>trace := t\<rparr>) = find_member w"
  "find_member (w\<lparr>cfg_lock := b\<rparr>) = find_member w"
  by (simp_all add: find_member_def fun_eq_iff)

lemma GetActiveMember_frame [simp]:
  "GetActiveMember (w\<lparr>ml_lock := b\<rparr>) = GetActiveMember w"
  "GetActiveMember (w\<lparr>trace := t\<rparr>) = GetActiveMember w"
  "GetActiveMember (w\<lparr>cfg_lock := b\<rparr>) = GetActiveMember w"

  by (simp_all add: GetActiveMember_def cong: option.case_cong)

lemma locked_ml_reading:
  "\<not> ml_lock w \<Longrightarrow> locked_ml (reading f ret) w = Ret (f (w\<lparr>ml_lock := True\<rparr>)) w"
  by (simp add: locked_ml_Ret)

lemma MemberExists_run:
  "\<not> ml_lock w \<Longrightarrow> MemberExists h w = Ret (\<exists>r \<in> set (Members w). Hostname (member w r) = h) w"
  by (simp add: MemberExists_def locked_ml_reading)

lemma GetMemberByHostname_run:
  "\<not> ml_lock w \<Longrightarrow> h \<noteq> '''' \<Longrightarrow> GetMemberByHostname h w = Ret (find_member w h) w"
  by (simp add: GetMemberByHostname_def locked_ml_Ret)

lemma find_member_SomeD: "find_member w h = Some r \<Longrightarrow> r \<in> set (Members w) \<and> Hostname (member w r) = h"
  unfolding find_member_def by (rule find_SomeD)

lemma find_member_None: "find_member w h = None \<longleftrightarrow> h \<notin> Hostname ` set (members w)"
  by (auto simp: find_member_def find_None_iff members_def)

lemma hostname_inj:
  assumes "wf_members w" and "q \<in> set (Members w)" and "r \<in> set (Members w)"
    and "Hostname (member w q) = Hostname (member w r)"
  shows "q = r"
proof -
  from assms(1) have "inj_on (Hostname \<circ> member w) (set (Members w))"
    by (simp add: wf_members_def members_def distinct_map)
  from inj_onD [OF this _ assms(2,3)] assms(4) show ?thesis by simp
qed

lemma find_member_unique:
  "wf_members w \<Longrightarrow> r \<in> set (Members w) \<Longrightarrow> find_member w (Hostname (member w r)) = Some r"
  unfolding find_member_def by (rule find_unique) (auto intro: hostname_inj)

lemma GetActiveMember_Some:
  "GetActiveMember w = (h, Some r) \<Longrightarrow>
     r \<in> set (Members w) \<and> Status (member w r) = ACTIVE \<and> h = Hostname (member w r)"
  by (auto simp: GetActiveMember_def split: option.splits dest: find_SomeD)

lemma GetActiveMember_None:
  "snd (GetActiveMember w) = None \<longleftrightarrow> (\<forall>r \<in> set (Members w). Status (member w r) \<noteq> ACTIVE)"
  by (auto simp: GetActiveMember_def find_None_iff split: option.splits dest: find_SomeD)

text \<open>A lookup of the empty host name never returns: \<^verbatim>\<open>GetMemberByHostname\<close> warns while
  it holds the mutex of the member list, and the distributed logger locks that mutex again to
  broadcast the warning.\<close>

theorem lookup_of_empty_hostname_deadlocks:
  "GetMemberByHostname '''' w = Crash (Deadlock ''MemberList'')"
  by (simp add: GetMemberByHostname_def locked_ml_Crash Logging_Warn_def emit_def log_send_def
      Broadcast_def locked_ml_def lock_ml_run)

section \<open>The invariant\<close>

lemma wf_wf_members: "wf w \<Longrightarrow> wf_members w"
  by (simp add: wf_def)

lemma wf_new_member:
  assumes "wf_members w"
  shows "wf (w\<lparr>heap := heap w @ [m]\<rparr>) = wf w"
proof -
  from assms have "members (w\<lparr>heap := heap w @ [m]\<rparr>) = members w"
    by (auto simp: members_def member_def wf_members_def nth_append)
  with assms show ?thesis by (auto simp: wf_def wf_members_def)
qed

lemma inv_new_member: "safe (inv ml cfg) C new_member"
  unfolding new_member_def
  by (intro safe_intro) (simp add: inv_def wf_new_member wf_wf_members)

lemma inv_SetStatus: "safe (inv ml cfg) C (SetStatus r st)"
  unfolding SetStatus_def by (intro safe_intro inv.keeps_InformMLSChange) (simp add: inv_update_member)

lemma inv_setters:
  "safe (inv ml cfg) C (SetHCBusy r b)" "safe (inv ml cfg) C (SetLatency r l)"
  "safe (inv ml cfg) C (SetScore r sc)" "safe (inv ml cfg) C (SetLastHCResponse r t)"
  unfolding setter_defs by (intro safe_modify; simp add: inv_update_member)+

lemma inv_MemberExists: "safe (inv False cfg) C (MemberExists h)"
  unfolding MemberExists_def by (intro locked_ml_safe safe_intro)

lemma inv_GetMemberByHostname: "h \<noteq> '''' \<Longrightarrow> safe (inv False cfg) C (GetMemberByHostname h)"
  unfolding GetMemberByHostname_def by (intro locked_ml_safe safe_intro) simp_all

lemma inv_GetLocalMember: "safe (inv False cfg) C GetLocalMember"
  unfolding GetLocalMember_def by (intro locked_ml_safe safe_intro inv_new_member)

lemma inv_Reset: "safe (inv False cfg) C Reset"
  unfolding Reset_def
  by (intro locked_ml_safe safe_intro) (auto simp: inv_def wf_def wf_members_def members_def)

section \<open>Adding and removing\<close>

lemma for_each_emit: "for_each xs (\<lambda>x. emit (g x)) w = Ret () (w\<lparr>trace := trace w @ map g xs\<rparr>)"
  by (induction xs arbitrary: w) (simp_all add: emit_def)

definition status_events :: "world \<Rightarrow> effect list" where
  "status_events w = map (\<lambda>p. StatusChange (PluginName p) (members w)) (GetGeneralPlugins (modules w))"

lemma InformMLSChange_run: "InformMLSChange w = Ret () (w\<lparr>trace := trace w @ status_events w\<rparr>)"
  by (simp add: InformMLSChange_def for_each_emit status_events_def)

definition with_status :: "nat \<Rightarrow> Status \<Rightarrow> world \<Rightarrow> world" where
  "with_status r st w = update_member r (\<lambda>m. m\<lparr>Status := st\<rparr>) w"

lemma SetStatus_run:
  "SetStatus r st w = Ret () ((with_status r st w)\<lparr>trace := trace w @ status_events (with_status r st w)\<rparr>)"
  by (simp add: SetStatus_def InformMLSChange_run with_status_def)

definition newMember :: "string \<Rightarrow> Client \<Rightarrow> Member" where
  "newMember h c = zeroMember\<lparr>Hostname := h, Status := UNAVAILABLE, MemberClient := Some c\<rparr>"

lemma AddMember_run:
  assumes "\<not> ml_lock w"
  shows "AddMember h c w =
    (if \<exists>r \<in> set (Members w). Hostname (member w r) = h then Ret () w
     else Ret () (w\<lparr>heap := heap w @ [newMember h c], Members := Members w @ [length (heap w)],
       trace := trace w @ status_events (w\<lparr>heap := heap w @ [zeroMember\<lparr>Hostname := h, Status := UNAVAILABLE\<rparr>]\<rparr>)\<rparr>))"
proof -
  let ?b = "\<lambda>r. thn (SetHostname r h) (thn (SetStatus r UNAVAILABLE) (thn (SetClient r c)
             (thn (SetScore r 0) (modify (\<lambda>w. w\<lparr>Members := Members w @ [r]\<rparr>)))))"
  let ?w = "w\<lparr>heap := heap w @ [zeroMember\<lparr>Hostname := h, Status := UNAVAILABLE\<rparr>]\<rparr>"
  have "locked_ml (bnd new_member ?b) w =
     Ret () (w\<lparr>heap := heap w @ [newMember h c], Members := Members w @ [length (heap w)],
       trace := trace w @ status_events ?w\<rparr>)"
    using assms
    by (cases w) (simp add: locked_ml_Ret new_member_def SetHostname_def SetStatus_run with_status_def
        SetClient_def SetScore_def update_member_def newMember_def zeroMember_def
        status_events_def members_def member_def)
  with assms show ?thesis by (simp add: AddMember_def MemberExists_run)
qed

lemma remove_loop_none:
  "(\<And>j. i \<le> j \<Longrightarrow> j < n \<Longrightarrow> \<not> hit (arr ! j)) \<Longrightarrow> remove_loop hit i n arr len = Some (take len arr)"
proof (induction "n - i" arbitrary: i)
  case 0
  then show ?case by (simp add: remove_loop.simps)
next
  case (Suc d)
  then have "remove_loop hit (Suc i) n arr len = Some (take len arr)" by simp
  with Suc show ?case by (simp add: remove_loop.simps [of hit i])
qed

lemma remove_loop_found:
  assumes "i \<le> k" and "k < length arr" and "hit (arr ! k)"
    and "\<And>j. i \<le> j \<Longrightarrow> j < length arr \<Longrightarrow> j \<noteq> k \<Longrightarrow> \<not> hit (arr ! j)"
  shows "remove_loop hit i (length arr) arr (length arr) = Some (cut k arr)"
  using assms(1,4)
proof (induction "k - i" arbitrary: i)
  case 0
  then have k: "k = i" by simp
  let ?n = "length arr"
  let ?a = "take i arr @ drop (i + 1) arr @ drop (?n - 1) arr"
  have rest: "\<not> hit (?a ! j)" if "i + 1 \<le> j" "j < ?n" for j
  proof -
    define j' where "j' = (if j + 1 < ?n then j + 1 else ?n - 1)"
    have "?a ! j = arr ! j'"
      using that assms(2) by (auto simp: nth_append j'_def k)
    moreover have "\<not> hit (arr ! j')"
      using 0 that by (auto simp: j'_def)
    ultimately show ?thesis by simp
  qed
  have "remove_loop hit (i + 1) ?n ?a (?n - 1) = Some (take (?n - 1) ?a)"
    by (rule remove_loop_none) (rule rest)
  moreover have "take (?n - 1) ?a = cut k arr"
    using assms(2) by (simp add: cut_def k)
  ultimately show ?case using assms(2,3) by (simp add: remove_loop.simps [of hit i] k)
next
  case (Suc d)
  then have "remove_loop hit (i + 1) (length arr) arr (length arr) = Some (cut k arr)" by simp
  moreover have "\<not> hit (arr ! i)" and "i < length arr" using Suc assms(2) by auto
  ultimately show ?case by (simp add: remove_loop.simps [of hit i])
qed

lemma cut_filter:
  assumes "k < length xs" and "hit (xs ! k)"
    and "\<And>j. j < length xs \<Longrightarrow> j \<noteq> k \<Longrightarrow> \<not> hit (xs ! j)"
  shows "cut k xs = filter (\<lambda>x. \<not> hit x) xs"
proof -
  have xs: "xs = take k xs @ xs ! k # drop (Suc k) xs" using assms(1) by (rule id_take_nth_drop)
  have "\<forall>x \<in> set (take k xs). \<not> hit x" and "\<forall>x \<in> set (drop (Suc k) xs). \<not> hit x"
    using assms by (fastforce simp: in_set_conv_nth)+
  then have "filter (\<lambda>x. \<not> hit x) (take k xs) = take k xs"
    and "filter (\<lambda>x. \<not> hit x) (drop (Suc k) xs) = drop (Suc k) xs"
    by (auto simp: filter_id_conv)
  then show ?thesis using assms(2) by (subst xs) (simp add: cut_def)
qed

lemma remove_loop_filter:
  assumes "\<And>j k. j < length xs \<Longrightarrow> k < length xs \<Longrightarrow> hit (xs ! j) \<Longrightarrow> hit (xs ! k) \<Longrightarrow> j = k"
  shows "remove_loop hit 0 (length xs) xs (length xs) = Some (filter (\<lambda>x. \<not> hit x) xs)"
proof (cases "\<exists>k < length xs. hit (xs ! k)")
  case True
  then obtain k where k: "k < length xs" "hit (xs ! k)" by blast
  then have others: "\<And>j. j < length xs \<Longrightarrow> j \<noteq> k \<Longrightarrow> \<not> hit (xs ! j)" using assms by blast
  have "remove_loop hit 0 (length xs) xs (length xs) = Some (cut k xs)"
    by (rule remove_loop_found) (use k others in auto)
  moreover have "cut k xs = filter (\<lambda>x. \<not> hit x) xs"
    by (rule cut_filter) (use k others in auto)
  ultimately show ?thesis by simp
next
  case False
  then have "remove_loop hit 0 (length xs) xs (length xs) = Some (take (length xs) xs)"
    by (intro remove_loop_none) auto
  moreover have "filter (\<lambda>x. \<not> hit x) xs = xs" using False by (auto simp: filter_id_conv in_set_conv_nth)
  ultimately show ?thesis by simp
qed

lemma MemberRemove_run:
  assumes "wf_members w" and "\<not> ml_lock w"
  shows "MemberRemoveByHostname h w =
    Ret () (w\<lparr>Members := filter (\<lambda>r. Hostname (member w r) \<noteq> h) (Members w)\<rparr>)"
proof -
  let ?hit = "\<lambda>r. Hostname (member w r) = h"
  have "remove_loop ?hit 0 (length (Members w)) (Members w) (length (Members w)) =
      Some (filter (\<lambda>r. \<not> ?hit r) (Members w))"
  proof (rule remove_loop_filter)
    fix j k assume b: "j < length (Members w)" "k < length (Members w)"
      and "?hit (Members w ! j)" "?hit (Members w ! k)"
    then have "Members w ! j = Members w ! k" by (intro hostname_inj [OF assms(1)]) simp_all
    with distinct_Members [OF assms(1)] b show "j = k" by (simp add: nth_eq_iff_index_eq)
  qed
  with assms(2) show ?thesis by (simp add: MemberRemoveByHostname_def locked_ml_Ret)
qed

text \<open>\<^bold>\<open>C31.\<close> Removing a member by its host name removes exactly the members of that name and keeps
  the order of the others. The loop cuts the slice that it ranges over, so this rests on host
  names being unique in the list: the array holds a stale copy of the last address after the
  cut, and the index is in range because nothing else is cut.\<close>

theorem MemberRemoveByHostname_filter:
  assumes "wf w" and "\<not> ml_lock w"
  shows "MemberRemoveByHostname h w =
    Ret () (w\<lparr>Members := filter (\<lambda>r. Hostname (member w r) \<noteq> h) (Members w)\<rparr>)"
  using wf_wf_members [OF assms(1)] assms(2) by (rule MemberRemove_run)

theorem MemberRemoveByHostname_filter_witness:
  "MemberRemoveByHostname ''alpha'' ex_world = Ret () (ex_world\<lparr>Members := [1]\<rparr>)"
  using MemberRemoveByHostname_filter [OF wf_ex_world, of "''alpha''"]
  by (simp add: member_def)

lemma wf_members_filter: "wf_members w \<Longrightarrow> wf_members (w\<lparr>Members := filter P (Members w)\<rparr>)"
  by (auto simp: wf_members_def members_def distinct_map_filter comp_def)

lemma inv_MemberRemove: "safe (inv False cfg) C (MemberRemoveByHostname h)"
  unfolding safe_def
  by (rule partialI) (auto simp: inv_def MemberRemove_run wf_wf_members wf_def wf_disk_def intro: wf_members_filter)

subsection \<open>Loading members from the config\<close>

lemma members_add:
  assumes "wf_members w" and "h \<notin> Hostname ` set (members w)" and "v = w\<lparr>heap := heap w @ [m],
     Members := Members w @ [length (heap w)], trace := t\<rparr>" and "Hostname m = h"
  shows "members v = members w @ [m]" and "wf_members v" and "\<forall>r \<in> set (Members w). member v r = member w r"
proof -
  from assms(1) have old: "member v r = member w r" if "r \<in> set (Members w)" for r
    using that by (auto simp: assms(3) member_def wf_members_def nth_append)
  then show "\<forall>r \<in> set (Members w). member v r = member w r" by simp
  show ms: "members v = members w @ [m]" using old by (auto simp: members_def assms(3)) (simp add: member_def)
  from assms(1,2,4) have "distinct (map Hostname (members v))" by (auto simp: ms wf_members_def)
  moreover have "\<forall>r \<in> set (Members v). r < length (heap v)" using assms(1) by (auto simp: assms(3) wf_members_def)
  ultimately show "wf_members v" by (simp add: wf_members_def)
qed

text \<open>What loading may change: it appends unavailable members.\<close>

definition grown :: "world \<Rightarrow> world \<Rightarrow> bool" where
  "grown w v \<longleftrightarrow>
     (\<exists>ms. members v = members w @ ms \<and>
       (\<forall>m \<in> set ms. m = newMember (Hostname m) newClient)) \<and>
     wf_members v \<and> (\<forall>r \<in> set (Members w). r \<in> set (Members v) \<and> member v r = member w r) \<and>
     DBConfig v = DBConfig w \<and> disk v = disk w \<and> env v = env w \<and> modules v = modules w \<and>
     ml_lock v = ml_lock w \<and> cfg_lock v = cfg_lock w \<and> certs v = certs w \<and> LogHostname v = LogHostname w \<and>
     (\<exists>t. trace v = trace w @ t)"

lemma grown_refl
: "wf_members w \<Longrightarrow> grown w w"
  by (simp add: grown_def)

lemma grown_trans:
  assumes "grown u v" and "grown v w"
  shows "grown u w"
proof -
  from assms(1) obtain ms where "members v = members u @ ms" "\<forall>m \<in> set ms. m = newMember (Hostname m) newClient"
    by (auto simp: grown_def)
  moreover from assms(2) obtain ns where "members w = members v @ ns" "\<forall>m \<in> set ns. m = newMember (Hostname m) newClient"
    by (auto simp: grown_def)
  ultimately have "\<exists>ms. members w = members u @ ms \<and> (\<forall>m \<in> set ms. m = newMember (Hostname m) newClient)"
    by (intro exI [of _ "ms @ ns"]) auto
  moreover from assms have "\<exists>t. trace w = trace u @ t" by (auto simp: grown_def)
  ultimately show ?thesis using assms by (simp add: grown_def)

qed

lemma AddMember_grown:
  assumes "wf_members w" and "\<not> ml_lock w"
  shows "\<exists>v. AddMember h newClient w = Ret () v \<and> grown w v \<and>
     Hostname ` set (members v) = insert h (Hostname ` set (members w))"
proof (cases "h \<in> Hostname ` set (members w)")
  case True
  then have "AddMember h newClient w = Ret () w"
    using AddMember_run [OF assms(2)] by (auto simp: members_def)
  with True assms(1) show ?thesis by (auto simp: grown_refl)
next
  case False
  define v where "v = w\<lparr>heap := heap w @ [newMember h newClient], Members := Members w @ [length (heap w)],
     trace := trace w @ status_events (w\<lparr>heap := heap w @ [zeroMember\<lparr>Hostname := h, Status := UNAVAILABLE\<rparr>]\<rparr>)\<rparr>"
  from False have "AddMember h newClient w = Ret () v"
    using AddMember_run [OF assms(2), of h newClient] by (auto simp: members_def v_def)
  moreover note add = members_add [OF assms(1) False v_def]
  have "Hostname (newMember h newClient) = h" by (simp add: newMember_def)
  note add = add [OF this]
  from add have "grown w v" by (auto simp: grown_def newMember_def v_def)
  ultimately show ?thesis using add(1) by (auto simp: newMember_def)
qed

lemma for_each_AddMember:
  assumes "wf_members w" and "\<not> ml_lock w"
  shows "\<exists>v. for_each nodes (\<lambda>(uid, node). AddMember (NodeHostname node) newClient) w = Ret () v \<and>
    grown w v \<and> Hostname ` set (members v) = NodeHostname ` snd ` set nodes \<union> Hostname ` set (members w)"
  using assms
proof (induction nodes arbitrary: w)
  case Nil
  then show ?case by (simp add: grown_refl)
next
  case (Cons p nodes)
  obtain uid node where p: "p = (uid, node)" by (cases p)
  from AddMember_grown [OF Cons.prems] obtain u where u: "AddMember (NodeHostname node) newClient w = Ret () u"
      "grown w u" "Hostname ` set (members u) = insert (NodeHostname node) (Hostname ` set (members w))" by blast
  then have "wf_members u" and "\<not> ml_lock u" using Cons.prems by (simp_all add: grown_def)
  from Cons.IH [OF this] u show ?case by (auto simp: p intro: grown_trans)
qed

lemma LoadMembers_run:
  assumes "wf w" and "\<not> ml_lock w"
  shows "\<exists>v. LoadMembers w = Ret () v \<and> grown w v \<and>
    Hostname ` set (members v) = Hostname ` set (members w) \<union> NodeHostname ` snd ` set (entries (Nodes (DBConfig w)))"
proof -
  from assms(1) have "wf_map (Nodes (DBConfig w))" by (simp add: wf_def wf_config_def map_ok_def)
  then have "set (range_by (order_at w ''LoadMembers'') (Nodes (DBConfig w))) = set (entries (Nodes (DBConfig w)))"
    by (rule set_range_by)
  with for_each_AddMember [OF wf_wf_members [OF assms(1)] assms(2),
      of "range_by (order_at w ''LoadMembers'') (Nodes (DBConfig w))"]
  show ?thesis unfolding LoadMembers_def by (simp add: Un_commute)
qed

lemma grown_inv: "inv ml cfg w \<Longrightarrow> grown w v \<Longrightarrow> inv ml cfg v"
  by (simp add: inv_def wf_def grown_def wf_disk_def)

lemma inv_LoadMembers: "safe (inv False cfg) C LoadMembers"
  unfolding safe_def
proof (rule partialI)
  fix w x v assume i: "inv False cfg w" and "LoadMembers w = Ret x v"
  with LoadMembers_run [of w] have "grown w v" by (auto simp: inv_def)
  with i show "inv False cfg v" by (rule grown_inv)
next
  fix w c assume "inv False cfg w" and "LoadMembers w = Crash c"
  with LoadMembers_run [of w] show "C c" by (auto simp: inv_def)
qed

lemma inv_MemberList_Reload: "safe (inv False False) not_deadlock MemberList_Reload"
  unfolding MemberList_Reload_def by (intro safe_intro inv_Reload inv_LoadMembers)

text \<open>\<^bold>\<open>C28.\<close> Loading the members of the config always returns. Afterwards the list has the members
  it had, in their order and unchanged, followed by an unavailable member with score 0 for every
  configured host name that was not a member, each once.\<close>

theorem LoadMembers_spec:
  assumes "wf w" and "\<not> ml_lock w"
  shows "\<exists>v. LoadMembers w = Ret () v \<and> grown w v \<and>
    Hostname ` set (members v) = Hostname ` set (members w) \<union> NodeHostname ` snd ` set (entries (Nodes (DBConfig w)))"
  using assms by (rule LoadMembers_run)

theorem LoadMembers_spec_witness:
  "\<exists>v. LoadMembers (ex_world\<lparr>Members := [1]\<rparr>) = Ret () v \<and> grown (ex_world\<lparr>Members := [1]\<rparr>) v \<and>
    Hostname ` set (members v) = {''alpha'', ''beta''}"
proof -
  have "wf (ex_world\<lparr>Members := [1]\<rparr>)"
    using wf_ex_world by (simp add: wf_def wf_disk_def wf_members_def members_def member_def)
  from LoadMembers_spec [OF this] show ?thesis
    by (simp add: members_def member_def insert_commute)
qed

section \<open>Choosing a new active node\<close>

text \<open>Every configured node has a host name and is in the member list. Loading establishes it.\<close>

definition all_members :: "world \<Rightarrow> bool" where
  "all_members w \<longleftrightarrow> (\<forall>(uid, node) \<in> set (entries (Nodes (DBConfig w))).
     NodeHostname node \<noteq> '''' \<and> NodeHostname node \<in> Hostname ` set (members w))"

definition member_of :: "world \<Rightarrow> Node \<Rightarrow> nat" where
  "member_of w node = the (find_member w (NodeHostname node))"

lemma all_members_found:
  assumes "all_members w" and "(uid, node) \<in> set (entries (Nodes (DBConfig w)))" and "\<not> ml_lock w"
  shows "GetMemberByHostname (NodeHostname node) w = Ret (Some (member_of w node)) w"
    and "member_of w node \<in> set (Members w)" and "Hostname (member w (member_of w node)) = NodeHostname node"
proof -
  from assms(1,2) have n: "NodeHostname node \<noteq> ''''" and m: "NodeHostname node \<in> Hostname ` set (members w)"
    by (auto simp: all_members_def)
  from m obtain r where r: "find_member w (NodeHostname node) = Some r"
    using find_member_None [of w "NodeHostname node"] by auto
  then show "GetMemberByHostname (NodeHostname node) w = Ret (Some (member_of w node)) w"
    using n assms(3) by (simp add: GetMemberByHostname_run member_of_def)
  from find_member_SomeD [OF r] r show "member_of w node \<in> set (Members w)"
    and "Hostname (member w (member_of w node)) = NodeHostname node" by (simp_all add: member_of_def)
qed

lemma next_active_loop:
  assumes "all_members w" and "\<not> ml_lock w" and "set nodes \<subseteq> set (entries (Nodes (DBConfig w)))"
  shows "for_return nodes (\<lambda>(uid, node).
            bnd (GetMemberByHostname (NodeHostname node)) (\<lambda>m. case m of
              None \<Rightarrow> crash_with (Panic (''MemberList:getNextActiveMember() Cannot get member by hostname '' @ NodeHostname node))
            | Some r \<Rightarrow> reading (\<lambda>w. Status (member w r)) (\<lambda>st. ret (if st = PASSIVE then Some r else None)))) w
     = Ret (map_option (member_of w) (find (\<lambda>n. Status (member w (member_of w n)) = PASSIVE) (map snd nodes))) w"
  using assms(3)
proof (induction nodes)
  case Nil
  then show ?case by simp
next
  case (Cons p nodes)
  obtain uid node where p: "p = (uid, node)" by (cases p)
  with Cons.prems have e: "(uid, node) \<in> set (entries (Nodes (DBConfig w)))" by simp
  from Cons show ?case by (simp add: p all_members_found(1) [OF assms(1) e assms(2)])
qed

text \<open>When every configured node is a member, the search for the next active node always
  returns and changes nothing: with a member that is passive if some configured node's member is,
  and with an error exactly when none is. Whatever order Go takes for the loop over the nodes.\<close>

theorem GetNextActiveMember_spec:
  assumes "wf w" and "all_members w" and "\<not> ml_lock w"
  shows "\<exists>res. GetNextActiveMember w = Ret res w \<and>
    (case res of
       Inr r \<Rightarrow> r \<in> set (Members w) \<and> Status (member w r) = PASSIVE
     | Inl _ \<Rightarrow> (\<forall>(uid, node) \<in> set (entries (Nodes (DBConfig w))). Status (member w (member_of w node)) \<noteq> PASSIVE))"
proof -
  let ?ns = "range_by (order_at w ''GetNextActiveMember'') (Nodes (DBConfig w))"
  let ?P = "\<lambda>n. Status (member w (member_of w n)) = PASSIVE"
  from assms(1) have set_ns: "set ?ns = set (entries (Nodes (DBConfig w)))"
    by (simp add: set_range_by wf_def wf_config_def map_ok_def)
  note run = next_active_loop [OF assms(2,3), of ?ns]
  show ?thesis
  proof (cases "find ?P (map snd ?ns)")
    case None
    then have "\<forall>n \<in> snd ` set ?ns. \<not> ?P n" by (simp add: find_None_iff)
    then have "\<forall>(uid, node) \<in> set (entries (Nodes (DBConfig w))). \<not> ?P node"
      unfolding set_ns by auto
    with None run set_ns show ?thesis by (simp add: GetNextActiveMember_def)
  next
    case (Some n)
    then obtain uid where "(uid, n) \<in> set (entries (Nodes (DBConfig w)))" and "?P n"
      using set_ns by (auto dest!: find_SomeD)
    with all_members_found(2) [OF assms(2) _ assms(3)] Some run set_ns show ?thesis
      by (auto simp: GetNextActiveMember_def)
  qed
qed

lemma members_ex: "members ex_world = [ex_member ''alpha'' ACTIVE 2, ex_member ''beta'' PASSIVE 1]"
  by (simp add: members_def member_def)

lemma all_members_ex: "all_members ex_world"
  by (simp add: all_members_def members_ex)

lemma member_of_ex:
  "member_of ex_world (ex_node ''alpha'' a) = 0" "member_of ex_world (ex_node ''beta'' b) = 1"
  by (simp_all add: member_of_def find_member_def member_def)

theorem GetNextActiveMember_spec_witness:
  "\<exists>r. GetNextActiveMember ex_world = Ret (Inr r) ex_world \<and> Status (member ex_world r) = PASSIVE"
proof -
  from GetNextActiveMember_spec [OF wf_ex_world all_members_ex ex_world_fields(5)] obtain res
    where run: "GetNextActiveMember ex_world = Ret res ex_world" and res: "case res of
       Inr r \<Rightarrow> r \<in> set (Members ex_world) \<and> Status (member ex_world r) = PASSIVE
     | Inl _ \<Rightarrow> (\<forall>(uid, node) \<in> set (entries (Nodes (DBConfig ex_world))).
         Status (member ex_world (member_of ex_world node)) \<noteq> PASSIVE)" by blast
  show ?thesis
  proof (cases res)
    case (Inl e)
    with res show ?thesis by (simp add: member_of_ex member_def)
  next
    case (Inr r)
    with run res show ?thesis by simp
  qed
qed

text \<open>The choice by score: the second loop returns a node of maximal score.\<close>

lemma best_score_run:
  assumes "all_members w" and "\<not> ml_lock w" and "set nodes \<subseteq> set (entries (Nodes (DBConfig w)))"
  shows "\<exists>res. best_score nodes sc win w = Ret res w \<and>
    (case res of
       None \<Rightarrow> win = None \<and> (\<forall>(uid, n) \<in> set nodes. Score (member w (member_of w n)) \<le> sc)
     | Some r \<Rightarrow>
         (res = win \<and> (\<forall>(uid, n) \<in> set nodes. Score (member w (member_of w n)) \<le> sc)) \<or>
         (r \<in> (\<lambda>(uid, n). member_of w n) ` set nodes \<and> sc < Score (member w r) \<and>
          (\<forall>(uid, n) \<in> set nodes. Score (member w (member_of w n)) \<le> Score (member w r))))"
  using assms(3)
proof (induction nodes arbitrary: sc win)
  case Nil
  then show ?case by (simp split: option.split)
next
  case (Cons p nodes)
  obtain uid node where p: "p = (uid, node)" by (cases p)
  let ?r = "member_of w node"
  from Cons.prems p have e: "(uid, node) \<in> set (entries (Nodes (DBConfig w)))" by simp
  note get = all_members_found(1) [OF assms(1) e assms(2)]
  show ?case
  proof (cases "Score (member w ?r) > sc")
    case True
    with Cons.IH [of "Score (member w ?r)" "Some ?r"] Cons.prems show ?thesis
      by (fastforce simp: p get split: option.splits)
  next
    case False
    with Cons.IH [of sc win] Cons.prems show ?thesis
      by (fastforce simp: p get split: option.splits)
  qed
qed

definition node_score :: "world \<Rightarrow> Node \<Rightarrow> int" where
  "node_score w n = Score (member w (member_of w n))"

text \<open>What \<^verbatim>\<open>GetHighestScoreMember\<close> computes in a cluster of at least two nodes: it compares
  the first two nodes that the loop over the map happens to visit. When their scores differ it
  returns a node of maximal score of the whole cluster; when they are equal it returns the
  active member (nil if there is none), whatever the scores of the other nodes are.\<close>

theorem GetHighestScoreMember_spec:
  assumes "wf w" and "all_members w" and "\<not> ml_lock w"
    and visit: "range_by (order_at w ''GetHighestScoreMember 1'') (Nodes (DBConfig w)) = (u1, n1) # (u2, n2) # rest"
    and pos: "\<forall>(uid, n) \<in> set (entries (Nodes (DBConfig w))). 0 \<le> node_score w n"
  shows "if node_score w n1 = node_score w n2
    then GetHighestScoreMember w = Ret (Inr (snd (GetActiveMember w))) w
    else \<exists>(uid, n) \<in> set (entries (Nodes (DBConfig w))).
           GetHighestScoreMember w = Ret (Inr (Some (member_of w n))) w \<and>
           (\<forall>(uid', n') \<in> set (entries (Nodes (DBConfig w))). node_score w n' \<le> node_score w n)"
proof -
  let ?es = "entries (Nodes (DBConfig w))"
  from assms(1) have m: "wf_map (Nodes (DBConfig w))" by (simp add: wf_def wf_config_def map_ok_def)
  have "set ((u1, n1) # (u2, n2) # rest) = set ?es" unfolding visit [symmetric] by (rule set_range_by [OF m])
  then have e1: "(u1, n1) \<in> set ?es" and e2: "(u2, n2) \<in> set ?es" by auto
  have "length ((u1, n1) # (u2, n2) # rest) = length ?es" unfolding visit [symmetric] by (rule length_range_by [OF m])
  then have only: "NodeCount (DBConfig w) \<noteq> 1" by (simp add: NodeCount_def mlen_def)
  from pos e1 have s1: "0 \<le> node_score w n1" by blast
  note g1 = all_members_found(1) [OF assms(2) e1 assms(3)]
    and g2 = all_members_found(1) [OF assms(2) e2 assms(3)]
  show ?thesis
  proof (cases "node_score w n1 = node_score w n2")
    case True
    then show ?thesis using s1 only
      by (simp add: GetHighestScoreMember_def visit g1 g2 with_ref_def node_score_def)
  next
    case False
    let ?ns = "range_by (order_at w ''GetHighestScoreMember 2'') (Nodes (DBConfig w))"
    have ns: "set ?ns = set ?es" by (rule set_range_by [OF m])
    from best_score_run [OF assms(2,3), of ?ns "- 1" None] ns obtain res where
      run: "best_score ?ns (- 1) None w = Ret res w" and
      res: "case res of None \<Rightarrow> (\<forall>(uid, n) \<in> set ?es. Score (member w (member_of w n)) \<le> - 1)
        | Some r \<Rightarrow> r \<in> (\<lambda>(uid, n). member_of w n) ` set ?es \<and>
            (\<forall>(uid, n) \<in> set ?es. Score (member w (member_of w n)) \<le> Score (member w r))"
      by (fastforce split: option.splits)
    with e1 s1 obtain r where r: "res = Some r" by (cases res) (auto simp: node_score_def)
    with res obtain uid n where n: "(uid, n) \<in> set ?es" "r = member_of w n" by auto
    have "GetHighestScoreMember w = Ret (Inr (Some r)) w"
      using False s1 only run r by (simp add: GetHighestScoreMember_def visit g1 g2 with_ref_def node_score_def)
    with n res r False show ?thesis by (auto simp: node_score_def)
  qed
qed

theorem GetHighestScoreMember_spec_witness:
  "GetHighestScoreMember ex_world = Ret (Inr (Some 0)) ex_world"
proof -
  have "range_by (order_at ex_world ''GetHighestScoreMember 1'') (Nodes ex_config) =
      (''u1'', ex_node ''alpha'' ''10.0.0.11'') # (''u2'', ex_node ''beta'' ''10.0.0.12'') # []"
    by (simp add: range_by_def order_at_def keys_def lookup_def)
  from GetHighestScoreMember_spec [OF wf_ex_world all_members_ex _ this [folded ex_world_fields(1)]]
  show ?thesis by (simp add: node_score_def member_of_ex member_def)
qed

section \<open>Taking over the statuses of the active node\<close>

text \<open>What one entry of the received list makes of a member.\<close>

definition take_over :: "(string \<Rightarrow> int option) \<Rightarrow> string \<Rightarrow> MemberlistMember \<Rightarrow> Member \<Rightarrow> Member" where
  "take_over parse localHostname e m =
     m\<lparr>Status := MlStatus e, Latency := MlLatency e,
       Score := (if Hostname m \<noteq> localHostname then MlScore e else Score m),
       LastHCResponse := (if MlHostname e \<noteq> localHostname
                          then (case parse (MlLastReceived e) of Some t \<Rightarrow> t | None \<Rightarrow> 0)
                          else LastHCResponse m)\<rparr>"

text \<open>Two states that differ in the trace and in the member at \<open>r\<close> only.\<close>

lemma update_member_twice:
  "update_member r f (update_member r g w) = update_member r (f \<circ> g) w"
  by (cases "r < length (heap w)") (simp_all add: update_member_def list_update_beyond)

lemma update_member_trace: "update_member r f (w\<lparr>trace := t\<rparr>) = (update_member r f w)\<lparr>trace := t\<rparr>"
  by (simp add: update_member_def)

lemma trace_cong: "u = v \<Longrightarrow> u\<lparr>trace := t\<rparr> = v\<lparr>trace := t\<rparr>"
  by simp

lemma update_member_cong: "f (member w r) = g (member w r) \<Longrightarrow> update_member r f w = update_member r g w"
  by (simp add: update_member_def member_def)

lemma update_member_id: "f (member w r) = member w r \<Longrightarrow> update_member r f w = w"
  by (simp add: update_member_def member_def)

lemma update_from_run:
  assumes "r < length (heap w)"
  shows "\<exists>t. update_from h e r w =
    Ret () ((update_member r (take_over (parse_rfc1123 (env w)) h e) w)\<lparr>trace := t\<rparr>)"
proof -
  let ?t = "trace w @ status_events (with_status r (MlStatus e) w)"
  let ?v = "update_member r (take_over (parse_rfc1123 (env w)) h e) w"
  have "update_from h e r w = Ret () (?v\<lparr>trace := ?t\<rparr>)"
    using assms unfolding update_from_def
    by (simp add: SetStatus_run with_status_def SetLatency_def SetScore_def SetLastHCResponse_def
        update_member_trace update_member_twice member_update_member)
      (intro conjI impI trace_cong update_member_cong; simp add: take_over_def)
  then show ?thesis by blast
qed

lemma take_over_hostname [simp]: "Hostname (take_over p h e m) = Hostname m"
  by (simp add: take_over_def)

text \<open>\<open>v\<close> has the members of \<open>w\<close>, possibly with other fields, and differs in nothing else but the trace.\<close>

definition same_but_members :: "world \<Rightarrow> world \<Rightarrow> bool" where
  "same_but_members w v \<longleftrightarrow> (\<exists>hp t. v = w\<lparr>heap := hp, trace := t\<rparr> \<and> length hp = length (heap w))"

lemma same_but_members_refl: "same_but_members w w"
  unfolding same_but_members_def by (intro exI [of _ "heap w"] exI [of _ "trace w"]) simp

lemma same_but_members_trans:
  assumes "same_but_members u v" and "same_but_members v w"
  shows "same_but_members u w"
proof -
  from assms obtain hp t hp' t' where "v = u\<lparr>heap := hp, trace := t\<rparr>" "length hp = length (heap u)"
      "w = v\<lparr>heap := hp', trace := t'\<rparr>" "length hp' = length (heap v)"
    by (auto simp: same_but_members_def)
  then show ?thesis unfolding same_but_members_def by (intro exI [of _ hp'] exI [of _ t']) simp
qed

lemma same_but_members_update: "same_but_members w ((update_member r f w)\<lparr>trace := t\<rparr>)"
  unfolding same_but_members_def update_member_def by (intro exI conjI) (rule refl, simp)

lemma same_but_members_fields:
  assumes "same_but_members w v"
  shows "Members v = Members w" "DBConfig v = DBConfig w" "env v = env w" "ml_lock v = ml_lock w"
    "cfg_lock v = cfg_lock w" "modules v = modules w" "disk v = disk w" "length (heap v) = length (heap w)"
    "StartDelay v = StartDelay w" "StartInterval v = StartInterval w"
  using assms by (auto simp: same_but_members_def)

definition taken_over :: "string \<Rightarrow> MemberlistMember list \<Rightarrow> world \<Rightarrow> nat \<Rightarrow> Member" where
  "taken_over h l w r = (case find (\<lambda>e. MlHostname e = Hostname (member w r)) l of
     Some e \<Rightarrow> take_over (parse_rfc1123 (env w)) h e (member w r) | None \<Rightarrow> member w r)"

lemma update_entry_run:
  "update_entry h e w = (case find_member w (MlHostname e) of Some r \<Rightarrow> update_from h e r w | None \<Rightarrow> Ret () w)"
  by (simp add: update_entry_def split: option.split)

lemma update_loop:
  assumes "wf_members w" and "distinct (map MlHostname l)"
  shows "\<exists>v. for_each l (update_entry h) w = Ret () v \<and> same_but_members w v \<and>
     (\<forall>r \<in> set (Members w). member v r = taken_over h l w r)"
  using assms
proof (induction l arbitrary: w)
  case Nil
  then show ?case by (simp add: same_but_members_refl taken_over_def)
next
  case (Cons e l)
  show ?case
  proof (cases "find_member w (MlHostname e)")
    case None
    then have "\<forall>r \<in> set (Members w). MlHostname e \<noteq> Hostname (member w r)"
      by (auto simp: find_member_None members_def)
    moreover from None have "update_entry h e w = Ret () w" by (simp add: update_entry_run)
    ultimately show ?thesis using Cons by (simp add: taken_over_def)
  next
    case (Some q)
    let ?f = "take_over (parse_rfc1123 (env w)) h e"
    from find_member_SomeD [OF Some] have q: "q \<in> set (Members w)" "Hostname (member w q) = MlHostname e" by auto
    with Cons.prems have len: "q < length (heap w)" by (simp add: wf_members_def)
    from update_from_run [OF len] obtain t where run: "update_from h e q w = Ret () ((update_member q ?f w)\<lparr>trace := t\<rparr>)"
      by blast
    let ?u = "(update_member q ?f w)\<lparr>trace := t\<rparr>"
    have mem: "member ?u r = (if r = q then ?f (member w q) else member w r)" for r
      using len by (simp add: member_update_member)
    have "wf_members ?u" using Cons.prems(1) by (simp add: wf_members_def map_field_update_member)
    from Cons.IH [OF this] Cons.prems(2) obtain v where
      v: "for_each l (update_entry h) ?u = Ret () v" "same_but_members ?u v"
         "\<forall>r \<in> set (Members w). member v r = taken_over h l ?u r" by auto
    have "taken_over h l ?u r = taken_over h (e # l) w r" if r: "r \<in> set (Members w)" for r
    proof (cases "r = q")
      case True
      have "find (\<lambda>x. MlHostname x = MlHostname e) l = None"
        using Cons.prems(2) by (auto simp: find_None_iff image_iff)
      with True q show ?thesis by (simp add: taken_over_def mem del: member_frame)
    next
      case False
      then have "MlHostname e \<noteq> Hostname (member w r)" using hostname_inj [OF Cons.prems(1) r q(1)] q(2) by auto
      with False show ?thesis by (simp add: taken_over_def mem del: member_frame split: option.split)
    qed
    moreover from run Some have "update_entry h e w = Ret () ?u" by (simp add: update_entry_run)
    ultimately show ?thesis using v same_but_members_trans [OF same_but_members_update v(2)] by simp
  qed
qed

lemma Update_run:
  assumes "wf w" and "\<not> ml_lock w" and "GetLocalNode (DBConfig w) = Inr node"
    and "distinct (map MlHostname l)"
  shows "\<exists>v. Update l w = Ret () v \<and> same_but_members w v \<and>
    (\<forall>r \<in> set (Members w). member v r = taken_over (NodeHostname node) l w r)"
proof -
  let ?u = "w\<lparr>ml_lock := True\<rparr>"
  have "wf_members ?u" using assms(1) by (simp add: wf_wf_members)
  from update_loop [OF this assms(4), of "NodeHostname node"] obtain v where
    v: "for_each l (update_entry (NodeHostname node)) ?u = Ret () v"
       "same_but_members ?u v" "\<forall>r \<in> set (Members w). member v r = taken_over (NodeHostname node) l ?u r"
    by auto
  then have "Update l w = Ret () (v\<lparr>ml_lock := False\<rparr>)"
    using assms(2,3) by (simp add: Update_def locked_ml_Ret)
  moreover have "same_but_members w (v\<lparr>ml_lock := False\<rparr>)"
    using v(2) assms(2) unfolding same_but_members_def by (cases w) auto
  moreover have "taken_over h l ?u = taken_over h l w" for h
    by (simp add: taken_over_def fun_eq_iff split: option.split)
  ultimately show ?thesis using v(3) by simp
qed

text \<open>\<^bold>\<open>C32.\<close> Taking over the member list that the active node sends always returns when the local
  node is configured, and no member appears, disappears or is renamed. Every member that the list
  names gets the status and the latency of its entry; a member other than the local one gets its
  score too, and the time of the last health check is taken from every entry that is not about
  the local host. The other members stay as they are.\<close>

theorem Update_spec:
  assumes "wf w" and "\<not> ml_lock w" and "GetLocalNode (DBConfig w) = Inr node"
    and "distinct (map MlHostname l)"
  shows "\<exists>v. Update l w = Ret () v \<and> same_but_members w v \<and>
    (\<forall>r \<in> set (Members w). member v r = taken_over (NodeHostname node) l w r)"
  using assms by (rule Update_run)

theorem Update_spec_witness:
  "\<exists>v. Update [\<lparr>MlHostname = ''beta'', MlStatus = ACTIVE, MlLastReceived = '''', MlLatency = ''1ms'', MlScore = 7\<rparr>] ex_world
      = Ret () v \<and> Status (member v 1) = ACTIVE \<and> Score (member v 1) = 7 \<and> member v 0 = member ex_world 0"
proof -
  let ?l = "[\<lparr>MlHostname = ''beta'', MlStatus = ACTIVE, MlLastReceived = '''', MlLatency = ''1ms'', MlScore = 7\<rparr>]"
  have "GetLocalNode (DBConfig ex_world) = Inr (ex_node ''alpha'' ''10.0.0.11'')"
    by (simp add: GetLocalNode_def ClusterCheck_def mlen_def lookup_def)
  from Update_spec [OF wf_ex_world _ this, of ?l] obtain v where "Update ?l ex_world = Ret () v"
    and "\<forall>r \<in> {0, 1}. member v r = taken_over ''alpha'' ?l ex_world r" by auto
  then show ?thesis by (intro exI [of _ v]) (simp add: taken_over_def member_def take_over_def)
qed

lemma inv_Update: "safe (inv False cfg) any_crash (Update l)"
  unfolding Update_def update_entry_def update_from_def
  by (intro locked_ml_safe safe_intro inv_SetStatus inv_setters inv.quiet_keeps quiet_Logging)

end
