(* ===== verification/Links.thy ===== *)
theory Links
  imports MemberList
begin

text \<open>
  When communication cannot crash. A member without a client, a client without a requester and
  a connection that was lost in \<^verbatim>\<open>Client.Connect\<close> are dereferenced by the sources, so every
  operation that logs may panic. \<open>linked\<close> is the condition under which it does not: every
  member has a client, connected ones have a requester, the certificates load and dialling
  succeeds (\<^verbatim>\<open>grpc.Dial\<close> does not block, so it succeeds also for hosts that are down). It is
  kept by communication, so everything below returns.
\<close>

definition linked :: "bool \<Rightarrow> nat list \<Rightarrow> world \<Rightarrow> bool" where
  "linked ml ms w \<longleftrightarrow>
     ml_lock w = ml \<and> Members w = ms \<and> load_tls w = TlsFilesOk \<and> (\<forall>tr a. dial (env w) tr a = None) \<and>
     (\<forall>r \<in> set ms. r < length (heap w) \<and> (\<exists>c. MemberClient (member w r) = Some c \<and> (Connection c \<noteq> None \<longrightarrow> Requester c)))"

text \<open>A member that is connected, on top of that.\<close>

definition connected :: "nat \<Rightarrow> world \<Rightarrow> bool" where
  "connected r w \<longleftrightarrow> (\<exists>c. MemberClient (member w r) = Some c \<and> Connection c = Some Opened \<and> Requester c)"

lemma linked_trace [simp]: "linked ml ms (w\<lparr>trace := t\<rparr>) = linked ml ms w"
  by (simp add: linked_def)

lemma connected_trace [simp]: "connected r (w\<lparr>trace := t\<rparr>) = connected r w"
  by (simp add: connected_def)

lemma linked_update:
  assumes "linked ml ms w" and "\<And>c. MemberClient (member w r) = Some c \<Longrightarrow> (Connection c \<noteq> None \<longrightarrow> Requester c) \<Longrightarrow>
     \<exists>c'. MemberClient (f (member w r)) = Some c' \<and> (Connection c' \<noteq> None \<longrightarrow> Requester c')"
  shows "linked ml ms (update_member r f w)"
proof (cases "r < length (heap w)")
  case True
  with assms show ?thesis unfolding linked_def
    by (simp add: member_update_member) (metis option.inject)
next
  case False
  then show ?thesis using assms(1) by (simp add: update_member_def list_update_beyond)
qed

lemma linked_keep: "linked ml ms w \<Longrightarrow> (\<And>m. MemberClient (f m) = MemberClient m) \<Longrightarrow> linked ml ms (update_member r f w)"
  by (rule linked_update) simp_all

lemma connected_kept: "(\<And>m. MemberClient (f m) = MemberClient m) \<Longrightarrow> connected r (update_member q f w) = connected r w"
  by (cases "q < length (heap w)")
    (simp_all add: connected_def member_def update_member_def nth_list_update list_update_beyond)

lemma linked_emit: "safe (linked ml ms) C (emit e)"
  by (rule safe_emit) simp

lemma Client_Connect_ok:
  assumes "load_tls w = TlsFilesOk" and "\<And>tr a. dial (env w) tr a = None"
  shows "Client_Connect w ip port True c
 = (None, c\<lparr>Connection := Some Opened, Requester := True\<rparr>)"
  using assms by (simp add: Client_Connect_def)

lemma Connect_linked:
  assumes "r \<in> set ms"
  shows "partial (linked ml ms) (\<lambda>_. False) (Connect r) (\<lambda>err w. err = None \<and> linked ml ms w \<and> connected r w)"
  unfolding partial_def
proof (intro allI impI)
  fix w assume l: "linked ml ms w"
  with assms obtain c where c: "MemberClient (member w r) = Some c" "Connection c \<noteq> None \<longrightarrow> Requester c"
    and len: "r < length (heap w)" by (auto simp: linked_def)
  show "case Connect r w of Ret err v \<Rightarrow> err = None \<and> linked ml ms v \<and> connected r v | Crash c \<Rightarrow> False"
  proof (cases "Connection c = None \<or> Connection c = Some Closed")
    case True
    let ?u = "update_member r (\<lambda>m. m\<lparr>MemberClient := Some (c\<lparr>Connection := Some Opened, Requester := True\<rparr>)\<rparr>) w"
    from True have "Connect r w = Ret None ?u" using c l
      by (simp add: Connect_def with_client_def linked_def Client_Connect_ok SetClient_def Let_def)
    moreover have "linked ml ms ?u" by (rule linked_update [OF l]) simp
    ultimately show ?thesis using len by (simp add: connected_def member_update_member)
  next
    case False
    then have "Connect r w = Ret None w" using c by (auto simp: Connect_def with_client_def)

    moreover have "Connection c = Some Opened" using False by (metis (full_types) conn.exhaust option.exhaust)
    ultimately show ?thesis using c l by (simp add: connected_def)

  qed
qed

lemma Send_linked:
  assumes "GetProtoFunc d = Some f"
  shows "partial (\<lambda>w. linked ml ms w \<and> connected r w) (\<lambda>_. False) (Send r f d) (\<lambda>_ w. linked ml ms w \<and> connected r w)"
  using assms unfolding partial_def Send_def with_client_def
  by (auto simp: Client_Send_def connected_def emit_def linked_def split: option.split conn.split)

text \<open>Connecting to one member keeps the connection to another one.\<close>

lemma connected_other: "connected q w \<Longrightarrow> r \<noteq> q \<Longrightarrow> connected q (update_member r f w)"
  by (simp add: connected_def member_def update_member_def)

lemma connected_Connect: "safe (connected q) any_crash (Connect r)"
  unfolding safe_def
proof (rule partialI)
  fix w x v assume c: "connected q w" and run: "Connect r w = Ret x v"
  show "connected q v"
  proof (cases "r = q")
    case True
    with c run show ?thesis by (auto simp: Connect_def with_client_def connected_def)
  next
    case False
    with c run show ?thesis
      by (auto simp: Connect_def with_client_def SetClient_def connected_other split: option.splits if_splits prod.splits)
  qed
qed simp

text \<open>A step that runs from \<open>linked\<close> to \<open>linked\<close> and always returns.\<close>

abbreviation sound :: "bool \<Rightarrow> nat list \<Rightarrow> 'a go \<Rightarrow> bool" where
  "sound ml ms m \<equiv> safe (linked ml ms) (\<lambda>_. False) m"

lemma sound_Connect: "r \<in> set ms \<Longrightarrow> sound ml ms (Connect r)"
  unfolding safe_def by (rule partial_post [OF Connect_linked]) simp_all

lemma Connect_Send:
  assumes "r \<in> set ms" and "GetProtoFunc d = Some f" and "\<And>e. sound ml ms (k e)" and "\<And>res. sound ml ms (h res)"
  shows "sound ml ms (bnd (Connect r) (\<lambda>err. case err of Some e \<Rightarrow> k e | None \<Rightarrow> bnd (Send r f d) h))"
  unfolding safe_def
proof (rule partial_bnd [OF Connect_linked [OF assms(1)]])
  fix err
  show "partial (\<lambda>w. err = None \<and> linked ml ms w \<and> connected r w) (\<lambda>_. False)
      (case err of Some e \<Rightarrow> k e | None \<Rightarrow> bnd (Send r f d) h) (\<lambda>_. linked ml ms)"
  proof (cases err)
    case None
    have "partial (\<lambda>w. linked ml ms w \<and> connected r w) (\<lambda>_. False) (bnd (Send r f d) h) (\<lambda>_. linked ml ms)"
      by (rule partial_bnd [OF Send_linked [OF assms(2)]]) (rule partial_pre [OF safe_partial [OF assms(4)]], simp)
    with None show ?thesis by simp
  next
    case (Some e)
    then show ?thesis by (simp add: partial_def)
  qed
qed

lemma sound_locked_ml: "sound True ms body \<Longrightarrow> sound False ms (locked_ml body)"
  by (erule ml_mutex.locked_safe) (auto simp: linked_def)

lemma sound_broadcast_one:
  "r \<in> set ms \<Longrightarrow> GetProtoFunc d = Some f \<Longrightarrow> sound ml ms (broadcast_one f d r)"
  unfolding broadcast_one_def by (intro safe_intro Connect_Send)

lemma sound_Broadcast: "GetProtoFunc d = Some f \<Longrightarrow> sound False ms (Broadcast f d)"
  unfolding Broadcast_def
  by (rule sound_locked_ml) (auto intro!: safe_intro sound_broadcast_one simp: linked_def)

lemma sound_Logging: "sound False ms (Logging_Warn m)" "sound False ms (Logging_Info m)" "sound False ms (Logging_Error m)"
  unfolding Logging_Warn_def Logging_Info_def Logging_Error_def log_send_def
  by (intro safe_intro linked_emit sound_Broadcast; simp)+

lemma sound_setters:
  "sound ml ms (SetHCBusy r b)" "sound ml ms (SetLatency r l)" "sound ml ms (SetScore r sc)"
  "sound ml ms (SetLastHCResponse r t)"
  unfolding setter_defs by (intro safe_modify linked_keep; simp)+

lemma sound_InformMLSChange: "sound ml ms InformMLSChange"
  unfolding InformMLSChange_def by (intro safe_intro linked_emit)

lemma sound_SetStatus: "sound ml ms (SetStatus r st)"
  unfolding SetStatus_def by (intro safe_intro sound_InformMLSChange linked_keep) simp_all

lemma sound_GetMemberByHostname: "h \<noteq> '''' \<Longrightarrow> sound False ms (GetMemberByHostname h)"
  unfolding GetMemberByHostname_def by (intro sound_locked_ml safe_intro) simp

lemma sound_SyncConfig: "sound False ms SyncConfig"
  unfolding SyncConfig_def by (intro safe_intro sound_Broadcast) simp

lemma linked_ex: "linked False [0, 1] ex_world"
  by (simp add: linked_def member_def)

section \<open>What a broadcast reaches\<close>

lemma sent_kept: "safe (\<lambda>w. e \<in> set (trace w)) any_crash (broadcast_one f d r)"
  unfolding broadcast_one_def Connect_def Send_def with_client_def Client_Send_def SetClient_def emit_def
  by (auto intro!: safe_intro split: option.split conn.split)

lemma broadcast_one_sends:
  assumes "linked ml ms w" and "GetProtoFunc d = Some f" and "r \<in> set ms"
    and "GetHostname (hostname_cmd (env w)) = Inr h" and "Hostname (member w r) \<noteq> h" and "broadcast_one f d r w = Ret x v"
  shows "SentRpc (Hostname (member w r)) d \<in> set (trace v)"
proof -
  from partialD [OF Connect_linked [OF assms(3)] assms(1)] partial_crashD [OF Connect_linked [OF assms(3)] assms(1)]
  obtain u where u: "Connect r w = Ret None u" and c: "connected r u" by (cases "Connect r w") auto
  from assms(1,3) have "r < length (heap w)" by (simp add: linked_def)
  with core_member [OF quietD [OF quiet_Connect u]] have h: "Hostname (member u r) = Hostname (member w r)"
    by (metis strip_eq_fields(1))
  from c obtain cl where "MemberClient (member u r) = Some cl" "Connection cl = Some Opened" "Requester cl"
    by (auto simp: connected_def)
  with assms(2) have s: "Send r f d u = Ret (rpc_result (env u) (trace u) (Hostname (member w r)) d)
      (u\<lparr>trace := trace u @ [SentRpc (Hostname (member w r)) d]\<rparr>)"
    by (simp add: Send_def with_client_def Client_Send_def emit_def h)
  from assms(4-6) u s show ?thesis by (auto simp: broadcast_one_def split: sum.splits)
qed

lemma collect_sends:
  assumes "linked ml ms w" and "GetProtoFunc d = Some f" and "set rs \<subseteq> set ms"
    and "GetHostname (hostname_cmd (env w)) = Inr h" and "for_collect rs (broadcast_one f d) w = Ret x v"
    and "r \<in> set rs" and "Hostname (member w r) \<noteq> h"
  shows "SentRpc (Hostname (member w r)) d \<in> set (trace v)"
  using assms
proof (induction rs arbitrary: w x)
  case (Cons q rs)
  from Cons.prems(5) obtain y u z where q: "broadcast_one f d q w = Ret y u"
      and rest: "for_collect rs (broadcast_one f d) u = Ret z v" by (auto split: outcome.splits)
  from Cons.prems(3) have "q \<in> set ms" by simp
  from safeD [OF sound_broadcast_one [OF this Cons.prems(2)] Cons.prems(1) q] have l: "linked ml ms u" .

  have "quiet (broadcast_one f d q)" unfolding quiet_def by (blast intro: core_eq.keeps_broadcast_one)
  from quietD [OF this q] have c: "core u = core w" .
  from Cons.prems(1,3,6) have "r < length (heap w)" by (auto simp: linked_def)
  with core_member [OF c] have h: "Hostname (member u r) = Hostname (member w r)" by (metis strip_eq_fields(1))
  show ?case
  proof (cases "r = q")
    case True
    with broadcast_one_sends [OF Cons.prems(1,2) _ Cons.prems(4) _ q] Cons.prems(3,7)
    have "SentRpc (Hostname (member w r)) d \<in> set (trace u)" by simp
    then show ?thesis by (rule safeD [OF safe_for_collect [OF sent_kept] _ rest])
  next
    case False
    with Cons.IH [OF l Cons.prems(2) _ _ rest] Cons.prems core_fields(10) [OF c] h show ?thesis by simp
  qed
qed simp

lemma Broadcast_reaches:
  assumes "linked False ms w" and "GetProtoFunc d = Some f" and "GetHostname (hostname_cmd (env w)) = Inr h"
    and "Broadcast f d w = Ret x v" and "r \<in> set ms" and "Hostname (member w r) \<noteq> h"
  shows "SentRpc (Hostname (member w r)) d \<in> set (trace v)"
proof -
  from assms(1) have l: "linked True ms (w\<lparr>ml_lock := True\<rparr>)" by (simp add: linked_def)
  from assms(4) obtain u where "for_collect ms (broadcast_one f d) (w\<lparr>ml_lock := True\<rparr>) = Ret x u"
      and v: "v = u\<lparr>ml_lock := False\<rparr>" using assms(1) by (auto simp: Broadcast_def locked_ml_Ret linked_def)
  from collect_sends [OF l assms(2) _ _ this(1)] assms(3,5,6) show ?thesis by (simp add: v)
qed

text \<open>Members that were just loaded are linked: they have a client without a connection.\<close>

lemma linked_grown:
  assumes "linked False (Members w) w" and "grown w v"
  shows "linked False (Members v) v"
proof -
  have "r < length (heap v) \<and> (\<exists>c. MemberClient (member v r) = Some c \<and> (Connection c \<noteq> None \<longrightarrow> Requester c))"
    if r: "r \<in> set (Members v)" for r
  proof -
    from r assms(2) have "member v r \<in> set (members w) \<or> member v r = newMember (Hostname (member v r)) newClient"
      unfolding grown_def members_def by (metis (no_types, lifting) Un_iff imageI set_append set_map)
    then show ?thesis
    proof
      assume "member v r \<in> set (members w)"
      then obtain q where "q \<in> set (Members w)" "member v r = member w q" by (auto simp: members_def)
      with assms r show ?thesis by (auto simp: linked_def grown_def wf_members_def)
    next
      assume n: "member v r = newMember (Hostname (member v r)) newClient"
      have "MemberClient (member v r) = Some newClient" by (subst n) (simp add: newMember_def)
      with assms r show ?thesis by (auto simp: newClient_def grown_def wf_members_def)
    qed
  qed
  moreover have "load_tls v = load_tls w" using assms(2) by (intro load_tls_cong) (simp_all add: grown_def)
  ultimately show ?thesis using assms by (simp add: linked_def grown_def)
qed

end
