(* ===== verification/NetActions.thy ===== *)
theory NetActions
  imports Links
begin

text \<open>
  The actions on floating IPs: \<^verbatim>\<open>BringUpIPs\<close>, \<^verbatim>\<open>BringDownIPs\<close>, \<^verbatim>\<open>MakeLocalActive\<close> and
  \<^verbatim>\<open>MakeLocalPassive\<close> of \<^verbatim>\<open>src/pulseha/utils.go\<close>, \<^verbatim>\<open>makeGroupActive\<close> and
  \<^verbatim>\<open>makeGroupPassive\<close> of \<^verbatim>\<open>groups.go\<close>, and \<^verbatim>\<open>Member.BringUpIPs\<close>. The networking plugin is
  code of its own: what it answers is \<open>net_up\<close> and \<open>net_down\<close> of the surroundings, and every call
  of it is recorded in the trace.
\<close>

section \<open>Operations\<close>

definition BringUpIPs :: "string \<Rightarrow> string list \<Rightarrow> string option go" where
  "BringUpIPs iface ips =
     reading (\<lambda>w. (GetNetworkingPlugin (modules w), net_up (env w) iface ips)) (\<lambda>(plugin, err).
       case plugin of
         None \<Rightarrow> ret None
       | Some _ \<Rightarrow> thn (emit (BroughtUp iface ips)) (ret err))"

definition BringDownIPs :: "string \<Rightarrow> string list \<Rightarrow> string option go" where
  "BringDownIPs iface ips =
     reading (\<lambda>w. (GetNetworkingPlugin (modules w), net_down (env w) iface ips)) (\<lambda>(plugin, err).
       case plugin of
         None \<Rightarrow> ret None
       | Some _ \<Rightarrow> thn (emit (BroughtDown iface ips)) (ret err))"

definition makeGroupActive :: "string \<Rightarrow> string \<Rightarrow> unit go" where
  "makeGroupActive iface groupName =
     reading (\<lambda>w. group_ips (DBConfig w) groupName) (\<lambda>ips.
     bnd (BringUpIPs iface ips) (\<lambda>err. case err of
       Some e \<Rightarrow> Logging_Error e
     | None \<Rightarrow> skip))"

definition makeGroupPassive :: "string \<Rightarrow> string \<Rightarrow> unit go" where
  "makeGroupPassive iface groupName =
     reading (\<lambda>w. group_ips (DBConfig w) groupName) (\<lambda>ips. thn (BringDownIPs iface ips) skip)"

text \<open>The three nested loops of \<^verbatim>\<open>MakeLocalActive\<close> and \<^verbatim>\<open>MakeLocalPassive\<close>: every group that a
  node with the local host name has assigned, with its interface, in the order of the loops.\<close>

definition assignments :: "world \<Rightarrow> string \<Rightarrow> string \<Rightarrow> (string \<times> string) list" where
  "assignments w site hostname =
     concat (map (\<lambda>(uid, node).
       if NodeHostname node = hostname
       then concat (map (\<lambda>(iface, groups). map (Pair iface) groups)
              (range_by (order_at w (site @ uid)) (IPGroups node)))
       else []) (range_by (order_at w site) (Nodes (DBConfig w))))"

definition MakeLocalActive :: "unit go" where
  "MakeLocalActive =
     reading (\<lambda>w. GetLocalNode (DBConfig w)) (\<lambda>localNode. case localNode of
       Inl _ \<Rightarrow> Logging_Error ''local node not found in config. Failed to make active.''
     | Inr node \<Rightarrow> reading (\<lambda>w. assignments w ''MakeLocalActive'' (NodeHostname node)) (\<lambda>as.
         for_each as (\<lambda>(iface, groupName). makeGroupActive iface groupName)))"

definition MakeLocalPassive :: "unit go" where
  "MakeLocalPassive =
     reading (\<lambda>w. GetLocalNode (DBConfig w)) (\<lambda>localNode. case localNode of
       Inl _ \<Rightarrow> Logging_Error ''local node not found in config. Failed to make passive.''
     | Inr node \<Rightarrow> reading (\<lambda>w. assignments w ''MakeLocalPassive'' (NodeHostname node)) (\<lambda>as.
         for_each as (\<lambda>(iface, groupName). makeGroupPassive iface groupName)))"

text \<open>\<^verbatim>\<open>Member.BringUpIPs\<close>. The error of the local \<^verbatim>\<open>BringUpIPs\<close> is dropped.\<close>

definition Member_BringUpIPs :: "nat \<Rightarrow> string list \<Rightarrow> string \<Rightarrow> bool go" where
  "Member_BringUpIPs r ips grp =
     reading (\<lambda>w. GetGroupIface (order_at w ''GetGroupIface nodes'') (order_at w ''GetGroupIface ifaces'')
                (DBConfig w) (Hostname (member w r)) grp) (\<lambda>found. case found of
       Inl _ \<Rightarrow> ret False
     | Inr iface \<Rightarrow> reading (\<lambda>w. (GetLocalNode (DBConfig w), Hostname (member w r))) (\<lambda>(localNode, host).
         case localNode of
           Inl _ \<Rightarrow> thn (Logging_Error ''BringUpIPs() unable to retrieve local node configuration'') (ret False)
         | Inr node \<Rightarrow>
             if host = NodeHostname node then thn (BringUpIPs iface ips) (ret True)
             else bnd (Send r SendBringUpIP (ReqBringUpIP \<lparr>UpIface = iface, UpIps = ips\<rparr>)) (\<lambda>res. case res of
                    Inl _ \<Rightarrow> ret False
                  | Inr _ \<Rightarrow> ret True)))"

section \<open>They change nothing but the trace and the clients\<close>

lemma quiet_bnd: "quiet m \<Longrightarrow> (\<And>x. quiet (f x)) \<Longrightarrow> quiet (bnd m f)"
  unfolding quiet_def by (auto intro: safe_bnd)

lemma quiet_thn: "quiet m \<Longrightarrow> quiet n \<Longrightarrow> quiet (thn m n)"
  unfolding quiet_def by (auto intro: safe_thn)

lemma quiet_ret: "quiet (ret x)" "quiet skip"
  unfolding quiet_def by (auto intro: safe_intro)

lemma quiet_reading: "(\<And>w. quiet (k (f w))) \<Longrightarrow> quiet (reading f k)"
  unfolding quiet_def by (auto intro: safe_reading)

lemma quiet_for_each: "(\<And>x. x \<in> set xs \<Longrightarrow> quiet (f x)) \<Longrightarrow> quiet (for_each xs f)"
  unfolding quiet_def by (auto intro: safe_for_each)

lemma quiet_case_option: "quiet m \<Longrightarrow> (\<And>y. quiet (f y)) \<Longrightarrow> quiet (case x of None \<Rightarrow> m | Some y \<Rightarrow> f y)"
  by (simp split: option.split)

lemma quiet_case_sum: "(\<And>y. quiet (f y)) \<Longrightarrow> (\<And>y. quiet (g y)) \<Longrightarrow> quiet (case x of Inl y \<Rightarrow> f y | Inr y \<Rightarrow> g y)"
  by (simp split: sum.split)

lemma quiet_case_prod: "(\<And>y z. quiet (f y z)) \<Longrightarrow> quiet (case x of (y, z) \<Rightarrow> f y z)"
  by (simp split: prod.split)

lemma quiet_if: "quiet m \<Longrightarrow> quiet n \<Longrightarrow> quiet (if b then m else n)"
  by simp

lemmas quiet_intro = quiet_bnd quiet_thn quiet_ret quiet_reading quiet_for_each quiet_case_option
  quiet_case_sum quiet_case_prod quiet_if quiet_emit quiet_Logging quiet_Connect quiet_Send
  quiet_Broadcast quiet_InformMLSChange

lemma quiet_BringUpIPs: "quiet (BringUpIPs iface ips)"
  unfolding BringUpIPs_def by (intro quiet_intro)

lemma quiet_BringDownIPs: "quiet (BringDownIPs iface ips)"
  unfolding BringDownIPs_def by (intro quiet_intro)

lemma quiet_MakeLocalActive: "quiet MakeLocalActive"
  unfolding MakeLocalActive_def makeGroupActive_def by (intro quiet_intro quiet_BringUpIPs)

lemma quiet_MakeLocalPassive: "quiet MakeLocalPassive"
  unfolding MakeLocalPassive_def makeGroupPassive_def by (intro quiet_intro quiet_BringDownIPs)

lemma quiet_Member_BringUpIPs: "quiet (Member_BringUpIPs r ips grp)"
  unfolding Member_BringUpIPs_def by (intro quiet_intro quiet_BringUpIPs)

section \<open>Exactly the assigned groups\<close>

text \<open>The config assigns a group to an interface of a node with the given host name.\<close>

definition assigned_to :: "Config \<Rightarrow> string \<Rightarrow> string \<Rightarrow> string \<Rightarrow> bool" where
  "assigned_to c h iface g \<longleftrightarrow>
     (\<exists>uid node gs. lookup (Nodes c) uid = Some node \<and> NodeHostname node = h \<and>
        lookup (IPGroups node) iface = Some gs \<and> g \<in> set gs)"

lemma assignments_mem:
  "(iface, g) \<in> set (assignments w site h) \<longleftrightarrow>
    (\<exists>uid node gs. (uid, node) \<in> set (range_by (order_at w site) (Nodes (DBConfig w))) \<and> NodeHostname node = h \<and>
       (iface, gs) \<in> set (range_by (order_at w (site @ uid)) (IPGroups node)) \<and> g \<in> set gs)"
  unfolding assignments_def by (auto split: if_splits) force

lemma wf_config_IPGroups:
  assumes "wf_config c" and "lookup (Nodes c) uid = Some node"
  shows "wf_map (IPGroups node)"
  using assms lookup_in_entries by (force simp: wf_config_def map_ok_def wf_node_def)

lemma set_assignments:
  assumes "wf_config (DBConfig w)"
  shows "set (assignments w site h) = {(iface, g). assigned_to (DBConfig w) h iface g}"
proof -
  from assms have n: "wf_map (Nodes (DBConfig w))" by (simp add: wf_config_def map_ok_def)
  have "(iface, g) \<in> set (assignments w site h) \<longleftrightarrow> assigned_to (DBConfig w) h iface g" for iface g
    unfolding assignments_mem assigned_to_def
    using range_by_lookup [OF n] range_by_lookup [OF wf_config_IPGroups [OF assms]] by metis
  then show ?thesis by auto
qed

lemma for_each_trace:
  assumes "\<And>x t. x \<in> set xs \<Longrightarrow> f x (w\<lparr>trace := t\<rparr>) = Ret () (w\<lparr>trace := t @ [g x]\<rparr>)"
  shows "for_each xs f w = Ret () (w\<lparr>trace := trace w @ map g xs\<rparr>)"
proof -
  have "for_each xs f (w\<lparr>trace := t\<rparr>) = Ret () (w\<lparr>trace := t @ map g xs\<rparr>)" for t
    using assms by (induction xs arbitrary: t) simp_all
  from this [of "trace w"] show ?thesis by simp
qed

lemma makeGroupActive_run:
  assumes "GetNetworkingPlugin (modules w) \<noteq> None" and "net_up (env w) iface (group_ips (DBConfig w) g) = None"
  shows "makeGroupActive iface g w = Ret () (w\<lparr>trace := trace w @ [BroughtUp iface (group_ips (DBConfig w) g)]\<rparr>)"
  using assms by (auto simp: makeGroupActive_def BringUpIPs_def emit_def)

lemma MakeLocalActive_run:
  assumes "GetLocalNode (DBConfig w) = Inr node" and "GetNetworkingPlugin (modules w) \<noteq> None"
    and "\<And>iface g. (iface, g) \<in> set (assignments w ''MakeLocalActive'' (NodeHostname node)) \<Longrightarrow>
           net_up (env w) iface (group_ips (DBConfig w) g) = None"
  shows "MakeLocalActive w = Ret () (w\<lparr>trace := trace w @
     map (\<lambda>(iface, g). BroughtUp iface (group_ips (DBConfig w) g))
       (assignments w ''MakeLocalActive'' (NodeHostname node))\<rparr>)"
  unfolding MakeLocalActive_def using assms
  by (simp, intro for_each_trace) (auto simp: makeGroupActive_run)

text \<open>When the networking plugin can do it, making the local node active returns and has asked
  the plugin to bring up, on the right interface, the IPs of exactly the groups that the config
  assigns to nodes with the local host name; nothing else of the state changes.\<close>

theorem MakeLocalActive_exact:
  assumes "wf w" and "GetLocalNode (DBConfig w) = Inr node" and "GetNetworkingPlugin (modules w) \<noteq> None"
    and "\<And>iface ips. net_up (env w) iface ips = None"
  shows "\<exists>ups. MakeLocalActive w = Ret () (w\<lparr>trace := trace w @ ups\<rparr>) \<and>
    set ups = {BroughtUp iface (group_ips (DBConfig w) g) |iface g. assigned_to (DBConfig w) (NodeHostname node) iface g}"
proof (intro exI conjI)
  show "MakeLocalActive w = Ret () (w\<lparr>trace := trace w @
     map (\<lambda>(iface, g). BroughtUp iface (group_ips (DBConfig w) g))
       (assignments w ''MakeLocalActive'' (NodeHostname node))\<rparr>)"
    by (rule MakeLocalActive_run) (use assms(2,3,4) in simp_all)
  from assms(1) have "wf_config (DBConfig w)" by (simp add: wf_def)
  from set_assignments [OF this]
  show "set (map (\<lambda>(iface, g). BroughtUp iface (group_ips (DBConfig w) g))
       (assignments w ''MakeLocalActive'' (NodeHostname node))) =
     {BroughtUp iface (group_ips (DBConfig w) g) |iface g. assigned_to (DBConfig w) (NodeHostname node) iface g}"
    by auto
qed

lemma GetLocalNode_ex: "GetLocalNode ex_config = Inr (ex_node ''alpha'' ''10.0.0.11'')"
  by (simp add: GetLocalNode_def ClusterCheck_def mlen_def lookup_def)

lemma assigned_to_alpha: "assigned_to ex_config ''alpha'' iface g \<longleftrightarrow> iface = ''eth0'' \<and> g = ''group1''"
proof
  assume "assigned_to ex_config ''alpha'' iface g"
  then show "iface = ''eth0'' \<and> g = ''group1''"
    by (elim assigned_to_def [THEN iffD1, elim_format] exE conjE) (auto simp: lookup_def split: if_split_asm)
next
  assume "iface = ''eth0'' \<and> g = ''group1''"
  then show "assigned_to ex_config ''alpha'' iface g"
    unfolding assigned_to_def
    by (intro exI [of _ "''u1''"] exI [of _ "ex_node ''alpha'' ''10.0.0.11''"] exI [of _ "[''group1'']"])
      (simp add: lookup_def)
qed

theorem MakeLocalActive_exact_witness:
  "\<exists>ups. MakeLocalActive ex_world = Ret () (ex_world\<lparr>trace := ups\<rparr>) \<and> set ups = {BroughtUp ''eth0'' [''10.0.0.1/24'']}"
proof -
  have "{BroughtUp iface (group_ips ex_config g) |iface g. assigned_to ex_config ''alpha'' iface g} =
      {BroughtUp ''eth0'' [''10.0.0.1/24'']}"
    unfolding assigned_to_alpha by (simp add: group_ips_def lookup_def)
  moreover have "GetNetworkingPlugin (modules ex_world) \<noteq> None" by (simp add: GetNetworkingPlugin_def)
  ultimately show ?thesis
    using MakeLocalActive_exact [OF wf_ex_world, of "ex_node ''alpha'' ''10.0.0.11''"] by (simp add: GetLocalNode_ex)
qed

section \<open>In a linked cluster they return\<close>

lemma sound_BringUpIPs: "sound ml ms (BringUpIPs iface ips)"
  unfolding BringUpIPs_def by (intro safe_intro linked_emit)

lemma sound_BringDownIPs: "sound ml ms (BringDownIPs iface ips)"
  unfolding BringDownIPs_def by (intro safe_intro linked_emit)

lemma sound_MakeLocalActive: "sound False ms MakeLocalActive"
  unfolding MakeLocalActive_def makeGroupActive_def by (intro safe_intro sound_BringUpIPs sound_Logging)

lemma sound_MakeLocalPassive: "sound False ms MakeLocalPassive"
  unfolding MakeLocalPassive_def makeGroupPassive_def by (intro safe_intro sound_BringDownIPs sound_Logging)

section \<open>Which addresses are up\<close>

text \<open>What an entry of the trace does to the addresses of the machine.\<close>

fun address_change :: "effect \<Rightarrow> bool" where
  "address_change (BroughtUp _ _) = True"
| "address_change (BroughtDown _ _) = True"
| "address_change _ = False"

text \<open>The addresses that the networking plugin was last asked to have up, and those of a node in the config.\<close>

fun held :: "(string \<times> string) set \<Rightarrow> effect list \<Rightarrow> (string \<times> string) set" where
  "held S [] = S"
| "held S (e # t) = held (case e of
     BroughtUp iface ips \<Rightarrow> S \<union> {iface} \<times> set ips
   | BroughtDown iface ips \<Rightarrow> S - {iface} \<times> set ips
   | _ \<Rightarrow> S) t"

definition addresses :: "Config \<Rightarrow> string \<Rightarrow> (string \<times> string) set" where
  "addresses c h = {(iface, ip). \<exists>g. assigned_to c h iface g \<and> ip \<in> set (group_ips c g)}"

lemma held_append [simp]: "held S (t @ t') = held (held S t) t'"
  by (induction t arbitrary: S) simp_all

lemma held_others: "list_all (\<lambda>e. \<not> address_change e) l \<Longrightarrow> held S l = S"
proof (induction l)
  case (Cons e l)
  then show ?case by (cases e) simp_all
qed simp

text \<open>\<open>supplying c m S H\<close>: the config is \<open>c\<close>, the plugins are \<open>m\<close>, and the addresses \<open>H\<close> are up if \<open>S\<close> were at the
  start.\<close>

definition supplying :: "Config \<Rightarrow> Plugin list \<Rightarrow> (string \<times> string) set \<Rightarrow> (string \<times> string) set \<Rightarrow> world \<Rightarrow> bool" where
  "supplying c m S H w \<longleftrightarrow> DBConfig w = c \<and> modules w = m \<and> held S (trace w) = H"

lemma supplying_frame [simp]: "supplying c m S H (update_member r f w) = supplying c m S H w"
  by (simp add: supplying_def)

text \<open>What neither changes config and plugins nor asks the networking plugin for anything keeps it.\<close>

lemma supplying_added:
  assumes "quiet p" and "\<And>t. safe (only_added (\<lambda>e. \<not> address_change e) t) any_crash p"
  shows "safe (supplying c m S H) any_crash p"
  unfolding safe_def
proof (rule partialI)
  fix w x v assume w: "supplying c m S H w" and r: "p w = Ret x v"
  from safeD [OF assms(2) only_added_refl r] obtain l where "trace v = trace w @ l" "list_all (\<lambda>e. \<not> address_change e) l"
    by (auto simp: only_added_def)
  with w core_fields [OF quietD [OF assms(1) r]] show "supplying c m S H v" by (simp add: supplying_def held_others)
qed simp

lemma log_entry_no_change: "log_entry e \<Longrightarrow> \<not> address_change e"
  by (cases e) simp_all

lemma supplying_Logging:
  "safe (supplying c m S H) any_crash (Logging_Warn x)" "safe (supplying c m S H) any_crash (Logging_Info x)"
  "safe (supplying c m S H) any_crash (Logging_Error x)"
  by (intro supplying_added quiet_Logging only_added_Logging log_entry_no_change; assumption)+

lemma supplying_emit: "\<not> address_change e \<Longrightarrow> safe (supplying c m S H) any_crash (emit e)"
  by (intro supplying_added quiet_emit only_added_emit)

text \<open>What the plugin can be asked for: nothing without one.\<close>

definition plugged :: "Plugin list \<Rightarrow> (string \<times> string) set \<Rightarrow> (string \<times> string) set" where
  "plugged m T = (if GetNetworkingPlugin m = None then {} else T)"

lemma makeGroupActive_supplies:
  "partial (supplying c m S H) any_crash (makeGroupActive iface g)
     (\<lambda>_. supplying c m S (H \<union> plugged m ({iface} \<times> set (group_ips c g))))"
proof -
  have err: "partial (supplying c m S H') any_crash (case e of Some e \<Rightarrow> Logging_Error e | None \<Rightarrow> skip) (\<lambda>_. supplying c m S H')" for e H'
    by (rule safe_partial) (intro safe_intro supplying_Logging)
  have "partial (supplying c m S H) any_crash (BringUpIPs iface (group_ips c g))
      (\<lambda>_. supplying c m S (H \<union> plugged m ({iface} \<times> set (group_ips c g))))"
    by (auto simp: BringUpIPs_def partial_def supplying_def plugged_def emit_def split: option.split)
  then have "partial (supplying c m S H) any_crash (bnd (BringUpIPs iface (group_ips c g)) (\<lambda>err. case err of
       Some e \<Rightarrow> Logging_Error e | None \<Rightarrow> skip)) (\<lambda>_. supplying c m S (H \<union> plugged m ({iface} \<times> set (group_ips c g))))"
    by (rule partial_bnd [OF _ err])
  then show ?thesis by (simp add: makeGroupActive_def partial_def supplying_def)
qed

lemma partial_for_each_union:
  assumes "\<And>x H. x \<in> set xs \<Longrightarrow> partial (I H) C (f x) (\<lambda>_. I (H \<union> g x))"
  shows "partial (I H) C (for_each xs f) (\<lambda>_. I (H \<union> \<Union> (g ` set xs)))"
  using assms
proof (induction xs arbitrary: H)
  case (Cons x xs)
  have "partial (I H) C (thn (f x) (for_each xs f)) (\<lambda>_. I (H \<union> g x \<union> \<Union> (g ` set xs)))"
    by (rule partial_thn [OF Cons.prems Cons.IH]) (use Cons.prems in auto)
  moreover have "for_each (x # xs) f = thn (f x) (for_each xs f)" by (rule ext) simp
  ultimately show ?case by (simp only: list.set image_insert Union_insert Un_assoc)

qed (simp add: partial_skip)

text \<open>Making the local node active brings up the addresses of the node, whatever the plugin answers, and
  changes no other.\<close>

lemma MakeLocalActive_supplies:
  assumes "wf_config c" and "GetLocalNode c = Inr node"
  shows "partial (supplying c m S H) any_crash MakeLocalActive (\<lambda>_. supplying c m S (H \<union> plugged m (addresses c (NodeHostname node))))"
proof (rule partialI)
  fix w x v assume w: "supplying c m S H w" and r: "MakeLocalActive w = Ret x v"
  let ?as = "assignments w ''MakeLocalActive'' (NodeHostname node)"
  from w have c: "DBConfig w = c" by (simp add: supplying_def)
  with r assms(2) have run: "for_each ?as (\<lambda>(iface, groupName). makeGroupActive iface groupName) w = Ret x v"
    by (simp add: MakeLocalActive_def)
  have "partial (supplying c m S H) any_crash (for_each ?as (\<lambda>(iface, groupName). makeGroupActive iface groupName))
      (\<lambda>_. supplying c m S (H \<union> (\<Union>(iface, g) \<in> set ?as. plugged m ({iface} \<times> set (group_ips c g)))))"
    by (rule partial_for_each_union) (auto intro: makeGroupActive_supplies)
  from partialD [OF this w run] have "supplying c m S (H \<union> (\<Union>(iface, g) \<in> set ?as. plugged m ({iface} \<times> set (group_ips c g)))) v" .
  moreover have "(\<Union>(iface, g) \<in> set ?as. plugged m ({iface} \<times> set (group_ips c g))) = plugged m (addresses c (NodeHostname node))"
    using set_assignments [of w "''MakeLocalActive''" "NodeHostname node"] assms(1) c by (auto simp: plugged_def addresses_def)
  ultimately show "supplying c m S (H \<union> plugged m (addresses c (NodeHostname node))) v" by simp
qed simp

end
