(* ===== verification/Failover.thy ===== *)
theory Failover
  imports NetActions
begin

text \<open>
  Who is active, and how that changes: the health checks between members
  (\<^verbatim>\<open>SendHealthCheck\<close>, \<^verbatim>\<open>RoutineHC\<close>), \<^verbatim>\<open>MakeActive\<close> and \<^verbatim>\<open>MakePassive\<close> of
  \<^verbatim>\<open>src/pulseha/member.go\<close>, promotion and the three routines that the scheduler runs
  (\<^verbatim>\<open>MonitorReceivedHCs\<close> on a passive node, \<^verbatim>\<open>MonitorClientConns\<close> and \<^verbatim>\<open>AddHealthCheckHandler\<close>
  on the active one), the local score (\<^verbatim>\<open>healthcheck_list.go\<close>), \<^verbatim>\<open>MemberList.Setup\<close>, and the
  winner of a split brain (\<^verbatim>\<open>utils.go\<close>). A routine that is started with \<^verbatim>\<open>go\<close> is an entry of the
  trace; what it does when it runs is its own definition.
\<close>

section \<open>Durations\<close>

text \<open>\<^verbatim>\<open>Duration.Round(time.Millisecond)\<close> and \<^verbatim>\<open>Duration.String\<close> of a duration that is not
  negative, in nanoseconds and milliseconds.\<close>

definition round_ms :: "int \<Rightarrow> int" where
  "round_ms d = (let r = d mod 1000000 in if r + r < 1000000 then (d - r) div 1000000 else (d + 1000000 - r) div 1000000)"

fun trim_zeros :: "string \<Rightarrow> string" where
  "trim_zeros s = (if s \<noteq> [] \<and> last s = CHR ''0'' then trim_zeros (butlast s) else s)"

definition pad3 :: "int \<Rightarrow> string" where
  "pad3 f = (let s = Itoa f in replicate (3 - length s) (CHR ''0'') @ s)"

definition durationString :: "int \<Rightarrow> string" where
  "durationString ms =
     (if ms = 0 then ''0s''
      else if ms < 1000 then Itoa ms @ ''ms''
      else let s = ms div 1000; f = ms mod 1000;
               secs = Itoa (s mod 60) @ (if f = 0 then '''' else ''.'' @ trim_zeros (pad3 f)) @ ''s'';
               m = s div 60; h = m div 60
           in (if h > 0 then Itoa h @ ''h'' else '''') @ (if m > 0 then Itoa (m mod 60) @ ''m'' else '''') @ secs)"

declare trim_zeros.simps [simp del]

section \<open>Health checks\<close>

text \<open>\<^verbatim>\<open>SendHealthCheck\<close>. The first component is what the interface value holds: \<open>None\<close> the
  struct \<^verbatim>\<open>rpc.HealthCheckResponse{}\<close> (a value, no pointer), \<open>Some None\<close> a nil pointer, \<open>Some (Some r)\<close>
  a response. Time passes during the call only.\<close>

definition Member_SendHealthCheck :: "nat \<Rightarrow> HealthCheckRequest \<Rightarrow> (HealthCheckResponse option option \<times> string option) go" where
  "Member_SendHealthCheck r data =
     with_client r (\<lambda>c. case Connection c of
       None \<Rightarrow> ret (None, Some ''unable to send health check as member connection has not been initiated'')
     | Some _ \<Rightarrow> reading (\<lambda>w. (now (env w), rpc_time (env w) (trace w) (Hostname (member w r)))) (\<lambda>(startTime, took).
         bnd (Send r SendHealthCheck (ReqHealthCheck data)) (\<lambda>res.
         thn (SetLastHCResponse r (startTime + took))
        (thn (SetLatency r (durationString (round_ms took)))
             (ret (case res of
                Inl e \<Rightarrow> (Some None, Some e)
              | Inr (RespHealthCheck resp) \<Rightarrow> (Some (Some resp), None)
              | Inr _ \<Rightarrow> (Some None, None)))))))"

definition RoutineHC :: "nat \<Rightarrow> HealthCheckRequest \<Rightarrow> unit go" where
  "RoutineHC r data =
     thn (SetHCBusy r True)
    (bnd (Member_SendHealthCheck r data) (\<lambda>(response, err).
     thn (case err of
            Some _ \<Rightarrow> thn (Close r) (SetStatus r UNAVAILABLE)
          | None \<Rightarrow> skip)
    (thn (case response of
            None \<Rightarrow> crash_with TypeAssertion
          | Some None \<Rightarrow> skip
          | Some (Some resp) \<Rightarrow> SetScore r (HcScore resp))
         (SetHCBusy r False))))"

definition ProcessHCs :: "Plugin list \<Rightarrow> bool go" where
  "ProcessHCs plugins =
     reading (\<lambda>w. (StartDelay w, ClusterCheck (DBConfig w), env w)) (\<lambda>(delay, cluster, e).
       if delay \<or> \<not> cluster then ret (\<not> cluster)
       else let score = fold (\<lambda>hc score. case hc_send e (PluginName hc) of
                          Some _ \<Rightarrow> score
                        | None \<Rightarrow> int64 (score + hc_weight e (PluginName hc))) plugins 0
            in bnd GetLocalMember (\<lambda>(localMember, err).
               thn (SetScore localMember score) (ret False)))"

section \<open>Becoming active or passive\<close>

definition become_active :: "nat \<Rightarrow> string option go" where
  "become_active r =
     thn (SetLatency r '''')
    (thn (SetLastHCResponse r 0)
    (thn (SetStatus r ACTIVE)
    (thn MakeLocalActive
    (thn (emit (Started TaskMonitorClientConns))
    (thn (emit (Started TaskAddHealthCheckHandler))
         (ret None))))))"

definition ask :: "nat \<Rightarrow> ProtoFunction \<Rightarrow> request \<Rightarrow> string option go" where
  "ask r funcName data =
     bnd (Connect r) (\<lambda>err. case err of
       Some e \<Rightarrow> ret (Some e)
     | None \<Rightarrow> bnd (Send r funcName data) (\<lambda>res. case res of
         Inl e \<Rightarrow> ret (Some e)
       | Inr _ \<Rightarrow> ret None))"

definition MakeActive :: "nat \<Rightarrow> string option go" where
  "MakeActive r =
     reading (\<lambda>w. (GetGeneralPlugins (modules w), member w r)) (\<lambda>(plugins, m).
     thn (for_each plugins (\<lambda>p. emit (MemberFailover (PluginName p) m)))
    (reading (\<lambda>w. (GetLocalNode (DBConfig w), Hostname (member w r))) (\<lambda>(localNode, hostname). case localNode of
       Inl _ \<Rightarrow> ret (Some ''unable to retrieve local node configuration'')
     | Inr node \<Rightarrow>
         if hostname = NodeHostname node
         then become_active r
         else ask r SendPromote (ReqPromote \<lparr>PromoteTarget = hostname\<rparr>))))"

definition become_passive :: "nat \<Rightarrow> string option go" where
  "become_passive r =
     thn MakeLocalPassive
    (reading (\<lambda>w. now (env w)) (\<lambda>t.
     thn (SetLastHCResponse r t)
    (reading (\<lambda>w. Status (member w r)) (\<lambda>st.
     thn (if st \<noteq> PASSIVE
          then thn (SetStatus r PASSIVE) (emit (Started (TaskMonitorReceivedHCs r)))
          else skip)
         (ret None)))))"

definition MakePassive :: "nat \<Rightarrow> string option go" where
  "MakePassive r =
     reading (\<lambda>w. (GetLocalNode (DBConfig w), Hostname (member w r))) (\<lambda>(localNode, hostname). case localNode of
       Inl _ \<Rightarrow> ret (Some ''unable to retrieve local node configuration'')
     | Inr node \<Rightarrow>
         if hostname = NodeHostname node
         then become_passive r
         else ask r SendMakePassive (ReqMakePassive \<lparr>MakePassiveTarget = hostname\<rparr>))"

text \<open>\<^verbatim>\<open>PromoteMember\<close>. When the new member cannot be made active, the message that is logged and
  the fallback dereference the previous active member, which may be nil.\<close>

definition promote_unless :: "nat \<Rightarrow> string option go \<Rightarrow> string option go" where
  "promote_unless newActive continue =
     reading (\<lambda>w. (Status (member w newActive), Hostname (member w newActive), NodeCount (DBConfig w)))
       (\<lambda>(status, hostname, nodes).
        if status = UNAVAILABLE \<and> nodes > 1
        then thn (Logging_Warn (''Unable to promote member '' @ hostname @ '' because it is unavailable''))
                 (ret (Some ''unable to promote member as it is unavailable''))
        else if status = ACTIVE
        then thn (Logging_Warn (''Unable to promote member '' @ hostname @ '' as it is active''))
                 (ret (Some ''unable to promote member as it is already active''))
        else continue)"

definition demote :: "nat option \<Rightarrow> unit go" where
  "demote activeMember = (case activeMember of
     None \<Rightarrow> skip
   | Some a \<Rightarrow> bnd (MakePassive a) (\<lambda>err. thn (case err of
         Some _ \<Rightarrow> reading (\<lambda>w. Hostname (member w a)) (\<lambda>h. Logging_Warn (''Failed to make '' @ h @ '' passive, continuing''))
       | None \<Rightarrow> skip) (SetStatus a PASSIVE)))"

definition fall_back :: "nat \<Rightarrow> nat option \<Rightarrow> unit go" where
  "fall_back newActive activeMember =
     with_ref activeMember (\<lambda>a.
       thn (reading (\<lambda>w. (Hostname (member w newActive), Hostname (member w a))) (\<lambda>(new, old).
              Logging_Warn (''Failed to promote '' @ new @ '' to active. Falling back to '' @ old)))
           (bnd (MakeActive a) (\<lambda>err. case err of
              Some _ \<Rightarrow> Logging_Error ''Failed to make reinstate the active node. Something is really wrong''
            | None \<Rightarrow> skip)))"

definition swap_active :: "nat \<Rightarrow> string option go" where
  "swap_active newActive =
     reading (\<lambda>w. snd (GetActiveMember w)) (\<lambda>activeMember.
     thn (demote activeMember)
    (bnd (MakeActive newActive) (\<lambda>err.
     thn (case err of Some _ \<Rightarrow> fall_back newActive activeMember | None \<Rightarrow> skip)
         (ret None))))"

definition PromoteMember :: "string \<Rightarrow> string option go" where
  "PromoteMember hostname =
     bnd (GetMemberByHostname hostname) (\<lambda>found. case found of
       None \<Rightarrow> thn (Logging_Warn (''Unknown hostname '' @ hostname @ '' give in call to promoteMember''))
                 (ret (Some ''the specified host does not exist in the configured cluster''))
     | Some newActive \<Rightarrow> promote_unless newActive (swap_active newActive))"

section \<open>Routines of the scheduler\<close>

text \<open>\<^verbatim>\<open>time.Since\<close> saturates at the largest duration. The float64 arithmetic of \<^verbatim>\<open>Seconds\<close> and
  \<^verbatim>\<open>math.Floor\<close> is exact for intervals below 97 days and for the saturated one.\<close>

definition since :: "int \<Rightarrow> int \<Rightarrow> int" where
  "since t t0 = max (- (2 ^ 63)) (min (2 ^ 63 - 1) (t - t0))"

definition elapsed_seconds :: "int \<Rightarrow> int \<Rightarrow> int" where
  "elapsed_seconds t t0 = since t t0 div 1000000000"

definition suspect_active :: "int \<Rightarrow> unit go" where
  "suspect_active elapsed =
     (if elapsed > 0 \<and> elapsed mod 4 = 0
      then reading (\<lambda>w. snd (GetActiveMember w)) (\<lambda>a. case a of
             Some r \<Rightarrow> SetStatus r SUSPICIOUS
           | None \<Rightarrow> skip)
      else skip)"

definition failover_limit :: "int go" where
  "failover_limit =
     reading (\<lambda>w. (StartDelay w \<and> StartInterval w < 1, FailOverLimit (Pulse (DBConfig w)))) (\<lambda>(starting, limit).
       if starting
       then thn (modify (\<lambda>w. w\<lparr>StartInterval := int64 (StartInterval w + 1)\<rparr>)) (ret (int64 (limit * 2)))
       else thn (modify (\<lambda>w. w\<lparr>StartDelay := False\<rparr>)) (ret limit))"

definition failover :: "nat \<Rightarrow> bool go" where
  "failover r =
     bnd GetNextActiveMember (\<lambda>next. case next of
       Inl _ \<Rightarrow> thn (Logging_Warn ''unable to find new active member.. we are now the active'')
                  (thn (MakeActive r) (ret True))
     | Inr new \<Rightarrow> reading (\<lambda>w. (GetLocalNode (DBConfig w), Hostname (member w new))) (\<lambda>(localNode, hostname).
         case localNode of
           Inl _ \<Rightarrow> thn (Logging_Error ''unable to retrieve local node configuration'') (ret False)
         | Inr node \<Rightarrow>
             if hostname \<noteq> NodeHostname node
             then thn (Logging_Info (''Waiting on '' @ hostname @ '' to become active''))
                 (reading (\<lambda>w. now (env w)) (\<lambda>t. thn (SetLastHCResponse r t) (ret False)))
             else reading (\<lambda>w. snd (GetActiveMember w)) (\<lambda>active.
                  thn (case active of Some a \<Rightarrow> SetStatus a UNAVAILABLE | None \<Rightarrow> skip)
                 (thn (MakeActive new)
                 (thn (SetLastHCResponse new 0)
                 (thn (Logging_Info ''Local node is now active'')
                      (ret True)))))))"

definition MonitorReceivedHCs :: "nat \<Rightarrow> bool go" where
  "MonitorReceivedHCs r =
     reading (\<lambda>w. ClusterCheck (DBConfig w)) (\<lambda>cluster.
       if \<not> cluster then ret True
       else bnd GetLocalMember (\<lambda>(local, err). case err of
         Some _ \<Rightarrow> ret True
       | None \<Rightarrow> reading (\<lambda>w. (Status (member w local), elapsed_seconds (now (env w)) (LastHCResponse (member w r)))) (\<lambda>(st, elapsed).
           if st = ACTIVE then ret True
           else thn (suspect_active elapsed)
               (bnd failover_limit (\<lambda>foLimit.
                  if elapsed \<ge> foLimit sdiv 1000 then failover r else ret False)))))"

definition monitor_member :: "string \<Rightarrow> nat \<Rightarrow> bool option go" where
  "monitor_member localHostname r =
     reading (\<lambda>w. Hostname (member w r)) (\<lambda>hostname.
       if hostname = localHostname then ret None
       else bnd (Connect r) (\<lambda>err. case err of
         Some e \<Rightarrow> thn (Logging_Error e) (ret (Some False))
       | None \<Rightarrow> with_client r (\<lambda>c. case Connection c of
           None \<Rightarrow> crash_with NilDeref
         | Some k \<Rightarrow> reading (\<lambda>w. GetState (env w) (trace w) hostname k) (\<lambda>state.
             thn (case state of
                    Live Idle \<Rightarrow> skip
                  | Live Ready \<Rightarrow> SetStatus r PASSIVE
                  | _ \<Rightarrow> SetStatus r UNAVAILABLE)
                 (ret None)))))"

definition MonitorClientConns :: "bool go" where
  "MonitorClientConns =
     reading (\<lambda>w. ClusterCheck (DBConfig w)) (\<lambda>cluster.
       if \<not> cluster then ret True
       else bnd GetLocalMember (\<lambda>(local, err). case err of
         Some _ \<Rightarrow> ret True
       | None \<Rightarrow> reading (\<lambda>w. member w local) (\<lambda>lm.
           if Status lm = PASSIVE then ret True
           else reading Members (\<lambda>ms.
                bnd (for_return ms (monitor_member (Hostname lm))) (\<lambda>res.
                ret (case res of Some b \<Rightarrow> b | None \<Rightarrow> False))))))"

definition rpc_member :: "Env \<Rightarrow> Member \<Rightarrow> MemberlistMember" where
  "rpc_member e m = \<lparr>MlHostname = Hostname m, MlStatus = Status m,
     MlLastReceived = format_rfc1123 e (LastHCResponse m), MlLatency = Latency m, MlScore = int32 (Score m)\<rparr>"

definition rpc_memberlist :: "world \<Rightarrow> HealthCheckRequest" where
  "rpc_memberlist w = \<lparr>Memberlist = map (rpc_member (env w)) (members w)\<rparr>"

definition AddHealthCheckHandler :: "bool go" where
  "AddHealthCheckHandler =
     reading (\<lambda>w. ClusterCheck (DBConfig w)) (\<lambda>cluster.
       if \<not> cluster then ret True
       else bnd GetLocalMember (\<lambda>(local, err). case err of
         Some _ \<Rightarrow> ret True
       | None \<Rightarrow> reading (\<lambda>w. member w local) (\<lambda>lm.
           if Status lm = PASSIVE then ret True
           else bnd GetHighestScoreMember (\<lambda>best. case best of
             Inl e \<Rightarrow> crash_with (Panic e)
           | Inr highScorer \<Rightarrow>
               if highScorer \<noteq> Some local
               then with_ref highScorer (\<lambda>hs. reading (\<lambda>w. Hostname (member w hs)) (\<lambda>h.
                      thn (PromoteMember h) (ret True)))
               else reading Members (\<lambda>ms.
                    thn (for_each ms (\<lambda>r. reading (\<lambda>w. (member w r, rpc_memberlist w)) (\<lambda>(m, request).
                           if Hostname m \<noteq> Hostname lm \<and> \<not> HCBusy m \<and> Status m = PASSIVE
                           then emit (Started (TaskRoutineHC r request))
                           else skip)))
                        (ret False))))))"

text \<open>\<^verbatim>\<open>utils.Scheduler\<close>: the routine runs at every tick until it reports that it has ended. The ticks
  are the surroundings that the routine meets, one for each run.\<close>

fun Scheduler :: "bool go \<Rightarrow> Env list \<Rightarrow> unit go" where
  "Scheduler method [] = skip"
| "Scheduler method (tick # ticks) =
     thn (modify (\<lambda>w. w\<lparr>env := tick\<rparr>)) (bnd method (\<lambda>end. if end then skip else Scheduler method ticks))"

text \<open>\<^verbatim>\<open>MemberList.Setup\<close>.\<close>

definition MemberList_Setup :: "unit go" where
  "MemberList_Setup =
     thn LoadMembers
    (reading DBConfig (\<lambda>c. case GetLocalNode c of
       Inl err \<Rightarrow> crash_with (Fatal err)
     | Inr localNode \<Rightarrow>
         if ClusterCheck c
         then thn (reading (\<lambda>w. GetHealthCheckPlugins (modules w)) (\<lambda>hcs. emit (Started (TaskProcessHCs hcs))))
             (if NodeCount c = 1
              then thn (modify (\<lambda>w. w\<lparr>StartDelay := False\<rparr>))
                  (thn (PromoteMember (NodeHostname localNode)) skip)
              else bnd (GetMemberByHostname (NodeHostname localNode)) (\<lambda>found. with_ref found (\<lambda>r.
                   reading (\<lambda>w. now (env w)) (\<lambda>t.
                   thn (SetLastHCResponse r t)
                  (thn (SetStatus r PASSIVE)
                       (emit (Started (TaskMonitorReceivedHCs r))))))))
         else skip))"

section \<open>Split brain, and who may talk to us\<close>

text \<open>\<^verbatim>\<open>GetFailOverCountWinner\<close>: \<open>i\<close> is the index of the loop. A time that does not parse is the zero time.\<close>

fun winner_from :: "(string \<Rightarrow> int option) \<Rightarrow> bool \<Rightarrow> MemberlistMember list \<Rightarrow> nat \<Rightarrow> MemberlistMember list \<Rightarrow> crash + string" where
  "winner_from parse failback all i [] = Inr ''''"
| "winner_from parse failback all i (m # ms) =
     (if MlStatus m \<noteq> UNAVAILABLE
      then let tym = (case parse (MlLastReceived m) of Some t \<Rightarrow> t | None \<Rightarrow> 0)
           in if tym = 0 \<and> failback then Inr (MlHostname m)
              else if i > 1 then Inr (MlHostname (all ! (i - 1)))
              else if i + 1 < length all then Inr (MlHostname (all ! (i + 1)))
              else Inl OutOfRange
      else winner_from parse failback all (i + 1) ms)"

definition GetFailOverCountWinner :: "MemberlistMember list \<Rightarrow> string go" where
  "GetFailOverCountWinner ms =
     reading (\<lambda>w. winner_from (parse_rfc1123 (env w)) (AutoFailback (Pulse (DBConfig w))) ms 0 ms) (\<lambda>res.
       case res of Inl c \<Rightarrow> crash_with c | Inr h \<Rightarrow> ret h)"

text \<open>\<^verbatim>\<open>CanCommunicate\<close>: the peer of a call is the textual IP of its TCP address, if the context has one.\<close>

definition CanCommunicate :: "string option \<Rightarrow> bool go" where
  "CanCommunicate peer = (case peer of
     None \<Rightarrow> thn (Logging_Warn ''Unable to get address details for context'') (ret False)
   | Some ip \<Rightarrow> reading (\<lambda>w. GetNodeHostnameByAddress (order_at w ''GetNodeHostnameByAddress'') (DBConfig w) ip) (\<lambda>res.
       case res of
         Inl err \<Rightarrow> thn (Logging_Warn (err @ ''. Communication received from another node not in cluster'')) (ret False)
       | Inr _ \<Rightarrow> ret True))"

section \<open>At most one active member\<close>

text \<open>\<open>active_in A w\<close>: every member that is recorded as active is one of \<open>A\<close>.\<close>

definition active_in :: "nat set \<Rightarrow> world \<Rightarrow> bool" where
  "active_in A w \<longleftrightarrow> wf_members w \<and> (\<forall>r \<in> set (Members w). Status (member w r) = ACTIVE \<longrightarrow> r \<in> A)"

definition one_active :: "world \<Rightarrow> bool" where
  "one_active w \<longleftrightarrow> wf_members w \<and> length (filter (\<lambda>m. Status m = ACTIVE) (members w)) \<le> 1"

lemma core_statuses:
  assumes "core v = core w" and "wf_members w" and "r \<in> set (Members w)"
  shows "Status (member v r) = Status (member w r)"
  using assms core_member [OF assms(1)] by (auto simp: wf_members_def dest: strip_eq_fields(2))

interpretation active_in: core_property "active_in A" for A
proof unfold_locales
  fix v w :: world assume c: "core v = core w" and a: "active_in A w"
  then show "active_in A v"
    using core_wf_members [OF c] core_statuses [OF c] core_fields(3) [OF c] by (simp add: active_in_def)
qed

lemma active_in_one: "active_in {a} w \<Longrightarrow> one_active w"
proof -
  assume a: "active_in {a} w"
  then have d: "distinct (Members w)" by (simp add: active_in_def distinct_Members)
  let ?act = "filter (\<lambda>r. Status (member w r) = ACTIVE) (Members w)"
  have "set ?act \<subseteq> {a}" using a by (auto simp: active_in_def)
  moreover have "length ?act = card (set ?act)" using d by (metis distinct_card distinct_filter)
  moreover have "card (set ?act) \<le> card {a}" using calculation(1) by (intro card_mono) auto
  ultimately show ?thesis using a by (simp add: one_active_def active_in_def members_def filter_map comp_def)
qed

lemma one_active_first:
  assumes "one_active w"
  shows "active_in (set_option (snd (GetActiveMember w))) w"
proof -
  let ?P = "\<lambda>r. Status (member w r) = ACTIVE"
  from assms have l: "length (filter ?P (Members w)) \<le> 1" and wfm: "wf_members w"
    by (simp_all add: one_active_def members_def filter_map comp_def)
  show ?thesis
  proof (cases "find ?P (Members w)")
    case None
    then show ?thesis using wfm by (auto simp: active_in_def GetActiveMember_def find_None_iff)
  next
    case (Some a)
    then have "a \<in> set (filter ?P (Members w))" by (auto dest: find_SomeD)
    with l have "filter ?P (Members w) = [a]" by (cases "filter ?P (Members w)") auto
    then have "set (filter ?P (Members w)) = {a}" by (simp only: list.set)
    then have "\<forall>r \<in> set (Members w). ?P r \<longrightarrow> r = a" by auto
    then show ?thesis using Some wfm by (simp add: active_in_def GetActiveMember_def)
  qed
qed

lemma one_active_iff: "one_active w \<longleftrightarrow> (\<exists>a. active_in {a} w)"
proof
  assume "one_active w"
  from one_active_first [OF this] have "active_in (set_option (snd (GetActiveMember w))) w" .
  then show "\<exists>a. active_in {a} w"
    by (cases "snd (GetActiveMember w)") (auto simp: active_in_def)
qed (auto intro: active_in_one)

lemma wf_members_status: "wf_members (with_status r st w) = wf_members w"
  by (simp add: with_status_def wf_members_def map_field_update_member)

lemma status_with_status:
  "wf_members w \<Longrightarrow> q \<in> set (Members w) \<Longrightarrow>
     Status (member (with_status r st w) q) = (if q = r then st else Status (member w q))"
  by (cases "r < length (heap w)")
    (auto simp: with_status_def member_update_member wf_members_def member_def update_member_def list_update_beyond)

lemma Members_with_status [simp]: "Members (with_status r st w) = Members w"
  by (simp add: with_status_def)

lemma SetStatus_passive: "st \<noteq> ACTIVE \<Longrightarrow> partial (active_in A) C (SetStatus r st) (\<lambda>_. active_in (A - {r}))"
  by (auto simp: partial_def SetStatus_run active_in_def wf_members_status status_with_status)

lemma SetStatus_active: "partial (active_in A) C (SetStatus r ACTIVE) (\<lambda>_. active_in (insert r A))"
  by (auto simp: partial_def SetStatus_run active_in_def wf_members_status status_with_status)

lemma active_in_mono: "active_in A w \<Longrightarrow> A \<subseteq> B \<Longrightarrow> active_in B w"
  by (auto simp: active_in_def)

lemma status_setters:
  "safe (active_in A) C (SetHCBusy r b)" "safe (active_in A) C (SetLatency r l)"
  "safe (active_in A) C (SetScore r sc)" "safe (active_in A) C (SetLastHCResponse r t)"
proof -
  have "active_in A (update_member r f w) = active_in A w"
    if "\<And>m. Status (f m) = Status m" "\<And>m. Hostname (f m) = Hostname m" for f w
  proof -
    have "Status (member (update_member r f w) q) = Status (member w q)" for q
      using that by (cases "r < length (heap w)")
        (simp_all add: member_update_member, simp add: member_def update_member_def list_update_beyond)
    then show ?thesis by (simp add: active_in_def wf_members_def map_field_update_member that)
  qed
  then show "safe (active_in A) C (SetHCBusy r b)" "safe (active_in A) C (SetLatency r l)"
    "safe (active_in A) C (SetScore r sc)" "safe (active_in A) C (SetLastHCResponse r t)"
    unfolding setter_defs by (auto intro!: safe_modify)
qed

lemma SetStatus_keeps: "st \<noteq> ACTIVE \<Longrightarrow> safe (active_in A) C (SetStatus r st)"
  unfolding safe_def by (rule partial_post [OF SetStatus_passive]) (auto intro: active_in_mono)

subsection \<open>Promotion\<close>

lemma quiet_ask: "quiet (ask r f d)"
  unfolding ask_def by (intro quiet_intro)

lemma MakePassive_keeps: "safe (active_in A) any_crash (MakePassive r)"
  unfolding MakePassive_def become_passive_def
  by (intro safe_intro status_setters SetStatus_keeps active_in.keeps_emit active_in.quiet_keeps
      quiet_MakeLocalPassive quiet_ask) simp_all

lemma demote_none:
  "partial (\<lambda>w. one_active w \<and> snd (GetActiveMember w) = a) any_crash (demote a) (\<lambda>_. active_in {})"
proof (cases a)
  case None
  then show ?thesis by (auto simp: demote_def partial_def dest: one_active_first)
next
  case (Some b)
  have "partial (active_in {b}) any_crash (demote a) (\<lambda>_. active_in {})"
    unfolding demote_def Some option.case
  proof (intro partial_bnd [where R = "\<lambda>_. active_in {b}"] partial_thn [where R = "active_in {b}"])
    show "partial (active_in {b}) any_crash (MakePassive b) (\<lambda>_. active_in {b})"
      by (rule safe_partial [OF MakePassive_keeps])
    show "partial (active_in {b}) any_crash (SetStatus b PASSIVE) (\<lambda>_. active_in {})"
      using SetStatus_passive [of PASSIVE "{b}" any_crash b] by simp
    show "partial (active_in {b}) any_crash (case x of
         Some _ \<Rightarrow> reading (\<lambda>w. Hostname (member w b)) (\<lambda>h. Logging_Warn (''Failed to make '' @ h @ '' passive, continuing''))
       | None \<Rightarrow> skip) (\<lambda>_. active_in {b})" for x
      by (rule safe_partial) (intro safe_intro active_in.quiet_keeps [OF quiet_Logging(1)])
  qed
  then show ?thesis by (rule partial_pre) (use one_active_first Some in fastforce)
qed

lemma become_active_post:
  "partial (active_in A) any_crash (become_active r) (\<lambda>err w. err = None \<and> active_in (insert r A) w)"
  unfolding become_active_def
  by (rule partial_thn [OF safe_partial [OF status_setters(2)]],
      rule partial_thn [OF safe_partial [OF status_setters(4)]],
      rule partial_thn [OF SetStatus_active],
      rule partial_thn [OF safe_partial [OF active_in.quiet_keeps [OF quiet_MakeLocalActive]]],
      rule partial_thn [OF safe_partial [OF active_in.keeps_emit]],
      rule partial_thn [OF safe_partial [OF active_in.keeps_emit]],
      rule partial_ret) simp

definition made_active :: "nat \<Rightarrow> nat set \<Rightarrow> string option \<Rightarrow> world \<Rightarrow> bool" where
  "made_active r A err = (if err = None then active_in (insert r A) else active_in A)"

lemma safe_made_active: "safe (active_in A) any_crash m \<Longrightarrow> partial (active_in A) any_crash m (made_active r A)"
  by (rule partial_post [OF safe_partial]) (auto simp: made_active_def intro: active_in_mono)

lemma MakeActive_post: "partial (active_in A) any_crash (MakeActive r) (made_active r A)"
  unfolding MakeActive_def
proof (intro partial_any_reading partial_case_prod partial_thn [where R = "active_in A"] partial_case_sum partial_if)
  show "partial (active_in A) any_crash (for_each ps (\<lambda>p. emit (MemberFailover (PluginName p) m))) (\<lambda>_. active_in A)" for ps m
    by (rule safe_partial) (rule safe_for_each, rule active_in.keeps_emit)
  show "partial (active_in A) any_crash (become_active r) (made_active r A)"
    by (rule partial_post [OF become_active_post]) (simp add: made_active_def)
  show "partial (active_in A) any_crash (ret (Some x)) (made_active r A)" for x
    by (rule safe_made_active) (rule safe_ret)
  show "partial (active_in A) any_crash (ask r f d) (made_active r A)" for f d
    by (rule safe_made_active) (rule active_in.quiet_keeps [OF quiet_ask])
qed

lemma fall_back_post: "partial (active_in {}) any_crash (fall_back n a) (\<lambda>_. one_active)"
proof (cases a)
  case None
  then show ?thesis by (simp add: fall_back_def with_ref_def partial_crash)
next
  case (Some b)
  have "partial (made_active b {} x) any_crash (case x of
      Some _ \<Rightarrow> Logging_Error ''Failed to make reinstate the active node. Something is really wrong''
    | None \<Rightarrow> skip) (\<lambda>_. one_active)" for x
  proof (rule partial_weaken [where Q = "\<lambda>_. active_in {b}"])
    show "partial (active_in {b}) any_crash (case x of
      Some _ \<Rightarrow> Logging_Error ''Failed to make reinstate the active node. Something is really wrong''
    | None \<Rightarrow> skip) (\<lambda>_. active_in {b})"
      by (rule safe_partial) (intro safe_intro active_in.quiet_keeps quiet_Logging)
  qed (auto simp: made_active_def split: if_splits intro: active_in_mono active_in_one)
  then show ?thesis unfolding Some fall_back_def with_ref_def option.case
    by (intro partial_thn [where R = "active_in {}"] partial_bnd [OF MakeActive_post])
      (rule safe_partial, intro safe_intro active_in.quiet_keeps quiet_Logging)
qed

lemma GetMemberByHostname_Ret:
  assumes "GetMemberByHostname h w = Ret x v"
  shows "v = w" "x = find_member w h" "h \<noteq> ''''" "\<not> ml_lock w"
proof -
  have "GetMemberByHostname '''' w = Crash (Deadlock ''MemberList'')"
    by (simp add: GetMemberByHostname_def locked_ml_Crash Logging_Warn_def emit_def log_send_def
        Broadcast_def locked_ml_def lock_ml_run)
  with assms show "h \<noteq> ''''" by auto
  then show "v = w" "x = find_member w h" "\<not> ml_lock w"
    using assms by (auto simp: GetMemberByHostname_def locked_ml_Ret)
qed

lemma quiet_one_active: "quiet m \<Longrightarrow> safe one_active any_crash m"
  unfolding safe_def by (rule partialI) (auto simp: one_active_iff dest: quietD intro: active_in.core_only)

lemma PromoteMember_post: "safe one_active any_crash (PromoteMember h)"
proof -
  have fb: "partial (made_active n {} err) any_crash
      (thn (case err of Some _ \<Rightarrow> fall_back n a | None \<Rightarrow> skip) (ret (None :: string option))) (\<lambda>_. one_active)"
    for n a and err :: "string option"
    by (cases err) (auto simp: made_active_def intro!: partial_thn [where R = one_active] partial_ret
        partial_skip fall_back_post active_in_one)
  have body: "partial one_active any_crash (swap_active n) (\<lambda>_. one_active)" for n
    unfolding swap_active_def
    by (rule partial_reading, rule partial_thn [OF demote_none], rule partial_bnd [OF MakeActive_post], rule fb)
  show ?thesis unfolding PromoteMember_def promote_unless_def safe_def
  proof (intro partial_bnd [where R = "\<lambda>_. one_active"] partial_case_option partial_any_reading
      partial_case_prod partial_if body)
    show "partial one_active any_crash (GetMemberByHostname h) (\<lambda>_. one_active)"
      by (rule partialI) (auto dest: GetMemberByHostname_Ret)
  qed (rule safe_partial, rule quiet_one_active, intro quiet_intro)+
qed

text \<open>\<^bold>\<open>C4.\<close> However a promotion ends, with whatever answers of the other nodes and of the plugin, at
  most one member is recorded as active afterwards if at most one was before.\<close>

theorem PromoteMember_one_active:
  assumes "one_active w" and "PromoteMember h w = Ret err v"
  shows "one_active v"
  using PromoteMember_post assms by (rule safeD)

subsection \<open>What a promotion does\<close>

text \<open>The error with which a promotion is refused, if it is: no member has the host name, the member is
  unavailable and the cluster has other nodes, or the member is already active.\<close>

definition promotion_error :: "world \<Rightarrow> string \<Rightarrow> string option" where
  "promotion_error w h = (case find_member w h of
     None \<Rightarrow> Some ''the specified host does not exist in the configured cluster''
   | Some r \<Rightarrow>
       if Status (member w r) = UNAVAILABLE \<and> NodeCount (DBConfig w) > 1 then Some ''unable to promote member as it is unavailable''
       else if Status (member w r) = ACTIVE then Some ''unable to promote member as it is already active''
       else None)"

lemma swap_active_None: "swap_active n w = Ret err v \<Longrightarrow> err = None"
  by (auto simp: swap_active_def split: outcome.splits)

lemma refused_warning:
  assumes "thn (Logging_Warn m) (ret e) w = Ret x t"
  shows "x = e \<and> core t = core w \<and> only_added log_entry (trace w) t"
proof -
  from assms have "Logging_Warn m w = Ret () t" "x = e" by (auto split: outcome.splits)
  with quietD [OF quiet_Logging(1)] safeD [OF only_added_Logging(1) only_added_refl] show ?thesis by blast
qed

text \<open>\<^bold>\<open>C13.\<close> A promotion that reports an error has changed nothing: config and members are as they were and
  it has done nothing but write log messages, so that no floating IP was touched and no node was
  asked to step down or to take over. The error says why: no member has the host name, the member is
  unavailable and the cluster has other nodes, or it is already active. In every other case the
  promotion reports none, also when the other node did not take over.\<close>

theorem PromoteMember_refused:
  assumes "PromoteMember h w = Ret err v"
  shows "err = promotion_error w h \<and> (err \<noteq> None \<longrightarrow> core v = core w \<and> only_added log_entry (trace w) v)"
proof -
  from assms obtain x u where "GetMemberByHostname h w = Ret x u"
    unfolding PromoteMember_def outcome_bnd_Ret by blast
  note get = GetMemberByHostname_Ret [OF this]
  show ?thesis
  proof (cases "find_member w h")
    case None
    with assms get have "thn (Logging_Warn (''Unknown hostname '' @ h @ '' give in call to promoteMember''))
                 (ret (Some ''the specified host does not exist in the configured cluster'')) w = Ret err v"
      unfolding PromoteMember_def by (simp add: GetMemberByHostname_run)
    from refused_warning [OF this] None show ?thesis by (simp add: promotion_error_def)
  next
    case (Some r)
    with assms get have run: "promote_unless r (swap_active r) w = Ret err v"
      unfolding PromoteMember_def by (simp add: GetMemberByHostname_run)
    consider "Status (member w r) = UNAVAILABLE \<and> NodeCount (DBConfig w) > 1"
      | "\<not> (Status (member w r) = UNAVAILABLE \<and> NodeCount (DBConfig w) > 1)" "Status (member w r) = ACTIVE"
      | "\<not> (Status (member w r) = UNAVAILABLE \<and> NodeCount (DBConfig w) > 1)" "Status (member w r) \<noteq> ACTIVE" by blast
    then show ?thesis
    proof cases
      case 1
      with run have "thn (Logging_Warn (''Unable to promote member '' @ Hostname (member w r) @ '' because it is unavailable''))
                 (ret (Some ''unable to promote member as it is unavailable'')) w = Ret err v"
        by (simp add: promote_unless_def)
      from refused_warning [OF this] 1 Some show ?thesis by (simp add: promotion_error_def)
    next
      case 2
      with run have "thn (Logging_Warn (''Unable to promote member '' @ Hostname (member w r) @ '' as it is active''))
                 (ret (Some ''unable to promote member as it is already active'')) w = Ret err v"
        by (simp add: promote_unless_def)
      from refused_warning [OF this] 2 Some show ?thesis by (simp add: promotion_error_def)
    next
      case 3
      with run have "swap_active r w = Ret err v" by (auto simp: promote_unless_def)
      from swap_active_None [OF this] 3 Some show ?thesis by (simp add: promotion_error_def)
    qed
  qed
qed

lemma sound_ask: "r \<in> set ms \<Longrightarrow> GetProtoFunc d = Some f \<Longrightarrow> sound False ms (ask r f d)"
  unfolding ask_def by (intro Connect_Send safe_intro)

lemma sound_become_active: "sound False ms (become_active r)"
  unfolding become_active_def
  by (intro safe_intro linked_emit sound_setters sound_SetStatus sound_MakeLocalActive)

lemma sound_MakeActive: "r \<in> set ms \<Longrightarrow> sound False ms (MakeActive r)"
  unfolding MakeActive_def by (intro safe_intro linked_emit sound_become_active sound_ask) simp_all

lemma sound_MakePassive: "r \<in> set ms \<Longrightarrow> sound False ms (MakePassive r)"
  unfolding MakePassive_def become_passive_def
  by (intro safe_intro linked_emit sound_setters sound_SetStatus sound_MakeLocalPassive sound_ask) simp_all

lemma sound_demote: "set_option a \<subseteq> set ms \<Longrightarrow> sound False ms (demote a)"
  unfolding demote_def by (intro safe_intro sound_MakePassive sound_Logging sound_SetStatus) simp_all

text \<open>A member that stays where it is: \<open>r\<close> is the member of the host name \<open>h\<close> in a daemon with
  the config \<open>c\<close>, and only members of \<open>A\<close> are active.\<close>

definition placed :: "Config \<Rightarrow> nat \<Rightarrow> string \<Rightarrow> nat set \<Rightarrow> world \<Rightarrow> bool" where
  "placed c r h A w \<longleftrightarrow> active_in A w \<and> r \<in> set (Members w) \<and> DBConfig w = c \<and> Hostname (member w r) = h"

interpretation placed: core_property "placed c r h A" for c r h A
proof unfold_locales
  fix v w :: world assume co: "core v = core w" and p: "placed c r h A w"
  then have "wf_members w" and r: "r \<in> set (Members w)" by (auto simp: placed_def active_in_def)
  then have "Hostname (member v r) = Hostname (member w r)"
    using core_member [OF co] by (auto simp: wf_members_def dest: strip_eq_fields(1))
  with p core_fields [OF co] active_in.core_only [OF co] show "placed c r h A v" by (simp add: placed_def)
qed

lemma hostname_update_member:
  "(\<And>m. Hostname (f m) = Hostname m) \<Longrightarrow> Hostname (member (update_member q f w) r) = Hostname (member w r)"
  by (cases "q < length (heap w)")
    (simp_all add: member_update_member, simp add: member_def update_member_def list_update_beyond)

lemma placed_setters:
  "safe (placed c r h A) C (SetHCBusy q b)" "safe (placed c r h A) C (SetLatency q l)"
  "safe (placed c r h A) C (SetScore q sc)" "safe (placed c r h A) C (SetLastHCResponse q t)"
proof -
  have "safe (placed c r h A) C (modify (update_member q f))"
    if "safe (active_in A) C (modify (update_member q f))" "\<And>m. Hostname (f m) = Hostname m" for f
    using that(1) by (auto simp: safe_def partial_def placed_def hostname_update_member that(2))
  then show "safe (placed c r h A) C (SetHCBusy q b)" "safe (placed c r h A) C (SetLatency q l)"
    "safe (placed c r h A) C (SetScore q sc)" "safe (placed c r h A) C (SetLastHCResponse q t)"
    using status_setters [of A C q] unfolding setter_defs by simp_all
qed

lemma placed_SetStatus:
  "st \<noteq> ACTIVE \<Longrightarrow> partial (placed c r h A) C (SetStatus q st) (\<lambda>_. placed c r h (A - {q}))"
  "partial (placed c r h A) C (SetStatus q ACTIVE) (\<lambda>_ w. placed c r h (insert q A) w \<and> (q = r \<longrightarrow> Status (member w r) = ACTIVE))"
proof -
  have h: "Hostname (member (with_status q s w) r) = Hostname (member w r)" for s w
    by (simp add: with_status_def hostname_update_member)
  have d: "DBConfig (with_status q s w) = DBConfig w" for s w by (simp add: with_status_def)
  show "st \<noteq> ACTIVE \<Longrightarrow> partial (placed c r h A) C (SetStatus q st) (\<lambda>_. placed c r h (A - {q}))"
    by (auto simp: partial_def SetStatus_run placed_def active_in_def wf_members_status status_with_status h d)
  show "partial (placed c r h A) C (SetStatus q ACTIVE) (\<lambda>_ w. placed c r h (insert q A) w \<and> (q = r \<longrightarrow> Status (member w r) = ACTIVE))"
    by (auto simp: partial_def SetStatus_run placed_def active_in_def wf_members_status status_with_status h d)
qed

definition serving :: "Config \<Rightarrow> nat \<Rightarrow> string \<Rightarrow> nat set \<Rightarrow> world \<Rightarrow> bool" where
  "serving c r h A w \<longleftrightarrow> placed c r h A w \<and> Status (member w r) = ACTIVE"

interpretation serving: core_property "serving c r h A" for c r h A
proof unfold_locales
  fix v w :: world assume co: "core v = core w" and s: "serving c r h A w"
  then have "wf_members w" and r: "r \<in> set (Members w)" by (auto simp: serving_def placed_def active_in_def)
  from core_statuses [OF co this] placed.core_only [OF co] s show "serving c r h A v" by (simp add: serving_def)
qed

text \<open>The routines of an active node have been started.\<close>

definition monitoring :: "world \<Rightarrow> bool" where
  "monitoring w \<longleftrightarrow> {Started TaskMonitorClientConns, Started TaskAddHealthCheckHandler} \<subseteq> set (trace w)"

lemma become_active_serving:
  "partial (placed c r h A) any_crash (become_active r)
     (\<lambda>err w. err = None \<and> serving c r h (insert r A) w \<and> monitoring w)"
proof -
  have st: "partial (placed c r h A) any_crash (SetStatus r ACTIVE) (\<lambda>_. serving c r h (insert r A))"
    by (rule partial_post [OF placed_SetStatus(2)]) (simp add: serving_def)
  have em: "partial (serving c r h (insert r A)) any_crash
      (thn (emit (Started TaskMonitorClientConns)) (thn (emit (Started TaskAddHealthCheckHandler)) (ret None)))
      (\<lambda>err w. err = None \<and> serving c r h (insert r A) w \<and> monitoring w)"
    by (auto simp: partial_def emit_def monitoring_def intro: serving.keeps_trace)
  show ?thesis unfolding become_active_def
    by (rule partial_thn [OF safe_partial [OF placed_setters(2)]],
        rule partial_thn [OF safe_partial [OF placed_setters(4)]],
        rule partial_thn [OF st],
        rule partial_thn [OF safe_partial [OF serving.quiet_keeps [OF quiet_MakeLocalActive]]],
        rule em)
qed

lemma MakeActive_serving:
  assumes "GetLocalNode c = Inr node" and "h = NodeHostname node"
  shows "partial (placed c r h A) any_crash (MakeActive r)
     (\<lambda>err w. err = None \<and> serving c r h (insert r A) w \<and> monitoring w)"
proof -
  have plugins: "partial (placed c r h A) any_crash (for_each ps (\<lambda>p. emit (MemberFailover (PluginName p) m)))
      (\<lambda>_. placed c r h A)" for ps m
    by (rule safe_partial) (rule safe_for_each, rule placed.keeps_emit)
  have rest: "partial (placed c r h A) any_crash
      (reading (\<lambda>w. (GetLocalNode (DBConfig w), Hostname (member w r))) (\<lambda>(localNode, hostname). case localNode of
         Inl _ \<Rightarrow> ret (Some ''unable to retrieve local node configuration'')
       | Inr node \<Rightarrow> if hostname = NodeHostname node then become_active r
           else ask r SendPromote (ReqPromote \<lparr>PromoteTarget = hostname\<rparr>)))
      (\<lambda>err w. err = None \<and> serving c r h (insert r A) w \<and> monitoring w)"
    using become_active_serving [of c r h A] assms by (simp add: partial_def placed_def)
  show ?thesis unfolding MakeActive_def
    by (rule partial_any_reading, rule partial_case_prod, rule partial_thn [OF plugins rest])
qed

lemma MakePassive_placed: "safe (placed c r h A) any_crash (MakePassive q)"
proof -
  have st: "safe (placed c r h A) any_crash (SetStatus q PASSIVE)"
    unfolding safe_def by (rule partial_post [OF placed_SetStatus(1)]) (auto simp: placed_def intro: active_in_mono)
  show ?thesis unfolding MakePassive_def become_passive_def
    by (intro safe_intro st placed_setters placed.keeps_emit placed.quiet_keeps [OF quiet_MakeLocalPassive]
        placed.quiet_keeps [OF quiet_ask] placed.keeps_trace)

qed

lemma demote_placed:
  "partial (placed c r h (set_option a)) any_crash (demote a) (\<lambda>_. placed c r h {})"
proof (cases a)
  case None
  then show ?thesis by (simp add: demote_def partial_def)
next
  case (Some b)
  have "partial (placed c r h {b}) any_crash (SetStatus b PASSIVE) (\<lambda>_. placed c r h {})"
    using placed_SetStatus(1) [of PASSIVE c r h "{b}" any_crash b] by simp
  then show ?thesis unfolding Some demote_def option.case option.set
    by (intro partial_bnd [OF safe_partial [OF MakePassive_placed]] partial_thn [OF safe_partial] safe_intro
        placed.quiet_keeps quiet_Logging)
qed

text \<open>\<open>keeping X ms f\<close>: the members are \<open>ms\<close>, and those outside \<open>X\<close> have the statuses \<open>f\<close>.\<close>

definition keeping :: "nat set \<Rightarrow> nat list \<Rightarrow> (nat \<Rightarrow> Status) \<Rightarrow> world \<Rightarrow> bool" where
  "keeping X ms f w \<longleftrightarrow> wf_members w \<and> Members w = ms \<and> (\<forall>q \<in> set ms - X. Status (member w q) = f q)"

interpretation keeping: core_property "keeping X ms f" for X ms f
proof unfold_locales
  fix v w :: world assume co: "core v = core w" and k: "keeping X ms f w"
  then show "keeping X ms f v"
    using core_wf_members [OF co] core_statuses [OF co] core_fields(3) [OF co] by (simp add: keeping_def)
qed

lemma status_update_member:
  "(\<And>m. Status (f m) = Status m) \<Longrightarrow> Status (member (update_member r f w) q) = Status (member w q)"
  by (cases "r < length (heap w)")
    (simp_all add: member_update_member, simp add: member_def update_member_def list_update_beyond)

lemma keeping_setters:
  "safe (keeping X ms f) C (SetLatency r l)" "safe (keeping X ms f) C (SetLastHCResponse r t)"
  unfolding setter_defs
  by (intro safe_modify; simp add: keeping_def wf_members_def map_field_update_member status_update_member)+

lemma keeping_SetStatus:
  "partial (keeping (insert q X) ms f) C (SetStatus q st) (\<lambda>_. keeping X ms (f(q := st)))"
  "q \<in> X \<Longrightarrow> safe (keeping X ms f) C (SetStatus q st)"
  unfolding safe_def by (auto simp: partial_def SetStatus_run keeping_def wf_members_status status_with_status)

lemma keeping_MakeActive: "safe (keeping {r} ms f) any_crash (MakeActive r)"
  unfolding MakeActive_def become_active_def
  by (intro safe_intro keeping_setters keeping_SetStatus(2) keeping.keeps_emit keeping.quiet_keeps quiet_MakeLocalActive quiet_ask) simp_all

lemma keeping_MakePassive: "q \<in> X \<Longrightarrow> safe (keeping X ms f) any_crash (MakePassive q)"
  unfolding MakePassive_def become_passive_def
  by (intro safe_intro keeping_setters keeping_SetStatus(2) keeping.keeps_emit keeping.quiet_keeps quiet_MakeLocalPassive quiet_ask) simp_all

lemma keeping_mono: "keeping X ms f w \<Longrightarrow> X \<subseteq> Y \<Longrightarrow> keeping Y ms f w"
  by (auto simp: keeping_def)

lemma keeping_demote:
  "partial (keeping {r} ms f) any_crash (demote a) (\<lambda>_. keeping {r} ms (\<lambda>q. if a = Some q then PASSIVE else f q))"
proof (cases a)
  case None
  then show ?thesis by (simp add: demote_def partial_skip)
next
  case (Some b)
  have "f(b := PASSIVE) = (\<lambda>q. if a = Some q then PASSIVE else f q)" using Some by auto
  with keeping_SetStatus(1) [of b "{r}" ms f any_crash PASSIVE]
  have st: "partial (keeping {b, r} ms f) any_crash (SetStatus b PASSIVE) (\<lambda>_. keeping {r} ms (\<lambda>q. if a = Some q then PASSIVE else f q))" by simp
  have "partial (keeping {b, r} ms f) any_crash (demote a) (\<lambda>_. keeping {r} ms (\<lambda>q. if a = Some q then PASSIVE else f q))"
    unfolding Some demote_def option.case
    by (intro partial_bnd [OF safe_partial [OF keeping_MakePassive]] partial_thn [OF safe_partial st [unfolded Some]] safe_intro
        keeping.quiet_keeps quiet_Logging) simp
  then show ?thesis by (rule partial_pre) (auto intro: keeping_mono)
qed

text \<open>Which addresses a change of role leaves up on the machine.\<close>

lemma supplying_setters:
  "safe (supplying c m S H) any_crash (SetLatency r l)" "safe (supplying c m S H) any_crash (SetLastHCResponse r t)"
  "safe (supplying c m S H) any_crash (SetStatus r st)"
proof -
  show "safe (supplying c m S H) any_crash (SetLatency r l)" "safe (supplying c m S H) any_crash (SetLastHCResponse r t)"
    unfolding setter_defs by (intro safe_modify; simp)+
  have "list_all (\<lambda>e. \<not> address_change e) (status_events u)" for u by (auto simp: status_events_def list_all_iff)
  then show "safe (supplying c m S H) any_crash (SetStatus r st)"
    by (auto simp: safe_def partial_def SetStatus_run supplying_def held_others with_status_def)
qed

lemma supplying_ask: "safe (supplying c m S H) any_crash (ask r f d)"
proof (rule supplying_added [OF quiet_ask])
  show "safe (only_added (\<lambda>e. \<not> address_change e) t) any_crash (ask r f d)" for t
    unfolding ask_def Send_def with_client_def
    by (intro safe_intro only_added_Connect only_added_Client_Send) simp_all
qed

lemma MakeActive_supplies:
  assumes "wf_config c" and "GetLocalNode c = Inr node"
  shows "partial (\<lambda>w. supplying c m S H w \<and> Hostname (member w r) = NodeHostname node) any_crash (MakeActive r)
    (\<lambda>_. supplying c m S (H \<union> plugged m (addresses c (NodeHostname node))))"
proof -
  let ?h = "NodeHostname node" and ?P = "\<lambda>w. supplying c m S H w \<and> Hostname (member w r) = NodeHostname node"
  have tail: "partial (supplying c m S H') any_crash (thn (emit (Started TaskMonitorClientConns)) (thn (emit (Started TaskAddHealthCheckHandler))
      (ret None))) (\<lambda>_. supplying c m S H')" for H'
    by (rule safe_partial) (intro safe_intro supplying_emit; simp)
  have up: "partial (supplying c m S H) any_crash (become_active r) (\<lambda>_. supplying c m S (H \<union> plugged m (addresses c ?h)))"
    unfolding become_active_def
    by (rule partial_thn [OF safe_partial [OF supplying_setters(1)]], rule partial_thn [OF safe_partial [OF supplying_setters(2)]],
        rule partial_thn [OF safe_partial [OF supplying_setters(3)]], rule partial_thn [OF MakeLocalActive_supplies [OF assms]], rule tail)
  have plugins: "partial ?P any_crash (for_each ps (\<lambda>p. emit (MemberFailover (PluginName p) x))) (\<lambda>_. ?P)" for ps x
    by (rule safe_partial, rule safe_for_each) (auto simp: safe_def partial_def emit_def supplying_def)
  have rest: "partial ?P any_crash
      (reading (\<lambda>w. (GetLocalNode (DBConfig w), Hostname (member w r))) (\<lambda>(localNode, hostname). case localNode of
         Inl _ \<Rightarrow> ret (Some ''unable to retrieve local node configuration'')
       | Inr node \<Rightarrow> if hostname = NodeHostname node then become_active r
           else ask r SendPromote (ReqPromote \<lparr>PromoteTarget = hostname\<rparr>)))
      (\<lambda>_. supplying c m S (H \<union> plugged m (addresses c ?h)))"
    using up assms(2) by (simp add: partial_def supplying_def)
  show ?thesis unfolding MakeActive_def
    by (rule partial_any_reading, rule partial_case_prod, rule partial_thn [OF plugins rest])
qed

text \<open>Asking another node to step down does not touch the addresses of this one.\<close>

lemma demote_other_supplies:
  assumes "GetLocalNode c = Inr node" and "\<And>b. a = Some b \<Longrightarrow> Hostname (member w b) \<noteq> NodeHostname node"
    and "supplying c m S H w" and "demote a w = Ret () v"
  shows "supplying c m S H v"
proof (cases a)
  case None
  with assms(3,4) show ?thesis by (simp add: demote_def)
next
  case (Some b)
  from assms(3) have c: "DBConfig w = c" by (simp add: supplying_def)
  let ?rest = "\<lambda>err. thn (case err of
         Some _ \<Rightarrow> reading (\<lambda>w. Hostname (member w b)) (\<lambda>h. Logging_Warn (''Failed to make '' @ h @ '' passive, continuing''))
       | None \<Rightarrow> skip) (SetStatus b PASSIVE)"
  have run: "bnd (ask b SendMakePassive (ReqMakePassive \<lparr>MakePassiveTarget = Hostname (member w b)\<rparr>)) ?rest w = Ret () v"
    using assms(1,4) assms(2) [OF Some] c unfolding Some demote_def by (simp add: MakePassive_def)

  have "safe (supplying c m S H) any_crash
      (bnd (ask b SendMakePassive (ReqMakePassive \<lparr>MakePassiveTarget = Hostname (member w b)\<rparr>)) ?rest)"
    by (intro safe_intro supplying_ask supplying_Logging supplying_setters)
  from safeD [OF this assms(3) run] show ?thesis .

qed

lemma PromoteMember_local_run:
  assumes "wf w" and "one_active w" and "linked False (Members w) w"
    and "GetLocalNode (DBConfig w) = Inr node" and "h = NodeHostname node" and "h \<noteq> ''''"
    and "find_member w h = Some r"
    and "Status (member w r) \<noteq> ACTIVE" and "Status (member w r) = UNAVAILABLE \<Longrightarrow> NodeCount (DBConfig w) \<le> 1"
  shows "\<exists>v. PromoteMember h w = Ret None v \<and> Members v = Members w \<and> Status (member v r) = ACTIVE \<and>
    (\<forall>q \<in> set (Members v). q \<noteq> r \<longrightarrow> Status (member v q) = (if snd (GetActiveMember w) = Some q then PASSIVE else Status (member w q))) \<and>
    held S (trace v) = held S (trace w) \<union> plugged (modules w) (addresses (DBConfig w) h) \<and> monitoring v"
proof -
  let ?a = "snd (GetActiveMember w)" and ?ms = "Members w" and ?sup = "supplying (DBConfig w) (modules w) S"
  from find_member_SomeD [OF assms(7)] have r: "r \<in> set ?ms" "Hostname (member w r) = h" by auto
  with one_active_first [OF assms(2)] have p: "placed (DBConfig w) r h (set_option ?a) w" by (simp add: placed_def)
  have a: "b \<in> set ?ms" "Status (member w b) = ACTIVE" if "?a = Some b" for b
    using that by (auto simp: GetActiveMember_def split: option.splits dest: find_SomeD)
  have other: "Hostname (member w b) \<noteq> NodeHostname node" if "?a = Some b" for b
  proof
    assume "Hostname (member w b) = NodeHostname node"
    with find_member_unique [OF wf_wf_members [OF assms(1)] a(1) [OF that]] assms(5,7) have "b = r" by simp
    with a(2) [OF that] assms(8) show False by simp
  qed
  have run: "PromoteMember h w = thn (demote ?a) (bnd (MakeActive r) (\<lambda>err.
      thn (case err of Some _ \<Rightarrow> fall_back r ?a | None \<Rightarrow> skip) (ret None))) w"
    using assms(3,6,7,8,9) unfolding PromoteMember_def promote_unless_def swap_active_def
    by (auto simp: GetMemberByHostname_run linked_def)
  have "set_option ?a \<subseteq> set ?ms" using a(1) by auto
  from safe_totalD [OF sound_demote [OF this] assms(3)] obtain u where u: "demote ?a w = Ret () u" "linked False ?ms u"
    by auto
  have pu: "placed (DBConfig w) r h {} u" using partialD [OF demote_placed p u(1)] .
  have ku: "keeping {r} ?ms (\<lambda>q. if ?a = Some q then PASSIVE else Status (member w q)) u"
    using assms(1) by (intro partialD [OF keeping_demote _ u(1)]) (simp add: keeping_def wf_def)
  have su: "?sup (held S (trace w)) u"
    by (rule demote_other_supplies [OF assms(4) other _ u(1)]) (simp_all add: supplying_def)
  from safe_totalD [OF sound_MakeActive [OF r(1)] u(2)] obtain err v where
    v: "MakeActive r u = Ret err v" "linked False ?ms v" by blast
  have "err = None \<and> serving (DBConfig w) r h {r} v \<and> monitoring v"
    using partialD [OF MakeActive_serving [OF assms(4,5)] pu v(1)] by simp
  moreover have "keeping {r} ?ms (\<lambda>q. if ?a = Some q then PASSIVE else Status (member w q)) v"
    by (rule safeD [OF keeping_MakeActive ku v(1)])
  moreover have "?sup (held S (trace w) \<union> plugged (modules w) (addresses (DBConfig w) h)) v"
    using partialD [OF MakeActive_supplies [OF _ assms(4)] _ v(1)] su pu assms(1,5) by (simp add: placed_def wf_def)
  ultimately show ?thesis using u v by (auto simp: run serving_def placed_def keeping_def supplying_def linked_def)
qed

text \<open>\<^bold>\<open>C12.\<close> In a linked cluster with at most one active member, promoting the local node returns
  without error, unless it is refused. Afterwards the local member is active, the member that was
  active is recorded as passive, and no other status has changed. The networking plugin, if there is
  one, has been asked to bring up exactly the addresses of the node's groups and to take none down,
  and the two routines of an active node have been started.\<close>

theorem PromoteMember_local:
  assumes "wf w" and "one_active w" and "linked False (Members w) w"
    and "GetLocalNode (DBConfig w) = Inr node" and "NodeHostname node \<noteq> ''''"
    and "find_member w (NodeHostname node) = Some r"
    and "Status (member w r) \<noteq> ACTIVE" and "Status (member w r) = UNAVAILABLE \<Longrightarrow> NodeCount (DBConfig w) \<le> 1"
  shows "\<exists>v. PromoteMember (NodeHostname node) w = Ret None v \<and> Members v = Members w \<and> Status (member v r) = ACTIVE \<and>
    (\<forall>q \<in> set (Members v). q \<noteq> r \<longrightarrow> Status (member v q) = (if snd (GetActiveMember w) = Some q then PASSIVE else Status (member w q))) \<and>
    (\<forall>q \<in> set (Members v). q \<noteq> r \<longrightarrow> Status (member v q) \<noteq> ACTIVE) \<and>
    held S (trace v) = held S (trace w) \<union> (if GetNetworkingPlugin (modules w) = None then {} else addresses (DBConfig w) (NodeHostname node)) \<and>
    monitoring v"
proof -
  have "q = b" if "snd (GetActiveMember w) = b'" "b' = Some b" "q \<in> set (Members w)" "Status (member w q) = ACTIVE" for q b b'
    using one_active_first [OF assms(2)] that by (auto simp: active_in_def)
  moreover have "Status (member w q) \<noteq> ACTIVE" if "snd (GetActiveMember w) = None" "q \<in> set (Members w)" for q
    using one_active_first [OF assms(2)] that by (auto simp: active_in_def)
  ultimately have others: "(if snd (GetActiveMember w) = Some q then PASSIVE else Status (member w q)) \<noteq> ACTIVE" if "q \<in> set (Members w)" for q
    using that by (cases "snd (GetActiveMember w)") auto
  have "\<exists>v. PromoteMember (NodeHostname node) w = Ret None v \<and> Members v = Members w \<and> Status (member v r) = ACTIVE \<and>
    (\<forall>q \<in> set (Members v). q \<noteq> r \<longrightarrow> Status (member v q) = (if snd (GetActiveMember w) = Some q then PASSIVE else Status (member w q))) \<and>
    held S (trace v) = held S (trace w) \<union> plugged (modules w) (addresses (DBConfig w) (NodeHostname node)) \<and> monitoring v"
    by (rule PromoteMember_local_run) (use assms in simp_all)
  then obtain v where v: "PromoteMember (NodeHostname node) w = Ret None v" "Members v = Members w" "Status (member v r) = ACTIVE"
    "\<forall>q \<in> set (Members v). q \<noteq> r \<longrightarrow> Status (member v q) = (if snd (GetActiveMember w) = Some q then PASSIVE else Status (member w q))"
    "held S (trace v) = held S (trace w) \<union> plugged (modules w) (addresses (DBConfig w) (NodeHostname node))" "monitoring v" by blast
  have "\<forall>q \<in> set (Members v). q \<noteq> r \<longrightarrow> Status (member v q) \<noteq> ACTIVE" using v(2,4) others by simp
  with v show ?thesis unfolding plugged_def by blast
qed

lemma ex_standby_facts:
  "one_active ex_standby" "linked False [0, Suc 0] ex_standby" "find_member ex_standby ''alpha'' = Some 0"
  "all_members ex_standby" "member_of ex_standby (ex_node ''alpha'' a) = 0" "member_of ex_standby (ex_node ''beta'' b) = 1"
  using wf_ex_standby
  by (simp_all add: one_active_def members_def member_def linked_def find_member_def all_members_def
      member_of_def wf_def)

lemma ex_standby_promoted: "\<exists>v. PromoteMember ''alpha'' ex_standby = Ret None v"
  using PromoteMember_local_run [of ex_standby "ex_node ''alpha'' ''10.0.0.11''" "''alpha''" 0 "{}"]
  by (auto simp: wf_ex_standby ex_standby_facts GetLocalNode_ex member_def)

lemma ex_addresses: "addresses ex_config ''alpha'' = {(''eth0'', ''10.0.0.1/24'')}"
  unfolding addresses_def assigned_to_alpha by (simp add: group_ips_def lookup_def)

theorem PromoteMember_local_witness:
  "\<exists>v. PromoteMember ''alpha'' ex_standby = Ret None v \<and> Status (member v 0) = ACTIVE \<and> Status (member v 1) = PASSIVE \<and>
     held {} (trace v) = {(''eth0'', ''10.0.0.1/24'')}"
proof -
  have "snd (GetActiveMember ex_standby) = Some 1" by (simp add: GetActiveMember_def member_def)
  moreover have "GetNetworkingPlugin (modules ex_standby) \<noteq> None" by (simp add: GetNetworkingPlugin_def)
  moreover note PromoteMember_local [OF wf_ex_standby, of "ex_node ''alpha'' ''10.0.0.11''" 0 "{}"]
  ultimately show ?thesis
    by (auto simp: wf_ex_standby ex_standby_facts GetLocalNode_ex member_def ex_addresses)
qed

theorem PromoteMember_one_active_witness:
  "\<exists>v. PromoteMember ''alpha'' ex_standby = Ret None v \<and> one_active v"
  using ex_standby_promoted PromoteMember_one_active [OF ex_standby_facts(1)] by blast

theorem PromoteMember_refused_witness:
  "\<exists>v. PromoteMember ''beta'' ex_standby = Ret (Some ''unable to promote member as it is already active'') v \<and>
     core v = core ex_standby"
proof -
  have f: "find_member ex_standby ''beta'' = Some 1" "Status (member ex_standby 1) = ACTIVE"
    by (simp_all add: find_member_def member_def)
  from safe_totalD [OF sound_Logging(1) ex_standby_facts(2)] obtain v where
    "Logging_Warn ''Unable to promote member beta as it is active'' ex_standby = Ret () v" by auto
  then have "PromoteMember ''beta'' ex_standby = Ret (Some ''unable to promote member as it is already active'') v"
    using f by (simp add: PromoteMember_def GetMemberByHostname_run promote_unless_def member_def)
  with PromoteMember_refused [OF this] show ?thesis by simp
qed

section \<open>The decision to fail over\<close>

text \<open>The limit that applies to a run of \<^verbatim>\<open>MonitorReceivedHCs\<close>, in milliseconds: twice the
  configured one at the first check after a start with delay.\<close>

definition limit_now :: "world \<Rightarrow> int" where
  "limit_now w = (if StartDelay w \<and> StartInterval w < 1 then int64 (FailOverLimit (Pulse (DBConfig w)) * 2)
     else FailOverLimit (Pulse (DBConfig w)))"

definition overdue :: "world \<Rightarrow> nat \<Rightarrow> bool" where
  "overdue w r \<longleftrightarrow> elapsed_seconds (now (env w)) (LastHCResponse (member w r)) \<ge> limit_now w sdiv 1000"

lemma GetLocalMember_run:
  assumes "\<not> ml_lock w" and "GetLocalNode (DBConfig w) = Inr node" and "find_member w (NodeHostname node) = Some r"
  shows "GetLocalMember w = Ret (r, None) w"
  using assms by (simp add: GetLocalMember_def locked_ml_Ret)

definition suspected :: "int \<Rightarrow> world \<Rightarrow> nat option" where
  "suspected elapsed w = (if elapsed > 0 \<and> elapsed mod 4 = 0 then snd (GetActiveMember w) else None)"

lemma suspect_active_run:
  "suspect_active elapsed w = (case suspected elapsed w of Some a \<Rightarrow> SetStatus a SUSPICIOUS w | None \<Rightarrow> Ret () w)"
  by (simp add: suspect_active_def suspected_def split: option.split)

definition limit_taken :: "world \<Rightarrow> world" where
  "limit_taken w = (if StartDelay w \<and> StartInterval w < 1 then w\<lparr>StartInterval := int64 (StartInterval w + 1)\<rparr>
     else w\<lparr>StartDelay := False\<rparr>)"

lemma failover_limit_run: "failover_limit w = Ret (limit_now w) (limit_taken w)"
  by (simp add: failover_limit_def limit_now_def limit_taken_def)

lemma limit_taken_fields [simp]:
  "member (limit_taken w) = member w" "Members (limit_taken w) = Members w" "DBConfig (limit_taken w) = DBConfig w"
  "trace (limit_taken w) = trace w" "env (limit_taken w) = env w" "ml_lock (limit_taken w) = ml_lock w"
  "heap (limit_taken w) = heap w" "load_tls (limit_taken w) = load_tls w"
  by (auto simp: limit_taken_def)


text \<open>The state in which the decision is taken: after the active member was suspected and the limit read.\<close>

definition before_decision :: "int \<Rightarrow> world \<Rightarrow> world" where
  "before_decision elapsed w = limit_taken (case suspected elapsed w of
     Some a \<Rightarrow> (with_status a SUSPICIOUS w)\<lparr>trace := trace w @ status_events (with_status a SUSPICIOUS w)\<rparr>
   | None \<Rightarrow> w)"

lemma with_status_fields [simp]:
  "StartDelay (with_status r st w) = StartDelay w" "StartInterval (with_status r st w) = StartInterval w"
  "DBConfig (with_status r st w) = DBConfig w" "env (with_status r st w) = env w"
  "ml_lock (with_status r st w) = ml_lock w" "length (heap (with_status r st w)) = length (heap w)"
  by (simp_all add: with_status_def)

lemma limit_now_frame [simp]:
  "limit_now (with_status r st w) = limit_now w" "limit_now (w\<lparr>trace := t\<rparr>) = limit_now w"
  by (simp_all add: limit_now_def)

lemma MonitorReceivedHCs_run:
  assumes "\<not> ml_lock w" and "ClusterCheck (DBConfig w)" and "GetLocalNode (DBConfig w) = Inr node"
    and "find_member w (NodeHostname node) = Some l" and "Status (member w l) \<noteq> ACTIVE"
  shows "MonitorReceivedHCs r w =
    (let u = before_decision (elapsed_seconds (now (env w)) (LastHCResponse (member w r))) w
     in if overdue w r then failover r u else Ret False u)"
  using assms GetLocalMember_run [OF assms(1,3,4)]
  by (simp add: MonitorReceivedHCs_def suspect_active_run SetStatus_run failover_limit_run before_decision_def
      overdue_def Let_def split: option.split)

text \<open>\<^bold>\<open>C7.\<close> A standby node whose last health check is not older than the limit does not fail over:
  the run returns, the routine goes on, no member becomes active and the floating IPs are not
  touched. The only status that may change is that of the active member, which is suspected
  every fourth second without a health check.\<close>

theorem no_early_failover:
  assumes "wf w" and "\<not> ml_lock w" and "ClusterCheck (DBConfig w)" and "GetLocalNode (DBConfig w) = Inr node"
    and "find_member w (NodeHostname node) = Some l" and "Status (member w l) \<noteq> ACTIVE" and "\<not> overdue w r"
  shows "\<exists>v. MonitorReceivedHCs r w = Ret False v \<and> Members v = Members w \<and>
    (\<forall>q \<in> set (Members w). Status (member v q) =
       (if suspected (elapsed_seconds (now (env w)) (LastHCResponse (member w r))) w = Some q then SUSPICIOUS
        else Status (member w q))) \<and>
    (\<forall>e \<in> set (trace v). e \<in> set (trace w) \<or> (\<exists>p ms. e = StatusChange p ms))"
proof -
  let ?v = "before_decision (elapsed_seconds (now (env w)) (LastHCResponse (member w r))) w"
  have "MonitorReceivedHCs r w = Ret False ?v"
    using assms(7) by (simp add: MonitorReceivedHCs_run [OF assms(2-6)] Let_def)
  then show ?thesis using wf_wf_members [OF assms(1)]
    by (auto simp: before_decision_def status_with_status status_events_def split: option.split)
qed

theorem no_early_failover_witness:
  "\<exists>v. MonitorReceivedHCs 0 ex_standby = Ret False v \<and> Status (member v 0) = PASSIVE \<and> Status (member v 1) = ACTIVE"
proof -
  let ?s = "suspected (elapsed_seconds (now (env ex_standby)) (LastHCResponse (member ex_standby 0))) ex_standby"
  have "\<exists>v. MonitorReceivedHCs 0 ex_standby = Ret False v \<and> Members v = Members ex_standby \<and>
    (\<forall>q \<in> set (Members ex_standby). Status (member v q) = (if ?s = Some q then SUSPICIOUS else Status (member ex_standby q))) \<and>
    (\<forall>e \<in> set (trace v). e \<in> set (trace ex_standby) \<or> (\<exists>p ms. e = StatusChange p ms))"
    by (rule no_early_failover [where node = "ex_node ''alpha'' ''10.0.0.11''" and l = 0])

      (simp_all add: wf_ex_standby ex_standby_facts GetLocalNode_ex member_def ClusterCheck_def mlen_def
        overdue_def limit_now_def elapsed_seconds_def since_def signed_divide_int_def)
  moreover have "?s = None" by (simp add: suspected_def elapsed_seconds_def since_def member_def)
  ultimately show ?thesis by (auto simp: member_def)
qed

lemma serving_setters: "safe (serving c r h A) C (SetLastHCResponse q t)"
proof -
  have "Status (member (update_member q (\<lambda>m. m\<lparr>LastHCResponse := t\<rparr>) w) r) = Status (member w r)" for w
    by (cases "q < length (heap w)")
      (simp_all add: member_update_member, simp add: member_def update_member_def list_update_beyond)
  then show ?thesis using placed_setters(4) [of c r h A C q t]
    by (auto simp: safe_def partial_def serving_def SetLastHCResponse_def)
qed

lemma monitoring_setters: "safe monitoring C (SetLastHCResponse q t)"
  by (auto simp: safe_def partial_def SetLastHCResponse_def monitoring_def)

lemma monitoring_emit: "safe monitoring C (emit e)"
  by (auto simp: safe_def partial_def emit_def monitoring_def)

lemma monitoring_Logging: "safe monitoring any_crash (Logging_Info m)"
  unfolding Logging_Info_def log_send_def Broadcast_def locked_ml_def lock_ml_def unlock_ml_def
    broadcast_one_def Connect_def Send_def with_client_def Client_Send_def SetClient_def
  by (intro safe_intro monitoring_emit; auto simp: monitoring_def split: option.split conn.split intro!: safe_intro monitoring_emit)

lemma next_active_single:
  assumes "wf_config (DBConfig w)" and "all_members w" and "\<not> ml_lock w" and "(uid, node) \<in> set (entries (Nodes (DBConfig w)))"
    and "Status (member w (member_of w node)) = PASSIVE"
    and "\<And>uid' n. (uid', n) \<in> set (entries (Nodes (DBConfig w))) \<Longrightarrow> Status (member w (member_of w n)) = PASSIVE \<Longrightarrow>
           member_of w n = member_of w node"
  shows "GetNextActiveMember w = Ret (Inr (member_of w node)) w"
proof -
  let ?ns = "range_by (order_at w ''GetNextActiveMember'') (Nodes (DBConfig w))"
  let ?P = "\<lambda>n. Status (member w (member_of w n)) = PASSIVE"
  from assms(1) have set_ns: "set ?ns = set (entries (Nodes (DBConfig w)))"
    by (simp add: set_range_by wf_config_def map_ok_def)
  have "node \<in> set (map snd ?ns)" using assms(4) set_ns by force
  with assms(5) have "find ?P (map snd ?ns) \<noteq> None" unfolding find_None_iff by blast
  then obtain n where n: "find ?P (map snd ?ns) = Some n" by blast
  then obtain uid' where "(uid', n) \<in> set (entries (Nodes (DBConfig w)))" and "?P n"
    using set_ns by (auto dest!: find_SomeD)
  then have "member_of w n = member_of w node" by (rule assms(6))
  with n next_active_loop [OF assms(2,3), of ?ns] set_ns show ?thesis by (simp add: GetNextActiveMember_def)
qed

lemma failover_keeping:
  "partial (keeping {l} ms f) any_crash
     (thn (case a of Some a \<Rightarrow> SetStatus a UNAVAILABLE | None \<Rightarrow> skip)
        (thn (MakeActive l) (thn (SetLastHCResponse l 0) (thn (Logging_Info x) (ret True)))))
     (\<lambda>_. keeping {l} ms (\<lambda>q. if a = Some q then UNAVAILABLE else f q))"
proof -
  have mark: "partial (keeping {l} ms f) any_crash (case a of Some a \<Rightarrow> SetStatus a UNAVAILABLE | None \<Rightarrow> skip)
      (\<lambda>_. keeping {l} ms (\<lambda>q. if a = Some q then UNAVAILABLE else f q))"
  proof (cases a)
    case (Some b)
    have "f(b := UNAVAILABLE) = (\<lambda>q. if a = Some q then UNAVAILABLE else f q)" using Some by auto
    with keeping_SetStatus(1) [of b "{l}" ms f any_crash UNAVAILABLE]
    have "partial (keeping {b, l} ms f) any_crash (SetStatus b UNAVAILABLE) (\<lambda>_. keeping {l} ms (\<lambda>q. if a = Some q then UNAVAILABLE else f q))" by simp
    then have "partial (keeping {l} ms f) any_crash (SetStatus b UNAVAILABLE) (\<lambda>_. keeping {l} ms (\<lambda>q. if a = Some q then UNAVAILABLE else f q))"
      by (rule partial_pre) (auto intro: keeping_mono)
    then show ?thesis by (simp add: Some)
  qed (simp add: partial_skip)
  show ?thesis
    by (rule partial_thn [OF mark safe_partial])
      (intro safe_intro keeping_MakeActive keeping_setters keeping.quiet_keeps quiet_Logging)
qed

lemma failover_supplies:
  assumes "wf_config c" and "GetLocalNode c = Inr node"
  shows "partial (\<lambda>w. supplying c m S H w \<and> Hostname (member w l) = NodeHostname node) any_crash
     (thn (case a of Some a \<Rightarrow> SetStatus a UNAVAILABLE | None \<Rightarrow> skip)
        (thn (MakeActive l) (thn (SetLastHCResponse l 0) (thn (Logging_Info x) (ret True)))))
     (\<lambda>_. supplying c m S (H \<union> plugged m (addresses c (NodeHostname node))))"
proof -
  let ?P = "\<lambda>w. supplying c m S H w \<and> Hostname (member w l) = NodeHostname node"
  have st: "partial ?P any_crash (SetStatus b UNAVAILABLE) (\<lambda>_. ?P)" for b
  proof (rule partial_conj [OF safe_partial [OF supplying_setters(3)]])
    show "partial (\<lambda>w. Hostname (member w l) = NodeHostname node) any_crash (SetStatus b UNAVAILABLE) (\<lambda>_ w. Hostname (member w l) = NodeHostname node)"
      by (simp add: partial_def SetStatus_run with_status_def hostname_update_member)
  qed
  then have mark: "partial ?P any_crash (case a of Some a \<Rightarrow> SetStatus a UNAVAILABLE | None \<Rightarrow> skip) (\<lambda>_. ?P)"
    by (intro partial_case_option partial_skip)
  show ?thesis
    by (rule partial_thn [OF mark], rule partial_thn [OF MakeActive_supplies [OF assms] safe_partial])
      (intro safe_intro supplying_setters supplying_Logging)
qed

lemma failover_self:
  assumes "one_active w" and "linked False (Members w) w" and "GetNextActiveMember w = Ret (Inr l) w"
    and "GetLocalNode (DBConfig w) = Inr node" and "l \<in> set (Members w)" and "Hostname (member w l) = NodeHostname node"
    and "wf_config (DBConfig w)"
  shows "\<exists>v. failover r w = Ret True v \<and> serving (DBConfig w) l (NodeHostname node) {l} v \<and> monitoring v \<and>
    keeping {l} (Members w) (\<lambda>q. if snd (GetActiveMember w) = Some q then UNAVAILABLE else Status (member w q)) v \<and>
    held S (trace v) = held S (trace w) \<union> plugged (modules w) (addresses (DBConfig w) (NodeHostname node))"
proof -
  let ?a = "snd (GetActiveMember w)" and ?c = "DBConfig w" and ?h = "NodeHostname node" and ?ms = "Members w"
  let ?mark = "case ?a of Some a \<Rightarrow> SetStatus a UNAVAILABLE | None \<Rightarrow> skip"
  let ?rest = "thn ?mark (thn (MakeActive l) (thn (SetLastHCResponse l 0) (thn (Logging_Info ''Local node is now active'') (ret True))))"
  have run: "failover r w = ?rest w" using assms(3,4,6) unfolding failover_def by simp
  have total: "sound False ?ms ?rest"
    by (intro safe_intro sound_SetStatus sound_MakeActive sound_setters sound_Logging assms(5))
  from safe_totalD [OF total assms(2)] obtain x v where v: "?rest w = Ret x v" "linked False ?ms v" by blast

  have mark: "partial (placed ?c l ?h (set_option ?a)) any_crash ?mark (\<lambda>_. placed ?c l ?h {})"
  proof (cases ?a)
    case None
    then show ?thesis by (simp add: partial_def)
  next
    case (Some a)
    then show ?thesis using placed_SetStatus(1) [of UNAVAILABLE ?c l ?h "{a}" any_crash a] by simp
  qed
  have post: "partial (\<lambda>u. serving ?c l ?h {l} u \<and> monitoring u) any_crash
      (thn (SetLastHCResponse l 0) (thn (Logging_Info ''Local node is now active'') (ret True)))
      (\<lambda>x u. x \<and> serving ?c l ?h {l} u \<and> monitoring u)"
  proof (rule partial_thn [where R = "\<lambda>u. serving ?c l ?h {l} u \<and> monitoring u"], rule partial_conj)
    show "partial (serving ?c l ?h {l}) any_crash (SetLastHCResponse l 0) (\<lambda>_. serving ?c l ?h {l})"
      by (rule safe_partial [OF serving_setters])
    show "partial monitoring any_crash (SetLastHCResponse l 0) (\<lambda>_. monitoring)"
      by (rule safe_partial [OF monitoring_setters])
    show "partial (\<lambda>u. serving ?c l ?h {l} u \<and> monitoring u) any_crash
        (thn (Logging_Info ''Local node is now active'') (ret True)) (\<lambda>x u. x \<and> serving ?c l ?h {l} u \<and> monitoring u)"
      by (rule partial_thn, rule partial_conj [OF safe_partial [OF serving.quiet_keeps [OF quiet_Logging(2)]]
            safe_partial [OF monitoring_Logging]], rule partial_ret) simp
  qed
  have "partial (placed ?c l ?h (set_option ?a)) any_crash ?rest (\<lambda>x u. x \<and> serving ?c l ?h {l} u \<and> monitoring u)"
    by (rule partial_thn [OF mark], rule partial_thn [OF _ post], rule partial_post [OF MakeActive_serving [OF assms(4) refl]]) simp
  moreover have "placed ?c l ?h (set_option ?a) w"
    using one_active_first [OF assms(1)] assms(5,6) by (simp add: placed_def)
  ultimately have "x \<and> serving ?c l ?h {l} v \<and> monitoring v" using v(1) by (rule partialD)
  moreover have "keeping {l} ?ms (\<lambda>q. if ?a = Some q then UNAVAILABLE else Status (member w q)) v"
    using assms(1) by (intro partialD [OF failover_keeping _ v(1)]) (simp add: keeping_def one_active_def)
  moreover have "supplying ?c (modules w) S (held S (trace w) \<union> plugged (modules w) (addresses ?c ?h)) v"
    using assms(6) by (intro partialD [OF failover_supplies [OF assms(7,4)] _ v(1)]) (simp add: supplying_def)
  ultimately show ?thesis using run v by (simp add: supplying_def)
qed

text \<open>The state of the decision, seen from the state before it.\<close>

lemma before_decision_status:
  assumes "wf_members w" and "q \<in> set (Members w)"
  shows "Status (member (before_decision e w) q) = (if suspected e w = Some q then SUSPICIOUS else Status (member w q))"
  using assms by (simp add: before_decision_def status_with_status split: option.split)

lemma before_decision_hostname: "Hostname (member (before_decision e w) q) = Hostname (member w q)"
  by (simp add: before_decision_def with_status_def hostname_update_member split: option.split)

lemma before_decision_fields:
  "Members (before_decision e w) = Members w" "DBConfig (before_decision e w) = DBConfig w"
  "ml_lock (before_decision e w) = ml_lock w" "wf_members (before_decision e w) = wf_members w"
proof -
  have "wf_members (limit_taken u) = wf_members u" for u by (simp add: wf_members_def members_def)
  then show "wf_members (before_decision e w) = wf_members w"
    by (simp add: before_decision_def wf_members_status split: option.split)
qed (simp_all add: before_decision_def split: option.split)

lemma find_member_before_decision: "find_member (before_decision e w) = find_member w"
  by (simp add: find_member_def fun_eq_iff before_decision_hostname before_decision_fields)

lemma members_hostnames_before_decision: "Hostname ` set (members (before_decision e w)) = Hostname ` set (members w)"
  by (simp add: members_def image_image before_decision_hostname before_decision_fields)

lemma one_active_before_decision: "one_active w \<Longrightarrow> one_active (before_decision e w)"
proof -
  assume "one_active w"
  then obtain a where "active_in {a} w" by (auto simp: one_active_iff)
  then have "active_in {a} (before_decision e w)"
    by (auto simp: active_in_def before_decision_fields before_decision_status split: if_splits)
  then show ?thesis by (rule active_in_one)
qed

lemma linked_before_decision: "linked ml ms w \<Longrightarrow> linked ml ms (before_decision e w)"
proof -
  have l: "linked ml ms u \<Longrightarrow> linked ml ms (limit_taken u)" for u by (simp add: linked_def)
  show "linked ml ms w \<Longrightarrow> linked ml ms (before_decision e w)"
    by (auto simp: before_decision_def with_status_def intro!: l linked_keep split: option.split)
qed

lemma GetLocalNode_entry:
  assumes "GetLocalNode c = Inr node"
  shows "(LocalNodeUid (Pulse c), node) \<in> set (entries (Nodes c))"
  using assms by (auto simp: GetLocalNode_def split: if_splits option.splits intro: lookup_in_entries)

lemma before_decision_active:
  assumes "one_active w"
  shows "snd (GetActiveMember (before_decision e w)) = (if suspected e w = None then snd (GetActiveMember w) else None)"
proof -
  have wfm: "wf_members w" using assms by (simp add: one_active_def)
  show ?thesis
  proof (cases "suspected e w")
    case None
    then have "member (before_decision e w) = member w" by (simp add: before_decision_def)
    with None show ?thesis by (simp add: GetActiveMember_def before_decision_fields split: option.split)
  next
    case (Some a)
    then have a: "snd (GetActiveMember w) = Some a" by (simp add: suspected_def split: if_splits)
    with one_active_first [OF assms] Some have "\<forall>q \<in> set (Members w). Status (member (before_decision e w) q) \<noteq> ACTIVE"
      by (auto simp: active_in_def before_decision_status wfm)
    then have "find (\<lambda>q. Status (member (before_decision e w) q) = ACTIVE) (Members w) = None" by (simp add: find_None_iff)
    with Some show ?thesis by (simp add: GetActiveMember_def before_decision_fields)
  qed
qed

lemma before_decision_held: "held S (trace (before_decision e w)) = held S (trace w)" "modules (before_decision e w) = modules w"
proof -
  have "list_all (\<lambda>e. \<not> address_change e) (status_events u)" for u by (auto simp: status_events_def list_all_iff)
  then show "held S (trace (before_decision e w)) = held S (trace w)"
    by (simp add: before_decision_def held_others split: option.split)
  have "modules (limit_taken u) = modules u" for u by (simp add: limit_taken_def)
  then show "modules (before_decision e w) = modules w"
    by (simp add: before_decision_def with_status_def split: option.split)
qed

text \<open>\<^bold>\<open>C5.\<close> When the last health check is older than the limit and the local member is the only
  configured one that is passive, the run fails over: it returns and ends the routine, and the local
  member is active. The member that was active is recorded as unavailable, except when this run has
  just suspected it, which it does in every fourth second, and then leaves it as suspicious; no other
  status has changed, so that no other member is recorded as active. The networking plugin, if there is one,
  has been asked to bring up exactly the addresses of the node's groups and to take none down, and the routines of
  an active node have been started. This needs a linked cluster with at most one active member.\<close>

theorem standby_takes_over:
  assumes "wf w" and "one_active w" and "linked False (Members w) w" and "all_members w"
    and "GetLocalNode (DBConfig w) = Inr node" and "Status (member w (member_of w node)) = PASSIVE"
    and "\<forall>(uid, n) \<in> set (entries (Nodes (DBConfig w))).
           Status (member w (member_of w n)) = PASSIVE \<longrightarrow> member_of w n = member_of w node"
    and "overdue w (member_of w node)" and "e = elapsed_seconds (now (env w)) (LastHCResponse (member w (member_of w node)))"
  shows "\<exists>v. MonitorReceivedHCs (member_of w node) w = Ret True v \<and> Members v = Members w \<and>
    Status (member v (member_of w node)) = ACTIVE \<and>
    (\<forall>q \<in> set (Members v). q \<noteq> member_of w node \<longrightarrow> Status (member v q) =
       (if suspected e w = Some q then SUSPICIOUS else if snd (GetActiveMember w) = Some q then UNAVAILABLE else Status (member w q))) \<and>
    (\<forall>q \<in> set (Members v). q \<noteq> member_of w node \<longrightarrow> Status (member v q) \<noteq> ACTIVE) \<and>
    held S (trace v) = held S (trace w) \<union> (if GetNetworkingPlugin (modules w) = None then {} else addresses (DBConfig w) (NodeHostname node)) \<and>
    monitoring v"
proof -
  let ?l = "member_of w node" and ?es = "entries (Nodes (DBConfig w))"
  note e_def = assms(9)
  let ?u = "before_decision e w"
  have unlocked: "\<not> ml_lock w" using assms(3) by (simp add: linked_def)
  note ent = GetLocalNode_entry [OF assms(5)] and wfm = wf_wf_members [OF assms(1)]
  note found = all_members_found [OF assms(4) ent unlocked]
  have cc: "ClusterCheck (DBConfig w)" using assms(5) by (auto simp: GetLocalNode_def split: if_splits)
  have fm: "find_member w (NodeHostname node) = Some ?l"
    using find_member_unique [OF wfm found(2)] found(3) by simp
  have same: "member_of ?u n = member_of w n" for n by (simp add: member_of_def find_member_before_decision)
  have st: "Status (member ?u (member_of w n)) = PASSIVE \<longleftrightarrow> Status (member w (member_of w n)) = PASSIVE"
    if "(uid, n) \<in> set ?es" for uid n
  proof -
    have "Status (member w q) = ACTIVE" if "suspected e w = Some q" for q
      using that by (auto simp: suspected_def GetActiveMember_def split: if_splits option.splits dest: find_SomeD)
    then show ?thesis
      using all_members_found(2) [OF assms(4) that unlocked] by (auto simp: before_decision_status wfm)
  qed
  have am: "all_members ?u"
    using assms(4) by (simp add: all_members_def before_decision_fields members_hostnames_before_decision)
  have nxt: "GetNextActiveMember ?u = Ret (Inr (member_of ?u node)) ?u"
  proof (rule next_active_single [OF _ am])
    show "wf_config (DBConfig ?u)" using assms(1) by (simp add: before_decision_fields wf_def)
    show "(LocalNodeUid (Pulse (DBConfig w)), node) \<in> set (entries (Nodes (DBConfig ?u)))" using ent by (simp add: before_decision_fields)
  qed (use assms(6,7) unlocked st ent in \<open>auto simp: same before_decision_fields\<close>)
  let ?f = "\<lambda>q. if snd (GetActiveMember ?u) = Some q then UNAVAILABLE else Status (member ?u q)"
  have "\<exists>v. failover ?l ?u = Ret True v \<and> serving (DBConfig ?u) ?l (NodeHostname node) {?l} v \<and> monitoring v \<and>
      keeping {?l} (Members ?u) ?f v \<and> held S (trace v) = held S (trace ?u) \<union> plugged (modules ?u) (addresses (DBConfig ?u) (NodeHostname node))"
    using nxt found(2,3) assms(1,5) linked_before_decision [OF assms(3), of e]
    by (intro failover_self one_active_before_decision assms(2))
      (simp_all add: same before_decision_fields before_decision_hostname wf_def)
  then obtain v where v: "failover ?l ?u = Ret True v" "serving (DBConfig ?u) ?l (NodeHostname node) {?l} v" "monitoring v"
    "keeping {?l} (Members ?u) ?f v" "held S (trace v) = held S (trace ?u) \<union> plugged (modules ?u) (addresses (DBConfig ?u) (NodeHostname node))" by blast
  have "snd (GetActiveMember w) = Some y" if "suspected e w = Some y" for y
    using that by (simp add: suspected_def split: if_splits)
  then have f: "?f q = (if suspected e w = Some q then SUSPICIOUS else if snd (GetActiveMember w) = Some q then UNAVAILABLE else Status (member w q))"
    if "q \<in> set (Members w)" for q
    using that by (cases "suspected e w") (simp_all add: before_decision_active [OF assms(2)] before_decision_status wfm)

  have "MonitorReceivedHCs ?l w = failover ?l ?u"
    using MonitorReceivedHCs_run [OF unlocked cc assms(5) fm, of ?l] assms(6,8) by (simp add: Let_def e_def)
  with v(1) have run: "MonitorReceivedHCs ?l w = Ret True v" by simp
  have ms: "Members v = Members w" and st: "Status (member v ?l) = ACTIVE"
    using v(2,4) by (simp_all add: keeping_def before_decision_fields serving_def)
  have others: "Status (member v q) = (if suspected e w = Some q then SUSPICIOUS else if snd (GetActiveMember w) = Some q then UNAVAILABLE else Status (member w q))"
    if "q \<in> set (Members v)" "q \<noteq> ?l" for q
    using v(4) f [of q] that ms by (simp add: keeping_def before_decision_fields)
  have "Status (member v q) \<noteq> ACTIVE" if "q \<in> set (Members v)" "q \<noteq> ?l" for q
    using v(2) that by (auto simp: serving_def placed_def active_in_def)
  with run ms st others v(3,5) show ?thesis unfolding before_decision_held before_decision_fields plugged_def by blast
qed

theorem standby_takes_over_witness:
  "\<exists>v. MonitorReceivedHCs 0 (ex_standby\<lparr>env := ex_env\<lparr>now := 61000000000\<rparr>\<rparr>) = Ret True v \<and> Status (member v 0) = ACTIVE \<and>
     Status (member v 1) = UNAVAILABLE \<and> held {} (trace v) = {(''eth0'', ''10.0.0.1/24'')}"
proof -
  let ?w = "ex_standby\<lparr>env := ex_env\<lparr>now := 61000000000\<rparr>\<rparr>" and ?n = "ex_node ''alpha'' ''10.0.0.11''"
  have m: "member_of ?w (ex_node ''alpha'' a) = 0" "member_of ?w (ex_node ''beta'' b) = 1" for a b
    by (simp_all add: member_of_def find_member_def member_def)
  have a: "snd (GetActiveMember ?w) = Some 1" "suspected (elapsed_seconds (now (env ?w)) (LastHCResponse (member ?w 0))) ?w = None"
    by (simp_all add: GetActiveMember_def suspected_def elapsed_seconds_def since_def member_def)
  have p: "GetNetworkingPlugin (modules ?w) \<noteq> None" by (simp add: GetNetworkingPlugin_def)
  have pre: "wf ?w" "one_active ?w" "linked False (Members ?w) ?w" "all_members ?w" "GetLocalNode (DBConfig ?w) = Inr ?n"
    "Status (member ?w (member_of ?w ?n)) = PASSIVE" "\<forall>(uid, n) \<in> set (entries (Nodes (DBConfig ?w))).
       Status (member ?w (member_of ?w n)) = PASSIVE \<longrightarrow> member_of ?w n = member_of ?w ?n" "overdue ?w (member_of ?w ?n)"
    using wf_ex_standby ex_standby_facts
    by (simp_all add: m one_active_def linked_def all_members_def GetLocalNode_ex member_def overdue_def limit_now_def
        elapsed_seconds_def since_def signed_divide_int_def)
  from standby_takes_over [OF pre refl, where S = "{}"] obtain v where v: "MonitorReceivedHCs 0 ?w = Ret True v" "Members v = Members ?w"
    "Status (member v 0) = ACTIVE"
    "\<forall>q \<in> set (Members v). q \<noteq> 0 \<longrightarrow> Status (member v q) = (if suspected (elapsed_seconds (now (env ?w)) (LastHCResponse (member ?w 0))) ?w = Some q then SUSPICIOUS
       else if snd (GetActiveMember ?w) = Some q then UNAVAILABLE else Status (member ?w q))"
    "held {} (trace v) = held {} (trace ?w) \<union> (if GetNetworkingPlugin (modules ?w) = None then {} else addresses (DBConfig ?w) (NodeHostname ?n))"
    unfolding m by blast
  from v(4) have "Status (member v 1) = UNAVAILABLE" unfolding a using v(2) by simp
  with v(1,3,5) p show ?thesis by (intro exI [of _ v]) (simp add: ex_addresses)
qed

section \<open>The routines of an active node\<close>

subsection \<open>They keep at most one member active\<close>

lemma state_kept: "(\<And>w0. safe (\<lambda>w. w = w0) any_crash m) \<Longrightarrow> safe I any_crash m"
  unfolding safe_def partial_def by (fastforce split: outcome.splits)

lemma GetMemberByHostname_kept: "safe I any_crash (GetMemberByHostname h)"
  unfolding safe_def by (rule partialI) (auto dest: GetMemberByHostname_Ret)

lemma all_same_kept: "safe I any_crash (all_same only nodes sc)"
  by (induction nodes arbitrary: sc) (auto intro!: safe_intro GetMemberByHostname_kept simp: with_ref_def split: option.split)

lemma best_score_kept: "safe I any_crash (best_score nodes sc win)"
  by (induction nodes arbitrary: sc win) (auto intro!: safe_intro GetMemberByHostname_kept)

lemma GetHighestScoreMember_kept: "safe I any_crash GetHighestScoreMember"
  unfolding GetHighestScoreMember_def by (intro safe_intro all_same_kept best_score_kept)

lemma safe_with_ref: "C NilDeref \<Longrightarrow> (\<And>r. p = Some r \<Longrightarrow> safe I C (k r)) \<Longrightarrow> safe I C (with_ref p k)"
  unfolding with_ref_def by (intro safe_intro)

lemma active_in_lock: "active_in A (w\<lparr>ml_lock := b\<rparr>) = active_in A w"
  by (simp add: active_in_def)

lemma GetLocalMember_keeps: "safe (active_in A) any_crash GetLocalMember"
proof -
  have new: "active_in A (w\<lparr>heap := heap w @ [m]\<rparr>) = active_in A w" if "wf_members w" for w m
  proof -
    have "member (w\<lparr>heap := heap w @ [m]\<rparr>) r = member w r" if "r \<in> set (Members w)" for r
      using that \<open>wf_members w\<close> by (auto simp: member_def wf_members_def nth_append)
    then have "members (w\<lparr>heap := heap w @ [m]\<rparr>) = members w"
      and "\<forall>r \<in> set (Members w). member (w\<lparr>heap := heap w @ [m]\<rparr>) r = member w r" by (auto simp: members_def)
    then show ?thesis using \<open>wf_members w\<close> by (auto simp: active_in_def wf_members_def)
  qed
  then show ?thesis unfolding GetLocalMember_def locked_ml_def lock_ml_def unlock_ml_def new_member_def
    by (intro safe_intro) (auto simp: active_in_lock new active_in_def)
qed

lemma monitor_member_keeps: "safe (active_in A) any_crash (monitor_member lh r)"
proof -
  have "safe (active_in A) any_crash (case state of Live Idle \<Rightarrow> skip | Live Ready \<Rightarrow> SetStatus r PASSIVE
       | _ \<Rightarrow> SetStatus r UNAVAILABLE)" for state
    by (auto split: connectivity.split live_state.split intro!: safe_intro SetStatus_keeps)
  then show ?thesis unfolding monitor_member_def
    by (intro safe_intro active_in.keeps_Connect active_in.quiet_keeps [OF quiet_Logging(3)] safe_with_client) simp_all
qed

lemma one_active_safe: "(\<And>A. safe (active_in A) any_crash m) \<Longrightarrow> safe one_active any_crash m"
  unfolding safe_def partial_def by (fastforce simp: one_active_iff split: outcome.splits)

lemma MonitorClientConns_keeps: "safe one_active any_crash MonitorClientConns"
  unfolding MonitorClientConns_def
  by (rule one_active_safe) (intro safe_intro GetLocalMember_keeps monitor_member_keeps)

lemma AddHealthCheckHandler_keeps: "safe one_active any_crash AddHealthCheckHandler"
  unfolding AddHealthCheckHandler_def
  by (intro safe_intro one_active_safe [OF GetLocalMember_keeps] GetHighestScoreMember_kept safe_with_ref
      PromoteMember_post quiet_one_active [OF quiet_emit]) simp_all

lemma Scheduler_keeps:
  assumes "safe I C m" and "\<And>w e. I w \<Longrightarrow> I (w\<lparr>env := e\<rparr>)"
  shows "safe I C (Scheduler m ticks)"
  by (induction ticks; simp only: Scheduler.simps) (intro safe_intro assms | assumption)+

text \<open>\<^bold>\<open>C14.\<close> The routines of an active node (watching the connections, sending health checks and handing
  over to a member with a higher score) keep at most one member recorded as active, over any number
  of ticks and whatever the surroundings answer at each tick.\<close>

theorem active_routines_one_active:
  assumes "one_active w" and "m \<in> {MonitorClientConns, AddHealthCheckHandler}" and "Scheduler m ticks w = Ret () v"
  shows "one_active v"
proof -
  have "safe one_active any_crash m" using assms(2) MonitorClientConns_keeps AddHealthCheckHandler_keeps by auto
  then have "safe one_active any_crash (Scheduler m ticks)" by (rule Scheduler_keeps) (simp add: one_active_def)
  then show ?thesis using assms(1,3) by (rule safeD)
qed

subsection \<open>Watching the connections\<close>

definition link_status :: "live_state \<Rightarrow> Status \<Rightarrow> Status" where
  "link_status s st = (case s of Idle \<Rightarrow> st | Ready \<Rightarrow> PASSIVE | _ \<Rightarrow> UNAVAILABLE)"

lemma monitor_member_run:
  assumes "linked False ms w" and "q \<in> set ms" and "wf_members w" and "\<And>tr h. link_state (env w) tr h = ls h"
  shows "\<exists>v. monitor_member lh q w = Ret None v \<and> linked False ms v \<and> wf_members v \<and> env v = env w \<and>
    (\<forall>p. connected p w \<or> p = q \<and> Hostname (member w q) \<noteq> lh \<longrightarrow> connected p v) \<and>
    (\<forall>p \<in> set ms. Hostname (member v p) = Hostname (member w p) \<and>
       Status (member v p) = (if p = q \<and> Hostname (member w q) \<noteq> lh
          then link_status (ls (Hostname (member w q))) (Status (member w q)) else Status (member w p)))"
proof (cases "Hostname (member w q) = lh")
  case True
  then show ?thesis using assms by (simp add: monitor_member_def)
next
  case False
  have ms: "Members w = ms" using assms(1) by (simp add: linked_def)
  from partial_totalD [OF Connect_linked [OF assms(2)] assms(1)] obtain u where
    u: "Connect q w = Ret None u" "linked False ms u" "connected q u" by blast
  note c = quietD [OF quiet_Connect u(1)]
  have keep: "Hostname (member u p) = Hostname (member w p) \<and> Status (member u p) = Status (member w p)" if "p \<in> set ms" for p
    using core_member [OF c] that assms(3) ms by (auto simp: wf_members_def dest: strip_eq_fields)
  note wu = core_wf_members [OF c assms(3)] and eu = core_fields(10) [OF c]
  from u(3) obtain cl where cl: "MemberClient (member u q) = Some cl" "Connection cl = Some Opened"
    by (auto simp: connected_def)
  let ?st = "link_status (ls (Hostname (member w q))) (Status (member w q))"
  let ?k = "case ls (Hostname (member w q)) of Idle \<Rightarrow> skip | Ready \<Rightarrow> SetStatus q PASSIVE | _ \<Rightarrow> SetStatus q UNAVAILABLE"
  have run: "monitor_member lh q w = thn ?k (ret None) u"
    using False u(1) cl assms(4) eu
    by (simp add: monitor_member_def with_client_def GetState_def split: live_state.split)
  have mu: "Members u = ms" using u(2) by (simp add: linked_def)
  have con: "\<forall>p. connected p w \<or> p = q \<longrightarrow> connected p u" using u(3) safeD [OF connected_Connect _ u(1)] by blast
  show ?thesis
  proof (cases "ls (Hostname (member w q)) = Idle")
    case True
    then show ?thesis using run u(2) wu eu keep con by (auto simp: link_status_def)
  next
    case f: False
    let ?v = "(with_status q ?st u)\<lparr>trace := trace u @ status_events (with_status q ?st u)\<rparr>"
    have "?k u = SetStatus q ?st u" using f by (auto simp: link_status_def split: live_state.split)
    then have "monitor_member lh q w = Ret None ?v" by (simp add: run SetStatus_run)
    moreover have "linked False ms ?v" using u(2) by (auto simp: with_status_def intro: linked_keep)
    moreover have "Hostname (member ?v p) = Hostname (member u p)" for p
      by (simp add: with_status_def hostname_update_member)
    moreover have "Status (member ?v p) = (if p = q then ?st else Status (member u p))" if "p \<in> set ms" for p
      using that status_with_status [OF wu, of p] mu by simp
    moreover have "connected p ?v = connected p u" for p by (simp add: with_status_def connected_kept)
    ultimately show ?thesis using False keep wu eu con by (auto simp: wf_members_status)
  qed
qed

lemma monitor_loop:
  assumes "linked False ms w" and "set xs \<subseteq> set ms" and "distinct xs" and "wf_members w"
    and "\<And>tr h. link_state (env w) tr h = ls h"
  shows "\<exists>v. for_return xs (monitor_member lh) w = Ret None v \<and> linked False ms v \<and>
    (\<forall>p. connected p w \<or> p \<in> set xs \<and> Hostname (member w p) \<noteq> lh \<longrightarrow> connected p v) \<and>
    (\<forall>p \<in> set ms. Status (member v p) = (if p \<in> set xs \<and> Hostname (member w p) \<noteq> lh
       then link_status (ls (Hostname (member w p))) (Status (member w p)) else Status (member w p)))"
  using assms
proof (induction xs arbitrary: w)
  case Nil
  then show ?case by simp
next
  case (Cons x xs)
  then have x: "x \<in> set ms" by simp
  from monitor_member_run [OF Cons.prems(1) x Cons.prems(4,5), of lh] obtain u where
    u: "monitor_member lh x w = Ret None u" "linked False ms u" "wf_members u" "env u = env w"
      and cu: "\<forall>p. connected p w \<or> p = x \<and> Hostname (member w x) \<noteq> lh \<longrightarrow> connected p u" and su:
      "\<forall>p \<in> set ms. Hostname (member u p) = Hostname (member w p) \<and>
       Status (member u p) = (if p = x \<and> Hostname (member w x) \<noteq> lh
          then link_status (ls (Hostname (member w x))) (Status (member w x)) else Status (member w p))" by blast
  from Cons.IH [OF u(2) _ _ u(3)] Cons.prems u(4) obtain v where
    v: "for_return xs (monitor_member lh) u = Ret None v" "linked False ms v"
      and cv: "\<forall>p. connected p u \<or> p \<in> set xs \<and> Hostname (member u p) \<noteq> lh \<longrightarrow> connected p v" and sv:
      "\<forall>p \<in> set ms. Status (member v p) = (if p \<in> set xs \<and> Hostname (member u p) \<noteq> lh
       then link_status (ls (Hostname (member u p))) (Status (member u p)) else Status (member u p))" by auto
  have "\<forall>p \<in> set ms. Status (member v p) = (if p \<in> set (x # xs) \<and> Hostname (member w p) \<noteq> lh
       then link_status (ls (Hostname (member w p))) (Status (member w p)) else Status (member w p))"
    using su sv Cons.prems(3) by auto
  moreover have "\<forall>p. connected p w \<or> p \<in> set (x # xs) \<and> Hostname (member w p) \<noteq> lh \<longrightarrow> connected p v"
    using su cu cv Cons.prems(2) by auto
  ultimately show ?case using u(1) v(1,2) by simp
qed

lemma MonitorClientConns_run:
  assumes "wf w" and "linked False (Members w) w" and "GetLocalNode (DBConfig w) = Inr node"
    and "find_member w (NodeHostname node) = Some l" and "Status (member w l) \<noteq> PASSIVE"
    and "\<And>tr h. link_state (env w) tr h = ls h"
  shows "\<exists>v. MonitorClientConns w = Ret False v \<and> linked False (Members w) v \<and> (\<forall>p \<in> set (Members w) - {l}. connected p v) \<and>
    (\<forall>p \<in> set (Members w). Status (member v p) =
       (if p = l then Status (member w p) else link_status (ls (Hostname (member w p))) (Status (member w p))))"
proof -
  note wfm = wf_wf_members [OF assms(1)]
  have unlocked: "\<not> ml_lock w" using assms(2) by (simp add: linked_def)
  have cc: "ClusterCheck (DBConfig w)" using assms(3) by (auto simp: GetLocalNode_def split: if_splits)
  from find_member_SomeD [OF assms(4)] have l: "l \<in> set (Members w)" by simp
  from monitor_loop [OF assms(2) subset_refl distinct_Members [OF wfm] wfm assms(6), of "Hostname (member w l)"]
  obtain v where v: "for_return (Members w) (monitor_member (Hostname (member w l))) w = Ret None v" "linked False (Members w) v"
    "\<forall>p. connected p w \<or> p \<in> set (Members w) \<and> Hostname (member w p) \<noteq> Hostname (member w l) \<longrightarrow> connected p v"
    "\<forall>p \<in> set (Members w). Status (member v p) = (if Hostname (member w p) \<noteq> Hostname (member w l)
       then link_status (ls (Hostname (member w p))) (Status (member w p)) else Status (member w p))" by auto
  have "p = l" if "p \<in> set (Members w)" "Hostname (member w p) = Hostname (member w l)" for p
    using hostname_inj [OF wfm that(1) l that(2)] .
  with v have "\<forall>p \<in> set (Members w). Status (member v p) =
       (if p = l then Status (member w p) else link_status (ls (Hostname (member w p))) (Status (member w p)))"
    and "\<forall>p \<in> set (Members w) - {l}. connected p v" by auto
  moreover have "MonitorClientConns w = Ret False v"
    using v(1) cc assms(5) GetLocalMember_run [OF unlocked assms(3,4)] by (simp add: MonitorClientConns_def)
  moreover note v(2)
  ultimately show ?thesis by blast
qed

text \<open>On a node that is not passive, in a linked cluster, the watch over the connections returns and
  goes on. It records every other member by the state of the connection to it: passive when it is
  ready, as before when it is idle, and unavailable in all other states; the local member keeps
  its status.\<close>

theorem MonitorClientConns_spec:
  assumes "wf w" and "linked False (Members w) w" and "GetLocalNode (DBConfig w) = Inr node"
    and "find_member w (NodeHostname node) = Some l" and "Status (member w l) \<noteq> PASSIVE"
    and "\<And>tr h. link_state (env w) tr h = ls h"
  shows "\<exists>v. MonitorClientConns w = Ret False v \<and>
    (\<forall>p \<in> set (Members w). Status (member v p) =
       (if p = l then Status (member w p) else link_status (ls (Hostname (member w p))) (Status (member w p))))"
  using MonitorClientConns_run [OF assms] by blast

lemma linked_ex': "linked False (Members ex_world) ex_world"
  using linked_ex by simp

theorem MonitorClientConns_spec_witness:
  "\<exists>v. MonitorClientConns (ex_world\<lparr>env := ex_env\<lparr>link_state := \<lambda>_ _. TransientFailure\<rparr>\<rparr>) = Ret False v \<and>
     Status (member v 0) = ACTIVE \<and> Status (member v 1) = UNAVAILABLE"
proof -
  let ?w = "ex_world\<lparr>env := ex_env\<lparr>link_state := \<lambda>_ _. TransientFailure\<rparr>\<rparr>"
  have "\<exists>v. MonitorClientConns ?w = Ret False v \<and> (\<forall>p \<in> set (Members ?w). Status (member v p) =
     (if p = 0 then Status (member ?w p) else link_status TransientFailure (Status (member ?w p))))"
  proof (rule MonitorClientConns_spec [where ls = "\<lambda>_. TransientFailure" and node = "ex_node ''alpha'' ''10.0.0.11''"])
    show "wf ?w" using wf_ex_world by simp
    show "linked False (Members ?w) ?w" using linked_ex' by (simp add: linked_def)
  qed (simp_all add: GetLocalNode_ex find_member_def member_def)
  then show ?thesis by (auto simp: member_def link_status_def)
qed

theorem active_routines_one_active_witness:
  "\<exists>v. Scheduler MonitorClientConns [ex_env] ex_world = Ret () v \<and> one_active v"
proof -
  have o: "one_active ex_world" using wf_ex_world by (simp add: one_active_def members_def member_def wf_def)
  have "\<exists>v. MonitorClientConns ex_world = Ret False v \<and> linked False (Members ex_world) v \<and> (\<forall>p \<in> set (Members ex_world) - {0}. connected p v) \<and>
     (\<forall>p \<in> set (Members ex_world). Status (member v p) =
     (if p = 0 then Status (member ex_world p) else link_status Ready (Status (member ex_world p))))"
    by (rule MonitorClientConns_run [where ls = "\<lambda>_. Ready" and node = "ex_node ''alpha'' ''10.0.0.11''", OF wf_ex_world linked_ex'])
      (simp_all add: GetLocalNode_ex find_member_def member_def)
  then obtain v where run: "MonitorClientConns ex_world = Ret False v" by blast
  have e: "ex_world\<lparr>env := ex_env\<rparr> = ex_world" by (simp add: ex_world_def)
  have "Scheduler MonitorClientConns [ex_env] ex_world = Ret () v"
    unfolding Scheduler.simps thn_run modify_run outcome.case bnd_run e run by simp
  with active_routines_one_active [OF o] show ?thesis by blast
qed

subsection \<open>Health checks\<close>

text \<open>A health check to a member whose client has no connection yet panics: the error comes with a
  response that is a struct, and the type assertion to a pointer fails.\<close>

theorem RoutineHC_unconnected_panics:
  assumes "r < length (heap w)" and "MemberClient (member w r) = Some c" and "Connection c = None"
  shows "RoutineHC r data w = Crash TypeAssertion"
  using assms by (simp add: RoutineHC_def SetHCBusy_def Member_SendHealthCheck_def with_client_def Close_def
      member_update_member Client_Close_def SetClient_def SetStatus_run)

theorem RoutineHC_unconnected_panics_witness:
  "RoutineHC 1 \<lparr>Memberlist = []\<rparr> (ex_world\<lparr>heap := [ex_member ''alpha'' ACTIVE 2,
     (ex_member ''beta'' PASSIVE 1)\<lparr>MemberClient := Some newClient\<rparr>]\<rparr>) = Crash TypeAssertion"
  by (rule RoutineHC_unconnected_panics [where c = newClient]) (simp_all add: member_def newClient_def)

lemma Connect_Send_connected:
  assumes "connected r w" and "GetProtoFunc d = Some f"
  shows "Send r f d w = Ret (rpc_result (env w) (trace w) (Hostname (member w r)) d)
     (w\<lparr>trace := trace w @ [SentRpc (Hostname (member w r)) d]\<rparr>)"
  using assms by (auto simp: connected_def Send_def with_client_def Client_Send_def emit_def)

text \<open>\<^bold>\<open>C34.\<close> A health check to a connected member returns and sends exactly one request. Whatever comes of it,
  the time and the latency of the call are recorded and the member is not busy. When the call fails,
  the member is unavailable and its connection is closed, so that the next use dials again, and its
  score is as before; when it succeeds, the member has the score of the response, and its status and
  connection are as before. Nothing else of the member, no other member and nothing else of the daemon changes.\<close>

theorem RoutineHC_spec:
  assumes "r < length (heap w)" and "connected r w" and "host = Hostname (member w r)"
    and "res = rpc_result (env w) (trace w) host (ReqHealthCheck data)" and "took = rpc_time (env w) (trace w) host"
    and "m = (member w r)\<lparr>LastHCResponse := now (env w) + took, Latency := durationString (round_ms took), HCBusy := False\<rparr>"
  shows "\<exists>v l. RoutineHC r data w = Ret () v \<and> trace v = trace w @ SentRpc host (ReqHealthCheck data) # l \<and>
    v = (update_member r (\<lambda>_. member v r) w)\<lparr>trace := trace v\<rparr> \<and>
    (case res of
       Inl _ \<Rightarrow> (\<forall>e \<in> set l. \<exists>p ms. e = StatusChange p ms) \<and> strip (member v r) = strip (m\<lparr>Status := UNAVAILABLE\<rparr>) \<and>
          map_option Connection (MemberClient (member v r)) = Some (Some Closed)
     | Inr (RespHealthCheck resp) \<Rightarrow> l = [] \<and> member v r = m\<lparr>Score := HcScore resp\<rparr>
     | Inr _ \<Rightarrow> l = [] \<and> member v r = m)"
proof -
  from assms(2) obtain c where c: "MemberClient (member w r) = Some c" "Connection c = Some Opened" "Requester c"
    by (auto simp: connected_def)
  let ?w = "update_member r (\<lambda>m. m\<lparr>HCBusy := True\<rparr>) w"
  have "connected r ?w" using c assms(1) by (simp add: connected_def member_update_member)
  note send = Connect_Send_connected [OF this, of "ReqHealthCheck data" SendHealthCheck]
  have fields: "Hostname (member ?w r) = host" "MemberClient (member ?w r) = Some c"
    using c assms(1,3) by (simp_all add: member_update_member)
  note run = assms(1) c send fields
  show ?thesis
  proof (cases res)
    case (Inl e)
    let ?u = "w\<lparr>trace := trace w @ [SentRpc host (ReqHealthCheck data)],
         heap := (heap w)[r := (heap w ! r)\<lparr>HCBusy := True, LastHCResponse := now (env w) + took, Latency := durationString (round_ms took),
           MemberClient := Some (c\<lparr>Connection := Some Closed\<rparr>), Status := UNAVAILABLE\<rparr>]\<rparr>"
    have u: "RoutineHC r data w = Ret () (w\<lparr>trace := trace w @ SentRpc host (ReqHealthCheck data) # status_events ?u,
         heap := (heap w)[r := (heap w ! r)\<lparr>LastHCResponse := now (env w) + took, Latency := durationString (round_ms took),
           MemberClient := Some (c\<lparr>Connection := Some Closed\<rparr>), Status := UNAVAILABLE, HCBusy := False\<rparr>]\<rparr>)" (is "_ = Ret () ?v")
      using Inl run assms(3) assms(4,5) [symmetric]
      by (simp add: RoutineHC_def SetHCBusy_def Member_SendHealthCheck_def with_client_def Close_def
          member_update_member Client_Close_def SetClient_def SetStatus_run SetLastHCResponse_def SetLatency_def
          with_status_def update_member_def member_def)
    have m: "member ?v r = m\<lparr>MemberClient := Some (c\<lparr>Connection := Some Closed\<rparr>), Status := UNAVAILABLE\<rparr>"
      using assms(1) unfolding assms(6) by (simp add: member_def)
    show ?thesis unfolding Inl sum.case
    proof (intro exI conjI)
      show "RoutineHC r data w = Ret () ?v" by (rule u)
      show "trace ?v = trace w @ SentRpc host (ReqHealthCheck data) # status_events ?u" by simp
      show "?v = (update_member r (\<lambda>_. member ?v r) w)\<lparr>trace := trace ?v\<rparr>" using assms(1) by (simp add: update_member_def member_def)
      show "\<forall>e \<in> set (status_events ?u). \<exists>p ms. e = StatusChange p ms" by (auto simp: status_events_def)
      show "strip (member ?v r) = strip (m\<lparr>Status := UNAVAILABLE\<rparr>)" "map_option Connection (MemberClient (member ?v r)) = Some (Some Closed)"
        unfolding m by (simp_all add: strip_def)
    qed


  next
    case (Inr resp)
    let ?m = "case resp of RespHealthCheck s \<Rightarrow> (heap w ! r)\<lparr>LastHCResponse := now (env w) + took, Latency := durationString (round_ms took),
        Score := HcScore s, HCBusy := False\<rparr>
      | _ \<Rightarrow> (heap w ! r)\<lparr>LastHCResponse := now (env w) + took, Latency := durationString (round_ms took), HCBusy := False\<rparr>"
    have u: "RoutineHC r data w = Ret () (w\<lparr>trace := trace w @ [SentRpc host (ReqHealthCheck data)], heap := (heap w)[r := ?m]\<rparr>)"
      (is "_ = Ret () ?v")
      using Inr run assms(3) assms(4,5) [symmetric]
      by (cases resp) (simp_all add: RoutineHC_def SetHCBusy_def Member_SendHealthCheck_def with_client_def
          member_update_member SetScore_def SetLastHCResponse_def SetLatency_def update_member_def member_def)
    have m: "member ?v r = ?m" using assms(1) by (simp add: member_def)
    show ?thesis unfolding Inr sum.case
    proof (intro exI conjI)
      show "RoutineHC r data w = Ret () ?v" by (rule u)
      show "trace ?v = trace w @ SentRpc host (ReqHealthCheck data) # []" by simp
      show "?v = (update_member r (\<lambda>_. member ?v r) w)\<lparr>trace := trace ?v\<rparr>" using assms(1) by (simp add: update_member_def member_def)
      show "case resp of RespHealthCheck resp \<Rightarrow> [] = [] \<and> member ?v r = m\<lparr>Score := HcScore resp\<rparr> | _ \<Rightarrow> [] = [] \<and> member ?v r = m"
        unfolding m assms(6) by (cases resp) (simp_all add: member_def)
    qed
  qed
qed

theorem RoutineHC_spec_witness:
  "\<exists>v. RoutineHC 1 \<lparr>Memberlist = []\<rparr> ex_world = Ret () v \<and> Score (member v 1) = 3 \<and>
     trace v = [SentRpc ''beta'' (ReqHealthCheck \<lparr>Memberlist = []\<rparr>)]"
proof -
  have "connected 1 ex_world" by (simp add: connected_def member_def)
  from RoutineHC_spec [OF _ this refl refl refl refl, of "\<lparr>Memberlist = []\<rparr>"] show ?thesis
    by (auto simp: ex_env_def member_def)
qed

lemma for_each_filter_emit:
  assumes "\<And>x t. x \<in> set xs \<Longrightarrow> f x (w\<lparr>trace := t\<rparr>) = Ret () (w\<lparr>trace := t @ (if P x then [g x] else [])\<rparr>)"
  shows "for_each xs f w = Ret () (w\<lparr>trace := trace w @ map g (filter P xs)\<rparr>)"
proof -
  have "for_each xs f (w\<lparr>trace := t\<rparr>) = Ret () (w\<lparr>trace := t @ map g (filter P xs)\<rparr>)" for t
    using assms by (induction xs arbitrary: t) simp_all
  from this [of "trace w"] show ?thesis by simp
qed

text \<open>\<^bold>\<open>C17.\<close> On an active node that still has the highest score, the health check handler returns, goes on

  and changes nothing but the trace: it starts one health check for each other member that is passive
  and has none under way, in the order of the list, each with the whole member list as it is now.\<close>

theorem AddHealthCheckHandler_sends:
  assumes "wf w" and "\<not> ml_lock w" and "GetLocalNode (DBConfig w) = Inr node"
    and "find_member w (NodeHostname node) = Some l" and "Status (member w l) \<noteq> PASSIVE"
    and "GetHighestScoreMember w = Ret (Inr (Some l)) w"
  shows "AddHealthCheckHandler w = Ret False (w\<lparr>trace := trace w @
    map (\<lambda>r. Started (TaskRoutineHC r \<lparr>Memberlist = map (rpc_member (env w)) (members w)\<rparr>))
      (filter (\<lambda>r. r \<noteq> l \<and> \<not> HCBusy (member w r) \<and> Status (member w r) = PASSIVE) (Members w))\<rparr>)"
proof -
  have cc: "ClusterCheck (DBConfig w)" using assms(3) by (auto simp: GetLocalNode_def split: if_splits)
  from find_member_SomeD [OF assms(4)] have l: "l \<in> set (Members w)" by simp
  let ?f = "\<lambda>r. reading (\<lambda>w. (member w r, rpc_memberlist w)) (\<lambda>(m, request).
     if Hostname m \<noteq> Hostname (member w l) \<and> \<not> HCBusy m \<and> Status m = PASSIVE
     then emit (Started (TaskRoutineHC r request)) else skip)"
  have "for_each (Members w) ?f w = Ret () (w\<lparr>trace := trace w @
    map (\<lambda>r. Started (TaskRoutineHC r \<lparr>Memberlist = map (rpc_member (env w)) (members w)\<rparr>))
      (filter (\<lambda>r. r \<noteq> l \<and> \<not> HCBusy (member w r) \<and> Status (member w r) = PASSIVE) (Members w))\<rparr>)"
  proof (rule for_each_filter_emit)
    fix x t assume x: "x \<in> set (Members w)"
    then have "Hostname (member w x) \<noteq> Hostname (member w l) \<longleftrightarrow> x \<noteq> l"
      using hostname_inj [OF wf_wf_members [OF assms(1)] x l] by auto
    then show "?f x (w\<lparr>trace := t\<rparr>) = Ret () (w\<lparr>trace := t @
        (if x \<noteq> l \<and> \<not> HCBusy (member w x) \<and> Status (member w x) = PASSIVE
         then [Started (TaskRoutineHC x \<lparr>Memberlist = map (rpc_member (env w)) (members w)\<rparr>)] else [])\<rparr>)"
      by (simp add: emit_def rpc_memberlist_def)
  qed
  then show ?thesis using cc assms(5,6) GetLocalMember_run [OF assms(2,3,4)]
    by (simp add: AddHealthCheckHandler_def)
qed

lemma GetHighestScoreMember_ex: "GetHighestScoreMember ex_world = Ret (Inr (Some 0)) ex_world"
proof -
  have r: "range_by (\<lambda>ks. ks) (Nodes ex_config) =
      [(''u1'', ex_node ''alpha'' ''10.0.0.11''), (''u2'', ex_node ''beta'' ''10.0.0.12'')]"
    by (simp add: range_by_def keys_def lookup_def)
  show ?thesis
    by (simp add: GetHighestScoreMember_def r [simplified] order_at_def NodeCount_def mlen_def GetMemberByHostname_run
        find_member_def with_ref_def member_def)
qed

theorem AddHealthCheckHandler_sends_witness:
  "AddHealthCheckHandler ex_world = Ret False (ex_world\<lparr>trace := [Started (TaskRoutineHC 1
     \<lparr>Memberlist = map (rpc_member ex_env) (members ex_world)\<rparr>)]\<rparr>)"
proof -
  have "find_member ex_world ''alpha'' = Some 0" by (simp add: find_member_def member_def)
  with AddHealthCheckHandler_sends [OF wf_ex_world _ _ _ _ GetHighestScoreMember_ex, of "ex_node ''alpha'' ''10.0.0.11''"]
  show ?thesis by (simp add: GetLocalNode_ex member_def ex_member_def)
qed

text \<open>A run of the local health checks, after the start delay, sets the score of the local member to
  the sum of the weights of the checks that succeed, and changes nothing else.\<close>

theorem ProcessHCs_score:
  assumes "\<not> ml_lock w" and "\<not> StartDelay w" and "GetLocalNode (DBConfig w) = Inr node"
    and "find_member w (NodeHostname node) = Some l"
    and "\<forall>hc \<in> set plugins. 0 \<le> hc_weight (env w) (PluginName hc)"
    and "(\<Sum>hc \<leftarrow> filter (\<lambda>hc. hc_send (env w) (PluginName hc) = None) plugins. hc_weight (env w) (PluginName hc)) < 2 ^ 63"
  shows "ProcessHCs plugins w = Ret False (update_member l (\<lambda>m. m\<lparr>Score :=
    (\<Sum>hc \<leftarrow> filter (\<lambda>hc. hc_send (env w) (PluginName hc) = None) plugins. hc_weight (env w) (PluginName hc))\<rparr>) w)"
proof -
  let ?step = "\<lambda>hc score. case hc_send (env w) (PluginName hc) of Some _ \<Rightarrow> score
     | None \<Rightarrow> int64 (score + hc_weight (env w) (PluginName hc))"
  let ?sum = "\<lambda>ps. \<Sum>hc \<leftarrow> filter (\<lambda>hc. hc_send (env w) (PluginName hc) = None) ps. hc_weight (env w) (PluginName hc)"
  have "fold ?step ps s = s + ?sum ps"
    if "\<forall>hc \<in> set ps. 0 \<le> hc_weight (env w) (PluginName hc)" "0 \<le> s" "s + ?sum ps < 2 ^ 63" for ps s
    using that
  proof (induction ps arbitrary: s)
    case Nil
    then show ?case by simp
  next
    case (Cons p ps)
    have "0 \<le> ?sum ps" using Cons.prems(1) by (intro sum_list_nonneg) auto
    with Cons show ?case
      by (cases "hc_send (env w) (PluginName p)") (simp_all add: int64_id add.assoc)
  qed
  from this [of plugins 0] assms(5,6) have "fold ?step plugins 0 = ?sum plugins" by simp
  moreover have "ClusterCheck (DBConfig w)" using assms(3) by (auto simp: GetLocalNode_def split: if_splits)
  ultimately show ?thesis using assms(2) GetLocalMember_run [OF assms(1,3,4)]
    by (simp add: ProcessHCs_def SetScore_def Let_def)
qed

theorem ProcessHCs_score_witness:
  "ProcessHCs (GetHealthCheckPlugins (modules ex_world)) ex_world = Ret False (update_member 0 (\<lambda>m. m\<lparr>Score := 1\<rparr>) ex_world)"
proof -
  have "find_member ex_world ''alpha'' = Some 0" by (simp add: find_member_def member_def)
  with ProcessHCs_score [of ex_world "ex_node ''alpha'' ''10.0.0.11''" 0 "GetHealthCheckPlugins (modules ex_world)"]
  show ?thesis by (simp add: GetLocalNode_ex GetHealthCheckPlugins_def) (simp add: ex_env_def)
qed

section \<open>Split brain\<close>

text \<open>The winner of a split brain in a cluster of two, from the list that the other node sent:
  the first member that is available wins if it has never received a health check and failback is
  on; otherwise the node after it in the list wins. When only the second member is available and it
  does not win itself, there is no node after it, and the search panics instead of returning the
  first member: the test for "the second member" is \<^verbatim>\<open>i > 1\<close>.\<close>

theorem GetFailOverCountWinner_two:
  fixes a b :: MemberlistMember
  defines "fresh \<equiv> \<lambda>w m. AutoFailback (Pulse (DBConfig w)) \<and>
    (case parse_rfc1123 (env w) (MlLastReceived m) of Some t \<Rightarrow> t = 0 | None \<Rightarrow> True)"
  shows "GetFailOverCountWinner [a, b] w =
    (if MlStatus a \<noteq> UNAVAILABLE then Ret (if fresh w a then MlHostname a else MlHostname b) w
     else if MlStatus b \<noteq> UNAVAILABLE then (if fresh w b then Ret (MlHostname b) w else Crash OutOfRange)
     else Ret '''' w)"
  by (auto simp: GetFailOverCountWinner_def fresh_def Let_def split: option.splits)

end
