(* ===== verification/IpAddr.thy ===== *)
theory IpAddr
  imports Strconv
begin

text \<open>
  The address helpers of \<^verbatim>\<open>packages/utils/utils.go\<close> and what they use of Go's \<^verbatim>\<open>net\<close> and
  \<^verbatim>\<open>net/netip\<close>: parsing an address, parsing CIDR notation and printing an address. An
  address is a list of eight 16-bit groups, an IPv4 address the mapped one
  \<^verbatim>\<open>::ffff:a.b.c.d\<close>, as \<^verbatim>\<open>net.IP\<close> holds it.
\<close>

section \<open>Parsing\<close>

type_synonym groups = "nat list"

text \<open>The four fields of a dotted quad. \<open>len\<close> counts the digits of the current field; a dot must
  follow a digit and be followed by one, and there are exactly three of them.\<close>

fun v4_loop :: "string \<Rightarrow> nat list \<Rightarrow> nat \<Rightarrow> nat \<Rightarrow> nat list option" where
  "v4_loop [] fields val len = (if length fields = 3 then Some (fields @ [val]) else None)"
| "v4_loop (c # s) fields val len =
     (if is_digit c
      then if len = 1 \<and> val = 0 then None
           else let val' = val * 10 + digit_val c
                in if val' > 255 then None else v4_loop s fields val' (len + 1)
      else if c = CHR ''.''
      then if len = 0 \<or> s = [] \<or> length fields = 3 then None
           else v4_loop s (fields @ [val]) 0 0
      else None)"

definition parseIPv4 :: "string \<Rightarrow> nat list option" where
  "parseIPv4 s = v4_loop s [] 0 0"

definition v4_groups :: "nat list \<Rightarrow> groups" where
  "v4_groups f = [f ! 0 * 256 + f ! 1, f ! 2 * 256 + f ! 3]"

definition v4_mapped :: "nat list \<Rightarrow> groups" where
  "v4_mapped f = [0, 0, 0, 0, 0, 65535] @ v4_groups f"

definition hex_val :: "char \<Rightarrow> nat option" where
  "hex_val c =
     (if is_digit c then Some (digit_val c)
      else let k = of_char c :: nat
           in if 97 \<le> k \<and> k \<le> 102 then Some (k - 87)
              else if 65 \<le> k \<and> k \<le> 70 then Some (k - 55)
              else None)"

text \<open>The digits of one field: the value, how many there are, and the rest; more than four are an error.\<close>

fun hex_field :: "string \<Rightarrow> nat \<Rightarrow> nat \<Rightarrow> (nat \<times> nat \<times> string) option" where
  "hex_field [] acc off = Some (acc, off, [])"
| "hex_field (c # s) acc off =
     (case hex_val c of
        None \<Rightarrow> Some (acc, off, c # s)
      | Some v \<Rightarrow> if off > 3 then None else hex_field s (acc * 16 + v) (off + 1))"

text \<open>The loop of \<^verbatim>\<open>parseIPv6\<close>: \<open>n\<close> fields may still come, \<open>out\<close> are the groups so far and \<open>ell\<close>
  is the place of the ellipsis. The result has the groups, the ellipsis and the rest of the text.\<close>

fun v6_loop :: "nat \<Rightarrow> string \<Rightarrow> groups \<Rightarrow> nat option \<Rightarrow> (groups \<times> nat option \<times> string) option" where
  "v6_loop 0 s out ell = Some (out, ell, s)"
| "v6_loop (Suc n) s out ell =
     (case hex_field s 0 0 of
        None \<Rightarrow> None
      | Some (acc, off, rest) \<Rightarrow>
          if off = 0 then None
          else if rest \<noteq> [] \<and> hd rest = CHR ''.''
          then if ell = None \<and> length out \<noteq> 6 then None
               else if length out + 2 > 8 then None
               else (case parseIPv4 s of None \<Rightarrow> None | Some f \<Rightarrow> Some (out @ v4_groups f, ell, []))
          else (case rest of
                  [] \<Rightarrow> Some (out @ [acc], ell, [])
                | c # rest' \<Rightarrow>
                    if c \<noteq> CHR '':'' \<or> rest' = [] then None
                    else if hd rest' = CHR '':''
                    then if ell \<noteq> None then None
                         else if tl rest' = [] then Some (out @ [acc], Some (length out + 1), [])
                         else v6_loop n (tl rest') (out @ [acc]) (Some (length out + 1))
                    else v6_loop n rest' (out @ [acc]) ell))"

text \<open>\<^verbatim>\<open>netip.parseIPv6\<close>; the second component says whether a zone is given.\<close>

definition parseIPv6 :: "string \<Rightarrow> (groups \<times> bool) option" where
  "parseIPv6 s0 =
     (let s = takeWhile (\<lambda>c. c \<noteq> CHR ''%'') s0;
          zoned = CHR ''%'' \<in> set s0;
          zone = tl (dropWhile (\<lambda>c. c \<noteq> CHR ''%'') s0)
      in if zoned \<and> zone = [] then None
         else if s = ''::'' then Some (replicate 8 0, zoned)
         else let (start, ell) = (if take 2 s = ''::'' then (drop 2 s, Some 0) else (s, None))
              in case v6_loop 8 start [] ell of
                   None \<Rightarrow> None
                 | Some (out, ell', rest) \<Rightarrow>
                     if rest \<noteq> [] then None
                     else if length out < 8
                     then (case ell' of
                             None \<Rightarrow> None
                           | Some e \<Rightarrow> Some (take e out @ replicate (8 - length out) 0 @ drop e out, zoned))
                     else if ell' \<noteq> None then None
                     else Some (out, zoned))"

text \<open>\<^verbatim>\<open>netip.ParseAddr\<close>: the first dot or colon decides. \<open>Inl\<close> an IPv4 address.\<close>

definition ParseAddr :: "string \<Rightarrow> (nat list + groups \<times> bool) option" where
  "ParseAddr s =
     (case find (\<lambda>c. c = CHR ''.'' \<or> c = CHR '':'' \<or> c = CHR ''%'') s of
        None \<Rightarrow> None
      | Some c \<Rightarrow> if c = CHR ''.'' then map_option Inl (parseIPv4 s)
                  else if c = CHR '':'' then map_option Inr (parseIPv6 s)
                  else None)"

text \<open>\<^verbatim>\<open>net.ParseIP\<close> refuses zones; \<^verbatim>\<open>net.ParseCIDR\<close> does too and bounds the prefix length.\<close>

definition ParseIP :: "string \<Rightarrow> groups option" where
  "ParseIP s = (case ParseAddr s of
     Some (Inl f) \<Rightarrow> Some (v4_mapped f)
   | Some (Inr (g, False)) \<Rightarrow> Some g
   | _ \<Rightarrow> None)"

text \<open>\<^verbatim>\<open>dtoi\<close>: a decimal number below \<^verbatim>\<open>0xFFFFFF\<close> that takes up the whole text.\<close>

fun dtoi :: "string \<Rightarrow> nat \<Rightarrow> nat option" where
  "dtoi [] n = Some n"
| "dtoi (c # s) n = (if is_digit c then let n' = n * 10 + digit_val c in if n' \<ge> 16777215 then None else dtoi s n' else None)"

definition ParseCIDR :: "string \<Rightarrow> (groups \<times> nat) option" where
  "ParseCIDR s =
     (if CHR ''/'' \<notin> set s then None
      else let addr = takeWhile (\<lambda>c. c \<noteq> CHR ''/'') s; mask = tl (dropWhile (\<lambda>c. c \<noteq> CHR ''/'') s)
           in if mask = [] then None
              else (case (ParseAddr addr, dtoi mask 0) of
                      (Some (Inl f), Some n) \<Rightarrow> if n \<le> 32 then Some (v4_mapped f, n) else None
                    | (Some (Inr (g, False)), Some n) \<Rightarrow> if n \<le> 128 then Some (g, n) else None
                    | _ \<Rightarrow> None))"

section \<open>Printing\<close>

definition To4 :: "groups \<Rightarrow> nat list option" where
  "To4 g = (if length g = 8 \<and> take 6 g = [0, 0, 0, 0, 0, 65535]
     then Some [g ! 6 div 256, g ! 6 mod 256, g ! 7 div 256, g ! 7 mod 256] else None)"

definition v4_string :: "nat list \<Rightarrow> string" where
  "v4_string f = utoa (f ! 0) @ ''.'' @ utoa (f ! 1) @ ''.'' @ utoa (f ! 2) @ ''.'' @ utoa (f ! 3)"

definition hex_digit :: "nat \<Rightarrow> char" where
  "hex_digit d = (if d < 10 then digit_char d else char_of (87 + d))"

definition hex_string :: "nat \<Rightarrow> string" where
  "hex_string x =
     (if x \<ge> 4096 then [hex_digit (x div 4096)] else []) @
     (if x \<ge> 256 then [hex_digit (x div 256 mod 16)] else []) @
     (if x \<ge> 16 then [hex_digit (x div 16 mod 16)] else []) @ [hex_digit (x mod 16)]"

text \<open>The leftmost longest run of at least two zero groups, as (start, end); (8, 8) if there is none.\<close>

definition zero_run :: "groups \<Rightarrow> nat \<Rightarrow> nat" where
  "zero_run g i = length (takeWhile (\<lambda>x. x = 0) (drop i g))"

definition longest_run :: "groups \<Rightarrow> nat \<times> nat" where
  "longest_run g = fold (\<lambda>i (s, e). let l = zero_run g i in if l \<ge> 2 \<and> l > e - s then (i, i + l) else (s, e)) [0..<8] (8, 8)"

fun join_colon :: "string list \<Rightarrow> string" where
  "join_colon [] = ''''"
| "join_colon [x] = x"
| "join_colon (x # xs) = x @ '':'' @ join_colon xs"

definition v6_string :: "groups \<Rightarrow> string" where
  "v6_string g =
     (case longest_run g of (s, e) \<Rightarrow>
        if s \<ge> 8 then join_colon (map hex_string g)
        else join_colon (map hex_string (take s g)) @ ''::'' @ join_colon (map hex_string (drop e g)))"

definition IP_String :: "groups \<Rightarrow> string" where
  "IP_String g = (case To4 g of Some f \<Rightarrow> v4_string f | None \<Rightarrow> v6_string g)"

section \<open>The helpers\<close>

definition SanitizeIPv6 :: "string \<Rightarrow> string" where
  "SanitizeIPv6 address = remove_all (CHR '']'') (remove_all (CHR ''['') address)"

definition IsIPv6 :: "string \<Rightarrow> bool" where
  "IsIPv6 address = (let cleanIP = remove_all (CHR '']'') (remove_all (CHR ''['') address)
     in ParseIP cleanIP \<noteq> None \<and> CHR '':'' \<in> set cleanIP)"

definition IsIPv4 :: "string \<Rightarrow> bool" where
  "IsIPv4 address = (case ParseIP address of None \<Rightarrow> False | Some ip \<Rightarrow> To4 ip \<noteq> None)"

text \<open>\<^verbatim>\<open>ValidIPAddress\<close>; \<open>None\<close> says that the address is valid.\<close>

definition ValidIPAddress :: "string \<Rightarrow> string option" where
  "ValidIPAddress ipAddress = (case ParseCIDR ipAddress of
     None \<Rightarrow> Some ''invalid CDIR address specified''
   | Some (ip, _) \<Rightarrow>
       if \<not> IsIPv6 (IP_String ip) \<and> \<not> IsIPv4 (IP_String ip) then Some ''invalid IP address'' else None)"

definition IsCIDR :: "string \<Rightarrow> bool" where
  "IsCIDR cidr = (ParseCIDR cidr \<noteq> None)"

definition GetCIDR :: "string \<Rightarrow> (groups \<times> nat) option" where
  "GetCIDR cidr = ParseCIDR cidr"

definition IsPort :: "string \<Rightarrow> bool" where
  "IsPort port = (case Atoi port of (i, None) \<Rightarrow> i > 0 \<and> i < 65536 | _ \<Rightarrow> False)"

text \<open>\<^verbatim>\<open>FormatIPv6\<close>. The arguments of \<^verbatim>\<open>strings.Contains\<close> are swapped: the tests ask whether the
  address is part of the text \<^verbatim>\<open>"["\<close>. What they decide is overwritten in any case.\<close>

definition FormatIPv6 :: "string \<Rightarrow> string" where
  "FormatIPv6 address = (if IsIPv6 address then ''['' @ address @ '']'' else address)"

text \<open>\<^verbatim>\<open>HasPort\<close>, with \<^verbatim>\<open>strings.LastIndex\<close> and \<^verbatim>\<open>strings.Count\<close>.\<close>

definition last_index :: "char \<Rightarrow> string \<Rightarrow> int" where
  "last_index c s = (if c \<in> set s then int (length s) - 1 - int (length (takeWhile (\<lambda>x. x \<noteq> c) (rev s))) else - 1)"

definition HasPort :: "string \<Rightarrow> bool" where
  "HasPort s =
     (if last_index (CHR ''['') s = 0 then last_index (CHR '':'') s > last_index (CHR '']'') s
      else length (filter (\<lambda>c. c = CHR '':'') s) = 1)"

definition SplitIpPort :: "string \<Rightarrow> string + string \<times> string" where
  "SplitIpPort ipPort = (let IPslice = split_at (CHR '':'') ipPort
     in if length IPslice < 2 then Inl ''Invalid IP:Port string. Unable to split.''
        else Inr (IPslice ! 0, IPslice ! 1))"

section \<open>Every IPv4 network is accepted\<close>

lemma not_digit [simp]: "\<not> is_digit (CHR ''.'')" "\<not> is_digit (CHR ''/'')" "\<not> is_digit (CHR '':'')" "\<not> is_digit (CHR ''%'')"
  "\<not> is_digit (CHR ''['')" "\<not> is_digit (CHR '']'')"
  by (simp_all add: is_digit_def)

lemma v4_loop_utoa:
  "n \<le> 255 \<Longrightarrow> v4_loop (utoa n @ rest) fields 0 0 = v4_loop rest fields n (length (utoa n))"
proof (induction n arbitrary: rest rule: utoa.induct)
  case (1 n)
  show ?case
  proof (cases "n < 10")
    case True
    then show ?thesis by (simp add: utoa.simps [of n] digit_char_is_digit digit_val_char)
  next
    case False
    then have "v4_loop (utoa (n div 10) @ digit_char (n mod 10) # rest) fields 0 0 =
        v4_loop (digit_char (n mod 10) # rest) fields (n div 10) (length (utoa (n div 10)))"
      using "1.IH" "1.prems" by simp
    moreover have "n div 10 \<noteq> 0" and "n div 10 * 10 + n mod 10 = n" using False by auto
    ultimately show ?thesis using False "1.prems"
      by (simp add: utoa.simps [of n] digit_char_is_digit digit_val_char)
  qed
qed

lemma dtoi_utoa: "n < 1000 \<Longrightarrow> dtoi (utoa n @ rest) 0 = dtoi rest n"
proof (induction n arbitrary: rest rule: utoa.induct)
  case (1 n)
  show ?case
  proof (cases "n < 10")
    case True
    then show ?thesis by (simp add: utoa.simps [of n] digit_char_is_digit digit_val_char)
  next
    case False
    then have "dtoi (utoa (n div 10) @ digit_char (n mod 10) # rest) 0 = dtoi (digit_char (n mod 10) # rest) (n div 10)"
      using "1.IH" "1.prems" by simp
    moreover have "n div 10 * 10 + n mod 10 = n" by auto
    ultimately show ?thesis using False "1.prems"
      by (simp add: utoa.simps [of n] digit_char_is_digit digit_val_char)
  qed
qed

lemma parse_v4_string:
  assumes "length f = 4" and "\<forall>x \<in> set f. x < 256"
  shows "parseIPv4 (v4_string f) = Some f"
proof -
  obtain a b c d where f: "f = [a, b, c, d]" using assms(1)
    by (auto simp: length_Suc_conv numeral_eq_Suc)
  have "v4_loop (utoa d) fs 0 0 = v4_loop [] fs d (length (utoa d))" for fs
    using v4_loop_utoa [of d "[]"] assms(2) f by simp
  then show ?thesis using assms(2)
    by (simp add: f parseIPv4_def v4_string_def v4_loop_utoa)
qed

lemma v4_string_chars: "c \<in> set (v4_string f) \<Longrightarrow> is_digit c \<or> c = CHR ''.''"
  by (auto simp: v4_string_def dest: utoa_digits)

lemma find_dot:
  assumes "\<And>c. c \<in> set s \<Longrightarrow> is_digit c \<or> c = CHR ''.''" and "CHR ''.'' \<in> set s"
  shows "find (\<lambda>c. c = CHR ''.'' \<or> c = CHR '':'' \<or> c = CHR ''%'') s = Some (CHR ''.'')"
proof -
  let ?P = "\<lambda>c. c = CHR ''.'' \<or> c = CHR '':'' \<or> c = CHR ''%''"
  have "find ?P s \<noteq> None" using assms(2) unfolding find_None_iff by blast
  then obtain c where c: "find ?P s = Some c" by blast
  from find_SomeD [OF c] have "c \<in> set s" and "?P c" by auto
  with assms(1) [of c] c show ?thesis by auto
qed

lemma ParseAddr_v4:
  assumes "length f = 4" and "\<forall>x \<in> set f. x < 256"
  shows "ParseAddr (v4_string f) = Some (Inl f)"
proof -
  have "find (\<lambda>c. c = CHR ''.'' \<or> c = CHR '':'' \<or> c = CHR ''%'') (v4_string f) = Some (CHR ''.'')"
  proof (rule find_dot)
    show "CHR ''.'' \<in> set (v4_string f)" by (simp add: v4_string_def)
  qed (rule v4_string_chars)
  then show ?thesis by (simp add: ParseAddr_def parse_v4_string [OF assms])
qed

lemma To4_mapped:
  assumes "length f = 4" and "\<forall>x \<in> set f. x < 256"
  shows "To4 (v4_mapped f) = Some f"
proof -
  obtain a b c d where f: "f = [a, b, c, d]" using assms(1)
    by (auto simp: length_Suc_conv numeral_eq_Suc)
  with assms(2) show ?thesis by (simp add: To4_def v4_mapped_def v4_groups_def)

qed

lemma ValidIPAddress_v4_run:
  assumes "length f = 4" and "\<forall>x \<in> set f. x < 256" and "n \<le> 32"
  shows "ParseCIDR (v4_string f @ ''/'' @ utoa n) = Some (v4_mapped f, n)"
proof -
  let ?s = "v4_string f @ ''/'' @ utoa n"
  have no: "\<forall>c \<in> set (v4_string f). c \<noteq> CHR ''/''" by (auto dest: v4_string_chars)
  then have "takeWhile (\<lambda>c. c \<noteq> CHR ''/'') ?s = v4_string f" and "dropWhile (\<lambda>c. c \<noteq> CHR ''/'') ?s = ''/'' @ utoa n"
    by (simp_all add: takeWhile_append2 dropWhile_append2)
  moreover have "dtoi (utoa n) 0 = Some n" using dtoi_utoa [of n "[]"] assms(3) by simp
  ultimately show ?thesis using assms(3) by (simp add: ParseCIDR_def ParseAddr_v4 [OF assms(1,2)])
qed

lemma ValidIPAddress_v4_None:
  assumes "length f = 4" and "\<forall>x \<in> set f. x < 256" and "n \<le> 32"
  shows "ValidIPAddress (v4_string f @ ''/'' @ utoa n) = None"
proof -
  have "ParseIP (v4_string f) = Some (v4_mapped f)" by (simp add: ParseIP_def ParseAddr_v4 [OF assms(1,2)])
  then have "IsIPv4 (v4_string f)" by (simp add: IsIPv4_def To4_mapped [OF assms(1,2)])
  moreover have "IP_String (v4_mapped f) = v4_string f" by (simp add: IP_String_def To4_mapped [OF assms(1,2)])
  ultimately show ?thesis using ValidIPAddress_v4_run [OF assms] by (simp add: ValidIPAddress_def)

qed

text \<open>Every IPv4 network in CIDR notation, with four fields below 256 and a prefix length of at most 32
  printed in decimal, is a valid address, and its printed address parses to the address again.\<close>

theorem ValidIPAddress_v4:
  assumes "length f = 4" and "\<forall>x \<in> set f. x < 256" and "n \<le> 32"
  shows "ValidIPAddress (v4_string f @ ''/'' @ utoa n) = None \<and> ParseIP (v4_string f) = Some (v4_mapped f) \<and>
    IP_String (v4_mapped f) = v4_string f"
proof -
  have "ParseIP (v4_string f) = Some (v4_mapped f)" by (simp add: ParseIP_def ParseAddr_v4 [OF assms(1,2)])
  moreover have "IP_String (v4_mapped f) = v4_string f" by (simp add: IP_String_def To4_mapped [OF assms(1,2)])
  ultimately show ?thesis using ValidIPAddress_v4_None [OF assms] by simp

qed

theorem ValidIPAddress_v4_witness: "ValidIPAddress (v4_string [10, 0, 0, 1] @ ''/'' @ utoa 24) = None"
  using ValidIPAddress_v4 [of "[10, 0, 0, 1]" 24] by simp

end
