(* ===== verification/RegistryOps.thy ===== *)
theory RegistryOps
  imports NetActions IpAddr
begin

text \<open>
  The operations of \<^verbatim>\<open>src/pulseha/groups.go\<close> and \<^verbatim>\<open>src/pulseha/nodes.go\<close> that change the config:
  floating IP groups, their assignment to interfaces, and nodes. Every one of them holds the
  mutex of the config. A node is a pointer in the map of nodes, so a write to a map inside a
  node is a write to the config.
\<close>

section \<open>Writes to the config\<close>

definition write_group :: "string \<Rightarrow> string list \<Rightarrow> unit go" where
  "write_group name ips =
     reading (\<lambda>w. is_nil (Groups (DBConfig w))) (\<lambda>isnil.
       if isnil then crash_with NilMapWrite
       else modify (set_config (\<lambda>c. c\<lparr>Groups := put (Groups c) name ips\<rparr>)))"

definition put_iface :: "string \<Rightarrow> string \<Rightarrow> string list \<Rightarrow> Config \<Rightarrow> Config" where
  "put_iface uid iface gs c = (case lookup (Nodes c) uid of
     None \<Rightarrow> c
   | Some node \<Rightarrow> c\<lparr>Nodes := put (Nodes c) uid (node\<lparr>IPGroups := put (IPGroups node) iface gs\<rparr>)\<rparr>)"

definition write_iface :: "string \<Rightarrow> string \<Rightarrow> string list \<Rightarrow> unit go" where
  "write_iface uid iface gs =
     reading (\<lambda>w. lookup (Nodes (DBConfig w)) uid) (\<lambda>node. case node of
       None \<Rightarrow> crash_with NilDeref
     | Some n \<Rightarrow> if is_nil (IPGroups n) then crash_with NilMapWrite
                 else modify (set_config (put_iface uid iface gs)))"

definition iface_groups :: "Config \<Rightarrow> string \<Rightarrow> string \<Rightarrow> string list" where
  "iface_groups c uid iface = (case lookup (Nodes c) uid of
     None \<Rightarrow> []
   | Some node \<Rightarrow> (case lookup (IPGroups node) iface of None \<Rightarrow> [] | Some gs \<Rightarrow> gs))"

section \<open>Groups\<close>

definition groupNew :: "string \<Rightarrow> string go" where
  "groupNew groupName =
     locked_cfg (reading (\<lambda>w. if groupName \<noteq> '''' then groupName else genGroupName (DBConfig w)) (\<lambda>name.
       thn (write_group name []) (ret name)))"

definition groupDelete :: "string \<Rightarrow> string option go" where
  "groupDelete groupName =
     locked_cfg (reading DBConfig (\<lambda>c.
       if groupExist c groupName
       then if \<not> nodeAssignedToInterface c groupName
            then thn (modify (set_config (\<lambda>c. c\<lparr>Groups := del (Groups c) groupName\<rparr>))) (ret None)
            else ret (Some ''group has network interface assignments. Please remove them and try again'')
       else ret (Some ''unable to delete group that doesn't exist'')))"

definition groupClearLocal :: "unit go" where
  "groupClearLocal = locked_cfg (modify (set_config (\<lambda>c. c\<lparr>Groups := Some []\<rparr>)))"

definition add_ip :: "string \<Rightarrow> string \<Rightarrow> string option go" where
  "add_ip groupName ip = (case ValidIPAddress ip of
     Some err \<Rightarrow> ret (Some err)
   | None \<Rightarrow> reading DBConfig (\<lambda>c.
       if \<not> groupIpExistAll c ip
       then thn (write_group groupName (group_ips c groupName @ [ip])) (ret None)
       else ret (Some (ip @ '' already exists in group '' @ groupName @ ''.. skipping.''))))"

definition groupIpAdd :: "string \<Rightarrow> string list \<Rightarrow> string option go" where
  "groupIpAdd groupName ips =
     locked_cfg (reading (\<lambda>w. (snd (GetActiveMember w), groupExist (DBConfig w) groupName)) (\<lambda>(activeMember, exists).
       if activeMember = None then ret (Some ''unable to add IP(s) to group as there no active node in the cluster'')
       else if \<not> exists then ret (Some ''group does not exist'')
       else for_return ips (add_ip groupName)))"

definition remove_ip :: "string \<Rightarrow> string \<Rightarrow> unit go" where
  "remove_ip groupName ip =
     reading (\<lambda>w. (group_ips (DBConfig w) groupName, groupIPExist (DBConfig w) groupName ip)) (\<lambda>(ips, exists, i).
       if length ips > 0
       then if exists then write_group groupName (cut (nat i) ips)
            else Logging_Warn (ip @ '' does not exist in group '' @ groupName @ ''.. skipping.'')
       else skip)"

definition groupIpRemove :: "string \<Rightarrow> string list \<Rightarrow> string option go" where
  "groupIpRemove groupName ips =
     locked_cfg (reading (\<lambda>w. groupExist (DBConfig w) groupName) (\<lambda>exists.
       if \<not> exists then ret (Some ''group does not exist'')
       else thn (for_each ips (remove_ip groupName)) (ret None)))"

text \<open>\<^verbatim>\<open>network.InterfaceExist\<close> is an answer of the surroundings.\<close>

definition activate_if_local :: "string \<Rightarrow> string \<Rightarrow> string option go" where
  "activate_if_local iface groupName =
     reading (\<lambda>w. (fst (GetActiveMember w), GetLocalNode (DBConfig w))) (\<lambda>(hostname, localNode).
       case localNode of
         Inl _ \<Rightarrow> ret (Some ''unable to retrieve local node configuration'')
       | Inr node \<Rightarrow>
           thn (if hostname = NodeHostname node then makeGroupActive iface groupName else skip) (ret None))"

definition groupAssign :: "string \<Rightarrow> string \<Rightarrow> string \<Rightarrow> string option go" where
  "groupAssign groupName uid iface =
     locked_cfg (reading (\<lambda>w. (groupExist (DBConfig w) groupName, interface_exists (env w) iface,
                     nodeInterfaceGroupExists (DBConfig w) uid iface groupName, iface_groups (DBConfig w) uid iface))
       (\<lambda>(grp, exists, assigned, gs).
          if \<not> grp then ret (Some ''IP group does not exist'')
          else if exists
          then (case assigned of
                  None \<Rightarrow> crash_with NilDeref
                | Some (True, _) \<Rightarrow> thn (Logging_Warn (groupName @ '' is already assigned to '' @ iface @ ''.. skipping.'')) (ret None)
                | Some (False, _) \<Rightarrow>
                    thn (write_iface uid iface (gs @ [groupName])) (activate_if_local iface groupName))
          else ret (Some ''interface does not exist'')))"

definition groupUnassign :: "string \<Rightarrow> string \<Rightarrow> string \<Rightarrow> string option go" where
  "groupUnassign groupName uid iface =
     locked_cfg (reading (\<lambda>w. (interface_exists (env w) iface,
                     nodeInterfaceGroupExists (DBConfig w) uid iface groupName, iface_groups (DBConfig w) uid iface))
       (\<lambda>(exists, assigned, gs).
          if exists
          then (case assigned of
                  None \<Rightarrow> crash_with NilDeref
                | Some (True, i) \<Rightarrow>
                    thn (makeGroupPassive iface groupName)
                   (thn (write_iface uid iface (cut (nat i) gs)) (ret None))
                | Some (False, _) \<Rightarrow> thn (Logging_Warn (groupName @ '' does not exist in node '' @ uid @ ''.. skipping.'')) (ret None))
          else ret (Some ''interface does not exist'')))"

section \<open>Nodes\<close>

definition CLUSTER_NODE_EXISTS :: string where
  "CLUSTER_NODE_EXISTS = ''unable to complete action as node already exists''"

definition CLUSTER_CREATE_FAIL_HOSTNAME :: string where
  "CLUSTER_CREATE_FAIL_HOSTNAME = ''cannot create cluster because unable to get hostname''"

definition CLUSTER_NODE_ADD_FAIL :: string where
  "CLUSTER_NODE_ADD_FAIL = ''unable to add local node to config''"

definition CLUSTER_CONFIG_FAIL :: string where
  "CLUSTER_CONFIG_FAIL = ''unable to save config''"

definition nodeAdd :: "string \<Rightarrow> Node \<Rightarrow> string option go" where
  "nodeAdd uid node =
     reading (\<lambda>w. nodeExistsByUUID (DBConfig w) uid) (\<lambda>exists.
       if \<not> exists
       then thn (locked_cfg (reading (\<lambda>w. is_nil (Nodes (DBConfig w))) (\<lambda>isnil.
                   if isnil then crash_with NilMapWrite
                   else modify (set_config (\<lambda>c. c\<lparr>Nodes := put (Nodes c) uid node\<rparr>)))))
                (ret None)
       else ret (Some CLUSTER_NODE_EXISTS))"

definition nodeDelete :: "string \<Rightarrow> string option go" where
  "nodeDelete uid =
     reading (\<lambda>w. nodeExistsByUUID (DBConfig w) uid) (\<lambda>exists.
       if exists
       then thn (locked_cfg (modify (set_config (\<lambda>c. c\<lparr>Nodes := del (Nodes c) uid\<rparr>)))) (ret None)
       else ret (Some CLUSTER_NODE_NOTFOUND))"

definition nodesClearLocal :: "unit go" where
  "nodesClearLocal = locked_cfg (modify (set_config (\<lambda>c. c\<lparr>Nodes := Some []\<rparr>)))"

text \<open>The body of the two loops that give an interface a fresh group; a failed assignment is only logged
  locally.\<close>

definition group_for_iface :: "string \<Rightarrow> string \<Rightarrow> unit go" where
  "group_for_iface uid iface =
     reading (\<lambda>w. genGroupName (DBConfig w)) (\<lambda>groupName.
       thn (write_group groupName []) (thn (groupAssign groupName uid iface) skip))"

definition nodeCreateLocal :: "string \<Rightarrow> string \<Rightarrow> bool \<Rightarrow> (string + string \<times> Node) go" where
  "nodeCreateLocal ip port assignGroups =
     reading (\<lambda>w. (GetHostname (hostname_cmd (env w)), new_uuid (env w), interface_names (env w))) (\<lambda>(host, uid, ifaces).
       case host of
         Inl _ \<Rightarrow> ret (Inl CLUSTER_CREATE_FAIL_HOSTNAME)
       | Inr hostname \<Rightarrow>
           bnd (nodeAdd uid \<lparr>NodeHostname = hostname, IP = ip, Port = port, IPGroups = Some []\<rparr>) (\<lambda>err. case err of
             Some _ \<Rightarrow> ret (Inl CLUSTER_NODE_ADD_FAIL)
           | None \<Rightarrow> bnd (UpdateValue ''local_node'' uid) (\<lambda>err. case err of
               Some e \<Rightarrow> ret (Inl e)
             | None \<Rightarrow> bnd Save (\<lambda>err. case err of
                 Some e \<Rightarrow> ret (Inl e)
               | None \<Rightarrow>
                   thn (for_each (filter (\<lambda>i. i \<noteq> ''lo'') ifaces) (\<lambda>ifaceName.
                          thn (write_iface uid ifaceName [])
                              (if assignGroups then group_for_iface uid ifaceName else skip)))
                  (reading (\<lambda>w. lookup (Nodes (DBConfig w)) uid) (\<lambda>node. case node of
                     None \<Rightarrow> crash_with NilDeref
                   | Some n \<Rightarrow> ret (Inr (uid, n))))))))"

definition new_iface :: "string \<Rightarrow> string \<Rightarrow> unit go" where
  "new_iface uid b =
     reading (\<lambda>w. case lookup (Nodes (DBConfig w)) uid of None \<Rightarrow> False | Some n \<Rightarrow> b \<in> set (keys (IPGroups n)))
       (\<lambda>exist. if \<not> exist \<and> b \<noteq> ''lo'' then thn (write_iface uid b []) (group_for_iface uid b) else skip)"

definition del_ifaces ::
 "string \<Rightarrow> (string \<Rightarrow> bool) \<Rightarrow> Config \<Rightarrow> Config" where
  "del_ifaces uid keep c = (case lookup (Nodes c) uid of
     None \<Rightarrow> c
   | Some node \<Rightarrow> c\<lparr>Nodes := put (Nodes c) uid
       (node\<lparr>IPGroups := map_option (filter (\<lambda>(iface, _). keep iface)) (IPGroups node)\<rparr>)\<rparr>)"

text \<open>\<^verbatim>\<open>nodeUpdateLocalInterfaces\<close>. The second loop deletes from the map that it ranges over; the order
  in which it visits the interfaces does not matter.\<close>

definition nodeUpdateLocalInterfaces :: "string option go" where
  "nodeUpdateLocalInterfaces =
     reading (\<lambda>w. (GetHostname (hostname_cmd (env w)), interface_names (env w))) (\<lambda>(host, ifaces). case host of
       Inl e \<Rightarrow> ret (Some e)
     | Inr localHostname \<Rightarrow>
         reading (\<lambda>w. nodeGetByHostname (order_at w ''nodeGetByHostname'') (DBConfig w) localHostname) (\<lambda>found. case found of
           Inl e \<Rightarrow> ret (Some e)
         | Inr (uid, _) \<Rightarrow>
             thn (for_each ifaces (new_iface uid))
            (thn (modify (set_config (del_ifaces uid (\<lambda>b. b \<in> set ifaces))))
            (bnd Save (\<lambda>err. case err of
               Some _ \<Rightarrow> ret (Some CLUSTER_CONFIG_FAIL)
             | None \<Rightarrow> ret None)))))"

definition nodeUpdateLocalHostname :: "string \<Rightarrow> string option go" where
  "nodeUpdateLocalHostname hostname =
     reading (\<lambda>w. UpdateHostname hostname (DBConfig w)) (\<lambda>res. case res of
       Inl c \<Rightarrow> crash_with c
     | Inr c \<Rightarrow> thn (modify (\<lambda>w. w\<lparr>DBConfig := c\<rparr>)) (thn Save SyncConfig))"

section \<open>What an operation does to the config\<close>

text \<open>\<open>config_effect m R\<close>: whenever \<open>m\<close> returns \<open>x\<close>, the configs before and after are related by \<open>R\<close>.\<close>

definition config_effect :: "'a go \<Rightarrow> (Config \<Rightarrow> 'a \<Rightarrow> Config \<Rightarrow> bool) \<Rightarrow> bool" where
  "config_effect m R \<longleftrightarrow> (\<forall>w x v. m w = Ret x v \<longrightarrow> R (DBConfig w) x (DBConfig v))"

lemma config_effectD: "config_effect m R \<Longrightarrow> m w = Ret x v \<Longrightarrow> R (DBConfig w) x (DBConfig v)"
  by (simp add: config_effect_def)

lemma effect_bnd:
  assumes "config_effect m R" and "\<And>x. config_effect (f x) (S x)"
    and "\<And>c x d y e. R c x d \<Longrightarrow> S x d y e \<Longrightarrow> T c y e"
  shows "config_effect (bnd m f) T"
  using assms unfolding config_effect_def outcome_bnd_Ret by blast

lemma effect_thn:
  assumes "config_effect m R" and "config_effect n S" and "\<And>c x d y e. R c x d \<Longrightarrow> S d y e \<Longrightarrow> T c y e"
  shows "config_effect (thn m n) T"
  using assms unfolding config_effect_def outcome_thn_Ret by blast

lemma effect_ret: "(\<And>c. R c x c) \<Longrightarrow> config_effect (ret x) R"
  by (simp add: config_effect_def)

lemma effect_quiet: "quiet m \<Longrightarrow> (\<And>c x. R c x c) \<Longrightarrow> config_effect m R"
  unfolding config_effect_def by (metis core_fields(1) quietD)

lemma effect_modify: "(\<And>c. R c () (f c)) \<Longrightarrow> config_effect (modify (set_config f)) R"
  by (simp add: config_effect_def)

lemma effect_crash: "config_effect (crash_with c) R"
  by (simp add: config_effect_def)

text \<open>A read of the config is remembered.\<close>

lemma effect_reading:
  assumes "\<And>w. config_effect (k (f w)) (\<lambda>c x d. c = DBConfig w \<longrightarrow> R c x d)"
  shows "config_effect (reading f k) R"
  using assms unfolding config_effect_def by fastforce

lemma effect_locked: "config_effect body R \<Longrightarrow> config_effect (locked_cfg body) R"
  unfolding config_effect_def by (fastforce simp: locked_cfg_Ret)

lemma effect_weaken: "config_effect m R \<Longrightarrow> (\<And>c x d. R c x d \<Longrightarrow> S c x d) \<Longrightarrow> config_effect m S"
  by (auto simp: config_effect_def)

lemma effect_for_each:
  assumes "\<And>x. config_effect (f x) (\<lambda>c _ d. d = g x c)"
  shows "config_effect (for_each xs f) (\<lambda>c _ d. d = fold g xs c)"
proof (induction xs)
  case Nil
  show ?case by (simp add: config_effect_def)
next
  case (Cons x xs)
  have "config_effect (thn (f x) (for_each xs f)) (\<lambda>c _ d. d = fold g (x # xs) c)"
    by (rule effect_thn [OF assms Cons]) simp
  then show ?case by (simp only: for_each.simps)
qed

lemma effect_write_group:
  "config_effect (write_group name ips) (\<lambda>c _ d. \<not> is_nil (Groups c) \<and> d = c\<lparr>Groups := put (Groups c) name ips\<rparr>)"
  by (auto simp: config_effect_def write_group_def split: if_splits)

lemma effect_write_iface:
  "config_effect (write_iface uid iface gs) (\<lambda>c _ d. (\<exists>n. lookup (Nodes c) uid = Some n \<and> \<not> is_nil (IPGroups n)) \<and> d = put_iface uid iface gs c)"
  by (auto simp: config_effect_def write_iface_def split: if_splits option.splits)

subsection \<open>The effects\<close>

lemma effect_groupNew:
  "config_effect (groupNew g) (\<lambda>c x d. \<not> is_nil (Groups c) \<and> x = (if g \<noteq> '''' then g else genGroupName c) \<and>
     d = c\<lparr>Groups := put (Groups c) x []\<rparr>)"
  unfolding groupNew_def
  by (rule effect_locked, rule effect_reading, rule effect_thn [OF effect_write_group effect_ret [where R = "\<lambda>c x d. x = _ \<and> d = c"]])
    auto

lemma effect_groupDelete:
  "config_effect (groupDelete g) (\<lambda>c x d.
     (x = None \<longleftrightarrow> groupExist c g \<and> \<not> nodeAssignedToInterface c g) \<and>
     d = (if x = None then c\<lparr>Groups := del (Groups c) g\<rparr> else c))"
  unfolding groupDelete_def
  by (rule effect_locked) (auto simp: config_effect_def split: if_splits)

lemma effect_groupClearLocal: "config_effect groupClearLocal (\<lambda>c _ d. d = c\<lparr>Groups := Some []\<rparr>)"
  unfolding groupClearLocal_def by (rule effect_locked) (rule effect_modify, simp)

text \<open>Adding IPs: the ones before the first that is refused are added.\<close>

definition add_ip_to :: "string \<Rightarrow> string \<Rightarrow> Config \<Rightarrow> Config" where
  "add_ip_to g ip c = c\<lparr>Groups := put (Groups c) g (group_ips c g @ [ip])\<rparr>"

definition addable :: "Config \<Rightarrow> string \<Rightarrow> bool" where
  "addable c ip \<longleftrightarrow> ValidIPAddress ip = None \<and> \<not> groupIpExistAll c ip"

lemma effect_add_ip:
  "config_effect (add_ip g ip) (\<lambda>c x d. (x = None \<longleftrightarrow> addable c ip) \<and> (x = None \<longrightarrow> \<not> is_nil (Groups c)) \<and>
     d = (if x = None then add_ip_to g ip c else c))"
  unfolding config_effect_def add_ip_def
  by (auto simp: addable_def add_ip_to_def write_group_def split: if_splits option.splits)

fun added :: "string \<Rightarrow> string list \<Rightarrow> Config \<Rightarrow> bool \<times> Config" where
  "added g [] c = (True, c)"
| "added g (ip # ips) c = (if addable c ip then added g ips (add_ip_to g ip c) else (False, c))"

lemma effect_add_ips:
  "config_effect (for_return ips (add_ip g)) (\<lambda>c x d. added g ips c = (x = None, d) \<and> (is_nil (Groups c) \<longrightarrow> d = c))"
proof (induction ips)
  case Nil
  show ?case by (simp add: config_effect_def)
next
  case (Cons ip ips)
  have "config_effect (bnd (add_ip g ip) (\<lambda>r. case r of Some y \<Rightarrow> ret (Some y) | None \<Rightarrow> for_return ips (add_ip g)))
      (\<lambda>c x d. added g (ip # ips) c = (x = None, d) \<and> (is_nil (Groups c) \<longrightarrow> d = c))"
  proof (rule effect_bnd [OF effect_add_ip])
    fix r :: "string option"
    show "config_effect (case r of Some y \<Rightarrow> ret (Some y) | None \<Rightarrow> for_return ips (add_ip g))
       (\<lambda>c x d. if r = None then added g ips c = (x = None, d) \<and> (is_nil (Groups c) \<longrightarrow> d = c) else x \<noteq> None \<and> d = c)"
      using Cons by (cases r) (simp_all add: config_effect_def)
  qed (auto split: if_splits)
  then show ?case by (simp only: for_return.simps)
qed

lemma effect_groupIpAdd:
  "config_effect (groupIpAdd g ips) (\<lambda>c x d. (is_nil (Groups c) \<longrightarrow> d = c) \<and>
     (if groupExist c g then d = c \<and> x \<noteq> None \<or> added g ips c = (x = None, d) else x \<noteq> None \<and> d = c))"
  unfolding groupIpAdd_def
proof (rule effect_locked)
  show "config_effect (reading (\<lambda>w. (snd (GetActiveMember w), groupExist (DBConfig w) g)) (\<lambda>(activeMember, exists).
       if activeMember = None then ret (Some ''unable to add IP(s) to group as there no active node in the cluster'')
       else if \<not> exists then ret (Some ''group does not exist'')
       else for_return ips (add_ip g)))
     (\<lambda>c x d. (is_nil (Groups c) \<longrightarrow> d = c) \<and>
     (if groupExist c g then d = c \<and> x \<noteq> None \<or> added g ips c = (x = None, d) else x \<noteq> None \<and> d = c))"
    using config_effectD [OF effect_add_ips [of ips g]] by (auto simp: config_effect_def split: if_splits)
qed

definition remove_ip_from :: "string \<Rightarrow> string \<Rightarrow> Config \<Rightarrow> Config" where
  "remove_ip_from g ip c = (if ip \<in> set (group_ips c g)
     then c\<lparr>Groups := put (Groups c) g (remove1 ip (group_ips c g))\<rparr> else c)"

lemma effect_remove_ip: "config_effect (remove_ip g ip) (\<lambda>c _ d. d = remove_ip_from g ip c)"
  unfolding config_effect_def
proof (intro allI impI)
  fix w x v assume run: "remove_ip g ip w = Ret x v"
  let ?c = "DBConfig w"
  obtain b i where e: "groupIPExist ?c g ip = (b, i)" by (cases "groupIPExist ?c g ip")
  then have b: "b \<longleftrightarrow> ip \<in> set (group_ips ?c g)" by (auto simp: groupIPExist_def dest: index_of_pair)
  show "DBConfig v = remove_ip_from g ip ?c"
  proof (cases "ip \<in> set (group_ips ?c g)")
    case True
    then have "cut (nat i) (group_ips ?c g) = remove1 ip (group_ips ?c g)"
      using cut_index_of [of ip "group_ips ?c g"] e by (simp add: groupIPExist_def)
    with True run e b show ?thesis
      by (auto simp: remove_ip_def remove_ip_from_def write_group_def split: if_splits)
  next
    case False
    with run e b show ?thesis
      by (auto simp: remove_ip_def remove_ip_from_def split: if_splits dest!: quietD [OF quiet_Logging(1)] core_fields(1))
  qed
qed

lemma effect_groupIpRemove:
  "config_effect (groupIpRemove g ips) (\<lambda>c x d. (x = None \<longleftrightarrow> groupExist c g) \<and>
     d = (if x = None then fold (remove_ip_from g) ips c else c))"
  unfolding groupIpRemove_def
proof (rule effect_locked)
  show "config_effect (reading (\<lambda>w. groupExist (DBConfig w) g) (\<lambda>exists.
       if \<not> exists then ret (Some ''group does not exist'') else thn (for_each ips (remove_ip g)) (ret None)))
    (\<lambda>c x d. (x = None \<longleftrightarrow> groupExist c g) \<and> d = (if x = None then fold (remove_ip_from g) ips c else c))"
    using config_effectD [OF effect_for_each [of "remove_ip g" "remove_ip_from g" ips, OF effect_remove_ip]]
    by (auto simp: config_effect_def split: if_splits outcome.splits)
qed

text \<open>Assigning and unassigning.\<close>

lemma nodeInterfaceGroupExists_iff:
  "nodeInterfaceGroupExists c uid iface g = Some (b, i) \<Longrightarrow> b \<longleftrightarrow> g \<in> set (iface_groups c uid iface)"
  by (auto simp: nodeInterfaceGroupExists_def iface_groups_def split: option.splits dest: index_of_pair)

lemma quiet_makeGroup: "quiet (makeGroupActive iface g)" "quiet (makeGroupPassive iface g)"
  unfolding makeGroupActive_def makeGroupPassive_def
  by (intro quiet_intro quiet_BringUpIPs quiet_BringDownIPs)+

lemma quiet_activate: "quiet (activate_if_local iface g)"
  unfolding activate_if_local_def by (intro quiet_intro quiet_makeGroup)

lemma quiet_config: "quiet m \<Longrightarrow> m w = Ret x v \<Longrightarrow> DBConfig v = DBConfig w"
  by (rule core_fields(1)) (rule quietD)

lemma effect_groupAssign:
  "config_effect (groupAssign g uid iface) (\<lambda>c x d. d = c \<or>
     groupExist c g \<and> g \<notin> set (iface_groups c uid iface) \<and>
     (\<exists>n. lookup (Nodes c) uid = Some n \<and> \<not> is_nil (IPGroups n)) \<and>
     d = put_iface uid iface (iface_groups c uid iface @ [g]) c)"
  unfolding groupAssign_def
proof (rule effect_locked, unfold config_effect_def, intro allI impI)
  fix w :: world and x v
  let ?c = "DBConfig w"
  let ?m = "reading (\<lambda>w. (groupExist (DBConfig w) g, interface_exists (env w) iface,
                     nodeInterfaceGroupExists (DBConfig w) uid iface g, iface_groups (DBConfig w) uid iface))
       (\<lambda>(grp, exists, assigned, gs).
          if \<not> grp then ret (Some ''IP group does not exist'')
          else if exists
          then (case assigned of
                  None \<Rightarrow> crash_with NilDeref
                | Some (True, _) \<Rightarrow> thn (Logging_Warn (g @ '' is already assigned to '' @ iface @ ''.. skipping.'')) (ret None)
                | Some (False, _) \<Rightarrow> thn (write_iface uid iface (gs @ [g])) (activate_if_local iface g))
          else ret (Some ''interface does not exist''))"
  assume run: "?m w = Ret x v"
  show "DBConfig v = ?c \<or> groupExist ?c g \<and> g \<notin> set (iface_groups ?c uid iface) \<and>
     (\<exists>n. lookup (Nodes ?c) uid = Some n \<and> \<not> is_nil (IPGroups n)) \<and>
     DBConfig v = put_iface uid iface (iface_groups ?c uid iface @ [g]) ?c"
  proof (cases "groupExist ?c g \<and> interface_exists (env w) iface")
    case True
    show ?thesis
    proof (cases "nodeInterfaceGroupExists ?c uid iface g")
      case None
      with run True show ?thesis by simp
    next
      case (Some p)
      obtain b i where p: "p = (b, i)" by (cases p)
      note b = nodeInterfaceGroupExists_iff [OF Some [unfolded p]]
      show ?thesis
      proof (cases b)
        case True
        then show ?thesis using run \<open>groupExist ?c g \<and> _\<close> Some p
          by (auto split: outcome.splits dest!: quiet_config [OF quiet_Logging(1)])
      next
        case False
        with run \<open>groupExist ?c g \<and> _\<close> Some p obtain y u where
          "write_iface uid iface (iface_groups ?c uid iface @ [g]) w = Ret y u" "activate_if_local iface g u = Ret x v"
          by (auto split: outcome.splits)
        with config_effectD [OF effect_write_iface] quiet_config [OF quiet_activate] False b True show ?thesis by metis
      qed
    qed
  next
    case False
    with run show ?thesis by (auto split: if_splits)
  qed
qed

lemma effect_groupUnassign:
  "config_effect (groupUnassign g uid iface) (\<lambda>c x d. d = c \<or>
     (\<exists>n. lookup (Nodes c) uid = Some n \<and> \<not> is_nil (IPGroups n)) \<and>
     d = put_iface uid iface (remove1 g (iface_groups c uid iface)) c)"
  unfolding groupUnassign_def
proof (rule effect_locked, unfold config_effect_def, intro allI impI)
  fix w :: world and x v
  let ?c = "DBConfig w"
  let ?m = "reading (\<lambda>w. (interface_exists (env w) iface,
                     nodeInterfaceGroupExists (DBConfig w) uid iface g, iface_groups (DBConfig w) uid iface))
       (\<lambda>(exists, assigned, gs).
          if exists
          then (case assigned of
                  None \<Rightarrow> crash_with NilDeref
                | Some (True, i) \<Rightarrow> thn (makeGroupPassive iface g) (thn (write_iface uid iface (cut (nat i) gs)) (ret None))
                | Some (False, _) \<Rightarrow> thn (Logging_Warn (g @ '' does not exist in node '' @ uid @ ''.. skipping.'')) (ret None))
          else ret (Some ''interface does not exist''))"
  assume run: "?m w = Ret x v"
  show "DBConfig v = ?c \<or> (\<exists>n. lookup (Nodes ?c) uid = Some n \<and> \<not> is_nil (IPGroups n)) \<and>
     DBConfig v = put_iface uid iface (remove1 g (iface_groups ?c uid iface)) ?c"
  proof (cases "interface_exists (env w) iface \<and> nodeInterfaceGroupExists ?c uid iface g \<noteq> None")
    case True
    then obtain b i where p: "nodeInterfaceGroupExists ?c uid iface g = Some (b, i)" by auto
    note b = nodeInterfaceGroupExists_iff [OF p]
    show ?thesis
    proof (cases b)
      case True
      then have "cut (nat i) (iface_groups ?c uid iface) = remove1 g (iface_groups ?c uid iface)"
        using p b cut_index_of [of g "iface_groups ?c uid iface"]
        by (auto simp: nodeInterfaceGroupExists_def iface_groups_def split: option.splits)

      with run p True \<open>interface_exists (env w) iface \<and> _\<close> obtain y u z t where
        "makeGroupPassive iface g w = Ret y u" "write_iface uid iface (remove1 g (iface_groups ?c uid iface)) u = Ret z t" "v = t"
        by (auto split: outcome.splits)
      with config_effectD [OF effect_write_iface] quiet_config [OF quiet_makeGroup(2)] show ?thesis by metis
    next
      case False
      with run p \<open>interface_exists (env w) iface \<and> _\<close> show ?thesis
        by (auto split: outcome.splits dest!: quiet_config [OF quiet_Logging(1)])
    qed
  next
    case False
    with run show ?thesis by (cases "nodeInterfaceGroupExists ?c uid iface g") (auto split: if_splits)
  qed
qed

section \<open>The integrity of the registry\<close>

text \<open>
  A floating IP is in one group at most and once at most, an interface has a group once at most, and
  every group that is assigned to an interface exists.
\<close>

definition ips_unique :: "Config \<Rightarrow> bool" where
  "ips_unique c \<longleftrightarrow> (\<forall>g. distinct (group_ips c g)) \<and>
     (\<forall>g h ip. ip \<in> set (group_ips c g) \<and> ip \<in> set (group_ips c h) \<longrightarrow> g = h)"

definition assignments_ok :: "Config \<Rightarrow> bool" where
  "assignments_ok c \<longleftrightarrow> (\<forall>uid iface. distinct (iface_groups c uid iface) \<and>
     (\<forall>g \<in> set (iface_groups c uid iface). groupExist c g))"

definition registry_ok :: "Config \<Rightarrow> bool" where
  "registry_ok c \<longleftrightarrow> wf_config c \<and> ips_unique c \<and> assignments_ok c"

lemma group_ips_put:
  "\<not> is_nil (Groups c) \<Longrightarrow> group_ips (c\<lparr>Groups := put (Groups c) g ips\<rparr>) = (group_ips c)(g := ips)"
  by (auto simp: group_ips_def lookup_put fun_eq_iff)

lemma groupExist_put:
  "\<not> is_nil (Groups c) \<Longrightarrow> groupExist (c\<lparr>Groups := put (Groups c) g ips\<rparr>) h \<longleftrightarrow> h = g \<or> groupExist c h"
  by (simp add: groupExist_def lookup_put)

lemma iface_groups_Groups [simp]: "iface_groups (c\<lparr>Groups := x\<rparr>) = iface_groups c"
  by (simp add: iface_groups_def fun_eq_iff)

lemma wf_config_Groups: "wf_config c \<Longrightarrow> wf_map x \<Longrightarrow> wf_config (c\<lparr>Groups := x\<rparr>)"
  by (simp add: wf_config_def)

lemma groupIpExistAll_iff:
  assumes "wf_config c"
  shows "groupIpExistAll c ip \<longleftrightarrow> (\<exists>g. ip \<in> set (group_ips c g))"
proof
  assume "groupIpExistAll c ip"
  then obtain g ips where e: "(g, ips) \<in> set (entries (Groups c))" "ip \<in> set ips" by (auto simp: groupIpExistAll_def)
  then have "lookup (Groups c) g = Some ips" using assms by (intro in_entries_lookup) (simp_all add: wf_config_def)
  with e(2) show "\<exists>g. ip \<in> set (group_ips c g)" by (intro exI [of _ g]) (simp add: group_ips_def)
next
  assume "\<exists>g. ip \<in> set (group_ips c g)"
  then obtain g where g: "ip \<in> set (group_ips c g)" by blast
  then obtain ips where "lookup (Groups c) g = Some ips" "ip \<in> set ips"
    by (cases "lookup (Groups c) g") (simp_all add: group_ips_def)
  then show "groupIpExistAll c ip" unfolding groupIpExistAll_def
    by (intro bexI [of _ "(g, ips)"]) (simp_all add: lookup_in_entries)
qed

lemma registry_okD:
  assumes "registry_ok c"
  shows "distinct (group_ips c g)" "ip \<in> set (group_ips c g) \<Longrightarrow> ip \<in> set (group_ips c h) \<Longrightarrow> g = h"
    "distinct (iface_groups c uid iface)" "x \<in> set (iface_groups c uid iface) \<Longrightarrow> groupExist c x" "wf_config c"
  using assms unfolding registry_ok_def ips_unique_def assignments_ok_def by blast+

text \<open>Writing a group: the new list must have no duplicates and nothing that another group has.\<close>

lemma registry_put_group:
  assumes "registry_ok c" and "\<not> is_nil (Groups c)" and "distinct ips"
    and "\<And>ip h. ip \<in> set ips \<Longrightarrow> ip \<in> set (group_ips c h) \<Longrightarrow> h = g"
  shows "registry_ok (c\<lparr>Groups := put (Groups c) g ips\<rparr>)"
proof -
  have "wf_config (c\<lparr>Groups := put (Groups c) g ips\<rparr>)"
    using assms(1) by (intro wf_config_Groups wf_map_put) (simp_all add: registry_ok_def wf_config_def)
  moreover have "ips_unique (c\<lparr>Groups := put (Groups c) g ips\<rparr>)"
    using assms unfolding ips_unique_def registry_ok_def group_ips_put [OF assms(2)] by (auto split: if_splits)
  moreover have "assignments_ok (c\<lparr>Groups := put (Groups c) g ips\<rparr>)"
    using assms(1,2) by (auto simp: assignments_ok_def registry_ok_def groupExist_put)
  ultimately show ?thesis by (simp add: registry_ok_def)
qed

lemma iface_groups_put:
  assumes "lookup (Nodes c) uid = Some n" and "\<not> is_nil (IPGroups n)" and "\<not> is_nil (Nodes c)"
  shows "iface_groups (put_iface uid iface gs c) u i = (if u = uid \<and> i = iface then gs else iface_groups c u i)"
  using assms by (auto simp: iface_groups_def put_iface_def lookup_put)

lemma groupExist_put_iface [simp]: "groupExist (put_iface uid iface gs c) = groupExist c"
  and group_ips_put_iface [simp]: "group_ips (put_iface uid iface gs c) = group_ips c"
  by (auto simp: groupExist_def group_ips_def put_iface_def fun_eq_iff split: option.split)

lemma map_ok_put: "map_ok P m \<Longrightarrow> P v \<Longrightarrow> map_ok P (put m k v)"
proof -
  assume m: "map_ok P m" and v: "P v"
  then have "P x" if "x \<in> snd ` set (entries (put m k v))" for x
  proof (cases m)
    case (Some es)
    with that obtain j where j: "(j, x) \<in> set (AList.update k v es)" by (auto simp: put_def)
    have "distinct (map fst (AList.update k v es))" using m Some by (simp add: map_ok_def wf_map_def keys_def distinct_update)
    with j have "map_of (AList.update k v es) j = Some x" by simp
    then have "(if j = k then Some v else map_of es j) = Some x" by (simp add: update_conv)
    then show ?thesis using m v Some by (force simp: map_ok_def split: if_splits dest: map_of_SomeD)
  qed (use that in \<open>simp add: put_def\<close>)
  then show ?thesis using m by (simp add: map_ok_def wf_map_put)
qed

lemma wf_config_put_iface: "wf_config c \<Longrightarrow> wf_config (put_iface uid iface gs c)"
proof -
  assume c: "wf_config c"
  have "wf_node (n\<lparr>IPGroups := put (IPGroups n) iface gs\<rparr>)" if "lookup (Nodes c) uid = Some n" for n
    using wf_config_IPGroups [OF c that] by (simp add: wf_node_def wf_map_put)
  with c show ?thesis by (auto simp: put_iface_def wf_config_def intro!: map_ok_put split: option.split)
qed

lemma registry_put_iface:
  assumes "registry_ok c" and "lookup (Nodes c) uid = Some n" and "\<not> is_nil (IPGroups n)"
    and "distinct gs" and "\<And>g. g \<in> set gs \<Longrightarrow> groupExist c g"
  shows "registry_ok (put_iface uid iface gs c)"
proof -
  from assms(2) have "\<not> is_nil (Nodes c)" by (cases "Nodes c") (simp_all add: lookup_def)
  note ig = iface_groups_put [OF assms(2,3) this]
  show ?thesis using assms(1,4,5)
    by (auto simp: registry_ok_def wf_config_put_iface ips_unique_def assignments_ok_def ig)
qed

subsection \<open>Every operation on groups keeps it\<close>

datatype group_op = NewGroup string | DeleteGroup string | AddIps string "string list"
  | RemoveIps string "string list" | Assign string string string | Unassign string string string

fun run_op :: "group_op \<Rightarrow> unit go" where
  "run_op (NewGroup g) = thn (groupNew g) skip"
| "run_op (DeleteGroup g) = thn (groupDelete g) skip"
| "run_op (AddIps g ips) = thn (groupIpAdd g ips) skip"
| "run_op (RemoveIps g ips) = thn (groupIpRemove g ips) skip"
| "run_op (Assign g uid iface) = thn (groupAssign g uid iface) skip"
| "run_op (Unassign g uid iface) = thn (groupUnassign g uid iface) skip"

lemma registry_groupNew: "config_effect (groupNew g) (\<lambda>c _ d. registry_ok c \<longrightarrow> registry_ok d)"
  by (rule effect_weaken [OF effect_groupNew]) (auto intro: registry_put_group)

lemma registry_groupDelete: "config_effect (groupDelete g) (\<lambda>c _ d. registry_ok c \<longrightarrow> registry_ok d)"
proof (rule effect_weaken [OF effect_groupDelete], clarify)
  fix c d and x :: "string option"
  assume r: "registry_ok c" and x: "(x = None) = (groupExist c g \<and> \<not> nodeAssignedToInterface c g)"
  show "registry_ok (if x = None then c\<lparr>Groups := del (Groups c) g\<rparr> else c)"
  proof (cases "x = None")
    case True
    with x have no: "\<not> nodeAssignedToInterface c g" by simp
    let ?d = "c\<lparr>Groups := del (Groups c) g\<rparr>"
    have gi: "group_ips ?d = (group_ips c)(g := [])" by (auto simp: group_ips_def lookup_del fun_eq_iff)
    have "g \<notin> set (iface_groups c uid iface)" for uid iface
      using no unfolding nodeAssignedToInterface_iff [OF registry_okD(5) [OF r]] iface_groups_def
      by (cases "lookup (Nodes c) uid"; simp; cases "lookup (IPGroups (the (lookup (Nodes c) uid))) iface"; force)
    then have "assignments_ok ?d" using r by (auto simp: registry_ok_def assignments_ok_def groupExist_def lookup_del)
    moreover have "wf_config ?d" using r by (intro wf_config_Groups wf_map_del) (simp_all add: registry_ok_def wf_config_def)
    moreover have "ips_unique ?d" using r by (auto simp: registry_ok_def ips_unique_def gi split: if_splits)
    ultimately show ?thesis using True by (simp add: registry_ok_def)
  qed (use r in auto)
qed

lemma registry_added:
  assumes "registry_ok c" and "\<not> is_nil (Groups c)"
  shows "registry_ok (snd (added g ips c))"
  using assms
proof (induction ips arbitrary: c)
  case Nil
  then show ?case by simp
next
  case (Cons ip ips)
  show ?case
  proof (cases "addable c ip")
    case True
    with Cons.prems have new: "\<And>h. ip \<notin> set (group_ips c h)"
      by (auto simp: addable_def registry_ok_def groupIpExistAll_iff)
    have "registry_ok (add_ip_to g ip c)" unfolding add_ip_to_def
      using Cons.prems new registry_okD(1,2) [OF Cons.prems(1)] by (intro registry_put_group) auto
    moreover have "\<not> is_nil (Groups (add_ip_to g ip c))" using Cons.prems by (simp add: add_ip_to_def)
    ultimately show ?thesis using Cons.IH True by simp
  qed (use Cons.prems in simp)
qed

lemma registry_groupIpAdd: "config_effect (groupIpAdd g ips) (\<lambda>c _ d. registry_ok c \<longrightarrow> registry_ok d)"
proof (rule effect_weaken [OF effect_groupIpAdd], rule impI)
  fix c d and x :: "string option"
  assume e: "(is_nil (Groups c) \<longrightarrow> d = c) \<and>
     (if groupExist c g then d = c \<and> x \<noteq> None \<or> added g ips c = (x = None, d) else x \<noteq> None \<and> d = c)" and r: "registry_ok c"
  show "registry_ok d"
  proof (cases "d = c")
    case False
    with e have "\<not> is_nil (Groups c)" and "added g ips c = (x = None, d)" by (auto split: if_splits)
    with registry_added [OF r, of g ips] show ?thesis by simp
  qed (use r in simp)
qed

lemma registry_remove_ip: "registry_ok c \<Longrightarrow> registry_ok (remove_ip_from g ip c)"
proof -
  assume r: "registry_ok c"
  show ?thesis
  proof (cases "ip \<in> set (group_ips c g)")
    case True
    then have "\<not> is_nil (Groups c)" by (cases "Groups c") (auto simp: group_ips_def lookup_def)
    moreover have "set (remove1 ip (group_ips c g)) \<subseteq> set (group_ips c g)" by (rule set_remove1_subset)
    ultimately have "registry_ok (c\<lparr>Groups := put (Groups c) g (remove1 ip (group_ips c g))\<rparr>)"
      using registry_okD(1,2) [OF r] by (intro registry_put_group r distinct_remove1) auto
    then show ?thesis using True by (simp add: remove_ip_from_def)
  qed (use r in \<open>simp add: remove_ip_from_def\<close>)
qed

lemma registry_groupIpRemove: "config_effect (groupIpRemove g ips) (\<lambda>c _ d. registry_ok c \<longrightarrow> registry_ok d)"
proof -
  have "registry_ok c \<Longrightarrow> registry_ok (fold (remove_ip_from g) ips c)" for c
    by (induction ips arbitrary: c) (simp_all add: registry_remove_ip)
  then show ?thesis by (intro effect_weaken [OF effect_groupIpRemove]) auto
qed

lemma registry_groupAssign: "config_effect (groupAssign g uid iface) (\<lambda>c _ d. registry_ok c \<longrightarrow> registry_ok d)"
  by (rule effect_weaken [OF effect_groupAssign])
    (auto intro!: registry_put_iface dest: registry_okD(3,4))

lemma registry_groupUnassign: "config_effect (groupUnassign g uid iface) (\<lambda>c _ d. registry_ok c \<longrightarrow> registry_ok d)"
  by (rule effect_weaken [OF effect_groupUnassign])
    (auto intro!: registry_put_iface distinct_remove1 dest: registry_okD(3,4) dest!: set_remove1_subset [THEN subsetD])


lemma registry_thn_skip:
  "config_effect m (\<lambda>c _ d. registry_ok c \<longrightarrow> registry_ok d) \<Longrightarrow>
     config_effect (thn m skip) (\<lambda>c _ d. registry_ok c \<longrightarrow> registry_ok d)"
  by (auto simp: config_effect_def split: outcome.splits)

lemma registry_run_op: "config_effect (run_op op) (\<lambda>c _ d. registry_ok c \<longrightarrow> registry_ok d)"
  by (cases op) (simp_all only: run_op.simps registry_groupNew registry_groupDelete registry_groupIpAdd
      registry_groupIpRemove registry_groupAssign registry_groupUnassign registry_thn_skip)

text \<open>\<^bold>\<open>C15.\<close> No sequence of operations on groups, whatever their arguments and whether they succeed, breaks
  the integrity of the registry: a floating IP stays in one group at most, an interface has a group
  once at most, and every assigned group exists.\<close>

theorem group_operations_keep_registry:
  assumes "registry_ok (DBConfig w)" and "for_each ops run_op w = Ret () v"
  shows "registry_ok (DBConfig v)"
  using assms
proof (induction ops arbitrary: w)
  case Nil
  then show ?case by simp
next
  case (Cons op ops)
  then obtain u where "run_op op w = Ret () u" and "for_each ops run_op u = Ret () v"
    by (auto split: outcome.splits)
  with Cons config_effectD [OF registry_run_op] show ?case by blast
qed

lemma registry_ok_ex: "registry_ok ex_config"
proof -
  have "group_ips ex_config g = (if g = ''group1'' then [''10.0.0.1/24''] else [])" for g
    by (simp add: group_ips_def lookup_def)
  moreover have "iface_groups ex_config uid iface = (if uid \<in> {''u1'', ''u2''} \<and> iface = ''eth0'' then [''group1''] else [])" for uid iface
    by (simp add: iface_groups_def lookup_def)
  ultimately show ?thesis
    by (simp add: registry_ok_def wf_ex_config ips_unique_def assignments_ok_def groupExist_def lookup_def)
qed

theorem group_operations_keep_registry_witness:
  "\<exists>v. for_each [NewGroup ''g2'', DeleteGroup ''group1'', DeleteGroup ''g2''] run_op ex_world = Ret () v \<and> registry_ok (DBConfig v)"
proof -
  have "\<exists>v. for_each [NewGroup ''g2'', DeleteGroup ''group1'', DeleteGroup ''g2''] run_op ex_world = Ret () v"
    by (simp add: groupNew_def groupDelete_def locked_cfg_def lock_cfg_run unlock_cfg_def write_group_def)
  then obtain v where v: "for_each [NewGroup ''g2'', DeleteGroup ''group1'', DeleteGroup ''g2''] run_op ex_world = Ret () v" by blast
  have "registry_ok (DBConfig ex_world)" using registry_ok_ex by simp
  from group_operations_keep_registry [OF this v] v show ?thesis by blast
qed

subsection \<open>Adding and removing floating IPs\<close>

lemma is_nil_add [simp]: "is_nil (Groups (add_ip_to g ip c)) = is_nil (Groups c)"
  by (simp add: add_ip_to_def)

lemma group_ips_add: "\<not> is_nil
 (Groups c) \<Longrightarrow> group_ips (add_ip_to g ip c) = (group_ips c)(g := group_ips c g @ [ip])"
  by (simp add: add_ip_to_def group_ips_put)

lemma added_spec:
  assumes "\<not> is_nil (Groups c)"
  shows "\<exists>k \<le> length ips. snd (added g ips c) = fold (add_ip_to g) (take k ips) c \<and>
    group_ips (snd (added g ips c)) = (group_ips c)(g := group_ips c g @ take k ips) \<and>
    (fst (added g ips c) \<longleftrightarrow> k = length ips)"
  using assms
proof (induction ips arbitrary: c)
  case Nil
  then show ?case by simp
next
  case (Cons ip ips)
  show ?case
  proof (cases "addable c ip")
    case True
    have "\<not> is_nil (Groups (add_ip_to g ip c))" using Cons.prems by (simp add: add_ip_to_def)
    from Cons.IH [OF this] obtain k where "k \<le> length ips"
      "snd (added g ips (add_ip_to g ip c)) = fold (add_ip_to g) (take k ips) (add_ip_to g ip c)"
      "group_ips (snd (added g ips (add_ip_to g ip c))) = (group_ips (add_ip_to g ip c))(g := group_ips (add_ip_to g ip c) g @ take k ips)"
      "fst (added g ips (add_ip_to g ip c)) \<longleftrightarrow> k = length ips" by blast
    with True Cons.prems show ?thesis by (intro exI [of _ "Suc k"]) (simp add: group_ips_add)
  next
    case False
    then show ?thesis by (intro exI [of _ 0]) simp
  qed
qed

lemma added_False_first:
  "fst (added g ips c) = False \<Longrightarrow> \<exists>k < length ips. snd (added g ips c) = fold (add_ip_to g) (take k ips) c \<and>
     \<not> addable (fold (add_ip_to g) (take k ips) c) (ips ! k)"
proof (induction ips arbitrary: c)
  case Nil
  then show ?case by simp
next
  case (Cons ip ips)
  show ?case
  proof (cases "addable c ip")
    case True
    with Cons obtain k where "k < length ips" "snd (added g ips (add_ip_to g ip c)) = fold (add_ip_to g) (take k ips) (add_ip_to g ip c)"
      "\<not> addable (fold (add_ip_to g) (take k ips) (add_ip_to g ip c)) (ips ! k)" by auto
    with True show ?thesis by (intro exI [of _ "Suc k"]) simp
  next
    case False
    then show ?thesis by (intro exI [of _ 0]) simp
  qed
qed

text \<open>Adding IPs to an existing group of a cluster with an active node appends a prefix of the given
  list to the group and touches no other group. The call succeeds exactly when the prefix is the
  whole list; when it fails, the address after the prefix is not in CIDR notation or is in
  some group already, so the addresses before it stay added although an error is reported.\<close>

theorem groupIpAdd_prefix:
  assumes "groupIpAdd g ips w = Ret err v" and "groupExist (DBConfig w) g" and "snd (GetActiveMember w) \<noteq> None"
  shows "\<exists>k \<le> length ips. group_ips (DBConfig v) = (group_ips (DBConfig w))(g := group_ips (DBConfig w) g @ take k ips) \<and>
    (err = None \<longleftrightarrow> k = length ips) \<and>
    (err \<noteq> None \<longrightarrow> ValidIPAddress (ips ! k) \<noteq> None \<or> groupIpExistAll (DBConfig v) (ips ! k))"
proof -
  let ?c = "DBConfig w"
  have nil: "\<not> is_nil (Groups ?c)" using assms(2) by (cases "Groups ?c") (auto simp: groupExist_def lookup_def)
  from assms(1) obtain u where u: "for_return ips (add_ip g) (w\<lparr>cfg_lock := True\<rparr>) = Ret err u" "v = u\<lparr>cfg_lock := False\<rparr>"
    unfolding groupIpAdd_def locked_cfg_Ret using assms(2,3) by (auto split: if_splits)

  from config_effectD [OF effect_add_ips u(1)] u(2) have a: "added g ips ?c = (err = None, DBConfig v)" by simp
  show ?thesis
  proof (cases "err = None")
    case True
    with added_spec [OF nil, of ips g] a show ?thesis by (auto intro!: exI [of _ "length ips"])
  next
    case False
    with a added_False_first [of g ips ?c] obtain k where k: "k < length ips" "DBConfig v = fold (add_ip_to g) (take k ips) ?c"
      "\<not> addable (DBConfig v) (ips ! k)" by auto
    have "group_ips (fold (add_ip_to g) xs c) = (group_ips c)(g := group_ips c g @ xs) \<and> \<not> is_nil (Groups (fold (add_ip_to g) xs c))"
      if "\<not> is_nil (Groups c)" for xs c
      using that by (induction xs arbitrary: c) (simp_all add: group_ips_add)
    with nil k False show ?thesis by (intro exI [of _ k]) (auto simp: addable_def)
  qed
qed

lemma Valid_ex: "ValidIPAddress ''10.0.0.1/24'' = None" "ValidIPAddress ''10.0.0.2/24'' = None"
proof -
  have "v4_string [10, 0, 0, 1] @ ''/'' @ utoa 24 = ''10.0.0.1/24''" "v4_string [10, 0, 0, 2] @ ''/'' @ utoa 24 = ''10.0.0.2/24''"
    by code_simp+

  then show "ValidIPAddress ''10.0.0.1/24'' = None" "ValidIPAddress ''10.0.0.2/24'' = None"
    using ValidIPAddress_v4_None [of "[10, 0, 0, 1]" 24] ValidIPAddress_v4_None [of "[10, 0, 0, 2]" 24] by simp_all
qed

lemma GetActiveMember_ex: "GetActiveMember ex_world = (''alpha'', Some 0)"
  by (simp add: GetActiveMember_def member_def)

lemma ex_groupIpAdd:
  "groupIpAdd ''group1'' [''10.0.0.2/24'', ''10.0.0.1/24''] ex_world =
    Ret (Some ''10.0.0.1/24 already exists in group group1.. skipping.'')
      (ex_world\<lparr>DBConfig := ex_config\<lparr>Groups := Some [(''group1'', [''10.0.0.1/24'', ''10.0.0.2/24''])]\<rparr>\<rparr>)"
  by (simp add: groupIpAdd_def locked_cfg_Ret add_ip_def Valid_ex GetActiveMember_ex write_group_def set_config_def
      groupExist_def groupIpExistAll_def group_ips_def lookup_def put_def)

theorem groupIpAdd_prefix_witness:
  fixes ips :: "string list" and v :: world
  defines "ips \<equiv> [''10.0.0.2/24'', ''10.0.0.1/24'']"
    and "v \<equiv> ex_world\<lparr>DBConfig := ex_config\<lparr>Groups := Some [(''group1'', [''10.0.0.1/24'', ''10.0.0.2/24''])]\<rparr>\<rparr>"
  shows "\<exists>k \<le> length ips. group_ips (DBConfig v) = (group_ips (DBConfig ex_world))(''group1'' := group_ips (DBConfig ex_world) ''group1'' @ take k ips)"
proof -
  have "groupExist (DBConfig ex_world) ''group1''" and "snd (GetActiveMember ex_world) \<noteq> None"
    by (simp_all add: groupExist_def lookup_def GetActiveMember_ex)
  from groupIpAdd_prefix [OF ex_groupIpAdd this] show ?thesis unfolding ips_def v_def by blast
qed


text \<open>Removing IPs that were just added gives every group the IPs it had.\<close>

theorem groupIp_add_remove:
  assumes "registry_ok (DBConfig w)" and "groupIpAdd g [ip] w = Ret None v" and "groupIpRemove g [ip] v = Ret None u"
  shows "group_ips (DBConfig u) = group_ips (DBConfig w)"
proof -
  let ?c = "DBConfig w"
  from config_effectD [OF effect_groupIpAdd assms(2)] have e: "groupExist ?c g" "added g [ip] ?c = (True, DBConfig v)"
    by (auto split: if_splits)
  then have nil: "\<not> is_nil (Groups ?c)" by (cases "Groups ?c") (auto simp: groupExist_def lookup_def)
  from e(2) have a: "addable ?c ip" and v: "DBConfig v = add_ip_to g ip ?c" by (auto split: if_splits)
  have new: "ip \<notin> set (group_ips ?c g)"
    using a registry_okD(5) [OF assms(1)] by (auto simp: addable_def groupIpExistAll_iff)
  have gv: "group_ips (DBConfig v) = (group_ips ?c)(g := group_ips ?c g @ [ip])"
    using nil by (simp add: v group_ips_add)
  from config_effectD [OF effect_groupIpRemove assms(3)] have "DBConfig u = remove_ip_from g ip (DBConfig v)" by simp
  moreover have "\<not> is_nil (Groups (DBConfig v))" using nil by (simp add: v add_ip_to_def)
  ultimately have "group_ips (DBConfig u) = (group_ips (DBConfig v))(g := remove1 ip (group_ips ?c g @ [ip]))"
    by (simp add: remove_ip_from_def gv group_ips_put)
  with gv new show ?thesis by (simp add: remove1_append fun_eq_iff)
qed

theorem groupIp_add_remove_witness:
  "\<exists>v u. groupIpAdd ''group1'' [''10.0.0.2/24''] ex_world = Ret None v \<and>
     groupIpRemove ''group1'' [''10.0.0.2/24''] v = Ret None u \<and> group_ips (DBConfig u) = group_ips (DBConfig ex_world)"
proof -
  let ?v = "ex_world\<lparr>DBConfig := ex_config\<lparr>Groups := Some [(''group1'', [''10.0.0.1/24'', ''10.0.0.2/24''])]\<rparr>\<rparr>"
  have v: "groupIpAdd ''group1'' [''10.0.0.2/24''] ex_world = Ret None ?v"
    by (simp add: groupIpAdd_def locked_cfg_Ret add_ip_def Valid_ex GetActiveMember_ex write_group_def set_config_def
        groupExist_def groupIpExistAll_def group_ips_def lookup_def put_def)
  have "\<exists>u. groupIpRemove ''group1'' [''10.0.0.2/24''] ?v = Ret None u"
    by (simp add: groupIpRemove_def locked_cfg_def lock_cfg_run unlock_cfg_def remove_ip_def write_group_def
        groupExist_def group_ips_def lookup_def groupIPExist_def index_of_def)
  then obtain u where u: "groupIpRemove ''group1'' [''10.0.0.2/24''] ?v = Ret None u" by blast
  have "registry_ok (DBConfig ex_world)" using registry_ok_ex by simp
  from groupIp_add_remove [OF this v u] v u show ?thesis by blast
qed

text \<open>Creating a group under the name of an existing group succeeds and removes all of its floating IPs.\<close>

theorem groupNew_overwrites:
  assumes "groupExist (DBConfig w) g" and "g \<noteq> ''''" and "\<not> cfg_lock w"
  shows "\<exists>v. groupNew g w = Ret g v \<and> group_ips (DBConfig v) g = []"
proof -
  have "\<not> is_nil (Groups (DBConfig w))" using assms(1) by (cases "Groups (DBConfig w)") (auto simp: groupExist_def lookup_def)
  with assms show ?thesis
    by (simp add: groupNew_def locked_cfg_def lock_cfg_run unlock_cfg_def write_group_def group_ips_put set_config_def)
qed

theorem groupNew_overwrites_witness:
  "group_ips (DBConfig ex_world) ''group1'' \<noteq> [] \<and> (\<exists>v. groupNew ''group1'' ex_world = Ret ''group1'' v \<and> group_ips (DBConfig v) ''group1'' = [])"
proof
  show "group_ips (DBConfig ex_world) ''group1'' \<noteq> []" by (simp add: group_ips_def lookup_def)
  show "\<exists>v. groupNew ''group1'' ex_world = Ret ''group1'' v \<and> group_ips (DBConfig v) ''group1'' = []"
    by (rule groupNew_overwrites) (simp_all add: groupExist_def lookup_def)
qed

subsection \<open>Nodes\<close>

lemma effect_nodeAdd:
  "config_effect (nodeAdd uid n) (\<lambda>c x d. (x = None \<longleftrightarrow> lookup (Nodes c) uid = None) \<and>
     (x = None \<longrightarrow> \<not> is_nil (Nodes c)) \<and> d = (if x = None then c\<lparr>Nodes := put (Nodes c) uid n\<rparr> else c))"
  by (auto simp: config_effect_def nodeAdd_def nodeExistsByUUID_lookup locked_cfg_Ret split: if_splits outcome.splits)

lemma effect_nodeDelete:
  "config_effect (nodeDelete uid) (\<lambda>c x d. (x = None \<longleftrightarrow> lookup (Nodes c) uid \<noteq> None) \<and>
     d = (if x = None then c\<lparr>Nodes := del (Nodes c) uid\<rparr> else c))"
  by (auto simp: config_effect_def nodeDelete_def nodeExistsByUUID_lookup locked_cfg_Ret split: if_splits outcome.splits)

text \<open>A node that was added is found under its uid, no other node changes, and deleting it succeeds
  and gives back the nodes there were before.\<close>

theorem node_add_delete:
  assumes "wf w" and "nodeAdd uid n w = Ret None v" and "nodeDelete uid v = Ret err u"
  shows "nodeGetByUUID (DBConfig v) uid = Inr n \<and> (\<forall>k. k \<noteq> uid \<longrightarrow> lookup (Nodes (DBConfig v)) k = lookup (Nodes (DBConfig w)) k) \<and>
    err = None \<and> lookup (Nodes (DBConfig u)) = lookup (Nodes (DBConfig w))"
proof -
  let ?m = "Nodes (DBConfig w)"
  from config_effectD [OF effect_nodeAdd assms(2)] have new: "lookup ?m uid = None" and nil: "\<not> is_nil ?m"
    and v: "Nodes (DBConfig v) = put ?m uid n" by auto
  from assms(1) nil have ok: "wf_map ?m \<and> \<not> is_nil ?m" by (simp add: wf_def wf_config_def map_ok_def)
  have found: "lookup (Nodes (DBConfig v)) uid = Some n" unfolding v using ok by (rule gomap.store_found)
  with config_effectD [OF effect_nodeDelete assms(3)] have "err = None" and "Nodes (DBConfig u) = del (put ?m uid n) uid"
    by (auto simp: v split: if_splits)
  then show ?thesis using found gomap.store_remove [OF ok new] gomap.store_other [OF ok]
    by (simp add: nodeGetByUUID_def v)
qed

theorem node_add_delete_witness:
  "\<exists>v u. nodeAdd ''u3'' (ex_node ''gamma'' ''10.0.0.13'') ex_world = Ret None v \<and> nodeDelete ''u3'' v = Ret None u \<and>
     lookup (Nodes (DBConfig u)) = lookup (Nodes (DBConfig ex_world))"
proof -
  have "\<exists>v. nodeAdd ''u3'' (ex_node ''gamma'' ''10.0.0.13'') ex_world = Ret None v \<and> \<not> cfg_lock v"
    by (simp add: nodeAdd_def nodeExistsByUUID_def keys_def locked_cfg_def lock_cfg_run unlock_cfg_def)
  then obtain v where v: "nodeAdd ''u3'' (ex_node ''gamma'' ''10.0.0.13'') ex_world = Ret None v" "\<not> cfg_lock v" by blast
  have "\<exists>err u. nodeDelete ''u3'' v = Ret err u"
    using v(2) by (simp add: nodeDelete_def locked_cfg_def lock_cfg_run unlock_cfg_def)
  then obtain err u where u: "nodeDelete ''u3'' v = Ret err u" by blast
  from node_add_delete [OF wf_ex_world v(1) u] v(1) u show ?thesis by blast
qed

text \<open>The interfaces of a node.\<close>

definition ifaces_of :: "string \<Rightarrow> Config \<Rightarrow> string set option" where
  "ifaces_of uid c = map_option (\<lambda>n. set (keys (IPGroups n))) (lookup (Nodes c) uid)"

lemma ifaces_Groups [simp]: "ifaces_of uid (c\<lparr>Groups := x\<rparr>) = ifaces_of uid c"
  by (simp add: ifaces_of_def)

lemma ifaces_put_iface:
  assumes "lookup (Nodes c) uid = Some n" and "\<not> is_nil (IPGroups n)"
  shows "ifaces_of uid (put_iface uid iface gs c) = map_option (insert iface) (ifaces_of uid c)"
proof -
  from assms(1) have "\<not> is_nil (Nodes c)" by (cases "Nodes c") (simp_all add: lookup_def)
  with assms show ?thesis by (simp add: ifaces_of_def put_iface_def lookup_put keys_put)
qed

lemma ifaces_write_iface:
  "config_effect (write_iface uid iface gs) (\<lambda>c _ d. ifaces_of uid d = map_option (insert iface) (ifaces_of uid c))"
  by (rule effect_weaken [OF effect_write_iface]) (auto simp: ifaces_put_iface)

lemma ifaces_group_for_iface:
  "config_effect (group_for_iface uid iface) (\<lambda>c _ d. ifaces_of uid d = ifaces_of uid c \<or>
     ifaces_of uid d = map_option (insert iface) (ifaces_of uid c))"
proof -
  have a: "config_effect (thn (groupAssign g uid iface) skip) (\<lambda>c _ d. ifaces_of uid d = ifaces_of uid c \<or>
     ifaces_of uid d = map_option (insert iface) (ifaces_of uid c))" for g
    using config_effectD [OF effect_groupAssign, of g uid iface]
    by (fastforce simp: config_effect_def ifaces_put_iface split: outcome.splits)
  have w: "config_effect (write_group g ips) (\<lambda>c _ d. ifaces_of uid d = ifaces_of uid c)" for g ips
    by (rule effect_weaken [OF effect_write_group]) auto
  have all: "config_effect (thn (write_group g []) (thn (groupAssign g uid iface) skip)) (\<lambda>c _ d. ifaces_of uid d = ifaces_of uid c \<or>
     ifaces_of uid d = map_option (insert iface) (ifaces_of uid c))" for g
    by (rule effect_thn [OF w a]) auto
  show ?thesis unfolding group_for_iface_def by (intro effect_reading effect_weaken [OF all]) auto

qed


lemma ifaces_new_iface:
  "config_effect (new_iface uid b) (\<lambda>c _ d. ifaces_of uid d = map_option (\<lambda>k. k \<union> ({b} - {''lo''})) (ifaces_of uid c))"
proof -
  have add: "config_effect (thn (write_iface uid b []) (group_for_iface uid b))
      (\<lambda>c _ d. ifaces_of uid d = map_option (insert b) (ifaces_of uid c))"
    by (rule effect_thn [OF ifaces_write_iface ifaces_group_for_iface]) (auto simp: option.map_comp comp_def)
  show ?thesis unfolding config_effect_def
  proof (intro allI impI)
    fix w :: world and x v assume run: "new_iface uid b w = Ret x v"
    let ?ex = "case lookup (Nodes (DBConfig w)) uid of None \<Rightarrow> False | Some n \<Rightarrow> b \<in> set (keys (IPGroups n))"
    show "ifaces_of uid (DBConfig v) = map_option (\<lambda>k. k \<union> ({b} - {''lo''})) (ifaces_of uid (DBConfig w))"
    proof (cases "\<not> ?ex \<and> b \<noteq> ''lo''")
      case True
      with run have "thn (write_iface uid b []) (group_for_iface uid b) w = Ret x v"
        unfolding new_iface_def by (simp del: thn_run)
      from config_effectD [OF add this] True show ?thesis
        by (cases "ifaces_of uid (DBConfig w)") auto
    next
      case False
      with run have "v = w" unfolding new_iface_def by (auto split: if_splits)
      with False show ?thesis
        by (auto simp: ifaces_of_def insert_absorb split: option.splits)
    qed
  qed
qed

lemma ifaces_loop:
  "config_effect (for_each bs (new_iface uid)) (\<lambda>c _ d. ifaces_of uid d = map_option (\<lambda>k. k \<union> (set bs - {''lo''})) (ifaces_of uid c))"
proof (induction bs)
  case Nil
  show ?case by (simp add: config_effect_def option.map_ident)
next
  case (Cons b bs)
  have "config_effect (thn (new_iface uid b) (for_each bs (new_iface uid)))
     (\<lambda>c _ d. ifaces_of uid d = map_option (\<lambda>k. k \<union> (set (b # bs) - {''lo''})) (ifaces_of uid c))"
    by (rule effect_thn [OF ifaces_new_iface Cons]) (auto simp: option.map_comp comp_def intro!: option.map_cong)
  then show ?case by (simp only: for_each.simps)
qed

lemma effect_Save: "config_effect Save (\<lambda>c x d. d = c)"
  by (auto simp: config_effect_def Save_Ret split: option.splits)

lemma ifaces_del_ifaces:
  "ifaces_of uid (del_ifaces uid keep c) = map_option (\<lambda>k. {b \<in> k. keep b}) (ifaces_of uid c)"
proof (cases "lookup (Nodes c) uid")
  case None
  then show ?thesis by (simp add: ifaces_of_def del_ifaces_def)
next
  case (Some n)
  then have nil: "\<not> is_nil (Nodes c)" by (cases "Nodes c") (simp_all add: lookup_def)
  have "set (keys (map_option (filter (\<lambda>(iface, _). keep iface)) m)) = {b \<in> set (keys m). keep b}" for m :: "string list gomap"
    by (cases m) (auto simp: keys_def)
  with Some nil show ?thesis by (simp add: ifaces_of_def del_ifaces_def lookup_put)
qed

text \<open>After the interfaces of the local node were brought up to date, the node has an entry for every
  interface of the machine other than the loopback, and none for an interface that the machine does not have.\<close>

theorem nodeUpdateLocalInterfaces_exact:
  assumes "wf w" and "nodeUpdateLocalInterfaces w = Ret None v"
  shows "\<exists>h uid n. GetHostname (hostname_cmd (env w)) = Inr h \<and> lookup (Nodes (DBConfig w)) uid = Some n \<and> NodeHostname n = h \<and>
    ifaces_of uid (DBConfig v) = Some {b \<in> set (interface_names (env w)). b \<noteq> ''lo'' \<or> b \<in> set (keys (IPGroups n))}"
proof -
  let ?ifs = "interface_names (env w)"
  from assms(2) obtain h uid n where h: "GetHostname (hostname_cmd (env w)) = Inr h"
    and f: "nodeGetByHostname (order_at w ''nodeGetByHostname'') (DBConfig w) h = Inr (uid, n)"
    and run: "thn (for_each ?ifs (new_iface uid)) (thn (modify (set_config (del_ifaces uid (\<lambda>b. b \<in> set ?ifs))))
            (bnd Save (\<lambda>err. case err of Some _ \<Rightarrow> ret (Some CLUSTER_CONFIG_FAIL) | None \<Rightarrow> ret None))) w = Ret None v"
    unfolding nodeUpdateLocalInterfaces_def by (auto split: sum.splits simp del: thn_run bnd_run)
  have n: "lookup (Nodes (DBConfig w)) uid = Some n \<and> NodeHostname n = h"
    using nodeGetByHostname_sound [OF _ f] assms(1) by (simp add: wf_def wf_config_def map_ok_def)
  from run obtain y u where u: "for_each ?ifs (new_iface uid) w = Ret y u"
    and s: "bnd Save (\<lambda>err. case err of Some _ \<Rightarrow> ret (Some CLUSTER_CONFIG_FAIL) | None \<Rightarrow> ret None)
        (set_config (del_ifaces uid (\<lambda>b. b \<in> set ?ifs)) u) = Ret None v"
    by (auto simp: outcome_thn_Ret simp del: thn_run bnd_run)
  from s have "DBConfig v = del_ifaces uid (\<lambda>b. b \<in> set ?ifs) (DBConfig u)"
    by (auto simp: Save_Ret split: outcome.splits option.splits dest: config_effectD [OF effect_Save])
  moreover from config_effectD [OF ifaces_loop u] n
  have "ifaces_of uid (DBConfig u) = Some (set (keys (IPGroups n)) \<union> (set ?ifs - {''lo''}))" by (simp add: ifaces_of_def)
  ultimately have "ifaces_of uid (DBConfig v) = Some {b \<in> set ?ifs. b \<noteq> ''lo'' \<or> b \<in> set (keys (IPGroups n))}"
    by (auto simp: ifaces_del_ifaces)
  with h n show ?thesis by blast

qed

theorem nodeUpdateLocalInterfaces_exact_witness:
  "\<exists>v. nodeUpdateLocalInterfaces ex_world = Ret None v \<and> (\<exists>uid. ifaces_of uid (DBConfig v) = Some {''eth0''})"
proof -
  have "\<exists>v. nodeUpdateLocalInterfaces ex_world = Ret None v"
  proof -
    have f: "nodeGetByHostname (\<lambda>ks. ks) ex_config ''alpha'' = Inr (''u1'', ex_node ''alpha'' ''10.0.0.11'')"
      by (simp add: nodeGetByHostname_def range_by_def keys_def lookup_def)
    have d: "del_ifaces ''u1'' (\<lambda>b. b = ''lo'' \<or> b = ''eth0'') ex_config = ex_config"
      by (simp add: del_ifaces_def lookup_def put_def)

    have "set_config (del_ifaces ''u1'' (\<lambda>b. b = ''lo'' \<or> b = ''eth0'')) ex_world = ex_world"
      by (simp add: set_config_def d)
    then show ?thesis
      by (simp add: nodeUpdateLocalInterfaces_def order_at_def f new_iface_def lookup_def keys_def ex_Save)
  qed
  then obtain v where v: "nodeUpdateLocalInterfaces ex_world = Ret None v" by blast
  from nodeUpdateLocalInterfaces_exact [OF wf_ex_world v] obtain uid n where
    n: "lookup (Nodes ex_config) uid = Some n" "ifaces_of uid (DBConfig v) = Some {b \<in> {''lo'', ''eth0''}. b \<noteq> ''lo'' \<or> b \<in> set (keys (IPGroups n))}"
    by auto
  from n(1) have "set (keys (IPGroups n)) = {''eth0''}" by (auto simp: lookup_def keys_def split: if_splits)
  with n(2) have "ifaces_of uid (DBConfig v) = Some {''eth0''}" by auto
  with v show ?thesis by blast
qed

end
