(* ===== verification/Server.thy ===== *)
theory Server
  imports Failover RegistryOps
begin

text \<open>
  The daemon's own RPC server, \<^verbatim>\<open>src/pulseha/server.go\<close>: its start, its end, the interceptor and one
  definition per handler. A handler answers an error (\<open>Inl\<close>) or a response. Every handler holds
  the mutex of the server for the whole call, and none of them takes it twice, so it is not part
  of the state; calls of one server run one after the other.
\<close>

section \<open>Who calls\<close>

text \<open>The peer in the context of a call: the textual IP of its TCP address, and what the transport
  knows about it (for TLS, whether the security level is \<^verbatim>\<open>PrivacyAndIntegrity\<close>).\<close>

datatype auth_info = TLSInfo bool | OtherAuth

record Peer =
  PeerIp :: string
  AuthInfo :: auth_info

definition serverInterceptor :: "string \<Rightarrow> Peer option \<Rightarrow> (string + 'a) go \<Rightarrow> (string + 'a) go" where
  "serverInterceptor fullMethod peer handler =
     (if fullMethod \<noteq> ''/proto.Server/Join''
      then case peer of
        None \<Rightarrow> handler
      | Some p \<Rightarrow> (case AuthInfo p of
          OtherAuth \<Rightarrow> crash_with TypeAssertion
        | TLSInfo protected \<Rightarrow> if \<not> protected then ret (Inl ''invalid permissions'') else handler)
      else handler)"

definition CLUSTER_UNATHORIZED :: string where
  "CLUSTER_UNATHORIZED = ''unauthorized''"

definition CLUSTER_REQUIRED_MESSAGE :: string where
  "CLUSTER_REQUIRED_MESSAGE = ''You must be in a configured cluster to complete this action.''"

definition authorized :: "Peer option \<Rightarrow> (string + 'a) go \<Rightarrow> (string + 'a) go" where
  "authorized peer k = bnd (CanCommunicate (map_option PeerIp peer)) (\<lambda>ok.
     if \<not> ok then ret (Inl CLUSTER_UNATHORIZED) else k)"

section \<open>Start and end\<close>

text \<open>\<^verbatim>\<open>Setup\<close> returns here when the server accepts calls; in the program it then waits in \<^verbatim>\<open>Serve\<close>.\<close>

definition Server_Setup :: "unit go" where
  "Server_Setup = reading (\<lambda>w. (ClusterCheck (DBConfig w), GetHostname (hostname_cmd (env w)))) (\<lambda>(cluster, host).
     if \<not> cluster then skip
     else case host of
       Inl _ \<Rightarrow> skip
     | Inr hostname \<Rightarrow> reading (\<lambda>w. nodeExistsByHostname (DBConfig w) hostname) (\<lambda>exists.
         if \<not> exists then crash_with (Fatal ''cannot find local hostname in pulse cluster config'')
         else reading (\<lambda>w. let node = LocalNode (hostname_cmd (env w)) (order_at w ''LocalNode'') (DBConfig w)
                           in listen (env w) (FormatIPv6 (IP node) @ '':'' @ Port node)) (\<lambda>err. case err of
           Some e \<Rightarrow> crash_with (Fatal e)
         | None \<Rightarrow> reading load_tls (\<lambda>tls. case tls of
             KeyPairError e \<Rightarrow> crash_with (Fatal (''load peer cert/key error:'' @ e))
           | CaReadError e \<Rightarrow> crash_with (Fatal (''read ca cert file error:'' @ e))
           | CaParseError \<Rightarrow> crash_with (Fatal ''failed to append certs'')
           | TlsFilesOk \<Rightarrow>
               thn (modify (\<lambda>w. w\<lparr>StartDelay := True\<rparr>))
              (thn MemberList_Setup
              (reading (\<lambda>w. serve (env w)) (\<lambda>err. case err of
                 Some e \<Rightarrow> crash_with (Fatal (''grpc serve error: '' @ e))
               | None \<Rightarrow> modify (\<lambda>w. w\<lparr>ServerRunning := True\<rparr>))))))))"

definition Server_Init :: "shared_object list \<Rightarrow> unit go" where
  "Server_Init dir = reading modules (\<lambda>ms.
     thn (modify (\<lambda>w. w\<lparr>modules := fst (Plugins_Setup dir (ms, []))\<rparr>)) Server_Setup)"

definition Server_Shutdown :: "unit go" where
  "Server_Shutdown = reading (\<lambda>w. ClusterCheck (DBConfig w)) (\<lambda>cluster.
     thn (if cluster then MakeLocalPassive else skip)
    (thn Reset
    (reading ServerRunning (\<lambda>running.
       if running then thn (modify (\<lambda>w. w\<lparr>ServerRunning := False\<rparr>)) (emit StoppedServer) else skip))))"

section \<open>Handlers\<close>

definition standby_update :: "MemberlistMember list \<Rightarrow> string \<Rightarrow> unit go" where
  "standby_update memberlist hostname =
     bnd (GetMemberByHostname hostname) (\<lambda>found. with_ref found (\<lambda>r.
       reading (\<lambda>w. now (env w)) (\<lambda>t. thn (SetLastHCResponse r t) (Update memberlist))))"

definition settle_active :: "MemberlistMember list \<Rightarrow> nat \<Rightarrow> unit go" where
  "settle_active memberlist localMember =
     thn (Logging_Warn ''Active node mismatch'')
    (bnd (GetFailOverCountWinner memberlist) (\<lambda>hostname.
     thn (Logging_Info (''Member '' @ hostname @ '' has been determined as the correct active node.''))
    (reading (\<lambda>w. Hostname (member w localMember)) (\<lambda>localHostname.
       if hostname \<noteq> localHostname
       then bnd (MakePassive localMember) (\<lambda>err. case err of Some e \<Rightarrow> Logging_Error e | None \<Rightarrow> skip)
       else SetLastHCResponse localMember 0))))"

definition Server_HealthCheck :: "Peer option \<Rightarrow> HealthCheckRequest \<Rightarrow> (string + HealthCheckResponse) go" where
  "Server_HealthCheck peer req = authorized peer
     (reading (\<lambda>w. fst (GetActiveMember w)) (\<lambda>activeHostname.
      bnd GetLocalMember (\<lambda>(localMember, _).
      reading (\<lambda>w. Hostname (member w localMember)) (\<lambda>localHostname.
      thn (if activeHostname \<noteq> localHostname then standby_update (Memberlist req) localHostname
           else settle_active (Memberlist req) localMember)
          (reading (\<lambda>w. int32 (Score (member w localMember))) (\<lambda>score. ret (Inr \<lparr>HcScore = score\<rparr>)))))))"

definition join_failed :: "string \<Rightarrow> int \<Rightarrow> JoinResponse" where
  "join_failed msg code = \<lparr>Success = False, Message = msg, ErrorCode = code, JoinedConfig = Invalid ''unexpected end of JSON input'',
     CaCrt = '''', CaKey = ''''\<rparr>"

lemma join_failed_fields [simp]: "ErrorCode (join_failed msg code) = code" "\<not> Success (join_failed msg code)"
  by (simp_all add: join_failed_def)

text \<open>\<^verbatim>\<open>Join\<close>. A save that fails takes
 the node out of the config again, but the handler goes on. A
  config can always be marshalled.\<close>

definition undo_join :: "string \<Rightarrow> string option go" where
  "undo_join uid = reading (\<lambda>w. nodeExistsByUUID (DBConfig w) uid) (\<lambda>exists. if exists then nodeDelete uid else ret None)"

definition join_reply :: "string \<Rightarrow> JoinResponse go" where
  "join_reply uid =
     reading (\<lambda>w. (DBConfig w, read_cert w ''ca.crt'', CheckFileExists w ''ca.crt'' \<and> CheckFileExists w ''ca.key'', read_cert w ''ca.key''))
       (\<lambda>(buf, crt, exist, key). case crt of
          Inl err \<Rightarrow> crash_with (Fatal (''Unable to load ca.crt: '' @ err))
        | Inr caCert \<Rightarrow>
            if \<not> exist then crash_with (Fatal ''ca.crt and or ca.key does not exists'')
            else (case key of
              Inl err \<Rightarrow> crash_with (Fatal (''Unable to load ca.key: '' @ err))
            | Inr caKey \<Rightarrow>
                thn (Logging_Info (uid @ '' has joined the cluster''))
                    (ret \<lparr>Success = True, Message = ''Successfully added '', ErrorCode = 0, JoinedConfig = Valid buf,
                       CaCrt = caCert, CaKey = caKey\<rparr>)))"

definition admit :: "string \<Rightarrow> JoinResponse go" where
  "admit uid =
     bnd Save (\<lambda>err.
     bnd (case err of Some _ \<Rightarrow> undo_join uid | None \<Rightarrow> ret None) (\<lambda>undone. case undone of
       Some _ \<Rightarrow> ret (join_failed ''Failed to clean up after a failed join attempt'' 0)
     | None \<Rightarrow>
         bnd SyncConfig (\<lambda>err.
         thn (case err of Some _ \<Rightarrow> Logging_Warn ''Unable to sync config when a join attempt was made'' | None \<Rightarrow> skip)
        (thn MemberList_Reload (join_reply uid)))))"

definition Server_Join :: "JoinRequest \<Rightarrow> (string + JoinResponse) go" where
  "Server_Join req =
     bnd (reading (\<lambda>w. (ClusterCheck (DBConfig w), SHA256StringValidation (env w) (JoinToken req) (ClusterToken (Pulse (DBConfig w))),
                 nodeExistsByUUID (DBConfig w) (JoinUid req))) (\<lambda>(cluster, valid, exists).
       if \<not> cluster then ret (join_failed ''This node is not in a configured cluster.'' 0)
       else if \<not> valid
       then thn (Logging_Warn (JoinUid req @ '' attempted to join with an invalid cluster token''))
                (ret (join_failed ''Invalid cluster token'' 0))
       else (case JoinConfig req of
         Invalid _ \<Rightarrow> ret (join_failed ''Unable to unmarshal config node.'' 0)
       | Valid doc \<Rightarrow> let originNode = parse_node doc in
           if exists then ret (join_failed (''unable to join cluster as a node with id '' @ JoinUid req @ '' already exists!'') 0)
           else bnd (nodeAdd (JoinUid req) originNode) (\<lambda>err. case err of
             Some _ \<Rightarrow> ret (join_failed ''Failed to add new node to membership list'' 0)
           | None \<Rightarrow> admit (JoinUid req)))))
     (\<lambda>resp. ret (Inr resp))"

definition Server_Leave :: "Peer option \<Rightarrow> LeaveRequest \<Rightarrow> (string + Response) go" where
  "Server_Leave peer req = authorized peer
     (reading (\<lambda>w. case GetNodeByHostname (order_at w ''GetNodeByHostname'') (DBConfig w) (LeaveHostname req) of
                     Inl _ \<Rightarrow> '''' | Inr (uid, _) \<Rightarrow> uid) (\<lambda>id.
      thn (MemberRemoveByHostname (LeaveHostname req))
     (bnd (nodeDelete id) (\<lambda>err. case err of
        Some e \<Rightarrow> ret (Inr (reply False e 0))
      | None \<Rightarrow> bnd Save (\<lambda>err. case err of
          Some e \<Rightarrow> crash_with (Fatal e)
        | None \<Rightarrow> thn (Logging_Info (''Successfully removed '' @ LeaveHostname req @ '' from the cluster''))
            (ret (Inr (reply True ''Successfully removed node from local config'' 0))))))))"

definition Server_Remove :: "Peer option \<Rightarrow> RemoveRequest \<Rightarrow> (string + Response) go" where
  "Server_Remove peer req = authorized peer
     (reading (\<lambda>w. GetHostname (hostname_cmd (env w))) (\<lambda>local. case local of
        Inl _ \<Rightarrow> ret (Inr (reply False ''Unable to perform remove as unable to get local hostname'' 0))
      | Inr localHostname \<Rightarrow>
          bnd (GetMemberByHostname (RemoveHostname req)) (\<lambda>found. with_ref found (\<lambda>r.
          thn (SetStatus r LEAVING)
         (bnd (if RemoveHostname req = localHostname
               then thn Server_Shutdown (thn nodesClearLocal (ret None))
               else thn (MemberRemoveByHostname (RemoveHostname req)) (nodeDelete (RemoveHostname req))) (\<lambda>err. case err of
            Some e \<Rightarrow> ret (Inr (reply False e 0))
          | None \<Rightarrow> thn Save
              (thn (Logging_Info (''Successfully removed node '' @ RemoveHostname req @ '' from the cluster''))
                   (ret (Inr (reply True ''Successfully removed node from local config'' 0))))))))))"

definition keep_local :: "Config \<Rightarrow> Config \<Rightarrow> Config" where
  "keep_local local new = new\<lparr>Pulse := Pulse local, PluginConfigs := PluginConfigs local\<rparr>"

definition Server_ConfigSync :: "Peer option \<Rightarrow> ConfigSyncRequest \<Rightarrow> (string + Response) go" where
  "Server_ConfigSync peer req = authorized peer
     (case unmarshal_into (SyncConfigDoc req) emptyConfig of
        Inl err \<Rightarrow> crash_with (Fatal (''Unable to marshal config: '' @ err))
      | Inr newConfig \<Rightarrow> reading DBConfig (\<lambda>local.
          thn (SetConfig (keep_local local newConfig))
         (thn Save
         (thn MemberList_Reload
              (ret (Inr (reply True '''' 0)))))))"

definition local_member_named :: "string \<Rightarrow> (nat \<Rightarrow> (string + Response) go) \<Rightarrow> (string + Response) go" where
  "local_member_named hostname k =
     reading (\<lambda>w. GetLocalNode (DBConfig w)) (\<lambda>localNode. case localNode of
       Inl _ \<Rightarrow> ret (Inr (reply False '''' 0))
     | Inr node \<Rightarrow>
         if hostname \<noteq> NodeHostname node then ret (Inr (reply False '''' 0))
         else bnd (GetMemberByHostname hostname) (\<lambda>found. case found of
           None \<Rightarrow> ret (Inr (reply False '''' 0))
         | Some r \<Rightarrow> k r))"

definition Server_Promote :: "Peer option \<Rightarrow> PromoteRequest \<Rightarrow> (string + Response) go" where
  "Server_Promote peer req = authorized peer (local_member_named (PromoteTarget req) (\<lambda>r.
     bnd (MakeActive r) (\<lambda>err. case err of
       Some _ \<Rightarrow> ret (Inr (reply False '''' 0))
     | None \<Rightarrow> thn (Logging_Info (PromoteTarget req @ '' has been promoted to active'')) (ret (Inr (reply True '''' 0))))))"

definition Server_MakePassive :: "Peer option \<Rightarrow> MakePassiveRequest \<Rightarrow> (string + Response) go" where
  "Server_MakePassive peer req = authorized peer (local_member_named (MakePassiveTarget req) (\<lambda>r.
     bnd (MakePassive r) (\<lambda>err.
     thn (Logging_Info (MakePassiveTarget req @ '' has been demoted to passive'')) (ret (Inr (reply (err = None) '''' 0))))))"

definition ip_reply :: "string option \<Rightarrow> Response" where
  "ip_reply err = (case err of None \<Rightarrow> reply True ''success'' 0 | Some e \<Rightarrow> reply False e 0)"

definition Server_BringUpIP :: "Peer option \<Rightarrow> UpIpRequest \<Rightarrow> (string + Response) go" where
  "Server_BringUpIP peer req = authorized peer (bnd (BringUpIPs (UpIface req) (UpIps req)) (\<lambda>err. ret (Inr (ip_reply err))))"

definition Server_BringDownIP :: "Peer option \<Rightarrow> DownIpRequest \<Rightarrow> (string + Response) go" where
  "Server_BringDownIP peer req = authorized peer (bnd (BringDownIPs (DownIface req) (DownIps req)) (\<lambda>err. ret (Inr (ip_reply err))))"

text \<open>\<^verbatim>\<open>Logs\<close> writes to the local journal only.\<close>

definition Server_Logs :: "Peer option \<Rightarrow> LogsRequest \<Rightarrow> (string + Response) go" where
  "Server_Logs peer req = authorized peer (ret (Inr (reply False '''' 0)))"

text \<open>\<^verbatim>\<open>Describe\<close> asks nobody who is calling and answers with an empty message.\<close>

definition Server_Describe :: "DescribeRequest \<Rightarrow> (string + Response) go" where
  "Server_Describe req = ret (Inr (reply False '''' 0))"

section \<open>Dispatch\<close>

text \<open>What the generated code of \<^verbatim>\<open>rpc/pulse.pb.go\<close> does with a call: the interceptor, with the name of
  the method, around the handler.\<close>

fun fullMethod :: "request \<Rightarrow> string" where
  "fullMethod (ReqConfigSync _) = ''/proto.Server/ConfigSync''"
| "fullMethod (ReqJoin _) = ''/proto.Server/Join''"
| "fullMethod (ReqLeave _) = ''/proto.Server/Leave''"
| "fullMethod (ReqMakePassive _) = ''/proto.Server/MakePassive''"
| "fullMethod (ReqBringUpIP _) = ''/proto.Server/BringUpIP''"
| "fullMethod (ReqBringDownIP _) = ''/proto.Server/BringDownIP''"
| "fullMethod (ReqHealthCheck _) = ''/proto.Server/HealthCheck''"
| "fullMethod (ReqPromote _) = ''/proto.Server/Promote''"
| "fullMethod (ReqLogs _) = ''/proto.Server/Logs''"
| "fullMethod (ReqRemove _) = ''/proto.Server/Remove''"
| "fullMethod (ReqDescribe _) = ''/proto.Server/Describe''"

definition answer :: "('a \<Rightarrow> response) \<Rightarrow> (string + 'a) go \<Rightarrow> (string + response) go" where
  "answer f m = bnd m (\<lambda>res. ret (map_sum id f res))"

fun handler :: "Peer option \<Rightarrow> request \<Rightarrow> (string + response) go" where
  "handler p (ReqConfigSync r) = answer RespOther (Server_ConfigSync p r)"
| "handler p (ReqJoin r) = answer RespJoin (Server_Join r)"
| "handler p (ReqLeave r) = answer RespOther (Server_Leave p r)"
| "handler p (ReqMakePassive r) = answer RespOther (Server_MakePassive p r)"
| "handler p (ReqBringUpIP r) = answer RespOther (Server_BringUpIP p r)"
| "handler p (ReqBringDownIP r) = answer RespOther (Server_BringDownIP p r)"
| "handler p (ReqHealthCheck r) = answer RespHealthCheck (Server_HealthCheck p r)"
| "handler p (ReqPromote r) = answer RespOther (Server_Promote p r)"
| "handler p (ReqLogs r) = answer RespOther (Server_Logs p r)"
| "handler p (ReqRemove r) = answer RespOther (Server_Remove p r)"
| "handler p (ReqDescribe r) = answer RespOther (Server_Describe r)"

definition serve_request :: "Peer option \<Rightarrow> request \<Rightarrow> (string + response) go" where
  "serve_request p req = serverInterceptor (fullMethod req) p (handler p req)"

section \<open>Strangers\<close>

text \<open>What only logging adds to the trace.\<close>

definition logged_since :: "effect list \<Rightarrow> world \<Rightarrow> bool" where
  "logged_since t w \<longleftrightarrow> (\<exists>l. trace w = t @ l \<and> list_all log_entry l)"

lemma logged_since_added: "logged_since = only_added log_entry"
  by (intro ext) (simp add: logged_since_def only_added_def)

lemma logged_since_refl: "logged_since (trace w) w"
  by (simp add: logged_since_added only_added_refl)

lemma logged_since_Logging:
  "safe (logged_since t) any_crash (Logging_Warn m)" "safe (logged_since t) any_crash (Logging_Info m)"
  "safe (logged_since t) any_crash (Logging_Error m)"
  unfolding logged_since_added by (rule only_added_Logging; assumption)+

definition known_peer :: "Config \<Rightarrow> Peer option \<Rightarrow> bool" where
  "known_peer c peer \<longleftrightarrow> (\<exists>p. peer = Some p \<and> PeerIp p \<in> IP ` snd ` set (entries (Nodes c)))"

lemma known_address:
  assumes "wf_map (Nodes c)"
  shows "(\<exists>e. GetNodeHostnameByAddress \<pi> c ip = Inl e) \<longleftrightarrow> ip \<notin> IP ` snd ` set (entries (Nodes c))"
proof (cases "find (\<lambda>(uid, node). IP node = ip) (range_by \<pi> (Nodes c))")
  case None
  then have "\<forall>x \<in> set (entries (Nodes c)). IP (snd x) \<noteq> ip"
    unfolding find_None_iff set_range_by [OF assms] by (metis (mono_tags, lifting) case_prod_beta)
  with None show ?thesis by (auto simp: GetNodeHostnameByAddress_def)
next
  case (Some x)
  then have "x \<in> set (entries (Nodes c))" and "IP (snd x) = ip"
    by (auto simp: set_range_by [OF assms] dest!: find_SomeD)
  with Some show ?thesis by (force simp: GetNodeHostnameByAddress_def split: prod.split)
qed

lemma CanCommunicate_stranger:
  assumes "wf w" and "\<not> known_peer (DBConfig w) peer" and "linked False (Members w) w"
  shows "\<exists>v. CanCommunicate (map_option PeerIp peer) w = Ret False v \<and> core v = core w \<and> logged_since (trace w) v"
proof -
  from assms(1) have nodes: "wf_map (Nodes (DBConfig w))" by (simp add: wf_def wf_config_def map_ok_def)
  obtain m where m: "CanCommunicate (map_option PeerIp peer) w = thn (Logging_Warn m) (ret False) w"
  proof (cases peer)
    case None
    then show ?thesis by (intro that) (simp add: CanCommunicate_def)
  next
    case (Some p)
    with assms(2) have "PeerIp p \<notin> IP ` snd ` set (entries (Nodes (DBConfig w)))" by (simp add: known_peer_def)
    with known_address [OF nodes, of "order_at w ''GetNodeHostnameByAddress''"] obtain e where
      "GetNodeHostnameByAddress (order_at w ''GetNodeHostnameByAddress'') (DBConfig w) (PeerIp p) = Inl e"
      by blast
    with Some show ?thesis by (intro that) (simp add: CanCommunicate_def)
  qed
  from safe_totalD [OF sound_Logging(1) assms(3)] obtain v where v: "Logging_Warn m w = Ret () v" by auto
  from quietD [OF quiet_Logging(1) v] safeD [OF logged_since_Logging(1) logged_since_refl v] v m show ?thesis by simp
qed

lemma authorized_stranger:
  assumes "wf w" and "\<not> known_peer (DBConfig w) peer" and "linked False (Members w) w"
  shows "\<exists>v. authorized peer k w = Ret (Inl CLUSTER_UNATHORIZED) v \<and> core v = core w \<and> logged_since (trace w) v"
  using CanCommunicate_stranger [OF assms] by (auto simp: authorized_def)

lemma answer_stranger:
  assumes "wf w" and "\<not> known_peer (DBConfig w) p" and "linked False (Members w) w"
  shows "\<exists>v. answer f (authorized p k) w = Ret (Inl CLUSTER_UNATHORIZED) v \<and> core v = core w \<and> logged_since (trace w) v"
  using authorized_stranger [OF assms, of k] by (auto simp: answer_def)

lemmas authorized_handlers = Server_ConfigSync_def Server_Leave_def Server_MakePassive_def Server_BringUpIP_def
  Server_BringDownIP_def Server_HealthCheck_def Server_Promote_def Server_Logs_def Server_Remove_def

lemma handler_stranger:
  assumes "wf w" and "\<not> known_peer (DBConfig w) p" and "linked False (Members w) w" and "\<And>r. req \<noteq> ReqJoin r"
  shows "\<exists>v. handler p req w = Ret (case req of ReqDescribe _ \<Rightarrow> Inr (RespOther (reply False '''' 0)) | _ \<Rightarrow> Inl CLUSTER_UNATHORIZED) v \<and>
    core v = core w \<and> logged_since (trace w) v"
proof (cases req)
  case (ReqJoin r)
  with assms(4) show ?thesis by blast
next
  case (ReqDescribe r)
  then show ?thesis by (simp add: answer_def Server_Describe_def logged_since_refl)
qed (simp_all only: handler.simps request.case authorized_handlers answer_stranger [OF assms(1-3)])


text \<open>\<^bold>\<open>C21.\<close> A daemon that is not a node of the cluster can change nothing unless it joins. Of every call but
  the request to join, an unprotected connection gets the error of the interceptor. Over TLS the
  daemon refuses every call as unauthorized, with the exception of \<^verbatim>\<open>Describe\<close>, which has no check and
  answers an empty message. In all these cases the daemon that was called has changed nothing
  and has done nothing but write log messages.\<close>

theorem stranger_refused:
  assumes "wf w" and "linked False (Members w) w" and "\<not> known_peer (DBConfig w) (Some p)"
    and "AuthInfo p = TLSInfo protected" and "\<And>r. req \<noteq> ReqJoin r"
  shows "\<exists>res v. serve_request (Some p) req w = Ret res v \<and> core v = core w \<and> logged_since (trace w) v \<and>
    res = (if \<not> protected then Inl ''invalid permissions''
           else case req of ReqDescribe _ \<Rightarrow> Inr (RespOther (reply False '''' 0)) | _ \<Rightarrow> Inl CLUSTER_UNATHORIZED)"
proof (cases protected)
  case False
  from assms(5) have "fullMethod req \<noteq> ''/proto.Server/Join''" by (cases req) auto
  with False assms(4) show ?thesis
    by (auto simp: serve_request_def serverInterceptor_def logged_since_refl)
next
  case True
  with handler_stranger [OF assms(1,3,2,5)] assms(4) show ?thesis by (auto simp: serve_request_def serverInterceptor_def)
qed

definition ex_stranger :: Peer where
  "ex_stranger = \<lparr>PeerIp = ''192.168.7.7'', AuthInfo = TLSInfo True\<rparr>"

theorem stranger_refused_witness:
  "\<exists>v. serve_request (Some ex_stranger) (ReqPromote \<lparr>PromoteTarget = ''alpha''\<rparr>) ex_world = Ret (Inl CLUSTER_UNATHORIZED) v \<and>
     core v = core ex_world \<and> logged_since [] v"
  using stranger_refused [OF wf_ex_world, of ex_stranger True "ReqPromote \<lparr>PromoteTarget = ''alpha''\<rparr>"] linked_ex
  by (simp add: known_peer_def ex_stranger_def)

section \<open>Joining\<close>

lemma Reload_saved:
  assumes "wf w" and "disk w = ConfigFile (Valid (DBConfig w))" and "\<not> cfg_lock w"
    and "Validate (hostname_cmd (env w)) (DBConfig w) = None"
  shows "Reload_config w = Ret () (w\<lparr>DBConfig := decoded (DBConfig w)\<rparr>)"
proof -
  from assms(1) have "unmarshal_into (Valid (DBConfig w)) (DBConfig w) = Inr (decoded (DBConfig w))"
    by (simp add: wf_def unmarshal_saved)
  with assms(2-4) show ?thesis
    by (simp add: Reload_config_def Load_config_def locked_cfg_def lock_cfg_run unlock_cfg_def)
qed

lemma Reload_members:
  assumes "wf w" and "disk w = ConfigFile (Valid (DBConfig w))" and "\<not> cfg_lock w" and "\<not> ml_lock w"
    and "Validate (hostname_cmd (env w)) (DBConfig w) = None"
  shows "\<exists>v. MemberList_Reload w = Ret () v \<and> grown (w\<lparr>DBConfig := decoded (DBConfig w)\<rparr>) v \<and>
    Hostname ` set (members v) = Hostname ` set (members w) \<union> NodeHostname ` snd ` set (entries (Nodes (DBConfig w)))"
proof -
  have "wf (w\<lparr>DBConfig := decoded (DBConfig w)\<rparr>)" using assms(1) by (simp add: wf_def)
  from LoadMembers_run [OF this] assms(4) show ?thesis by (simp add: MemberList_Reload_def Reload_saved [OF assms(1-3,5)])
qed

text \<open>After a change of the config in memory: it is saved, sent to the members, read back and its nodes
  become members. \<open>published\<close> says what is then true of the file and the members; what was read back is
  the same config with its plugin sections decoded.\<close>

definition published :: "world \<Rightarrow> world \<Rightarrow> bool" where
  "published w v \<longleftrightarrow> disk v = ConfigFile (Valid (DBConfig w)) \<and>
     (\<forall>h. GetHostname (hostname_cmd (env w)) = Inr h \<longrightarrow> (\<forall>r \<in> set (Members w). Hostname (member w r) \<noteq> h \<longrightarrow>
        SentRpc (Hostname (member w r)) (ReqConfigSync \<lparr>SyncReplicated = True, SyncConfigDoc = Valid (DBConfig w)\<rparr>) \<in> set (trace v)))"

lemma Save_ok:
  assumes "\<not> cfg_lock w" and "Validate (hostname_cmd (env w)) (DBConfig w) = None" and "write_error (env w) = None"
  shows "Save w = Ret None (w\<lparr>disk := ConfigFile (Valid (DBConfig w)), trace := trace w @ [WroteConfig (DBConfig w)]\<rparr>)"
proof -
  have "w\<lparr>cfg_lock := False\<rparr> = w" using assms(1) by simp
  with assms show ?thesis by (simp add: Save_Ret)
qed

lemma quiet_SyncConfig: "quiet SyncConfig"
  unfolding SyncConfig_def by (intro quiet_intro)

lemma SyncConfig_total:
  assumes "linked False ms w"
  shows "\<exists>v. SyncConfig w = Ret None v \<and> linked False ms v \<and> core v = core w"
proof -
  from safe_totalD [OF sound_SyncConfig assms] obtain x v where s: "SyncConfig w = Ret x v" "linked False ms v" by blast
  moreover from s(1) have "x = None" by (auto simp: SyncConfig_def split: outcome.splits)
  ultimately show ?thesis using quietD [OF quiet_SyncConfig s(1)] by blast
qed

lemma publish:

  assumes "linked False (Members w) w" and "\<not> cfg_lock w" and "Validate (hostname_cmd (env w)) (DBConfig w) = None" and "write_error (env w) = None"
  shows "\<exists>u v. Save w = Ret None u \<and> SyncConfig u = Ret None v \<and> published w v \<and> linked False (Members v) v \<and>
    core v = core (w\<lparr>disk := ConfigFile (Valid (DBConfig w))\<rparr>)"
proof -
  let ?u = "w\<lparr>disk := ConfigFile (Valid (DBConfig w)), trace := trace w @ [WroteConfig (DBConfig w)]\<rparr>"
  let ?d = "ReqConfigSync \<lparr>SyncReplicated = True, SyncConfigDoc = Valid (DBConfig w)\<rparr>"
  from assms(1) have l: "linked False (Members w) ?u" by (simp add: linked_def)
  from safe_totalD [OF sound_Broadcast l, of ?d] obtain x v where b: "Broadcast SendConfigSync ?d ?u = Ret x v" and lv: "linked False (Members w) v"
    by auto
  from quietD [OF quiet_Broadcast b] have c: "core v = core (w\<lparr>disk := ConfigFile (Valid (DBConfig w))\<rparr>)" by simp
  have s: "SyncConfig ?u = Ret None v" using b by (simp add: SyncConfig_def)
  have "published w v" unfolding published_def
    using Broadcast_reaches [OF l _ _ b] core_fields(9) [OF c] by simp
  with s c lv core_fields(3) [OF c] Save_ok [OF assms(2-4)] show ?thesis by auto
qed

lemma log_after:
  assumes "linked False (Members w) w"
  shows "\<exists>v. Logging_Info m w = Ret () v \<and> core v = core w \<and> (\<exists>t. trace v = trace w @ t)"
proof -
  from safe_totalD [OF sound_Logging(2) assms] obtain v where v: "Logging_Info m w = Ret () v" by auto
  with quietD [OF quiet_Logging(2) v] safeD [OF logged_since_Logging(2) logged_since_refl v] show ?thesis
    by (auto simp: logged_since_def)
qed

lemma published_later:
  assumes "published w v" and "disk u = disk v" and "\<exists>t. trace u = trace v @ t"
  shows "published w u"
  using assms by (auto simp: published_def)

lemma core_wf_disk:
  assumes "wf w" and "core v = core (w\<lparr>disk := ConfigFile (Valid (DBConfig w))\<rparr>)"
  shows "wf v"
proof -
  have "wf (w\<lparr>disk := ConfigFile (Valid (DBConfig w))\<rparr>)" using assms(1) by (simp add: wf_def wf_disk_def wf_members_def members_def member_def)
  with assms(2) show ?thesis by (rule wf.core_only)
qed

lemma core_hostnames:
  assumes "core v = core w" and "wf_members w"
  shows "Hostname ` set (members v) = Hostname ` set (members w)"
proof -
  from assms(2) have b: "\<forall>r \<in> set (Members w). r < length (heap w)" by (simp add: wf_members_def)
  have "map Hostname (members v) = map Hostname (members w)"
    by (rule core_members [OF assms(1) _ b]) (simp add: strip_def)
  then show ?thesis by (metis set_map)
qed

lemma core_read_cert:
  assumes "certs v = certs w" and "env v = env w"
  shows "read_cert v = read_cert w"
  unfolding read_cert_def assms ..


lemma read_cert_exists: "read_cert w n = Inr s \<Longrightarrow> CheckFileExists w n"
  by (auto simp: read_cert_def CheckFileExists_def split: option.splits)

lemma join_reply_run:
  assumes "linked False (Members w) w" and "read_cert w ''ca.crt'' = Inr crt" and "read_cert w ''ca.key'' = Inr key"
  shows "\<exists>v. join_reply uid w = Ret \<lparr>Success = True, Message = ''Successfully added '', ErrorCode = 0,
      JoinedConfig = Valid (DBConfig w), CaCrt = crt, CaKey = key\<rparr> v \<and> core v = core w \<and> (\<exists>t. trace v = trace w @ t)"
  using log_after [OF assms(1), of "uid @ '' has joined the cluster''"] assms(2,3) read_cert_exists [OF assms(2)] read_cert_exists [OF assms(3)]
  by (auto simp: join_reply_def)

lemma admit_run:
  assumes "wf w" and "linked False (Members w) w" and "\<not> cfg_lock w"
    and "Validate (hostname_cmd (env w)) (DBConfig w) = None" and "write_error (env w) = None"
    and "read_cert w ''ca.crt'' = Inr crt" and "read_cert w ''ca.key'' = Inr key"
  shows "\<exists>v. admit uid w = Ret \<lparr>Success = True, Message = ''Successfully added '', ErrorCode = 0,
      JoinedConfig = Valid (decoded (DBConfig w)), CaCrt = crt, CaKey = key\<rparr> v \<and> published w v \<and> DBConfig v = decoded (DBConfig w) \<and>
      Hostname ` set (members v) = Hostname ` set (members w) \<union> NodeHostname ` snd ` set (entries (Nodes (DBConfig w)))"
proof -
  from publish [OF assms(2-5)] obtain u v where u: "Save w = Ret None u" "SyncConfig u = Ret None v"
    and p: "published w v" and l: "linked False (Members v) v" and c: "core v = core (w\<lparr>disk := ConfigFile (Valid (DBConfig w))\<rparr>)"
    by blast
  have wfv: "wf v" by (rule core_wf_disk [OF assms(1) c])
  have d: "disk v = ConfigFile (Valid (DBConfig v))" and dc: "DBConfig v = DBConfig w" and e: "env v = env w"
    and cl: "\<not> cfg_lock v" and ct: "certs v = certs w" using core_fields [OF c] assms(3) by simp_all
  from l have ml: "\<not> ml_lock v" by (simp add: linked_def)
  have val: "Validate (hostname_cmd (env v)) (DBConfig v) = None" using assms(4) dc e by simp
  let ?v = "v\<lparr>DBConfig := decoded (DBConfig v)\<rparr>"
  from l have l': "linked False (Members ?v) ?v" by (simp add: linked_def)
  from Reload_members [OF wfv d cl ml val] obtain x where x: "MemberList_Reload v = Ret () x" and g: "grown ?v x"
    and h: "Hostname ` set (members x) = Hostname ` set (members v) \<union> NodeHostname ` snd ` set (entries (Nodes (DBConfig v)))" by blast
  have gf: "DBConfig x = decoded (DBConfig v)" "disk x = disk v" "certs x = certs v" "env x = env v" "\<exists>t. trace x = trace v @ t" "wf_members x"
    using g by (simp_all add: grown_def)
  have "read_cert x = read_cert w" by (rule core_read_cert) (simp_all add: gf e ct)
  with join_reply_run [OF linked_grown [OF l' g], of crt key uid] assms(6,7) gf(1) dc
  obtain y where y: "join_reply uid x = Ret \<lparr>Success = True, Message = ''Successfully added '', ErrorCode = 0,
      JoinedConfig = Valid (decoded (DBConfig w)), CaCrt = crt, CaKey = key\<rparr> y" "core y = core x" "\<exists>t. trace y = trace x @ t" by auto
  have "published w y" using published_later [OF published_later [OF p gf(2,5)], of y] core_fields [OF y(2)] y(3) by simp
  moreover have "DBConfig y = decoded (DBConfig w)" using core_fields [OF y(2)] gf(1) dc by simp
  moreover have "Hostname ` set (members y) = Hostname ` set (members w) \<union> NodeHostname ` snd ` set (entries (Nodes (DBConfig w)))"
    using core_hostnames [OF y(2) gf(6)] h core_hostnames [OF c] assms(1) dc by (simp add: wf_def)
  moreover have "admit uid w = Ret \<lparr>Success = True, Message = ''Successfully added '', ErrorCode = 0,
      JoinedConfig = Valid (decoded (DBConfig w)), CaCrt = crt, CaKey = key\<rparr> y" using u x y(1) by (simp add: admit_def)
  ultimately show ?thesis by blast
qed

lemma Join_admits_run:
  assumes "wf w" and "linked False (Members w) w" and "\<not> cfg_lock w" and "ClusterCheck (DBConfig w)"
    and "SHA256StringValidation (env w) (JoinToken req) (ClusterToken (Pulse (DBConfig w)))"
    and "JoinConfig req = Valid node" and "wf_node node" and "lookup (Nodes (DBConfig w)) (JoinUid req) = None"
    and c: "c = (DBConfig w)\<lparr>Nodes := put (Nodes (DBConfig w)) (JoinUid req) node\<rparr>"
    and "Validate (hostname_cmd (env w)) c = None" and "write_error (env w) = None"
    and "read_cert w ''ca.crt'' = Inr crt" and "read_cert w ''ca.key'' = Inr key"
  shows "\<exists>v. Server_Join req w = Ret (Inr \<lparr>Success = True, Message = ''Successfully added '', ErrorCode = 0,
      JoinedConfig = Valid (decoded c), CaCrt = crt, CaKey = key\<rparr>) v \<and> published (w\<lparr>DBConfig := c\<rparr>) v \<and> DBConfig v = decoded c \<and>
      Hostname ` set (members v) = Hostname ` set (members w) \<union> NodeHostname ` snd ` set (entries (Nodes c))"
proof -
  from assms(4) have nil: "\<not> is_nil (Nodes (DBConfig w))" by (cases "Nodes (DBConfig w)") (auto simp: ClusterCheck_def mlen_def)
  let ?w = "w\<lparr>DBConfig := c\<rparr>"
  have cl: "w\<lparr>cfg_lock := False\<rparr> = w" using assms(3) by simp
  have add: "nodeAdd (JoinUid req) node w = Ret None ?w"
    using assms(3,8) nil cl
    by (simp add: nodeAdd_def nodeExistsByUUID_lookup locked_cfg_def lock_cfg_run unlock_cfg_def c set_config_def)
  have "wf_config c" using assms(1,7) unfolding c by (simp add: wf_def wf_config_def map_ok_put)
  then have wfw: "wf ?w" using assms(1) by (simp add: wf_def)
  from assms(2) have l: "linked False (Members ?w) ?w" by (simp add: linked_def)
  have rc: "read_cert ?w = read_cert w" by (rule core_read_cert) simp_all
  from admit_run [OF wfw l, of crt key "JoinUid req"] assms(3,10-13) rc obtain v where
    "admit (JoinUid req) ?w = Ret \<lparr>Success = True, Message = ''Successfully added '', ErrorCode = 0,
      JoinedConfig = Valid (decoded c), CaCrt = crt, CaKey = key\<rparr> v" "published ?w v" "DBConfig v = decoded c"
    "Hostname ` set (members v) = Hostname ` set (members w) \<union> NodeHostname ` snd ` set (entries (Nodes c))" by auto
  moreover have "\<not> nodeExistsByUUID (DBConfig w) (JoinUid req)" using assms(8) by (simp add: nodeExistsByUUID_lookup)
  ultimately show ?thesis using assms(4-7) add by (auto simp: Server_Join_def parse_node_wf Let_def)

qed

text \<open>\<^bold>\<open>C22.\<close> A node that knows the token and whose uid is new is admitted: the call returns success with the new
  config and the CA, the config has the node under its uid and is unchanged otherwise, it is on
  disk, it was sent to every other member, and the node is in the member list. The handler reads the
  file back, so that the plugin sections in memory and in the answer are the decoded ones.\<close>


theorem Join_admits:
  assumes "wf w" and "linked False (Members w) w" and "\<not> cfg_lock w" and "ClusterCheck (DBConfig w)"
    and "SHA256StringValidation (env w) (JoinToken req) (ClusterToken (Pulse (DBConfig w)))"
    and "JoinConfig req = Valid node" and "wf_node node" and "lookup (Nodes (DBConfig w)) (JoinUid req) = None"
    and c: "c = (DBConfig w)\<lparr>Nodes := put (Nodes (DBConfig w)) (JoinUid req) node\<rparr>"
    and "Validate (hostname_cmd (env w)) c = None" and "write_error (env w) = None"
    and "read_cert w ''ca.crt'' = Inr crt" and "read_cert w ''ca.key'' = Inr key"
  shows "\<exists>v. Server_Join req w = Ret (Inr \<lparr>Success = True, Message = ''Successfully added '', ErrorCode = 0,
      JoinedConfig = Valid (decoded c), CaCrt = crt, CaKey = key\<rparr>) v \<and> published (w\<lparr>DBConfig := c\<rparr>) v \<and> DBConfig v = decoded c \<and>
      Hostname ` set (members v) = Hostname ` set (members w) \<union> NodeHostname ` snd ` set (entries (Nodes c))"
  using Join_admits_run [OF assms(1-8) c assms(10-13)] .

definition ex_join :: JoinRequest where
  "ex_join = \<lparr>JoinBindIp = '''', JoinBindPort = '''', JoinIp = '''', JoinPort = '''', JoinReplicated = False,
     JoinConfig = Valid (ex_node ''gamma'' ''10.0.0.13''), JoinToken = ''secret'', JoinUid = ''u3''\<rparr>"

theorem Join_admits_witness:
  "\<exists>c v. Server_Join ex_join ex_world = Ret (Inr \<lparr>Success = True, Message = ''Successfully added '', ErrorCode = 0,
      JoinedConfig = Valid (decoded c), CaCrt = ''Cca'', CaKey = ''Kca''\<rparr>) v \<and> published (ex_world\<lparr>DBConfig := c\<rparr>) v \<and> DBConfig v = decoded c \<and>
      Hostname ` set (members v) = {''alpha'', ''beta'', ''gamma''}"
proof -
  define c where "c = ex_config\<lparr>Nodes := put (Nodes ex_config) ''u3'' (ex_node ''gamma'' ''10.0.0.13'')\<rparr>"
  have c: "c = (DBConfig ex_world)\<lparr>Nodes := put (Nodes (DBConfig ex_world)) (JoinUid ex_join) (ex_node ''gamma'' ''10.0.0.13'')\<rparr>"
    by (simp add: c_def ex_join_def)
  have "Validate (hostname_cmd (env ex_world)) c = None"
    by (simp add: c_def Validate_None_iff put_def)
  moreover have "read_cert ex_world ''ca.crt'' = Inr ''Cca''" "read_cert ex_world ''ca.key'' = Inr ''Kca''"
    by (simp_all add: read_cert_def lookup_def)
  moreover have "wf_node (ex_node ''gamma'' ''10.0.0.13'')" by (simp add: wf_node_def wf_map_def keys_def)
  moreover have "NodeHostname ` snd ` set (entries (Nodes c)) = {''alpha'', ''beta'', ''gamma''}"
    by (auto simp: c_def put_def)
  ultimately show ?thesis
    using Join_admits [OF wf_ex_world _ _ _ _ _ _ _ c, of "''Cca''" "''Kca''"] linked_ex
    by (auto simp: ex_join_def SHA256StringValidation_def GenerateSHA256Hash_def ClusterCheck_def mlen_def lookup_def
        members_def member_def insert_commute)
qed

text \<open>\<^bold>\<open>C23.\<close> Nobody is admitted without the token, to a daemon that is not in a cluster, with a node that
  does not parse, or under a uid that is taken: the call returns a failure without the CA, and
  nothing has changed.\<close>

theorem Join_refused:
  assumes "wf w" and "linked False (Members w) w"
    and "\<not> ClusterCheck (DBConfig w) \<or> \<not> SHA256StringValidation (env w) (JoinToken req) (ClusterToken (Pulse (DBConfig w))) \<or>
      (\<exists>e. JoinConfig req = Invalid e) \<or> lookup (Nodes (DBConfig w)) (JoinUid req) \<noteq> None"
  shows "\<exists>msg v. Server_Join req w = Ret (Inr (join_failed msg 0)) v \<and> core v = core w \<and> logged_since (trace w) v"
proof -
  let ?m = "JoinUid req @ '' attempted to join with an invalid cluster token''"
  from safe_totalD [OF sound_Logging(1) assms(2)] obtain u where u: "Logging_Warn ?m w = Ret () u" by auto
  note q = quietD [OF quiet_Logging(1) u] safeD [OF logged_since_Logging(1) logged_since_refl u]
  have ex: "nodeExistsByUUID (DBConfig w) (JoinUid req) \<longleftrightarrow> lookup (Nodes (DBConfig w)) (JoinUid req) \<noteq> None"
    by (simp add: nodeExistsByUUID_lookup)
  show ?thesis
  proof (cases "ClusterCheck (DBConfig w) \<and> \<not> SHA256StringValidation (env w) (JoinToken req) (ClusterToken (Pulse (DBConfig w)))")
    case True
    with u q show ?thesis by (auto simp: Server_Join_def)
  next
    case False
    with assms(3) ex show ?thesis
      by (cases "JoinConfig req") (auto simp: Server_Join_def logged_since_refl)
  qed
qed

theorem Join_refused_witness:
  "\<exists>msg v. Server_Join (ex_join\<lparr>JoinUid := ''u1''\<rparr>) ex_world = Ret (Inr (join_failed msg 0)) v \<and> core v = core ex_world \<and> logged_since [] v"
  using Join_refused [OF wf_ex_world, of "ex_join\<lparr>JoinUid := ''u1''\<rparr>"] linked_ex by (simp add: lookup_def)

section \<open>Calls of known nodes\<close>

lemma authorized_known:
  assumes "wf w" and "known_peer (DBConfig w) peer"
  shows "authorized peer k w = k w"
proof -
  from assms(1) have nodes: "wf_map (Nodes (DBConfig w))" by (simp add: wf_def wf_config_def map_ok_def)
  from assms(2) obtain p where p: "peer = Some p" and ip: "PeerIp p \<in> IP ` snd ` set (entries (Nodes (DBConfig w)))"
    by (auto simp: known_peer_def)
  from ip known_address [OF nodes, of "order_at w ''GetNodeHostnameByAddress''" "PeerIp p"]
  obtain h where "GetNodeHostnameByAddress (order_at w ''GetNodeHostnameByAddress'') (DBConfig w) (PeerIp p) = Inr h"
    by (cases "GetNodeHostnameByAddress (order_at w ''GetNodeHostnameByAddress'') (DBConfig w) (PeerIp p)") blast+
  with p show ?thesis by (simp add: authorized_def CanCommunicate_def)
qed


lemma wf_keep_local: "wf_config l \<Longrightarrow> wf_config n \<Longrightarrow> wf_config (keep_local l n)"
  by (simp add: keep_local_def wf_config_def)

lemma ConfigSync_run:
  assumes "wf w" and "\<not> ml_lock w" and "\<not> cfg_lock w" and "known_peer (DBConfig w) peer"
    and "SyncConfigDoc req = Valid new" and "wf_config new" and c: "c = new\<lparr>Pulse := Pulse (DBConfig w), PluginConfigs := PluginConfigs (DBConfig w)\<rparr>"
    and "Validate (hostname_cmd (env w)) c = None" and "write_error (env w) = None"
  shows "\<exists>v. Server_ConfigSync peer req w = Ret (Inr (reply True '''' 0)) v \<and> DBConfig v = decoded c \<and> disk v = ConfigFile (Valid c) \<and>
    Hostname ` set (members v) = Hostname ` set (members w) \<union> NodeHostname ` snd ` set (entries (Nodes new)) \<and> wf v \<and>
    grown (w\<lparr>DBConfig := decoded c, disk := ConfigFile (Valid c), trace := trace w @ [WroteConfig c]\<rparr>) v"
proof -
  let ?u = "w\<lparr>DBConfig := c, disk := ConfigFile (Valid c), trace := trace w @ [WroteConfig c]\<rparr>"
  have cl: "w\<lparr>cfg_lock := False\<rparr> = w" using assms(3) by simp
  have ck: "c = keep_local (DBConfig w) (decoded new)" by (simp add: c keep_local_def decoded_def)
  have wfc: "wf_config c" using assms(1,6) unfolding ck by (intro wf_keep_local) (simp_all add: wf_def)
  have set: "SetConfig c w = Ret () (w\<lparr>DBConfig := c\<rparr>)"
    using assms(3) cl by (simp add: SetConfig_def locked_cfg_def lock_cfg_run unlock_cfg_def)
  have save: "Save (w\<lparr>DBConfig := c\<rparr>) = Ret None ?u"
    using Save_ok [of "w\<lparr>DBConfig := c\<rparr>"] assms(3,8,9) by simp
  have wfu: "wf ?u" using assms(1) wfc by (simp add: wf_def wf_disk_def wf_members_def members_def member_def)
  from Reload_members [OF wfu] assms(2,3,8) obtain v where v: "MemberList_Reload ?u = Ret () v" "grown (?u\<lparr>DBConfig := decoded c\<rparr>) v"
    "Hostname ` set (members v) = Hostname ` set (members w) \<union> NodeHostname ` snd ` set (entries (Nodes c))" by auto
  have "Server_ConfigSync peer req w = Ret (Inr (reply True '''' 0)) v"
    using v(1) set save assms(5) unmarshal_empty [OF assms(6)] ck
    by (simp add: Server_ConfigSync_def authorized_known [OF assms(1,4)])
  moreover have "wf v" using v(2) wfu wfc by (simp add: grown_def wf_def wf_disk_def)
  moreover have "Nodes c = Nodes new" by (simp add: c)
  ultimately show ?thesis using v(2,3) by (auto simp: grown_def)
qed

text \<open>\<^bold>\<open>C24.\<close> A config that another node sends is taken over except for the local section and the plugin
  section, which stay; when it validates, it is on disk afterwards and all its nodes are members. The
  config in memory is the one of the file, its plugin sections decoded.\<close>

theorem ConfigSync_spec:
  assumes "wf w" and "\<not> ml_lock w" and "\<not> cfg_lock w" and "known_peer (DBConfig w) peer"
    and "SyncConfigDoc req = Valid new" and "wf_config new" and c: "c = new\<lparr>Pulse := Pulse (DBConfig w), PluginConfigs := PluginConfigs (DBConfig w)\<rparr>"
    and "Validate (hostname_cmd (env w)) c = None" and "write_error (env w) = None"
  shows "\<exists>v. Server_ConfigSync peer req w = Ret (Inr (reply True '''' 0)) v \<and> DBConfig v = decoded c \<and> disk v = ConfigFile (Valid c) \<and>
    Hostname ` set (members v) = Hostname ` set (members w) \<union> NodeHostname ` snd ` set (entries (Nodes new)) \<and> wf v"

  using ConfigSync_run [OF assms(1-6) c assms(8,9)] by blast

definition ex_peer :: Peer where
  "ex_peer = \<lparr>PeerIp = ''10.0.0.12'', AuthInfo = TLSInfo True\<rparr>"

lemma known_ex_peer: "known_peer ex_config (Some ex_peer)"
  by (simp add: known_peer_def ex_peer_def)

theorem ConfigSync_spec_witness:
  "\<exists>v. Server_ConfigSync (Some ex_peer) \<lparr>SyncReplicated = True, SyncConfigDoc = Valid (ex_config\<lparr>Pulse := Pulse defaultConfig\<rparr>)\<rparr> ex_world
     = Ret (Inr (reply True '''' 0)) v \<and> DBConfig v = ex_config \<and> disk v = ConfigFile (Valid ex_config)"
proof -
  have ex: "ex_config\<lparr>PluginConfigs := Some []\<rparr> = ex_config" by (simp add: ex_config_def defaultConfig_def)
  have "wf_config (ex_config\<lparr>Pulse := Pulse defaultConfig\<rparr>)" using wf_ex_config by (simp add: wf_config_def)
  then show ?thesis
    using ConfigSync_spec [OF wf_ex_world, of "Some ex_peer" "\<lparr>SyncReplicated = True, SyncConfigDoc = Valid (ex_config\<lparr>Pulse := Pulse defaultConfig\<rparr>)\<rparr>",
      OF _ _ _ _ _ refl] known_ex_peer Validate_ex by (auto simp: ex)

qed

text \<open>What the handler does on a standby: the time of the last health check, and then \<^verbatim>\<open>Update\<close>.\<close>

lemma HealthCheck_standby_run:
  assumes "wf w" and "\<not> ml_lock w" and "known_peer (DBConfig w) peer" and "GetLocalNode (DBConfig w) = Inr node"
    and "find_member w (NodeHostname node) = Some r" and "NodeHostname node \<noteq> ''''"
    and "fst (GetActiveMember w) \<noteq> NodeHostname node" and "distinct (map MlHostname (Memberlist req))"
  shows "\<exists>v. Server_HealthCheck peer req w = Ret (Inr \<lparr>HcScore = int32 (Score (member w r))\<rparr>) v \<and>
    Update (Memberlist req) (update_member r (\<lambda>m. m\<lparr>LastHCResponse := now (env w)\<rparr>) w) = Ret () v \<and> same_but_members w v \<and>
    member v r = (taken_over (NodeHostname node) (Memberlist req) w r)\<lparr>LastHCResponse := now (env w)\<rparr> \<and>
    (\<forall>q \<in> set (Members w). q \<noteq> r \<longrightarrow> member v q = taken_over (NodeHostname node) (Memberlist req) w q)"
proof -
  let ?h = "NodeHostname node"
  let ?u = "update_member r (\<lambda>m. m\<lparr>LastHCResponse := now (env w)\<rparr>) w"
  from find_member_SomeD [OF assms(5)] have r: "r \<in> set (Members w)" "Hostname (member w r) = ?h" by auto
  with assms(1) have len: "r < length (heap w)" by (auto simp: wf_def wf_members_def)
  have wfu: "wf ?u" using assms(1) by (subst wf_update_member) simp_all
  from Update_run [OF wfu, of node "Memberlist req"] assms(2,4,8) obtain v where
    v: "Update (Memberlist req) ?u = Ret () v" "same_but_members ?u v"
      "\<forall>q \<in> set (Members w). member v q = taken_over ?h (Memberlist req) ?u q" by auto
  have mem: "member ?u q = (if q = r then (member w r)\<lparr>LastHCResponse := now (env w)\<rparr> else member w q)" for q
    by (rule member_update_member [OF len])
  have mv: "member v r = taken_over ?h (Memberlist req) ?u r" using v(3) r(1) by blast
  have tk: "member v r = (taken_over ?h (Memberlist req) w r)\<lparr>LastHCResponse := now (env w)\<rparr>"
    unfolding mv taken_over_def mem using r(2)
    by (auto simp: take_over_def split: option.split dest!: find_SomeD)
  have sc: "Score (member v r) = Score (member w r)"
    unfolding tk using r(2) by (simp add: taken_over_def take_over_def split: option.split)
  have "taken_over ?h (Memberlist req) ?u q = taken_over ?h (Memberlist req) w q" if "q \<noteq> r" for q
    using that by (simp add: taken_over_def mem split: option.split)
  moreover have "Server_HealthCheck peer req w = Ret (Inr \<lparr>HcScore = int32 (Score (member w r))\<rparr>) v"
    using assms(2,4-7) v(1) sc r(2)
    by (simp add: Server_HealthCheck_def authorized_known [OF assms(1,3)] GetLocalMember_run standby_update_def
        GetMemberByHostname_run with_ref_def SetLastHCResponse_def)
  moreover have "same_but_members w v"
  proof (rule same_but_members_trans [OF _ v(2)])
    have "?u\<lparr>trace := trace w\<rparr> = ?u" by (simp add: update_member_def)
    then show "same_but_members w ?u" using same_but_members_update by metis
  qed
  ultimately show ?thesis using v(1,3) tk by auto
qed

text \<open>\<^bold>\<open>C25.\<close> A health check that a standby receives from a node of the cluster is answered with the
  standby's score, and it restarts the time after which the standby would fail over. The members
  take over what the sender says about them; the own time is not taken from the list.\<close>

theorem HealthCheck_standby:
  assumes "wf w" and "\<not> ml_lock w" and "known_peer (DBConfig w) peer" and "GetLocalNode (DBConfig w) = Inr node"
    and "find_member w (NodeHostname node) = Some r" and "NodeHostname node \<noteq> ''''"
    and "fst (GetActiveMember w) \<noteq> NodeHostname node" and "distinct (map MlHostname (Memberlist req))"
  shows "\<exists>v. Server_HealthCheck peer req w = Ret (Inr \<lparr>HcScore = int32 (Score (member w r))\<rparr>) v \<and>
    LastHCResponse (member v r) = now (env w) \<and> Members v = Members w \<and>
    (\<forall>q \<in> set (Members w). q \<noteq> r \<longrightarrow> member v q = taken_over (NodeHostname node) (Memberlist req) w q)"
  using HealthCheck_standby_run [OF assms] same_but_members_fields(1) by fastforce

theorem HealthCheck_standby_witness:
  "\<exists>v. Server_HealthCheck (Some ex_peer) \<lparr>Memberlist = [\<lparr>MlHostname = ''beta'', MlStatus = ACTIVE, MlLastReceived = '''', MlLatency = ''1ms'', MlScore = 7\<rparr>]\<rparr> ex_standby
     = Ret (Inr \<lparr>HcScore = 2\<rparr>) v \<and> LastHCResponse (member v 0) = 5000000000"
proof -
  have "find_member ex_standby ''alpha'' = Some 0" "fst (GetActiveMember ex_standby) = ''beta''"
    by (simp_all add: find_member_def member_def GetActiveMember_def)
  moreover have "int32 2 = 2" by code_simp
  ultimately show ?thesis
    using HealthCheck_standby [OF wf_ex_standby, of "Some ex_peer" "ex_node ''alpha'' ''10.0.0.11''" 0
        "\<lparr>Memberlist = [\<lparr>MlHostname = ''beta'', MlStatus = ACTIVE, MlLastReceived = '''', MlLatency = ''1ms'', MlScore = 7\<rparr>]\<rparr>"]
      known_ex_peer GetLocalNode_ex
    by (auto simp: member_def)

qed

text \<open>A call to remove another node of the cluster takes it out of the member list but not out of the
  config, because the node is looked up by its host name where the registry has its uid: the
  caller is told that the node was not found, and the file is not written.\<close>

theorem Remove_keeps_config:
  assumes "wf w" and "\<not> ml_lock w" and "known_peer (DBConfig w) peer" and "GetHostname (hostname_cmd (env w)) = Inr h"
    and "RemoveHostname req \<noteq> h" and "RemoveHostname req \<noteq> ''''" and "find_member w (RemoveHostname req) = Some r"
    and "lookup (Nodes (DBConfig w)) (RemoveHostname req) = None"
  shows "\<exists>v. Server_Remove peer req w = Ret (Inr (reply False CLUSTER_NODE_NOTFOUND 0)) v \<and>
    find_member v (RemoveHostname req) = None \<and> DBConfig v = DBConfig w \<and> disk v = disk w"
proof -
  let ?u = "(with_status r LEAVING w)\<lparr>trace := trace w @ status_events (with_status r LEAVING w)\<rparr>"
  have u: "wf ?u" "\<not> ml_lock ?u" "DBConfig ?u = DBConfig w" "disk ?u = disk w"
    using assms(1,2) by (simp_all add: with_status_def wf_update_member)
  from MemberRemove_run [OF wf_wf_members [OF u(1)] u(2), of "RemoveHostname req"] obtain v where
    v: "MemberRemoveByHostname (RemoveHostname req) ?u = Ret () v"
      "v = ?u\<lparr>Members := filter (\<lambda>r. Hostname (member ?u r) \<noteq> RemoveHostname req) (Members ?u)\<rparr>" by auto
  have "find_member v (RemoveHostname req) = None"
    unfolding find_member_def v(2) by (auto simp: find_None_iff)
  moreover have "Server_Remove peer req w = Ret (Inr (reply False CLUSTER_NODE_NOTFOUND 0)) v"
    using assms(2,4-8) v(1)
    by (simp add: Server_Remove_def authorized_known [OF assms(1,3)] GetMemberByHostname_run with_ref_def SetStatus_run
        nodeDelete_def nodeExistsByUUID_lookup v(2) with_status_def)
  ultimately show ?thesis using u(3,4) by (auto simp: v(2))
qed

theorem Remove_keeps_config_witness:
  "\<exists>v. Server_Remove (Some ex_peer) \<lparr>RemoveReplicated = True, RemoveHostname = ''beta''\<rparr> ex_world =
     Ret (Inr (reply False CLUSTER_NODE_NOTFOUND 0)) v \<and> find_member v ''beta'' = None \<and> DBConfig v = ex_config"
proof -
  have "find_member ex_world ''beta'' = Some 1" by (simp add: find_member_def member_def)
  then show ?thesis
    using Remove_keeps_config [OF wf_ex_world, of "Some ex_peer" "''alpha''" "\<lparr>RemoveReplicated = True, RemoveHostname = ''beta''\<rparr>" 1]
      known_ex_peer by (auto simp: lookup_def)
qed

end
