(* ===== verification/CliServer.thy ===== *)
theory CliServer
  imports Server
begin

text \<open>
  The command line server of the daemon, \<^verbatim>\<open>src/pulseha/cli_server.go\<close>: one definition per command
  that \<^verbatim>\<open>pulsectl\<close> can send. The server listens on the loopback interface only and holds its own
  mutex during a command, so commands run one after the other. Messages of the process-local
  logger are left out, and so is closing the client of a join, which nothing can see afterwards.
\<close>

section \<open>Replies\<close>

record TokenResponse = Response +
  Token :: string

record GroupRow =
  GroupName :: string
  GroupIps :: "string list"
  GroupNodes :: "string list"
  GroupInterfaces :: "string list"

record GroupTable = Response +
  GroupRows :: "GroupRow list"

record StatusRow =
  RowHostname :: string
  RowIp :: string
  RowLatency :: string
  RowStatus :: Status
  RowLastReceived :: string
  RowScore :: int

record StatusTable = Response +
  StatusRows :: "StatusRow list"

definition token_reply :: "bool \<Rightarrow> string \<Rightarrow> int \<Rightarrow> string \<Rightarrow> TokenResponse" where
  "token_reply s m e t = \<lparr>Success = s, Message = m, ErrorCode = e, Token = t\<rparr>"

text \<open>Most commands are refused outside a cluster, with the error code 1.\<close>

definition in_cluster :: "Response go \<Rightarrow> Response go" where
  "in_cluster k = reading (\<lambda>w. ClusterCheck (DBConfig w)) (\<lambda>cluster.
     if \<not> cluster then ret (reply False CLUSTER_REQUIRED_MESSAGE 1) else k)"

text \<open>A save whose error is only logged locally, and the broadcast of the config.\<close>

definition save_and_sync :: "unit go" where
  "save_and_sync = thn Save (thn SyncConfig skip)"

section \<open>Cluster commands\<close>

text \<open>The check of a port drops the error of \<^verbatim>\<open>strconv.Atoi\<close>.\<close>

definition port_in_range :: "string \<Rightarrow> bool" where
  "port_in_range port \<longleftrightarrow> 1 \<le> fst (Atoi port) \<and> fst (Atoi port) \<le> 65535"


definition install_ca :: "string \<Rightarrow> JoinResponse \<Rightarrow> string option go" where
  "install_ca bindIp r =
     thn CreateFolder
    (thn (WriteCertFile ''ca'' (CaCrt r))
    (thn (WriteKeyFile ''ca'' (CaKey r))
         (GenTLSKeys bindIp)))"

definition adopt_config :: "JoinResponse \<Rightarrow> JoinResponse go" where
  "adopt_config r = (case unmarshal_into (JoinedConfig r) emptyConfig of
     Inl _ \<Rightarrow> ret (join_failed ''Unable to unmarshal config node.'' 7)
   | Inr peerConfig \<Rightarrow> reading DBConfig (\<lambda>local.
       thn (SetConfig (keep_local local peerConfig))
      (bnd Save (\<lambda>err. case err of
         Some _ \<Rightarrow> ret (join_failed ''Failed to write config. Joined failed.'' 8)
       | None \<Rightarrow>
           thn Reload_config
          (thn (emit (Started TaskServerSetup))
          (bnd GetLocalMember (\<lambda>(localMember, _).
           reading (\<lambda>w. now (env w)) (\<lambda>t.
           thn (SetLastHCResponse localMember t)
               (ret \<lparr>Success = True, Message = ''Successfully joined cluster'', ErrorCode = 0,
                  JoinedConfig = Invalid ''unexpected end of JSON input'', CaCrt = '''', CaKey = ''''\<rparr>)))))))))"

definition local_definition :: "string \<Rightarrow> string \<Rightarrow> string \<Rightarrow> (string \<times> Node) option go" where
  "local_definition localHostname bindIp bindPort =
     reading (\<lambda>w. nodeGetByHostname (order_at w ''nodeGetByHostname'') (DBConfig w) localHostname) (\<lambda>found. case found of
       Inr (uid, node) \<Rightarrow> ret (Some (uid, node))
     | Inl _ \<Rightarrow> bnd (nodeCreateLocal bindIp bindPort False) (\<lambda>made. case made of
         Inl _ \<Rightarrow> ret None
       | Inr (uid, node) \<Rightarrow> ret (Some (uid, node))))"

definition join_peer :: "JoinRequest \<Rightarrow> Client \<Rightarrow> string \<times> Node \<Rightarrow> JoinResponse go" where
  "join_peer req c = (\<lambda>(uid, node).
     bnd (Client_Send (JoinIp req @ '':'' @ JoinPort req) SendJoin
            (ReqJoin \<lparr>JoinBindIp = '''', JoinBindPort = '''', JoinIp = '''', JoinPort = '''', JoinReplicated = False,
               JoinConfig = Valid node, JoinToken = JoinToken req, JoinUid = uid\<rparr>) c) (\<lambda>res. case res of
       Inl _ \<Rightarrow> ret (join_failed ''Join failure. Unable to connect to host.'' 4)
     | Inr (RespJoin r) \<Rightarrow>
         if \<not> Success r then ret (join_failed (Message r) 5)
         else bnd (install_ca (JoinBindIp req) r) (\<lambda>err. case err of
           Some e \<Rightarrow> ret (join_failed e 6)
         | None \<Rightarrow> adopt_config r)
     | Inr _ \<Rightarrow> crash_with TypeAssertion))"

definition Cli_Join :: "JoinRequest \<Rightarrow> JoinResponse go" where
  "Cli_Join req = reading (\<lambda>w. ClusterCheck (DBConfig w)) (\<lambda>cluster.
     if cluster then ret (join_failed ''Unable to join as PulseHA is already in a cluster.'' 9)
     else if \<not> port_in_range (JoinBindPort req) then ret (join_failed ''Invalid port range'' 9)
     else reading (\<lambda>w. Client_Connect w (JoinIp req) (JoinPort req) False newClient) (\<lambda>(err, c). case err of
       Some e \<Rightarrow> ret (join_failed e 0)
     | None \<Rightarrow> reading (\<lambda>w. GetHostname (hostname_cmd (env w))) (\<lambda>local. case local of
         Inl e \<Rightarrow> ret (join_failed e 10)
       | Inr localHostname \<Rightarrow>
           bnd (local_definition localHostname (JoinBindIp req) (JoinBindPort req)) (\<lambda>def. case def of
             None \<Rightarrow> ret (join_failed ''Join failure. Unable to generate local node definition'' 1)
           | Some d \<Rightarrow> join_peer req c d))))"

definition Cli_Leave :: "Response go" where
  "Cli_Leave = in_cluster (reading (\<lambda>w. (GetLocalNode (DBConfig w), NodeCount (DBConfig w))) (\<lambda>(localNode, n). case localNode of
     Inl _ \<Rightarrow> ret (reply False CLUSTER_REQUIRED_MESSAGE 3)
   | Inr node \<Rightarrow>
       thn (if n > 1 then thn (Broadcast SendLeave (ReqLeave \<lparr>LeaveReplicated = True, LeaveHostname = NodeHostname node\<rparr>)) skip else skip)
      (thn Server_Shutdown
      (thn nodesClearLocal
      (thn groupClearLocal
      (bnd Save (\<lambda>err. case err of
         Some _ \<Rightarrow> ret (reply False ''PulseHA successfully removed from cluster but could not update local config'' 2)
       | None \<Rightarrow>
           thn DeleteFolder
          (reading (\<lambda>w. NodeCount (DBConfig w)) (\<lambda>n.
             ret (reply True (if n = 1 then ''Successfully dismantled cluster'' else ''Successfully left from cluster'') 0))))))))))"

definition Cli_Remove :: "string \<Rightarrow> Response go" where
  "Cli_Remove hostname = in_cluster (reading (\<lambda>w. (fst (GetActiveMember w), NodeCount (DBConfig w))) (\<lambda>(activeHostname, n).
     if hostname = activeHostname
     then ret (reply False ''Unable to remove active node. Please promote another node and try again'' 2)
     else
       thn (if n > 1 then thn (Broadcast SendRemove (ReqRemove \<lparr>RemoveReplicated = True, RemoveHostname = hostname\<rparr>)) skip else skip)
      (reading (\<lambda>w. (GetLocalNode (DBConfig w), GetNodeByHostname (order_at w ''GetNodeByHostname'') (DBConfig w) hostname)) (\<lambda>(localNode, found).
       case localNode of
         Inl _ \<Rightarrow> ret (reply False ''Unable to retrieve local node from configuration'' 5)
       | Inr node \<Rightarrow> (case found of
           Inl _ \<Rightarrow> ret (reply False (''Unable to retrieve '' @ hostname @ '' from local configuration'') 3)
         | Inr (uid, _) \<Rightarrow>
             bnd (GetMemberByHostname hostname) (\<lambda>found. with_ref found (\<lambda>r.
             thn (SetStatus r LEAVING)
            (bnd (if hostname = NodeHostname node
                  then thn Server_Shutdown (thn nodesClearLocal (thn groupClearLocal (ret None)))
                  else thn (MemberRemoveByHostname hostname) (nodeDelete uid)) (\<lambda>err. case err of
               Some e \<Rightarrow> ret (reply False e 4)
             | None \<Rightarrow> thn Save (ret (reply True ''Successfully left from cluster'' 0)))))))))))"

definition create_message :: "string \<Rightarrow> string \<Rightarrow> string \<Rightarrow> string" where
  "create_message token bindIp bindPort =
     ''Pulse cluster successfully created!'' @ [CHR 0x0A, CHR 0x09, CHR 0x0A] @
     ''You can now join any number of machines by running the following on each node:'' @ [CHR 0x0A, CHR 0x0A] @
     ''pulsectl join -bind-ip=<IP_ADDRESS> -bind-port=<PORT> -token='' @ token @ '' '' @ bindIp @ '' '' @ bindPort @
     [CHR 0x0A, CHR 0x09, CHR 0x09, CHR 0x09]"

text \<open>The new token is kept as its hash only.\<close>

definition new_token :: "string go" where
  "new_token = bnd (generateRandomString 20) (\<lambda>token.
     reading (\<lambda>w. GenerateSHA256Hash (env w) token) (\<lambda>hash.
     thn (modify (set_config (\<lambda>c. c\<lparr>Pulse := (Pulse c)\<lparr>ClusterToken := hash\<rparr>\<rparr>))) (ret token)))"

definition Cli_Create :: "string \<Rightarrow> string \<Rightarrow> TokenResponse go" where
  "Cli_Create bindIp bindPort = reading (\<lambda>w. ClusterCheck (DBConfig w)) (\<lambda>cluster.
     if cluster then ret (token_reply False ''Pulse daemon is already in a configured cluster'' 2 '''')
     else if \<not> port_in_range bindPort then ret (token_reply False ''Invalid port range'' 3 '''')
     else
       thn nodesClearLocal
      (thn groupClearLocal
      (bnd (nodeCreateLocal bindIp bindPort True) (\<lambda>made. case made of
         Inl _ \<Rightarrow> ret (token_reply False ''Failed write local not to config'' 1 '''')
       | Inr _ \<Rightarrow>
           bnd new_token (\<lambda>token.
           bnd Save (\<lambda>err. case err of
             Some e \<Rightarrow> crash_with (Panic e)
           | None \<Rightarrow>
               thn (GenerateCACert bindIp)
              (bnd (GenTLSKeys bindIp) (\<lambda>err. case err of
                 Some e \<Rightarrow> crash_with (Panic e)
               | None \<Rightarrow>
                   thn (emit (Started TaskServerSetup))
                       (ret (token_reply True (create_message token bindIp bindPort) 0 ''''))))))))))"


section \<open>Group commands\<close>

definition Cli_NewGroup :: "string \<Rightarrow> Response go" where
  "Cli_NewGroup name = in_cluster (bnd (groupNew name) (\<lambda>groupName.
     thn save_and_sync (ret (reply True (groupName @ '' successfully added.'') 0))))"

definition Cli_DeleteGroup :: "string \<Rightarrow> Response go" where
  "Cli_DeleteGroup name = in_cluster (bnd (groupDelete name) (\<lambda>err. case err of
     Some e \<Rightarrow> ret (reply False e 2)
   | None \<Rightarrow> thn save_and_sync (ret (reply True (name @ '' successfully deleted.'') 0))))"

text \<open>The IPs of a group are then brought up or down on the active member, through a call even where it is
  this daemon. \<^verbatim>\<open>SyncConfig\<close> has no error to return.\<close>

definition active_group :: "string \<Rightarrow> (nat \<Rightarrow> string + string \<Rightarrow> Response go) \<Rightarrow> Response go" where
  "active_group name k = reading GetActiveMember (\<lambda>(activeHostname, activeMember).
     with_ref activeMember (\<lambda>a. bnd (Connect a) (\<lambda>err. case err of
       Some e \<Rightarrow> k a (Inl e)
     | None \<Rightarrow> k a (Inr activeHostname))))"

definition group_iface :: "world \<Rightarrow> string \<Rightarrow> string \<Rightarrow> string + string" where
  "group_iface w hostname name =
     GetGroupIface (order_at w ''GetGroupIface nodes'') (order_at w ''GetGroupIface ifaces'') (DBConfig w) hostname name"

definition Cli_GroupIPAdd :: "string \<Rightarrow> string list \<Rightarrow> Response go" where
  "Cli_GroupIPAdd name ips = in_cluster (bnd (groupIpAdd name ips) (\<lambda>err. case err of
     Some e \<Rightarrow> ret (reply False e 2)
   | None \<Rightarrow> thn save_and_sync (active_group name (\<lambda>a connected. case connected of
       Inl e \<Rightarrow> ret (reply False e 3)
     | Inr activeHostname \<Rightarrow> reading (\<lambda>w. group_iface w activeHostname name) (\<lambda>found. case found of
         Inl e \<Rightarrow> ret (reply False e 6)
       | Inr iface \<Rightarrow> bnd (Send a SendBringUpIP (ReqBringUpIP \<lparr>UpIface = iface, UpIps = ips\<rparr>)) (\<lambda>res. case res of
           Inl e \<Rightarrow> ret (reply False e 4)
         | Inr _ \<Rightarrow> ret (reply True (''IP address(es) successfully added to '' @ name) 0)))))))"

text \<open>\<^verbatim>\<open>in.Ips == nil\<close> holds of an empty list that came over the wire. Here the errors of connecting and
  sending are dropped; after a failed connect the call is still made.\<close>

definition Cli_GroupIPRemove :: "string \<Rightarrow> string list \<Rightarrow> Response go" where
  "Cli_GroupIPRemove name ips = in_cluster
     (if ips = [] \<or> name = '''' then ret (reply False ''Unable to process RPC call. Required parameters: Ips, Name'' 2)
      else reading (\<lambda>w. snd (GetActiveMember w)) (\<lambda>activeMember.
        if activeMember = None then ret (reply False ''Unable to remove IP(s) to group as there no active node in the cluster.'' 3)
        else bnd (groupIpRemove name ips) (\<lambda>err. case err of
          Some e \<Rightarrow> ret (reply False e 4)
        | None \<Rightarrow> thn save_and_sync (reading GetActiveMember (\<lambda>(activeHostname, activeMember).
            with_ref activeMember (\<lambda>a. thn (Connect a)
              (reading (\<lambda>w. group_iface w activeHostname name) (\<lambda>found. case found of
                 Inl e \<Rightarrow> ret (reply False e 5)
               | Inr iface \<Rightarrow> thn (Send a SendBringDownIP (ReqBringDownIP \<lparr>DownIface = iface, DownIps = ips\<rparr>))
                   (ret (reply True (''IP address(es) successfully removed from '' @ name) 0))))))))))"

definition Cli_GroupAssign :: "string \<Rightarrow> string \<Rightarrow> string \<Rightarrow> Response go" where
  "Cli_GroupAssign grp node iface = in_cluster
     (reading (\<lambda>w. nodeGetByHostname (order_at w ''nodeGetByHostname'') (DBConfig w) node) (\<lambda>found. case found of
        Inl e \<Rightarrow> ret (reply False e 2)
      | Inr (uid, _) \<Rightarrow> bnd (groupAssign grp uid iface) (\<lambda>err. case err of
          Some e \<Rightarrow> ret (reply False e 3)
        | None \<Rightarrow> thn save_and_sync (ret (reply True (grp @ '' assigned to interface '' @ iface @ '' on node '' @ node) 0)))))"

definition Cli_GroupUnassign :: "string \<Rightarrow> string \<Rightarrow> string \<Rightarrow> Response go" where
  "Cli_GroupUnassign grp node iface = in_cluster
     (reading (\<lambda>w. nodeGetByHostname (order_at w ''nodeGetByHostname'') (DBConfig w) node) (\<lambda>found. case found of
        Inl e \<Rightarrow> ret (reply False e 2)
      | Inr (uid, _) \<Rightarrow> bnd (groupUnassign grp uid iface) (\<lambda>err. case err of
          Some e \<Rightarrow> ret (reply False e 3)
        | None \<Rightarrow> thn save_and_sync (ret (reply True (grp @ '' unassigned from interface '' @ iface @ '' on node '' @ node) 0)))))"

definition Cli_GroupList :: "GroupTable go" where
  "Cli_GroupList = reading (\<lambda>w. if \<not> ClusterCheck (DBConfig w)
       then \<lparr>Success = False, Message = CLUSTER_REQUIRED_MESSAGE, ErrorCode = 0, GroupRows = []\<rparr>
       else \<lparr>Success = False, Message = '''', ErrorCode = 0, GroupRows = map (\<lambda>(name, ips).
         let (nodes, interfaces) = getGroupNodes (order_at w ''getGroupNodes'') (order_at w ''getGroupNodes ifaces'') (DBConfig w) name
         in \<lparr>GroupName = name, GroupIps = ips, GroupNodes = nodes, GroupInterfaces = interfaces\<rparr>)
           (range_by (order_at w ''GroupList'') (Groups (DBConfig w)))\<rparr>) ret"

definition status_row :: "world \<Rightarrow> Member \<Rightarrow> StatusRow" where
  "status_row w m = \<lparr>RowHostname = Hostname m,
     RowIp = (case nodeGetByHostname (order_at w ''Status'') (DBConfig w) (Hostname m) of Inl _ \<Rightarrow> '''' | Inr (_, node) \<Rightarrow> IP node),
     RowLatency = Latency m, RowStatus = Status m,
     RowLastReceived = (if LastHCResponse m = 0 then '''' else format_rfc1123 (env w) (LastHCResponse m)),
     RowScore = int32 (Score m)\<rparr>"

definition Cli_Status :: "StatusTable go" where
  "Cli_Status = reading (\<lambda>w. if \<not> ClusterCheck (DBConfig w)
       then \<lparr>Success = False, Message = CLUSTER_REQUIRED_MESSAGE, ErrorCode = 0, StatusRows = []\<rparr>
       else \<lparr>Success = True, Message = '''', ErrorCode = 0, StatusRows = map (status_row w) (members w)\<rparr>) ret"

section \<open>Other commands\<close>

definition Cli_Promote :: "string \<Rightarrow> Response go" where
  "Cli_Promote hostname = in_cluster (bnd (PromoteMember hostname) (\<lambda>err. case err of
     Some e \<Rightarrow> ret (reply False e 2)
   | None \<Rightarrow> ret (reply True (''Successfully promoted member '' @ hostname) 0)))"

definition Cli_TLS :: "string \<Rightarrow> Response go" where
  "Cli_TLS bindIp = in_cluster (bnd (GenTLSKeys bindIp) (\<lambda>err. case err of
     Some e \<Rightarrow> ret (reply False e 2)
   | None \<Rightarrow> ret (reply True ''Successfully generated new TLS certificates'' 0)))"

definition Cli_Config :: "string \<Rightarrow> string \<Rightarrow> Response go" where
  "Cli_Config key val =
     (if key = ''local_node'' \<or> key = ''cluster_token''
      then ret (reply False (''You are unable to use the config command to change the value of '' @ key) 4)
      else if key = ''hostname''
      then bnd (nodeUpdateLocalHostname val) (\<lambda>err. case err of
             Some e \<Rightarrow> ret (reply False e 3)
           | None \<Rightarrow> ret (reply True ''Successfully updated PulseHA config'' 0))
      else bnd (UpdateValue key val) (\<lambda>err. case err of
        Some e \<Rightarrow> ret (reply False e 2)
      | None \<Rightarrow> bnd Save (\<lambda>err. case err of
          Some e \<Rightarrow> ret (reply False e 5)
        | None \<Rightarrow> thn Reload_config (bnd SyncConfig (\<lambda>err. case err of
            Some e \<Rightarrow> ret (reply False e 6)
          | None \<Rightarrow> ret (reply True ''Successfully updated PulseHA config'' 0))))))"

definition Cli_Token :: "TokenResponse go" where
  "Cli_Token = reading (\<lambda>w. ClusterCheck (DBConfig w)) (\<lambda>cluster.
     if \<not> cluster then ret (token_reply False CLUSTER_REQUIRED_MESSAGE 1 '''')
     else bnd new_token (\<lambda>token.
          bnd SyncConfig (\<lambda>err. case err of
            Some _ \<Rightarrow> ret (token_reply False CLUSTER_REQUIRED_MESSAGE 2 '''')
          | None \<Rightarrow> thn Save (ret (token_reply True (''Success! Your new cluster token is '' @ token) 0 token)))))"

definition Cli_Network :: "string \<Rightarrow> Response go" where
  "Cli_Network action = in_cluster
     (bnd (if action = ''resync'' then nodeUpdateLocalInterfaces else ret None) (\<lambda>err. case err of
        Some e \<Rightarrow> ret (reply False e 2)
      | None \<Rightarrow> ret (reply True ''Success! PulseHA config has been sync'd with local network interfaces'' 0)))"

definition Cli_Describe :: "DescribeRequest \<Rightarrow> Response go" where
  "Cli_Describe req = ret (reply False '''' 0)"

section \<open>Dispatch\<close>

datatype command = CmdJoin JoinRequest | CmdLeave | CmdRemove string | CmdCreate string string
  | CmdNewGroup string | CmdDeleteGroup string | CmdGroupIPAdd string "string list" | CmdGroupIPRemove string "string list"
  | CmdGroupAssign string string string | CmdGroupUnassign string string string | CmdGroupList | CmdStatus
  | CmdPromote string | CmdTLS string | CmdConfig string string | CmdToken | CmdNetwork string
  | CmdDescribe DescribeRequest

definition outcome_of :: "('a Response_scheme) go \<Rightarrow> Response go" where
  "outcome_of m = bnd m (\<lambda>r. ret (Response.truncate r))"

fun run_command :: "command \<Rightarrow> Response go" where
  "run_command (CmdJoin req) = outcome_of (Cli_Join req)"
| "run_command CmdLeave = outcome_of Cli_Leave"
| "run_command (CmdRemove h) = outcome_of (Cli_Remove h)"
| "run_command (CmdCreate ip port) = outcome_of (Cli_Create ip port)"
| "run_command (CmdNewGroup g) = outcome_of (Cli_NewGroup g)"
| "run_command (CmdDeleteGroup g) = outcome_of (Cli_DeleteGroup g)"
| "run_command (CmdGroupIPAdd g ips) = outcome_of (Cli_GroupIPAdd g ips)"
| "run_command (CmdGroupIPRemove g ips) = outcome_of (Cli_GroupIPRemove g ips)"
| "run_command (CmdGroupAssign g n i) = outcome_of (Cli_GroupAssign g n i)"
| "run_command (CmdGroupUnassign g n i) = outcome_of (Cli_GroupUnassign g n i)"
| "run_command CmdGroupList = outcome_of Cli_GroupList"
| "run_command CmdStatus = outcome_of Cli_Status"
| "run_command (CmdPromote h) = outcome_of (Cli_Promote h)"
| "run_command (CmdTLS ip) = outcome_of (Cli_TLS ip)"
| "run_command (CmdConfig k v) = outcome_of (Cli_Config k v)"
| "run_command CmdToken = outcome_of Cli_Token"
| "run_command (CmdNetwork a) = outcome_of (Cli_Network a)"
| "run_command (CmdDescribe q) = outcome_of (Cli_Describe q)"

section \<open>Outside a cluster\<close>

fun needs_cluster :: "command \<Rightarrow> bool" where
  "needs_cluster (CmdJoin _) = False"
| "needs_cluster (CmdCreate _ _) = False"
| "needs_cluster (CmdConfig _ _) = False"
| "needs_cluster (CmdDescribe _) = False"
| "needs_cluster _ = True"

text \<open>\<^bold>\<open>C26.\<close> On a daemon that is in no cluster every command except join, create, config and describe is
  refused with the same message and leaves the daemon as it was. Describe, which has no check, leaves
  it as it was too, but answers an empty message.\<close>

theorem commands_need_cluster:
  assumes "\<not> ClusterCheck (DBConfig w)"
  shows "(needs_cluster cmd \<longrightarrow> (\<exists>code. run_command cmd w = Ret (reply False CLUSTER_REQUIRED_MESSAGE code) w)) \<and>
    run_command (CmdDescribe q) w = Ret (reply False '''' 0) w"
  using assms
  by (cases cmd) (simp_all add: outcome_of_def in_cluster_def Cli_Leave_def Cli_Remove_def Cli_NewGroup_def Cli_DeleteGroup_def
      Cli_GroupIPAdd_def Cli_GroupIPRemove_def Cli_GroupAssign_def Cli_GroupUnassign_def Cli_GroupList_def Cli_Status_def
      Cli_Promote_def Cli_TLS_def Cli_Token_def Cli_Network_def Cli_Describe_def token_reply_def Response.truncate_def reply_def)

text \<open>A daemon that was never configured.\<close>

definition ex_fresh :: world where
  "ex_fresh = ex_world\<lparr>DBConfig := defaultConfig, Members := [], heap := [], disk := ConfigFile (Valid defaultConfig),
     ServerRunning := False, certs := None\<rparr>"

theorem commands_need_cluster_witness:
  "\<exists>code. run_command (CmdPromote ''alpha'') ex_fresh = Ret (reply False CLUSTER_REQUIRED_MESSAGE code) ex_fresh"
  using commands_need_cluster [of ex_fresh "CmdPromote ''alpha''"] by (simp add: ex_fresh_def ClusterCheck_def mlen_def defaultConfig_def)


section \<open>What the config command cannot change\<close>

text \<open>The token and the uid of the local node, of the config in memory and of a config that agrees with it
  on disk.\<close>

definition secrets :: "world \<Rightarrow> string \<times> string" where
  "secrets w = (ClusterToken (Pulse (DBConfig w)), LocalNodeUid (Pulse (DBConfig w)))"


lemma Save_wf: "wf w \<Longrightarrow> Save w = Ret x v \<Longrightarrow> wf v \<and> DBConfig v = DBConfig w"
  by (auto simp: Save_Ret wf_def wf_disk_def wf_members_def members_def member_def split: option.splits)

lemma Reload_after_Save:
  assumes "wf w" and "Save w = Ret None u"
  shows "Reload_config u = Ret () (u\<lparr>DBConfig := decoded (DBConfig w)\<rparr>)"
proof -
  from assms(2) have "DBConfig u = DBConfig w" "disk u = ConfigFile (Valid (DBConfig w))" "\<not> cfg_lock u"
      "Validate (hostname_cmd (env u)) (DBConfig u) = None" by (auto simp: Save_Ret split: option.splits)
  with Save_wf [OF assms] Reload_saved [of u] show ?thesis by simp
qed

lemma UpdateValue_secrets:
  assumes "wf w" and "UpdateValue key val w = Ret x v" and "key \<noteq> ''local_node''" and "key \<noteq> ''cluster_token''"
  shows "secrets v = secrets w \<and> wf v"
proof (cases "setLocalField key val (Pulse (DBConfig w))")
  case (Inl e)
  with assms(1,2) show ?thesis by (simp add: UpdateValue_def)
next
  case (Inr l)
  let ?u = "set_config (\<lambda>c. c\<lparr>Pulse := l\<rparr>) w"
  from setLocalField_token [OF Inr assms(4)] setLocalField_uid [OF Inr assms(3)] have s: "secrets ?u = secrets w"
    by (simp add: secrets_def)
  have wfu: "wf ?u" using assms(1) by (simp add: set_config_def wf_def wf_config_def)
  from assms(2) Inr have "v = ?u \<or> Save ?u = Ret x v" by (auto simp: UpdateValue_def split: option.splits)
  with Save_wf [OF wfu] s wfu show ?thesis by (auto simp: secrets_def)
qed

text \<open>\<^bold>\<open>C27.\<close> Whatever key and value the config command is given, and whether it succeeds or not, the cluster
  token and the uid of the local node stay as they were.\<close>

theorem Config_keeps_secrets:
  assumes "wf w" and "Cli_Config key val w = Ret resp v"
  shows "ClusterToken (Pulse (DBConfig v)) = ClusterToken (Pulse (DBConfig w)) \<and>
    LocalNodeUid (Pulse (DBConfig v)) = LocalNodeUid (Pulse (DBConfig w))"
proof -
  consider "key = ''local_node'' \<or> key = ''cluster_token''" | "key = ''hostname''"
    | "key \<noteq> ''local_node''" "key \<noteq> ''cluster_token''" "key \<noteq> ''hostname''" by blast
  then have "secrets v = secrets w"
  proof cases
    case 1
    with assms(2) show ?thesis by (auto simp: Cli_Config_def)
  next
    case 2
    with assms(2) have "\<exists>x. nodeUpdateLocalHostname val w = Ret x v"
      by (auto simp: Cli_Config_def split: outcome.splits option.splits)
    then show ?thesis
      by (auto simp: nodeUpdateLocalHostname_def UpdateHostname_def secrets_def Save_Ret split: option.splits outcome.splits
          dest!: quiet_config [OF quiet_SyncConfig])
  next
    case 3
    with assms(2) obtain x u where u: "UpdateValue key val w = Ret x u"
      and rest: "v = u \<or> (\<exists>y s. Save u = Ret (Some y) s \<and> v = s) \<or>
        (\<exists>s y t z. Save u = Ret None s \<and> Reload_config s = Ret y t \<and> SyncConfig t = Ret z v)"
      by (auto simp: Cli_Config_def outcome_bnd_Ret split: option.splits outcome.splits)
    note U = UpdateValue_secrets [OF assms(1) u 3(1,2)]
    from rest have "Pulse (DBConfig v) = Pulse (DBConfig u)"
    proof (elim disjE exE conjE)
      fix y s assume "Save u = Ret (Some y) s" "v = s"
      with Save_wf [of u] U show ?thesis by auto
    next
      fix s y t z assume s: "Save u = Ret None s" "Reload_config s = Ret y t" "SyncConfig t = Ret z v"
      from Reload_after_Save [OF _ s(1)] U s(2) have "DBConfig t = decoded (DBConfig u)" by auto
      with quiet_config [OF quiet_SyncConfig s(3)] show ?thesis by simp
    qed simp
    with U show ?thesis by (simp add: secrets_def)


  qed
  then show ?thesis by (simp add: secrets_def)
qed

lemma ex_Config:
  "\<exists>v. Cli_Config ''fo_limit'' ''20000'' ex_world = Ret (reply True ''Successfully updated PulseHA config'' 0) v \<and>
     FailOverLimit (Pulse (DBConfig v)) = 20000"
proof -
  let ?c = "ex_config\<lparr>Pulse := (Pulse ex_config)\<lparr>FailOverLimit := 20000\<rparr>\<rparr>"
  let ?w = "ex_world\<lparr>DBConfig := ?c\<rparr>"
  let ?u = "?w\<lparr>disk := ConfigFile (Valid ?c), trace := [WroteConfig ?c]\<rparr>"
  let ?v = "?u\<lparr>trace := [WroteConfig ?c, WroteConfig ?c]\<rparr>"
  have f: "setLocalField ''fo_limit'' ''20000'' (Pulse ex_config) = Inr ((Pulse ex_config)\<lparr>FailOverLimit := 20000\<rparr>)"
  proof -
    have "ParseInt ''20000'' = (20000, None)"
      by (simp add: ParseInt_def signed_parse_def ParseUint_def is_digit_def digit_val_def)
    then show ?thesis by (simp add: setLocalField_def local_struct_def struct_local_def)
  qed

  have val: "Validate (Inr ''alpha'') ?c = None" by (simp add: Validate_None_iff)
  have "set_config (\<lambda>c. c\<lparr>Pulse := (Pulse ex_config)\<lparr>FailOverLimit := 20000\<rparr>\<rparr>) ex_world = ?w"
    by (simp add: set_config_def)
  with f val Save_ok [of ?w] have up: "UpdateValue ''fo_limit'' ''20000'' ex_world = Ret None ?u"
    by (simp add: UpdateValue_def)
  have save: "Save ?u = Ret None ?v" using Save_ok [of ?u] val by simp
  have wfu: "wf ?u" using wf_ex_world wf_ex_config by (simp add: wf_def wf_disk_def wf_config_def wf_members_def members_def member_def)
  have "linked False [0, 1] ?v" using linked_ex by (simp add: linked_def)
  from SyncConfig_total [OF this] obtain v where s: "SyncConfig ?v = Ret None v" by (elim exE conjE)
  have "Reload_config ?v = Ret () ?v" using Reload_after_Save [OF wfu save] by simp
  with up save s quiet_config [OF quiet_SyncConfig s] show ?thesis by (simp add: Cli_Config_def)

qed

theorem Config_keeps_secrets_witness:
  "\<exists>resp v. Cli_Config ''fo_limit'' ''20000'' ex_world = Ret resp v \<and> FailOverLimit (Pulse (DBConfig v)) = 20000 \<and>
     ClusterToken (Pulse (DBConfig v)) = ''hash'' \<and> LocalNodeUid (Pulse (DBConfig v)) = ''u1''"
  using ex_Config Config_keeps_secrets [OF wf_ex_world, of "''fo_limit''" "''20000''"] by fastforce

section \<open>A join that the peer refuses\<close>

lemma effect_nodeCreateLocal:
  "config_effect (nodeCreateLocal ip port b) (\<lambda>c x d. \<forall>uid n. x = Inr (uid, n) \<longrightarrow> lookup (Nodes d) uid = Some n)"
  unfolding config_effect_def nodeCreateLocal_def
  by (auto simp: outcome_bnd_Ret split: sum.splits option.splits outcome.splits)

lemma ClusterCheck_lookup: "lookup (Nodes c) uid = Some n \<Longrightarrow> ClusterCheck c"
  by (cases "Nodes c") (auto simp: ClusterCheck_def mlen_def lookup_def)

lemma local_definition_found:
  assumes "local_definition h ip port w = Ret (Some (uid, n)) v" and "wf w"
  shows "ClusterCheck (DBConfig v)"
proof (cases "nodeGetByHostname (order_at w ''nodeGetByHostname'') (DBConfig w) h")
  case (Inl e)
  with assms(1) have "nodeCreateLocal ip port False w = Ret (Inr (uid, n)) v"
    by (auto simp: local_definition_def split: outcome.splits sum.splits prod.splits)
  from config_effectD [OF effect_nodeCreateLocal this] show ?thesis by (auto intro: ClusterCheck_lookup)
next
  case (Inr p)
  with assms have v: "v = w" and p: "p = (uid, n)" by (auto simp: local_definition_def split: prod.splits)
  from assms(2) have "wf_map (Nodes (DBConfig w))" by (simp add: wf_def wf_config_def map_ok_def)
  moreover from Inr obtain x where "find (\<lambda>(uid, node). NodeHostname node = h)
      (range_by (order_at w ''nodeGetByHostname'') (Nodes (DBConfig w))) = Some x"
    by (auto simp: nodeGetByHostname_def split: option.splits)
  ultimately have "x \<in> set (entries (Nodes (DBConfig w)))"
    by (metis (no_types, lifting) set_range_by find_SomeD)
  then show ?thesis by (cases "Nodes (DBConfig w)") (auto simp: v ClusterCheck_def mlen_def)
qed

lemma quiet_Client_Send: "quiet (Client_Send host f d c)"
  unfolding quiet_def by (blast intro: safe_core_Client_Send core_eq.keeps_trace)

lemma adopt_config_code:
  assumes "adopt_config r w = Ret resp v"
  shows "ErrorCode resp \<in> {0, 7, 8}"
  using assms by (auto simp: adopt_config_def outcome_bnd_Ret split: sum.splits option.splits outcome.splits prod.splits)

lemma join_peer_refused:
  assumes "join_peer req c d w = Ret resp v" and "ErrorCode resp \<in> {4, 5}"
  shows "core v = core w"
proof -
  obtain uid n where d: "d = (uid, n)" by (cases d)
  from assms(1) obtain res u where send: "Client_Send (JoinIp req @ '':'' @ JoinPort req) SendJoin
       (ReqJoin \<lparr>JoinBindIp = '''', JoinBindPort = '''', JoinIp = '''', JoinPort = '''', JoinReplicated = False,
          JoinConfig = Valid n, JoinToken = JoinToken req, JoinUid = uid\<rparr>) c w = Ret res u"
    and rest: "(case res of Inl _ \<Rightarrow> ret (join_failed ''Join failure. Unable to connect to host.'' 4)
     | Inr (RespJoin r) \<Rightarrow>
         if \<not> Success r then ret (join_failed (Message r) 5)
         else bnd (install_ca (JoinBindIp req) r) (\<lambda>err. case err of
           Some e \<Rightarrow> ret (join_failed e 6) | None \<Rightarrow> adopt_config r)
     | Inr _ \<Rightarrow> crash_with TypeAssertion) u = Ret resp v"
    by (auto simp: join_peer_def d split: outcome.splits)
  from rest assms(2) have "v = u"
    by (auto simp: outcome_bnd_Ret split: sum.splits response.splits if_splits option.splits outcome.splits
        dest: adopt_config_code)
  with quietD [OF quiet_Client_Send send] show ?thesis by simp
qed

text \<open>\<^bold>\<open>C40.\<close> A daemon whose join is refused by the peer, or whose peer does not answer, has already put its own
  node into its config, and from then on takes itself to be in a cluster: every further join, even
  with the right token, is refused before the peer is asked.\<close>

theorem refused_join_blocks_retry:
  assumes "wf w" and "Cli_Join req w = Ret resp v" and "ErrorCode resp = 4 \<or> ErrorCode resp = 5"
  shows "ClusterCheck (DBConfig v) \<and>
    (\<forall>again. Cli_Join again v = Ret (join_failed ''Unable to join as PulseHA is already in a cluster.'' 9) v)"
proof -
  obtain err c where cc: "Client_Connect w (JoinIp req) (JoinPort req) False newClient = (err, c)" by fastforce
  have "err = None" and "\<exists>h. GetHostname (hostname_cmd (env w)) = Inr h"
    using assms(2,3) cc by (auto simp: Cli_Join_def split: if_splits option.splits sum.splits)
  then obtain h where h: "GetHostname (hostname_cmd (env w)) = Inr h" and e: "err = None" by blast
  obtain d u where d: "local_definition h (JoinBindIp req) (JoinBindPort req) w = Ret d u"
    and rest: "(case d of None \<Rightarrow> ret (join_failed ''Join failure. Unable to generate local node definition'' 1)
       | Some d \<Rightarrow> join_peer req c d) u = Ret resp v"
    using assms(2,3) by (auto simp: Cli_Join_def cc h e split: if_splits outcome.splits)
  from rest assms(3) obtain p where dp: "d = Some p" and p: "join_peer req c p u = Ret resp v" by (cases d) auto
  obtain uid n where pn: "p = (uid, n)" by (cases p)
  from p assms(3) have "core v = core u" by (intro join_peer_refused) auto
  then have "DBConfig v = DBConfig u" by (rule core_fields(1))
  with local_definition_found [OF d [unfolded dp pn] assms(1)] have "ClusterCheck (DBConfig v)" by simp
  then show ?thesis by (simp add: Cli_Join_def)
qed

definition ex_lonely :: world where
  "ex_lonely = ex_fresh\<lparr>env := ex_env\<lparr>rpc_result := (\<lambda>_ _ _. Inl ''unavailable''), interface_names := [''lo'']\<rparr>\<rparr>"

text \<open>Creating the local node, up to the loop over the interfaces.\<close>

definition local_node_config :: "string \<Rightarrow> Node \<Rightarrow> Config \<Rightarrow> Config" where
  "local_node_config uid n c = c\<lparr>Nodes := put (Nodes c) uid n, Pulse := (Pulse c)\<lparr>LocalNodeUid := uid\<rparr>\<rparr>"

definition local_node_saved :: "string \<Rightarrow> Node \<Rightarrow> world \<Rightarrow> world" where
  "local_node_saved uid n w = (let d = local_node_config uid n (DBConfig w)
     in w\<lparr>DBConfig := d, disk := ConfigFile (Valid d), trace := trace w @ [WroteConfig d, WroteConfig d]\<rparr>)"

lemma nodeCreateLocal_start:
  assumes "\<not> cfg_lock w" and "GetHostname (hostname_cmd (env w)) = Inr h" and "new_uuid (env w) = uid"
    and "lookup (Nodes (DBConfig w)) uid = None" and "\<not> is_nil (Nodes (DBConfig w))" and "write_error (env w) = None"
    and n: "n = \<lparr>NodeHostname = h, IP = ip, Port = port, IPGroups = Some []\<rparr>"
    and "Validate (hostname_cmd (env w)) (local_node_config uid n (DBConfig w)) = None"
  shows "nodeCreateLocal ip port b w =
    thn (for_each (filter (\<lambda>i. i \<noteq> ''lo'') (interface_names (env w))) (\<lambda>i.
           thn (write_iface uid i []) (if b then group_for_iface uid i else skip)))
        (reading (\<lambda>w. lookup (Nodes (DBConfig w)) uid) (\<lambda>node. case node of
           None \<Rightarrow> crash_with NilDeref | Some n \<Rightarrow> ret (Inr (uid, n)))) (local_node_saved uid n w)"
proof -
  let ?c = "(DBConfig w)\<lparr>Nodes := put (Nodes (DBConfig w)) uid n\<rparr>"
  let ?d = "local_node_config uid n (DBConfig w)"
  let ?u = "w\<lparr>DBConfig := ?d\<rparr>"
  have cl: "w\<lparr>cfg_lock := False\<rparr> = w" using assms(1) by simp
  have add: "nodeAdd uid n w = Ret None (w\<lparr>DBConfig := ?c\<rparr>)"
    using assms(1,4,5) cl by (simp add: nodeAdd_def nodeExistsByUUID_lookup locked_cfg_def lock_cfg_run unlock_cfg_def set_config_def)
  have save: "Save ?u = Ret None (?u\<lparr>disk := ConfigFile (Valid ?d), trace := trace w @ [WroteConfig ?d]\<rparr>)"
    using Save_ok [of ?u] assms(1,6,8) by simp
  have up: "UpdateValue ''local_node'' uid (w\<lparr>DBConfig := ?c\<rparr>) = Save ?u"
    using assms(8) by (simp add: UpdateValue_def setLocalField_local_node set_config_def local_node_config_def)
  have save2: "Save (?u\<lparr>disk := ConfigFile (Valid ?d), trace := trace w @ [WroteConfig ?d]\<rparr>) = Ret None (local_node_saved uid n w)"
    using Save_ok [of "?u\<lparr>disk := ConfigFile (Valid ?d), trace := trace w @ [WroteConfig ?d]\<rparr>"] assms(1,6,8)
    by (simp add: local_node_saved_def Let_def)
  show ?thesis using add up save save2 assms(2,3) n by (simp add: nodeCreateLocal_def)
qed

lemma local_node_saved_fields:
  "env (local_node_saved uid n w) = env w" "DBConfig (local_node_saved uid n w) = local_node_config uid n (DBConfig w)"
  "\<not> is_nil (Nodes (DBConfig w)) \<Longrightarrow> lookup (Nodes (local_node_config uid n (DBConfig w))) uid = Some n"
  by (simp_all add: local_node_saved_def local_node_config_def Let_def lookup_put)

lemma range_by_empty [simp]: "range_by \<pi> (Some []) = []"
  by (simp add: range_by_def keys_def Let_def)

lemma ex_lonely_fields:
  "DBConfig ex_lonely = defaultConfig" "\<not> cfg_lock ex_lonely" "hostname_cmd (env ex_lonely) = Inr ''alpha''"
  "new_uuid (env ex_lonely) = ''u3''" "interface_names (env ex_lonely) = [''lo'']" "write_error (env ex_lonely) = None"
  "dial (env ex_lonely) = (\<lambda>_ _. None)" "rpc_result (env ex_lonely) = (\<lambda>_ _ _. Inl ''unavailable'')"
  by (simp_all add: ex_lonely_def ex_fresh_def)

lemma ex_lonely_create:
  "\<exists>n v. nodeCreateLocal '''' ''8443'' False ex_lonely = Ret (Inr (''u3'', n)) v \<and> env v = env ex_lonely"
proof -
  define n where "n = \<lparr>NodeHostname = ''alpha'', IP = '''', Port = ''8443'', IPGroups = Some []\<rparr>"
  have empty: "Nodes defaultConfig = Some []" by (simp add: defaultConfig_def)
  have "Validate (Inr ''alpha'') (local_node_config ''u3'' n defaultConfig) = None"
    by (simp add: Validate_None_iff defaultConfig_def local_node_config_def n_def put_def)
  with nodeCreateLocal_start [of ex_lonely "''alpha''" "''u3''" n "''''" "''8443''" False]
  have "nodeCreateLocal '''' ''8443'' False ex_lonely = Ret (Inr (''u3'', n)) (local_node_saved ''u3'' n ex_lonely)"
    using local_node_saved_fields [where w = ex_lonely] empty
    by (simp add: ex_lonely_fields lookup_def n_def)
  then show ?thesis by (intro exI conjI) (assumption, simp add: local_node_saved_fields)
qed

lemma ex_lonely_join:
  "\<exists>v. Cli_Join (ex_join\<lparr>JoinBindPort := ''8443''\<rparr>) ex_lonely = Ret (join_failed ''Join failure. Unable to connect to host.'' 4) v"
proof -
  have port: "port_in_range ''8443''"
    by (simp add: port_in_range_def Atoi_def ParseInt_def signed_parse_def ParseUint_def is_digit_def digit_val_def)
  have empty: "ClusterCheck defaultConfig = False" "Nodes defaultConfig = Some []"
    by (simp_all add: ClusterCheck_def mlen_def defaultConfig_def)
  from ex_lonely_create obtain n v where v: "nodeCreateLocal '''' ''8443'' False ex_lonely = Ret (Inr (''u3'', n)) v" "env v = env ex_lonely" by blast
  have "local_definition ''alpha'' '''' ''8443'' ex_lonely = Ret (Some (''u3'', n)) v"
    using v(1) empty(2) by (simp add: local_definition_def nodeGetByHostname_def ex_lonely_fields)
  moreover have "\<exists>u. join_peer (ex_join\<lparr>JoinBindPort := ''8443''\<rparr>) (newClient\<lparr>Connection := Some Opened, Requester := True\<rparr>) (''u3'', n) v
      = Ret (join_failed ''Join failure. Unable to connect to host.'' 4) u"
    using v(2) by (simp add: join_peer_def Client_Send_def emit_def ex_lonely_fields)
  ultimately show ?thesis using port empty(1)
    by (simp add: Cli_Join_def ex_lonely_fields Client_Connect_def ex_join_def)
qed

theorem refused_join_blocks_retry_witness:
  "\<exists>v. ClusterCheck (DBConfig v) \<and> Cli_Join ex_join v = Ret (join_failed ''Unable to join as PulseHA is already in a cluster.'' 9) v"
proof -
  have "wf ex_lonely"
    by (simp add: ex_lonely_def ex_fresh_def wf_def wf_disk_def wf_members_def members_def wf_config_default)
  from ex_lonely_join obtain v where "Cli_Join (ex_join\<lparr>JoinBindPort := ''8443''\<rparr>) ex_lonely =
      Ret (join_failed ''Join failure. Unable to connect to host.'' 4) v" ..
  from refused_join_blocks_retry [OF \<open>wf ex_lonely\<close> this] show ?thesis by auto
qed

end
