(* ===== verification/Daemon.thy ===== *)
theory Daemon
  imports CliServer
begin

text \<open>
  The daemon as a whole: its start in \<^verbatim>\<open>cmd/pulseha\<close>, its signals, and everything else that can happen
  to it, a call of another daemon, a command of the administrator, a run of one of its routines, a
  change of its surroundings, each a step of one transition system. The theory shows that the
  components keep the well-formedness invariant together, so that every state a started daemon can
  reach satisfies it and leaves both mutexes free.
\<close>

section \<open>Every operation keeps the invariant\<close>

named_theorems inv_intro "operations that keep the well-formedness invariant"

lemma inv_any: "safe (inv ml cfg) not_deadlock m \<Longrightarrow> safe (inv ml cfg) any_crash m"
  by (rule safe_weaken_crash) simp_all

lemma safe_case_bool [inv_intro]: "safe I C m \<Longrightarrow> safe I C n \<Longrightarrow> safe I C (case b of True \<Rightarrow> m | False \<Rightarrow> n)"
  by (cases b) simp_all

lemma inv_quiet: "quiet m \<Longrightarrow> safe (inv ml cfg) any_crash m"
  by (rule inv.quiet_keeps)

lemmas [inv_intro] = safe_intro inv_Save [THEN inv_any] inv_Reload [THEN inv_any] inv_UpdateValue [THEN inv_any]
  inv_SetConfig [THEN inv_any] inv_MemberList_Reload [THEN inv_any] inv_SetStatus inv_setters inv_GetLocalMember
  inv_Reset inv_MemberRemove inv_LoadMembers inv_Update GetMemberByHostname_kept GetHighestScoreMember_kept safe_with_ref
  inv.keeps_emit TrueI

lemmas [inv_intro] = quiet_Logging [THEN inv_quiet] quiet_Broadcast [THEN inv_quiet] quiet_SyncConfig [THEN inv_quiet]
  quiet_Connect [THEN inv_quiet] quiet_Send [THEN inv_quiet] quiet_BringUpIPs [THEN inv_quiet] quiet_BringDownIPs [THEN inv_quiet]
  quiet_MakeLocalActive [THEN inv_quiet] quiet_MakeLocalPassive [THEN inv_quiet] quiet_ask [THEN inv_quiet]
  quiet_makeGroup [THEN inv_quiet] quiet_activate [THEN inv_quiet]

lemma inv_certs: "inv ml cfg w \<Longrightarrow> inv ml cfg (w\<lparr>certs := x\<rparr>)"
  by simp

lemma inv_config_write:
  assumes "inv ml cfg w" and "wf_config (DBConfig w) \<Longrightarrow> wf_config (f (DBConfig w))"
  shows "inv ml cfg (set_config f w)"
  using assms inv_wf_config [OF assms(1)] by (simp add: set_config_def inv_DBConfig)

lemma wf_config_updates:
  "wf_config c \<Longrightarrow> wf_config (c\<lparr>Pulse := p\<rparr>)"
  "wf_config c \<Longrightarrow> wf_config (c\<lparr>Groups := put (Groups c) g ips\<rparr>)"
  "wf_config c \<Longrightarrow> wf_config (c\<lparr>Groups := del (Groups c) g\<rparr>)"
  "wf_config c \<Longrightarrow> wf_config (c\<lparr>Groups := Some []\<rparr>)" "wf_config c \<Longrightarrow> wf_config (c\<lparr>Nodes := Some []\<rparr>)"
  "wf_config c \<Longrightarrow> wf_node n \<Longrightarrow> wf_config (c\<lparr>Nodes := put (Nodes c) uid n\<rparr>)"
  by (simp_all add: wf_config_def wf_map_put wf_map_del map_ok_put) (simp_all add: map_ok_def wf_map_def keys_def)

lemma wf_config_del: "wf_config c \<Longrightarrow> wf_config (c\<lparr>Nodes := del (Nodes c) uid\<rparr>)"
proof -
  assume c: "wf_config c"
  have "set (AList.delete uid xs) \<subseteq> set xs" for xs :: "(string \<times> Node) list" by (auto simp: AList.delete_eq)
  with c show ?thesis by (auto simp: wf_config_def map_ok_def wf_map_del)
qed

subsection \<open>The registry\<close>

lemma inv_write_group [inv_intro]: "safe (inv ml cfg) any_crash (write_group g ips)"
  unfolding write_group_def by (intro inv_intro inv_config_write wf_config_updates)

lemma inv_write_iface [inv_intro]: "safe (inv ml cfg) any_crash (write_iface uid iface gs)"
  unfolding write_iface_def by (intro inv_intro inv_config_write wf_config_put_iface) simp_all

lemma inv_group_writes [inv_intro]:
  "safe (inv False False) any_crash (groupNew g)" "safe (inv False False) any_crash (groupDelete g)"
  "safe (inv False False) any_crash groupClearLocal" "safe (inv False False) any_crash nodesClearLocal"
  unfolding groupNew_def groupDelete_def groupClearLocal_def nodesClearLocal_def
  by (intro locked_cfg_safe inv_intro inv_config_write wf_config_updates; assumption)+

lemma inv_group_ips [inv_intro]:
  "safe (inv False False) any_crash (groupIpAdd g ips)" "safe (inv False False) any_crash (groupIpRemove g ips)"
  unfolding groupIpAdd_def add_ip_def groupIpRemove_def remove_ip_def by (intro locked_cfg_safe inv_intro)+

lemma inv_group_assign [inv_intro]:
  "safe (inv False False) any_crash (groupAssign g uid iface)" "safe (inv False False) any_crash (groupUnassign g uid iface)"
  unfolding groupAssign_def groupUnassign_def by (intro locked_cfg_safe inv_intro)+

lemma inv_nodeAdd [inv_intro]: "wf_node n \<Longrightarrow> safe (inv False False) any_crash (nodeAdd uid n)"
  unfolding nodeAdd_def by (intro locked_cfg_safe inv_intro inv_config_write wf_config_updates; assumption)

lemma inv_nodeDelete [inv_intro]: "safe (inv False False) any_crash (nodeDelete uid)"
  unfolding nodeDelete_def by (intro locked_cfg_safe inv_intro inv_config_write wf_config_del; assumption)

lemma inv_nodeCreateLocal [inv_intro]: "safe (inv False False) any_crash (nodeCreateLocal ip port b)"
  unfolding nodeCreateLocal_def group_for_iface_def
  by (intro inv_intro) (simp add: wf_node_def wf_map_def keys_def)

lemma wf_config_del_ifaces: "wf_config c \<Longrightarrow> wf_config (del_ifaces uid keep c)"
proof (cases "lookup (Nodes c) uid")
  case (Some n)
  assume c: "wf_config c"
  then have "wf_map (IPGroups n)" using Some by (rule wf_config_IPGroups)
  then have "wf_node (n\<lparr>IPGroups := map_option (filter (\<lambda>(iface, _). keep iface)) (IPGroups n)\<rparr>)"
    by (cases "IPGroups n") (auto simp: wf_node_def wf_map_def keys_def distinct_map_filter)
  with c Some show ?thesis by (simp add: del_ifaces_def wf_config_updates)
qed (simp add: del_ifaces_def)

lemma inv_resync [inv_intro]: "safe (inv False False) any_crash nodeUpdateLocalInterfaces"
  unfolding nodeUpdateLocalInterfaces_def new_iface_def group_for_iface_def
  by (intro inv_intro inv_config_write wf_config_del_ifaces)

lemma inv_rename [inv_intro]: "safe (inv False False) any_crash (nodeUpdateLocalHostname h)"
  unfolding nodeUpdateLocalHostname_def
proof (intro inv_intro inv_DBConfig)
  fix s c w assume "inv False False s" and "UpdateHostname h (DBConfig s) = Inr c"
  then show "wf_config c"
    using inv_wf_config [of False False s] wf_config_IPGroups [of "DBConfig s"]
    by (auto simp: UpdateHostname_def wf_node_def wf_config_updates split: option.splits)
qed

subsection \<open>Certificates\<close>

lemma inv_files [inv_intro]:
  "safe (inv ml cfg) any_crash CreateFolder" "safe (inv ml cfg) any_crash DeleteFolder"
  "safe (inv ml cfg) any_crash (write_cert n c)"
  unfolding CreateFolder_def DeleteFolder_def write_cert_def by (intro inv_intro inv_certs; assumption)+

lemma inv_generate [inv_intro]: "safe (inv ml cfg) any_crash (generate site fill parent n)"
  unfolding generate_def certTemplate_def createCert_def WriteCertFile_def WriteKeyFileFromRSAKey_def by (intro inv_intro)

lemma inv_GenTLSKeys [inv_intro]: "safe (inv ml cfg) any_crash (GenTLSKeys ip)"
  unfolding GenTLSKeys_def sign_with_def GenerateCerts_def by (intro inv_intro)

subsection \<open>Members and routines\<close>

lemma inv_ActivePassive [inv_intro]:
  "safe (inv False cfg) any_crash (MakeActive r)" "safe (inv False cfg) any_crash (MakePassive r)"
  unfolding MakeActive_def become_active_def MakePassive_def become_passive_def by (intro inv_intro)+

lemma inv_Promote [inv_intro]: "safe (inv False cfg) any_crash (PromoteMember h)"
  unfolding PromoteMember_def promote_unless_def swap_active_def demote_def fall_back_def by (intro inv_intro)

lemma inv_NextActive [inv_intro]: "safe (inv False cfg) any_crash GetNextActiveMember"
  unfolding GetNextActiveMember_def by (intro inv_intro)

lemma inv_MonitorReceivedHCs [inv_intro]: "safe (inv False cfg) any_crash (MonitorReceivedHCs r)"
  unfolding MonitorReceivedHCs_def failover_def suspect_active_def failover_limit_def by (intro inv_intro) simp_all

lemma inv_with_client: "(\<And>c. safe I any_crash (k c)) \<Longrightarrow> safe I any_crash (with_client r k)"
  by (rule safe_with_client) simp_all

lemma inv_MonitorClientConns [inv_intro]: "safe (inv False cfg) any_crash MonitorClientConns"
  unfolding MonitorClientConns_def monitor_member_def
  by (intro inv_intro inv_with_client) (auto intro!: inv_intro split: connectivity.split live_state.split)

lemma inv_AddHealthCheckHandler [inv_intro]: "safe (inv False cfg) any_crash AddHealthCheckHandler"
  unfolding AddHealthCheckHandler_def by (intro inv_intro)

lemma inv_ProcessHCs [inv_intro]: "safe (inv False cfg) any_crash (ProcessHCs plugins)"
  unfolding ProcessHCs_def by (intro inv_intro)

lemma inv_Close [inv_intro]: "safe (inv ml cfg) any_crash (Close r)"
  by (rule inv.keeps_Close) simp

lemma inv_RoutineHC [inv_intro]: "safe (inv False cfg) any_crash (RoutineHC r d)"
  unfolding RoutineHC_def Member_SendHealthCheck_def by (intro inv_intro inv_with_client)

lemma inv_MemberList_Setup [inv_intro]: "safe (inv False cfg) any_crash MemberList_Setup"
  unfolding MemberList_Setup_def by (intro inv_intro) simp_all

subsection \<open>Handlers and commands\<close>

lemma inv_Setup [inv_intro]: "safe (inv False False) any_crash Server_Setup"
  unfolding Server_Setup_def by (intro inv_intro) (auto intro!: inv_intro split: tls_files.split)

lemma inv_Shutdown [inv_intro]: "safe (inv False False) any_crash Server_Shutdown"
  unfolding Server_Shutdown_def by (intro inv_intro) simp_all

lemma inv_authorized: "safe (inv False False) any_crash k \<Longrightarrow> safe (inv False False) any_crash (authorized p k)"
  unfolding authorized_def CanCommunicate_def by (intro inv_intro)

lemma inv_answer: "safe I any_crash m \<Longrightarrow> safe I any_crash (answer f m)"
  unfolding answer_def by (intro safe_intro)

lemma inv_HealthCheck [inv_intro]: "safe (inv False False) any_crash (Server_HealthCheck p r)"
  unfolding Server_HealthCheck_def standby_update_def settle_active_def GetFailOverCountWinner_def
  by (intro inv_authorized inv_intro)

lemma inv_Join [inv_intro]: "safe (inv False False) any_crash (Server_Join r)"
  unfolding Server_Join_def admit_def undo_join_def join_reply_def
  by (intro inv_intro) (auto intro!: inv_intro wf_parse_node split: json_doc.split)

lemma wf_kept_local:
  assumes "inv ml cfg w" and "unmarshal_into doc emptyConfig = Inr c"
  shows "wf_config (keep_local (DBConfig w) c)"
  using inv_wf_config [OF assms(1)] wf_config_unmarshal [OF wf_config_empty assms(2)] by (rule wf_keep_local)

lemma inv_ConfigSync [inv_intro]: "safe (inv False False) any_crash (Server_ConfigSync p r)"
  unfolding Server_ConfigSync_def by (intro inv_authorized inv_intro) (erule (1) wf_kept_local)

lemma inv_Leave_Remove [inv_intro]:
  "safe (inv False False) any_crash (Server_Leave p l)" "safe (inv False False) any_crash (Server_Remove p r)"
  unfolding Server_Leave_def Server_Remove_def by (intro inv_authorized inv_intro)+

lemma inv_small_handlers [inv_intro]:
  "safe (inv False False) any_crash (Server_Promote p a)" "safe (inv False False) any_crash (Server_MakePassive p b)"
  "safe (inv False False) any_crash (Server_BringUpIP p c)" "safe (inv False False) any_crash (Server_BringDownIP p d)"
  "safe (inv False False) any_crash (Server_Logs p e)"
  unfolding Server_Promote_def Server_MakePassive_def Server_BringUpIP_def Server_BringDownIP_def Server_Logs_def local_member_named_def
  by (intro inv_authorized inv_intro)+

lemma inv_Describe [inv_intro]:
  "safe (inv False False) any_crash (Server_Describe q)" "safe (inv False False) any_crash (Cli_Describe q)"
  unfolding Server_Describe_def Cli_Describe_def by (intro inv_intro)+

lemma inv_serve: "safe
 (inv False False) any_crash (serve_request p req)"
proof -
  have "safe (inv False False) any_crash (handler p req)"
    by (cases req) (simp_all only: handler.simps, (intro inv_answer inv_intro)+)
  then show ?thesis unfolding serve_request_def serverInterceptor_def
    by (auto intro!: inv_intro split: option.split auth_info.split)
qed

lemma inv_in_cluster: "safe (inv False False) any_crash k \<Longrightarrow> safe (inv False False) any_crash (in_cluster k)"
  unfolding in_cluster_def by (intro inv_intro)

lemma inv_save_and_sync [inv_intro]: "safe (inv False False) any_crash save_and_sync"
  unfolding save_and_sync_def by (intro inv_intro)

lemma inv_Client_Send [inv_intro]: "safe (inv ml cfg) any_crash (Client_Send host f d c)"
  by (rule safe_core_Client_Send) simp_all

lemma inv_adopt [inv_intro]: "safe (inv False False) any_crash (adopt_config r)"
  unfolding adopt_config_def by (intro inv_intro) (erule (1) wf_kept_local)

lemma inv_Cli_Join: "safe (inv False False) any_crash (Cli_Join req)"
  unfolding Cli_Join_def local_definition_def join_peer_def install_ca_def WriteCertFile_def WriteKeyFile_def
  by (intro inv_intro) (auto intro!: inv_intro split: response.split)

lemma inv_new_token [inv_intro]: "safe (inv False False) any_crash new_token"
  unfolding new_token_def generateRandomString_def by (intro inv_intro inv_config_write wf_config_updates)

lemma inv_Cli_Create: "safe (inv False False) any_crash (Cli_Create ip port)"
  unfolding Cli_Create_def GenerateCACert_def by (intro inv_intro)

lemma inv_Cli_cluster:
  "safe (inv False False) any_crash Cli_Leave" "safe (inv False False) any_crash (Cli_Remove h)"
  "safe (inv False False) any_crash (Cli_Promote h)" "safe (inv False False) any_crash (Cli_TLS ip)"
  "safe (inv False False) any_crash (Cli_Network a)"
  unfolding Cli_Leave_def Cli_Remove_def Cli_Promote_def Cli_TLS_def Cli_Network_def by (intro inv_in_cluster inv_intro)+

lemma inv_Cli_groups:
  "safe (inv False False) any_crash (Cli_NewGroup g)" "safe (inv False False) any_crash (Cli_DeleteGroup g)"
  "safe (inv False False) any_crash (Cli_GroupIPAdd g ips)" "safe (inv False False) any_crash (Cli_GroupIPRemove g ips)"
  "safe (inv False False) any_crash (Cli_GroupAssign g n i)" "safe (inv False False) any_crash (Cli_GroupUnassign g n i)"
  unfolding Cli_NewGroup_def Cli_DeleteGroup_def Cli_GroupIPAdd_def Cli_GroupIPRemove_def Cli_GroupAssign_def
    Cli_GroupUnassign_def active_group_def
  by (intro inv_in_cluster inv_intro)+

lemma inv_Cli_other:
  "safe (inv False False) any_crash Cli_GroupList" "safe (inv False False) any_crash Cli_Status"
  "safe (inv False False) any_crash (Cli_Config k val)" "safe (inv False False) any_crash Cli_Token"
  unfolding Cli_GroupList_def Cli_Status_def Cli_Config_def Cli_Token_def by (intro inv_intro)+

lemma inv_outcome_of: "safe I any_crash m \<Longrightarrow> safe I any_crash (outcome_of m)"
  unfolding outcome_of_def by (intro safe_intro)

lemma inv_command: "safe (inv False False) any_crash (run_command c)"
  by (cases c) (simp_all only: run_command.simps,
    (intro inv_outcome_of inv_Cli_Join inv_Cli_Create inv_Cli_cluster inv_Cli_groups inv_Cli_other inv_Describe)+)

section \<open>The daemon as a transition system\<close>

text \<open>One run of a routine that was started with \<^verbatim>\<open>go\<close>; the routines of the scheduler report whether they
  have ended.\<close>

fun run_task :: "task \<Rightarrow> bool go" where
  "run_task (TaskMonitorReceivedHCs r) = MonitorReceivedHCs r"
| "run_task TaskMonitorClientConns = MonitorClientConns"
| "run_task TaskAddHealthCheckHandler = AddHealthCheckHandler"
| "run_task (TaskProcessHCs plugins) = ProcessHCs plugins"
| "run_task (TaskRoutineHC r d) = thn (RoutineHC r d) (ret True)"
| "run_task TaskServerSetup = thn Server_Setup (ret True)"

text \<open>The signals that \<^verbatim>\<open>handleSignals\<close> of \<^verbatim>\<open>cmd/pulseha\<close> is told of. Functions can be hooked to a signal, before
  and after it is handled; \<^verbatim>\<open>createPulse\<close> leaves the table of hooks nil and nothing fills it.\<close>

datatype signal = SIGHUP | SIGUSR1 | SIGUSR2 | SIGINT | SIGTERM | SIGTSTP

datatype hook_flag = PRE_SIGNAL | POST_SIGNAL

type_synonym signal_hooks = "hook_flag \<rightharpoonup> signal \<rightharpoonup> unit go list"

definition signalHooks :: "signal_hooks \<Rightarrow> hook_flag \<Rightarrow> signal \<Rightarrow> unit go" where
  "signalHooks hooks ppFlag sig = (case hooks ppFlag of
     None \<Rightarrow> skip
   | Some at \<Rightarrow> (case at sig of None \<Rightarrow> skip | Some fs \<Rightarrow> for_each fs (\<lambda>f. f)))"

definition createPulse :: signal_hooks where
  "createPulse = Map.empty"

fun signal_action :: "signal \<Rightarrow> unit go" where
  "signal_action SIGUSR2 = thn Server_Shutdown (thn Reload_config (emit (Started TaskServerSetup)))"
| "signal_action SIGINT = thn Server_Shutdown (crash_with (Fatal ''exit''))"
| "signal_action SIGTERM = thn Server_Shutdown (crash_with (Fatal ''exit''))"
| "signal_action _ = skip"

definition handle_signal :: "signal \<Rightarrow> unit go" where
  "handle_signal sig = thn (signalHooks createPulse PRE_SIGNAL sig)
     (thn (signal_action sig) (signalHooks createPulse POST_SIGNAL sig))"

datatype event = Serve "Peer option" request | Command command | Tick task | Signal signal | Surroundings Env

text \<open>A routine can run once it was started, and calls are served while the server runs.\<close>

inductive step :: "world \<Rightarrow> event \<Rightarrow> world \<Rightarrow> bool" where
  serve: "ServerRunning w \<Longrightarrow> serve_request p req w = Ret res v \<Longrightarrow> step w (Serve p req) v"
| command: "run_command c w = Ret resp v \<Longrightarrow> step w (Command c) v"
| tick: "Started t \<in> set (trace w) \<Longrightarrow> run_task t w = Ret ended v \<Longrightarrow> step w (Tick t) v"
| signal: "handle_signal sig w = Ret () v \<Longrightarrow> step w (Signal sig) v"
| surroundings: "step w (Surroundings e) (w\<lparr>env := e\<rparr>)"

inductive reach :: "world \<Rightarrow> world \<Rightarrow> bool" where
  reach_refl: "reach w w"
| reach_step: "reach w u \<Longrightarrow> step u e v \<Longrightarrow> reach w v"

inductive_cases stepE: "step w e v"

lemma inv_task: "safe (inv False False) any_crash (run_task t)"
  by (cases t) (simp_all only: run_task.simps, (intro inv_intro)+)

lemma inv_signal: "safe (inv False False) any_crash (handle_signal sig)"
proof -
  have "safe (inv False False) any_crash (signal_action sig)"
    by (cases sig) (simp_all only: signal_action.simps, (intro inv_intro)+)
  then show ?thesis unfolding handle_signal_def signalHooks_def createPulse_def by (intro inv_intro) simp_all
qed

lemma step_inv: "step w e v \<Longrightarrow> inv False False w \<Longrightarrow> inv False False v"
  by (induction rule: step.induct)
    (auto dest: safeD [OF inv_serve] safeD [OF inv_command] safeD [OF inv_task] safeD [OF inv_signal])

lemma reach_inv: "reach w v \<Longrightarrow> inv False False w \<Longrightarrow> inv False False v"
  by (induction rule: reach.induct) (auto dest: step_inv)

section \<open>Starting the daemon\<close>

text \<open>
  What \<^verbatim>\<open>main\<close> of \<^verbatim>\<open>cmd/pulseha\<close> asks of the build and of the machine: the commit that the linker was told, of
  which the banner shows seven characters, the host name and the journal for the logger, the
  parser of log levels of the logging library, whether the log file can be opened, and the plugins
  that can be loaded. The two servers, which \<^verbatim>\<open>main\<close> starts with \<^verbatim>\<open>go\<close>, are started one after the other.
\<close>

record Machine =
  Build :: string
  os_hostname :: "string + string"
  journal_error :: "string option"
  parse_level :: "string \<Rightarrow> string option"
  open_log :: "string \<Rightarrow> string option"
  plugin_dir :: "shared_object list"

text \<open>A process that has just started, on a machine with a given config file and certificates.\<close>

definition started :: "Env \<Rightarrow> config_file \<Rightarrow> string gomap \<Rightarrow> world" where
  "started e d c = \<lparr>DBConfig = emptyConfig, modules = [], heap = [], Members = [], LogHostname = '''', StartDelay = False,
     StartInterval = 0, ml_lock = False, cfg_lock = False, ServerRunning = False, disk = d, certs = c, trace = [], env = e\<rparr>"

definition NewLogger :: "Machine \<Rightarrow> string option go" where
  "NewLogger m = (case os_hostname m of
     Inl e \<Rightarrow> ret (Some e)
   | Inr h \<Rightarrow> (case journal_error m of
       Some e \<Rightarrow> ret (Some e)
     | None \<Rightarrow> thn (modify (\<lambda>w. w\<lparr>LogHostname := h\<rparr>)) (ret None)))"

definition Config_New :: "unit go" where
  "Config_New = thn (modify (\<lambda>w. w\<lparr>DBConfig := emptyConfig\<rparr>)) (bnd Load_config (\<lambda>err. case err of
     Some e \<Rightarrow> crash_with (Fatal e) | None \<Rightarrow> skip))"

definition setLogLevel :: "Machine \<Rightarrow> string \<Rightarrow> unit go" where
  "setLogLevel m level = (case parse_level m level of Some e \<Rightarrow> crash_with (Panic e) | None \<Rightarrow> skip)"

definition Cli_Setup :: "unit go" where
  "Cli_Setup = reading (\<lambda>w. listen (env w) ''127.0.0.1:49152'') (\<lambda>err. case err of
     Some e \<Rightarrow> crash_with (Fatal (''Failed to listen: '' @ e)) | None \<Rightarrow> skip)"

definition main :: "Machine \<Rightarrow> unit go" where
  "main m = thn (if length (Build m) < 7 then crash_with OutOfRange else skip) (bnd (NewLogger m) (\<lambda>err. case err of
     Some _ \<Rightarrow> crash_with (Panic ''unable to create pulseha distributed logger'')
   | None \<Rightarrow>
       thn Config_New
      (reading (\<lambda>w. Pulse (DBConfig w)) (\<lambda>p.
       thn (setLogLevel m (LoggingLevel p))
      (thn (if LogToFile p \<and> open_log m (LogFileLocation p) \<noteq> None
            then crash_with (Fatal ''failed to open log file. PulseHA failed to start'') else skip)
      (thn Cli_Setup (Server_Init (plugin_dir m))))))))"

lemma inv_started: "wf_disk (started e d c) \<Longrightarrow> inv False False (started e d c)"
  by (simp add: started_def inv_def wf_def wf_members_def members_def wf_config_empty)

lemma inv_main: "safe (inv False False) any_crash (main m)"
  unfolding main_def NewLogger_def Config_New_def setLogLevel_def Cli_Setup_def Server_Init_def
  by (intro inv_intro inv_Load [THEN inv_any]) (auto simp: inv_def wf_def wf_config_empty intro: wf_config_empty)

text \<open>\<^bold>\<open>C16.\<close> A daemon that has started, whatever its config file and plugins, and has then gone through any calls,
  commands, routines, signals and changes of its surroundings, in any order, is in a well-formed
  state: no two members of its list have the same host name, every member and every table of its
  config is well formed, and no mutex is left locked.\<close>

theorem running_daemon_well_formed:
  assumes "wf_disk (started e d c)" and "main m (started e d c) = Ret () w" and "reach w v"
  shows "inv False False v"
  using reach_inv [OF assms(3)] safeD [OF inv_main inv_started [OF assms(1)] assms(2)] by blast


definition ex_machine :: Machine where
  "ex_machine = \<lparr>Build = ''0123456'', os_hostname = Inr ''alpha'', journal_error = None, parse_level = (\<lambda>_. None), open_log = (\<lambda>_. None), plugin_dir = []\<rparr>"

text \<open>The first start of a daemon, without a config file: it writes the default one.\<close>

lemma ex_first_start:
  "main ex_machine (started ex_env NoFile None) = Ret () ((started ex_env NoFile None)\<lparr>DBConfig := defaultConfig, LogHostname := ''alpha'',
     disk := ConfigFile (Valid defaultConfig), trace := [WroteConfig defaultConfig]\<rparr>)"
  by (simp add: main_def ex_machine_def started_def NewLogger_def Config_New_def Load_config_def locked_cfg_def lock_cfg_def unlock_cfg_def
      SaveDefaultLocalConfig_def write_config_def ex_env_def emit_def setLogLevel_def Cli_Setup_def Server_Init_def Plugins_Setup_def Load_def
      Server_Setup_def ClusterCheck_def mlen_def defaultConfig_def)

theorem running_daemon_well_formed_witness:
  "\<exists>w v. main ex_machine (started ex_env NoFile None) = Ret () w \<and> reach w v \<and> v \<noteq> w \<and> inv False False v"
proof -
  define w where "w = (started ex_env NoFile None)\<lparr>DBConfig := defaultConfig, LogHostname := ''alpha'',
     disk := ConfigFile (Valid defaultConfig), trace := [WroteConfig defaultConfig]\<rparr>"
  define v where "v = w\<lparr>env := ex_env\<lparr>now := 0\<rparr>\<rparr>"
  have d: "wf_disk (started ex_env NoFile None)" by (simp add: wf_disk_def started_def)
  have "handle_signal SIGHUP w = Ret () w" by (simp add: handle_signal_def signalHooks_def createPulse_def)
  then have "step w (Signal SIGHUP) w" by (rule step.signal)
  moreover have "step w (Surroundings (ex_env\<lparr>now := 0\<rparr>)) v" unfolding v_def by (rule step.surroundings)
  ultimately have r: "reach w v" by (blast intro: reach.intros)
  have "now (env v) \<noteq> now (env w)" by (simp add: v_def w_def started_def ex_env_def)
  then have "v \<noteq> w" by metis
  with running_daemon_well_formed [OF d ex_first_start [folded w_def] r] r ex_first_start [folded w_def] show ?thesis by blast
qed


section \<open>Lines of the log\<close>

text \<open>
  \<^verbatim>\<open>PulseLogFormat.Format\<close>. The names of the levels are the logging library's; the time stamp is given.
  The cases of errors and fatal errors are empty and do not fall through to the one of warnings.
\<close>

datatype log_level = PanicLevel | FatalLevel | ErrorLevel | WarnLevel | InfoLevel | DebugLevel | TraceLevel

definition ToUpper :: "string \<Rightarrow> string" where
  "ToUpper s = map (\<lambda>c. if 97 \<le> (of_char c :: nat) \<and> of_char c \<le> (122 :: nat) then char_of (of_char c - 32 :: nat) else c) s"

definition Format :: "(log_level \<Rightarrow> string) \<Rightarrow> string \<Rightarrow> log_level \<Rightarrow> string \<Rightarrow> string" where
  "Format name stamp level message =
     (let lvlOut = (case level of ErrorLevel \<Rightarrow> name level | FatalLevel \<Rightarrow> name level | WarnLevel \<Rightarrow> ToUpper (name level) | _ \<Rightarrow> name level)
      in ''['' @ stamp @ '']'' @ ''['' @ lvlOut @ ''] '' @ message @ [newline])"

lemma Format_upper: "Format name stamp level message =
  ''['' @ stamp @ ''][''  @ (if level = WarnLevel then ToUpper (name level) else name level) @ ''] '' @ message @ [newline]"
  by (cases level) (simp_all add: Format_def)

text \<open>A daemon that was linked without its commit does not start.\<close>

lemma main_needs_build: "length (Build m) < 7 \<Longrightarrow> main m w = Crash OutOfRange"
  by (simp add: main_def thn_def bnd_def crash_with_def)

end
