(* ===== verification/Cluster.thy ===== *)
theory Cluster
  imports Daemon
begin

text \<open>
  Two daemons together. A daemon sees the others through \<open>rpc_result\<close> of its surroundings; here that
  answer is what the handler of another modelled daemon returns, in the state that daemon has after
  the calls made before. Calls that the other daemon makes meanwhile are answered by its own
  surroundings. The theorems follow a promotion and a change of the config across both daemons.
\<close>

section \<open>Calls between two daemons\<close>

text \<open>The requests of a trace that went to a host, in their order.\<close>

definition requests_to :: "string \<Rightarrow> effect list \<Rightarrow> request list" where
  "requests_to h t = concat (map (\<lambda>e. case e of SentRpc g q \<Rightarrow> if g = h then [q] else [] | _ \<Rightarrow> []) t)"

lemma requests_to_simps [simp]:
  "requests_to h [] = []" "requests_to h (t @ t') = requests_to h t @ requests_to h t'"
  "requests_to h (SentRpc g q # t) = (if g = h then q # requests_to h t else requests_to h t)"
  by (simp_all add: requests_to_def)

text \<open>A daemon serves a list of requests of the peer \<open>p\<close>; \<open>remote p b qs req\<close> is the answer to \<open>req\<close> after
  the requests \<open>qs\<close>. A daemon that has stopped does not answer.\<close>

definition serve_all :: "Peer \<Rightarrow> request list \<Rightarrow> unit go" where
  "serve_all p qs = for_each qs (\<lambda>q. thn (serve_request (Some p) q) skip)"

definition remote :: "Peer \<Rightarrow> world \<Rightarrow> request list \<Rightarrow> request \<Rightarrow> string + response" where
  "remote p b qs req = (case thn (serve_all p qs) (serve_request (Some p) req) b of
     Ret res _ \<Rightarrow> res
   | Crash _ \<Rightarrow> Inl ''rpc error: code = Unavailable desc = transport is closing'')"

text \<open>The daemon \<open>a\<close> reaches the daemon \<open>b\<close> under the name \<open>h\<close>, and appears to it as the peer \<open>p\<close>. After a run
  of \<open>a\<close> that ended in \<open>v\<close>, the state of the other daemon is the one of \<open>far_end\<close>.\<close>

definition reaches :: "world \<Rightarrow> string \<Rightarrow> Peer \<Rightarrow> world \<Rightarrow> bool" where
  "reaches a h p b \<longleftrightarrow> (\<forall>t req. rpc_result (env a) (trace a @ t) h req = remote p b (requests_to h t) req)"

definition far_end :: "world \<Rightarrow> string \<Rightarrow> Peer \<Rightarrow> world \<Rightarrow> world \<Rightarrow> (world, unit) outcome" where
  "far_end a h p b v = serve_all p (requests_to h (drop (length (trace a)) (trace v))) b"

lemma serve_all_simps [simp]:
  "serve_all p [] w = Ret () w"
  "serve_all p (q # qs) w = (case serve_request (Some p) q w of Ret _ u \<Rightarrow> serve_all p qs u | Crash c \<Rightarrow> Crash c)"
  by (simp_all add: serve_all_def split: outcome.split)

lemma serve_request_known:
  assumes "AuthInfo p = TLSInfo True"
  shows "serve_request (Some p) req = handler (Some p) req"
  using assms by (simp add: serve_request_def serverInterceptor_def)

section \<open>The side that is promoted\<close>

text \<open>What \<open>handler\<close> does with a promotion, on the daemon that it names.\<close>

definition ready_node :: "string \<Rightarrow> nat \<Rightarrow> world \<Rightarrow> bool" where
  "ready_node h r w \<longleftrightarrow> wf w \<and> linked False (Members w) w \<and> h \<noteq> '''' \<and> find_member w h = Some r \<and>
     (\<exists>node. GetLocalNode (DBConfig w) = Inr node \<and> NodeHostname node = h) \<and> GetNetworkingPlugin (modules w) \<noteq> None"

definition ups :: "Config \<Rightarrow> string \<Rightarrow> effect set" where
  "ups c h = {BroughtUp iface (group_ips c g) |iface g. assigned_to c h iface g}"

definition downs :: "Config \<Rightarrow> string \<Rightarrow> effect set" where
  "downs c h = {BroughtDown iface (group_ips c g) |iface g. assigned_to c h iface g}"

lemma makeGroupPassive_run:
  assumes "GetNetworkingPlugin (modules w) \<noteq> None"
  shows "makeGroupPassive iface g w = Ret () (w\<lparr>trace := trace w @ [BroughtDown iface (group_ips (DBConfig w) g)]\<rparr>)"
  using assms by (auto simp: makeGroupPassive_def BringDownIPs_def emit_def)

lemma MakeLocalPassive_run:
  assumes "wf w" and "GetLocalNode (DBConfig w) = Inr node" and "GetNetworkingPlugin (modules w) \<noteq> None"
  shows "\<exists>l. MakeLocalPassive w = Ret () (w\<lparr>trace := trace w @ l\<rparr>) \<and> set l = downs (DBConfig w) (NodeHostname node)"
proof (intro exI conjI)
  let ?l = "map (\<lambda>(iface, g). BroughtDown iface (group_ips (DBConfig w) g)) (assignments w ''MakeLocalPassive'' (NodeHostname node))"
  show "MakeLocalPassive w = Ret () (w\<lparr>trace := trace w @ ?l\<rparr>)"
    unfolding MakeLocalPassive_def using assms(2,3) by (simp, intro for_each_trace) (auto simp: makeGroupPassive_run)
  from assms(1) have "wf_config (DBConfig w)" by (simp add: wf_def)
  from set_assignments [OF this] show "set ?l = downs (DBConfig w) (NodeHostname node)" by (auto simp: downs_def)
qed

definition active_now :: "Member \<Rightarrow> Member" where
  "active_now m = m\<lparr>Latency := '''', LastHCResponse := 0, Status := ACTIVE\<rparr>"

definition passive_now :: "int \<Rightarrow> Member \<Rightarrow> Member" where
  "passive_now t m = m\<lparr>LastHCResponse := t, Status := PASSIVE\<rparr>"

text \<open>Entries that are no calls.\<close>

fun silent :: "effect \<Rightarrow> bool" where
  "silent (SentRpc _ _) = False"
| "silent _ = True"

lemma status_events_silent: "list_all silent (status_events w)" "list_all (\<lambda>e. \<not> address_change e) (status_events w)"
  by (auto simp: status_events_def list_all_iff)

lemma emit_run: "emit e w = Ret () (w\<lparr>trace := trace w @ [e]\<rparr>)"
  by (simp add: emit_def)

lemma assignments_frame:
  "assignments ((update_member r f w)\<lparr>trace := t\<rparr>) site h = assignments w site h"
proof -
  have "order_at ((update_member r f w)\<lparr>trace := t\<rparr>) = order_at w" by (rule ext) (simp add: order_at_def)
  then show ?thesis by (simp add: assignments_def cong: if_cong)

qed

lemma MakeActive_local_run:
  assumes "ready_node h r w" and "\<And>iface ips. net_up (env w) iface ips = None"
  shows "\<exists>l. MakeActive r w = Ret None ((update_member r active_now w)\<lparr>trace := trace w @ l\<rparr>) \<and>
    list_all silent l \<and> set (filter address_change l) = ups (DBConfig w) h \<and>
    {Started TaskMonitorClientConns, Started TaskAddHealthCheckHandler} \<subseteq> set l"
proof -
  from assms(1) obtain node where n: "GetLocalNode (DBConfig w) = Inr node" "NodeHostname node = h"
    and r: "Hostname (member w r) = h" and p: "GetNetworkingPlugin (modules w) \<noteq> None" and wf: "wf_config (DBConfig w)"
    by (auto simp: ready_node_def wf_def dest: find_member_SomeD)
  let ?fo = "map (\<lambda>p. MemberFailover (PluginName p) (member w r)) (GetGeneralPlugins (modules w))"
  let ?u = "update_member r active_now w"
  let ?st = "status_events ?u"
  let ?up = "map (\<lambda>(iface, g). BroughtUp iface (group_ips (DBConfig w) g)) (assignments w ''MakeLocalActive'' h)"
  let ?l = "?fo @ ?st @ ?up @ [Started TaskMonitorClientConns, Started TaskAddHealthCheckHandler]"
  have up: "MakeLocalActive (?u\<lparr>trace := t\<rparr>) = Ret () (?u\<lparr>trace := t @ ?up\<rparr>)" for t
    using MakeLocalActive_run [of "?u\<lparr>trace := t\<rparr>" node] n p assms(2) by (simp add: assignments_frame)
  have "MakeActive r w = Ret None (?u\<lparr>trace := trace w @ ?l\<rparr>)"
    using n r up
    by (simp add: MakeActive_def for_each_emit become_active_def SetLatency_def SetLastHCResponse_def SetStatus_run
        with_status_def update_member_twice o_def update_member_trace emit_run active_now_def [abs_def] status_events_def)

  moreover have "set (filter address_change ?l) = ups (DBConfig w) h"
    using set_assignments [OF wf, of "''MakeLocalActive''" h] status_events_silent(2) [of ?u]
    by (auto simp: ups_def list_all_iff)
  moreover have "list_all silent ?l" using status_events_silent(1) [of ?u] by (auto simp: list_all_iff)
  ultimately show ?thesis by (intro exI [of _ ?l]) auto
qed

section \<open>The side that steps down\<close>

lemma MakePassive_local_run:
  assumes "ready_node h r w" and "Status (member w r) \<noteq> PASSIVE"
  shows "\<exists>l. MakePassive r w = Ret None ((update_member r (passive_now (now (env w))) w)\<lparr>trace := trace w @ l\<rparr>) \<and>
    list_all silent l \<and> set (filter address_change l) = downs (DBConfig w) h \<and> Started (TaskMonitorReceivedHCs r) \<in> set l"
proof -
  from assms(1) obtain node where n: "GetLocalNode (DBConfig w) = Inr node" "NodeHostname node = h"
    and r: "Hostname (member w r) = h" and p: "GetNetworkingPlugin (modules w) \<noteq> None" and wf: "wf w"
    by (auto simp: ready_node_def dest: find_member_SomeD)
  from MakeLocalPassive_run [OF wf n(1) p] n(2) obtain dn where
    dn: "MakeLocalPassive w = Ret () (w\<lparr>trace := trace w @ dn\<rparr>)" "set dn = downs (DBConfig w) h" by auto
  let ?u = "update_member r (passive_now (now (env w))) w"
  let ?l = "dn @ status_events ?u @ [Started (TaskMonitorReceivedHCs r)]"
  have s: "Status (member (update_member r (\<lambda>m. m\<lparr>LastHCResponse := t\<rparr>) w) r) \<noteq> PASSIVE" for t
    using assms(2) by (cases "r < length (heap w)") (simp_all add: member_update_member, simp add: member_def update_member_def list_update_beyond)
  have "MakePassive r w = Ret None (?u\<lparr>trace := trace w @ ?l\<rparr>)"
    using n r dn(1) s
    by (simp add: MakePassive_def become_passive_def SetLastHCResponse_def SetStatus_run with_status_def update_member_twice o_def
        update_member_trace emit_run passive_now_def [abs_def] status_events_def)
  moreover have "\<And>e. e \<in> set dn \<Longrightarrow> address_change e \<and> silent e" unfolding dn(2) by (auto simp: downs_def)
  then have "list_all silent ?l" and "set (filter address_change ?l) = downs (DBConfig w) h"
    using status_events_silent [of ?u] by (auto simp: list_all_iff simp flip: dn(2))
  ultimately show ?thesis by (intro exI [of _ ?l]) auto
qed

lemma demote_local_run:
  assumes "ready_node h r w" and "Status (member w r) \<noteq> PASSIVE"
  shows "\<exists>l. demote (Some r) w = Ret () ((update_member r (passive_now (now (env w))) w)\<lparr>trace := trace w @ l\<rparr>) \<and>
    list_all silent l \<and> set (filter address_change l) = downs (DBConfig w) h \<and> Started (TaskMonitorReceivedHCs r) \<in> set l"
proof -
  let ?u = "update_member r (passive_now (now (env w))) w"
  from MakePassive_local_run [OF assms] obtain l where
    l: "MakePassive r w = Ret None (?u\<lparr>trace := trace w @ l\<rparr>)" "list_all silent l"
      "set (filter address_change l) = downs (DBConfig w) h" "Started (TaskMonitorReceivedHCs r) \<in> set l" by blast
  let ?l = "l @ status_events ?u"
  from l(1) have "demote (Some r) w = Ret () (?u\<lparr>trace := trace w @ ?l\<rparr>)"
    by (simp add: demote_def SetStatus_run with_status_def update_member_twice o_def update_member_trace passive_now_def [abs_def] status_events_def)
  moreover have "list_all silent ?l" and "set (filter address_change ?l) = downs (DBConfig w) h"
    using l(2,3) status_events_silent [of ?u] by (auto simp: list_all_iff)
  ultimately show ?thesis using l(4) by (intro exI [of _ ?l]) auto
qed

section \<open>Handing over\<close>

lemma trace_Connect: "safe (\<lambda>w. trace w = t) any_crash (Connect r)"
  unfolding Connect_def with_client_def SetClient_def by (intro safe_intro) simp_all

lemma rpc_call_run:
  assumes "linked ml ms w" and "r \<in> set ms" and "GetProtoFunc d = Some f"
  shows "\<exists>u v. Connect r w = Ret None u \<and>
    Send r f d u = Ret (rpc_result (env w) (trace w) (Hostname (member w r)) d) v \<and>
    trace v = trace w @ [SentRpc (Hostname (member w r)) d] \<and> core v = core w \<and> linked ml ms v"
proof -
  from partialD [OF Connect_linked [OF assms(2)] assms(1)] partial_crashD [OF Connect_linked [OF assms(2)] assms(1)]
  obtain u where u: "Connect r w = Ret None u" and l: "linked ml ms u" and c: "connected r u" by (cases "Connect r w") auto
  have t: "trace u = trace w" by (rule safeD [OF trace_Connect refl u])
  note q = quietD [OF quiet_Connect u]
  from assms(1,2) have "r < length (heap w)" by (simp add: linked_def)
  with core_member [OF q] have h: "Hostname (member u r) = Hostname (member w r)" by (metis strip_eq_fields(1))
  from c obtain cl where "MemberClient (member u r) = Some cl" "Connection cl = Some Opened" "Requester cl"
    by (auto simp: connected_def)
  with assms(3) h t core_fields(10) [OF q] u q l show ?thesis
    by (simp add: Send_def with_client_def Client_Send_def emit_run)
qed

lemma ask_run:
  assumes "linked False ms w" and "r \<in> set ms" and "GetProtoFunc d = Some f"
  shows "\<exists>v. ask r f d w = Ret (case rpc_result (env w) (trace w) (Hostname (member w r)) d of Inl e \<Rightarrow> Some e | Inr _ \<Rightarrow> None) v \<and>
    trace v = trace w @ [SentRpc (Hostname (member w r)) d] \<and> core v = core w \<and> linked False ms v"
  using rpc_call_run [OF assms] by (auto simp: ask_def split: sum.split)

lemma ready_local:
  assumes "ready_node h r w" and "known_peer (DBConfig w) (Some p)"
  shows "authorized (Some p) (local_member_named h k) w = k r w"
  using assms by (auto simp: ready_node_def authorized_known local_member_named_def GetMemberByHostname_run linked_def)

lemma Promote_served:
  assumes "ready_node h r b" and "known_peer (DBConfig b) (Some p)" and "AuthInfo p = TLSInfo True"
    and "\<And>iface ips. net_up (env b) iface ips = None"
  shows "\<exists>v l. serve_request (Some p) (ReqPromote \<lparr>PromoteTarget = h\<rparr>) b = Ret (Inr (RespOther (reply True '''' 0))) v \<and>
    core v = core (update_member r active_now b) \<and> trace v = trace b @ l \<and> set (filter address_change l) = ups (DBConfig b) h \<and>
    {Started TaskMonitorClientConns, Started TaskAddHealthCheckHandler} \<subseteq> set l \<and> linked False (Members b) v"
proof -
  from MakeActive_local_run [OF assms(1,4)] obtain l where
    run: "MakeActive r b = Ret None ((update_member r active_now b)\<lparr>trace := trace b @ l\<rparr>)" (is "_ = Ret None ?u")
    and l: "set (filter address_change l) = ups (DBConfig b) h" "{Started TaskMonitorClientConns, Started TaskAddHealthCheckHandler} \<subseteq> set l"
    by blast
  have "linked False (Members b) ?u" using assms(1)
    by (auto simp: ready_node_def active_now_def intro: linked_keep)
  from safe_totalD [OF sound_Logging(2) this] obtain v where v: "Logging_Info (h @ '' has been promoted to active'') ?u = Ret () v"
    and lv: "linked False (Members b) v" by auto
  from safeD [OF only_added_Logging(2) [of log_entry] only_added_refl v] obtain l' where
    l': "trace v = trace b @ l @ l'" "list_all log_entry l'" by (auto simp: only_added_def)
  have "filter address_change l' = []"
    using l'(2) by (auto simp: list_all_iff filter_empty_conv elim!: log_entry.elims(2) dest!: bspec)
  with l l'(1) quietD [OF quiet_Logging(2) v] v lv run
  show ?thesis by (intro exI [of _ v] exI [of _ "l @ l'"])
    (auto simp: serve_request_known [OF assms(3)] answer_def Server_Promote_def ready_local [OF assms(1,2)])
qed

text \<open>The abstract view of a cluster: which nodes consider themselves active. Which addresses the networking plugin
  of a node was last asked to have up is \<open>held\<close>.\<close>

definition local_active :: "world \<Rightarrow> string option" where
  "local_active w = (case GetLocalNode (DBConfig w) of
     Inl _ \<Rightarrow> None
   | Inr node \<Rightarrow> (case find_member w (NodeHostname node) of
       None \<Rightarrow> None
     | Some r \<Rightarrow> if Status (member w r) = ACTIVE then Some (NodeHostname node) else None))"

definition active_hosts :: "world list \<Rightarrow> string set" where
  "active_hosts ws = (\<Union>w \<in> set ws. set_option (local_active w))"

lemma held_downs:
  assumes "\<And>e. e \<in> set l \<Longrightarrow> address_change e \<Longrightarrow> \<exists>iface ips. e = BroughtDown iface ips"
  shows "held S l = S - \<Union> {{iface} \<times> set ips |iface ips. BroughtDown iface ips \<in> set l}"
  using assms
proof (induction l arbitrary: S)
  case (Cons e l)
  then show ?case using Cons.prems [of e] by (cases e) (auto simp: Cons.IH)
qed simp

lemma held_ups:
  assumes "\<And>e. e \<in> set l \<Longrightarrow> address_change e \<Longrightarrow> \<exists>iface ips. e = BroughtUp iface ips"
  shows "held S l = S \<union> \<Union> {{iface} \<times> set ips |iface ips. BroughtUp iface ips \<in> set l}"
  using assms
proof (induction l arbitrary: S)
  case (Cons e l)
  then show ?case using Cons.prems [of e] by (cases e) (auto simp: Cons.IH)
qed simp

lemma held_of_downs:
  assumes "set (filter address_change l) = downs c h"
  shows "held S l = S - addresses c h"
proof -
  have "BroughtDown iface ips \<in> set l \<longleftrightarrow> BroughtDown iface ips \<in> downs c h" for iface ips
    unfolding assms [symmetric] by simp
  then have "\<Union> {{iface} \<times> set ips |iface ips. BroughtDown iface ips \<in> set l} = addresses c h"
    by (auto simp: downs_def addresses_def)
  moreover have "\<exists>iface ips. e = BroughtDown iface ips" if "e \<in> set l" "address_change e" for e
  proof -
    from that have "e \<in> downs c h" unfolding assms [symmetric] by simp
    then show ?thesis by (auto simp: downs_def)
  qed
  ultimately show ?thesis using held_downs [of l S] by simp
qed

lemma held_of_ups:
  assumes "set (filter address_change l) = ups c h"
  shows "held S l = S \<union> addresses c h"
proof -
  have "BroughtUp iface ips \<in> set l \<longleftrightarrow> BroughtUp iface ips \<in> ups c h" for iface ips
    unfolding assms [symmetric] by simp
  then have "\<Union> {{iface} \<times> set ips |iface ips. BroughtUp iface ips \<in> set l} = addresses c h"
    by (auto simp: ups_def addresses_def)
  moreover have "\<exists>iface ips. e = BroughtUp iface ips" if "e \<in> set l" "address_change e" for e
  proof -
    from that have "e \<in> ups c h" unfolding assms [symmetric] by simp
    then show ?thesis by (auto simp: ups_def)
  qed
  ultimately show ?thesis using held_ups [of l S] by simp
qed

lemma core_local_active:
  assumes "core v = core w" and "wf_members w"
  shows "local_active v = local_active w"
proof -
  have m: "strip (member v r) = strip (member w r)" if "r \<in> set (Members w)" for r
    using core_member [OF assms(1), of r] assms(2) that by (simp add: wf_members_def)
  have "find_member v h = find_member w h" for h
    unfolding find_member_def core_fields(3) [OF assms(1)]
    by (rule find_cong) (auto dest!: m strip_eq_fields(1))
  moreover have "Status (member v r) = Status (member w r)" if "find_member w h = Some r" for h r
    using find_member_SomeD [OF that] m strip_eq_fields(2) by blast
  ultimately show ?thesis
    by (auto simp: local_active_def core_fields(1) [OF assms(1)] split: sum.split option.split)
qed

lemma linked_changed: "linked ml ms w \<Longrightarrow> (\<And>m. MemberClient (f m) = MemberClient m) \<Longrightarrow> linked ml ms ((update_member r f w)\<lparr>trace := t\<rparr>)"
  by (simp add: linked_keep)

lemma requests_silent: "list_all silent l \<Longrightarrow> requests_to h l = []"
  by (induction l) (auto simp: requests_to_def split: effect.split)

lemma ready_active:
  assumes "ready_node h r w" and "core v = core ((update_member r f w)\<lparr>trace := t\<rparr>)" and "\<And>m. Hostname (f m) = Hostname m"
  shows "local_active v = (if Status (f (member w r)) = ACTIVE then Some h else None)"
proof -
  let ?u = "(update_member r f w)\<lparr>trace := t\<rparr>"
  from assms(1) obtain node where n: "GetLocalNode (DBConfig w) = Inr node" "NodeHostname node = h"
    and r: "find_member w h = Some r" and wf: "wf_members w" by (auto simp: ready_node_def wf_def)
  from r wf have len: "r < length (heap w)" by (auto simp: wf_members_def dest: find_member_SomeD)
  have "wf_members ?u" using wf assms(3) by (simp add: wf_members_def map_field_update_member)
  with assms(2) have "local_active v = local_active ?u" by (rule core_local_active)
  also have "find_member ?u h = Some r"
    using r unfolding find_member_def by (simp add: hostname_update_member assms(3))
  then have "local_active ?u = (if Status (f (member w r)) = ACTIVE then Some h else None)"
    using n len by (simp add: local_active_def member_update_member)
  finally show ?thesis .
qed

text \<open>What \<open>PromoteMember\<close> does on the active daemon when another member is promoted.\<close>

lemma promote_other_run:
  assumes "ready_node ha ra a" and "Status (member a ra) = ACTIVE" and "one_active a"
    and "find_member a hb = Some rb" and "hb \<noteq> ha" and "hb \<noteq> ''''" and "Status (member a rb) \<noteq> UNAVAILABLE"
    and "\<And>t. list_all silent t \<Longrightarrow> rpc_result (env a) (trace a @ t) hb (ReqPromote \<lparr>PromoteTarget = hb\<rparr>) = Inr resp"
  shows "\<exists>v l. PromoteMember hb a = Ret None v \<and> core v = core (update_member ra (passive_now (now (env a))) a) \<and>
    trace v = trace a @ l @ [SentRpc hb (ReqPromote \<lparr>PromoteTarget = hb\<rparr>)] \<and> list_all silent l \<and>
    set (filter address_change l) = downs (DBConfig a) ha \<and> linked False (Members a) v"
proof -
  from assms(1) obtain node where n: "GetLocalNode (DBConfig a) = Inr node" "NodeHostname node = ha"
    and ra: "ra \<in> set (Members a)" "Hostname (member a ra) = ha" and l: "linked False (Members a) a"
    by (auto simp: ready_node_def dest: find_member_SomeD)
  from find_member_SomeD [OF assms(4)] have rb: "rb \<in> set (Members a)" "Hostname (member a rb) = hb" by auto
  from one_active_first [OF assms(3)] have A: "active_in (set_option (snd (GetActiveMember a))) a" .
  then have act: "snd (GetActiveMember a) = Some ra" using ra assms(2) by (auto simp: active_in_def)
  with A have st: "Status (member a rb) \<noteq> ACTIVE" using ra rb assms(5) by (auto simp: active_in_def)

  from demote_local_run [OF assms(1)] assms(2) obtain d where
    d: "demote (Some ra) a = Ret () ((update_member ra (passive_now (now (env a))) a)\<lparr>trace := trace a @ d\<rparr>)" (is "_ = Ret () ?u")
    and dl: "list_all silent d" "set (filter address_change d) = downs (DBConfig a) ha" by auto
  have lu: "linked False (Members a) ?u" by (rule linked_changed [OF l]) (simp add: passive_now_def)
  let ?fo = "map (\<lambda>p. MemberFailover (PluginName p) (member ?u rb)) (GetGeneralPlugins (modules a))"
  let ?w = "?u\<lparr>trace := trace a @ d @ ?fo\<rparr>"
  have lw: "linked False (Members a) ?w" using lu by simp
  have h: "Hostname (member ?w rb) = hb" using rb(2) by (simp add: hostname_update_member passive_now_def)
  have silent: "list_all silent (d @ ?fo)" using dl(1) by (auto simp: list_all_iff)
  from ask_run [OF lw rb(1), of "ReqPromote \<lparr>PromoteTarget = hb\<rparr>" SendPromote] h assms(8) [OF silent] obtain v where
    v: "ask rb SendPromote (ReqPromote \<lparr>PromoteTarget = hb\<rparr>) ?w = Ret None v"
      "trace v = trace a @ (d @ ?fo) @ [SentRpc hb (ReqPromote \<lparr>PromoteTarget = hb\<rparr>)]" "core v = core ?w" "linked False (Members a) v" by auto
  have "MakeActive rb ?u = Ret None v"
    using n v(1) assms(5) h by (simp add: MakeActive_def for_each_emit)
  then have "PromoteMember hb a = Ret None v"
    using assms(4,6,7) st act d l
    by (simp add: PromoteMember_def GetMemberByHostname_run linked_def promote_unless_def swap_active_def)
  moreover have "set (filter address_change (d @ ?fo)) = downs (DBConfig a) ha" using dl(2) by (auto simp: filter_empty_conv)
  ultimately show ?thesis using v silent by (intro exI [of _ v] exI [of _ "d @ ?fo"]) simp
qed

text \<open>\<^bold>\<open>C1.\<close> The active daemon hands over to another one that it reaches. The call returns without
  error. The active role moves from the one to the other: before, only the first considers itself
  active, afterwards only the second. The first has given up its addresses before it asks the
  second, which has changed none of its own until then, and afterwards has exactly the addresses
  that its config assigns to it on top of those it had, and monitors the cluster.\<close>

theorem handover:
  assumes "ready_node ha ra a" and "Status (member a ra) = ACTIVE" and "one_active a"
    and "find_member a hb = Some rb" and "hb \<noteq> ha" and "Status (member a rb) \<noteq> UNAVAILABLE"
    and "ready_node hb r b" and "Status (member b r) \<noteq> ACTIVE"
    and "known_peer (DBConfig b) (Some p)" and "AuthInfo p = TLSInfo True" and "\<And>iface ips. net_up (env b) iface ips = None"
    and "reaches a hb p b"
  shows "active_hosts [a, b] = {ha} \<and> (\<exists>v b' l. PromoteMember hb a = Ret None v \<and> far_end a hb p b v = Ret () b' \<and>
    active_hosts [v, b'] = {hb} \<and>
    trace v = trace a @ l @ [SentRpc hb (ReqPromote \<lparr>PromoteTarget = hb\<rparr>)] \<and> requests_to hb l = [] \<and>
    held S (trace a @ l) = held S (trace a) - addresses (DBConfig a) ha \<and>
    held S (trace v) = held S (trace a) - addresses (DBConfig a) ha \<and>
    held T (trace b') = held T (trace b) \<union> addresses (DBConfig b) hb \<and> monitoring b')"
proof -
  from assms(7) have hb: "hb \<noteq> ''''" by (simp add: ready_node_def)
  from Promote_served [OF assms(7,9-11)] obtain b' m where
    b: "serve_request (Some p) (ReqPromote \<lparr>PromoteTarget = hb\<rparr>) b = Ret (Inr (RespOther (reply True '''' 0))) b'"
    "core b' = core (update_member r active_now b)" "trace b' = trace b @ m" "set (filter address_change m) = ups (DBConfig b) hb"
    "{Started TaskMonitorClientConns, Started TaskAddHealthCheckHandler} \<subseteq> set m" by blast
  have "rpc_result (env a) (trace a @ t) hb (ReqPromote \<lparr>PromoteTarget = hb\<rparr>) = Inr (RespOther (reply True '''' 0))"
    if "list_all silent t" for t
    using assms(12) b(1) requests_silent [OF that, of hb] by (simp add: reaches_def remote_def)
  from promote_other_run [OF assms(1-5) hb assms(6) this] obtain v l where
    v: "PromoteMember hb a = Ret None v" "core v = core (update_member ra (passive_now (now (env a))) a)"
    "trace v = trace a @ l @ [SentRpc hb (ReqPromote \<lparr>PromoteTarget = hb\<rparr>)]" "list_all silent l"
    "set (filter address_change l) = downs (DBConfig a) ha" by blast
  have "far_end a hb p b v = Ret () b'"
    using v(3) b(1) requests_silent [OF v(4), of hb] by (simp add: far_end_def)
  moreover have "local_active v = None" using v(2) ready_active [OF assms(1), of v "[]" "passive_now (now (env a))"]
    by (simp add: passive_now_def)
  moreover have "local_active b' = Some hb" using b(2) ready_active [OF assms(7), of b' "[]" active_now]
    by (simp add: active_now_def)
  moreover have "local_active a = Some ha" using assms(1,2) by (auto simp: ready_node_def local_active_def)
  moreover have "local_active b = None" using assms(7,8) by (auto simp: ready_node_def local_active_def)
  moreover have "monitoring b'" using b(3,5) by (auto simp: monitoring_def)
  ultimately show ?thesis using v(1,3) requests_silent [OF v(4), of hb] b(3)
      held_of_downs [OF v(5)] held_of_ups [OF b(4)] by (auto simp: active_hosts_def)
qed

text \<open>The two nodes of the example, joined: \<^verbatim>\<open>beta\<close> is on standby, and \<^verbatim>\<open>alpha\<close> reaches it.\<close>

definition ex_beta :: world where
  "ex_beta = ex_world\<lparr>DBConfig := ex_config\<lparr>Pulse := (Pulse ex_config)\<lparr>LocalNodeUid := ''u2''\<rparr>\<rparr>,
     env := ex_env\<lparr>hostname_cmd := Inr ''beta''\<rparr>\<rparr>"

definition ex_alpha_peer :: Peer where
  "ex_alpha_peer = \<lparr>PeerIp = ''10.0.0.11'', AuthInfo = TLSInfo True\<rparr>"

definition ex_alpha :: world where
  "ex_alpha = ex_world\<lparr>env := ex_env\<lparr>rpc_result := (\<lambda>t h. remote ex_alpha_peer ex_beta (requests_to h t))\<rparr>\<rparr>"

lemma load_tls_ex_alpha: "load_tls ex_alpha = TlsFilesOk" and load_tls_ex_beta: "load_tls ex_beta = TlsFilesOk"
proof -
  from linked_ex have ex: "load_tls ex_world = TlsFilesOk" by (simp add: linked_def)
  have "load_tls ex_alpha = load_tls ex_world" by (rule load_tls_cong) (simp_all add: ex_alpha_def)
  with ex show "load_tls ex_alpha = TlsFilesOk" by simp
  have "load_tls ex_beta = load_tls ex_world" by (rule load_tls_cong) (simp_all add: ex_beta_def)
  with ex show "load_tls ex_beta = TlsFilesOk" by simp
qed

lemma ready_ex_alpha: "ready_node ''alpha'' 0 ex_alpha"
  using wf_ex_world linked_ex load_tls_ex_alpha
  by (simp add: ready_node_def find_member_def member_def linked_def)
    (simp add: ex_alpha_def GetLocalNode_ex GetNetworkingPlugin_def)

lemma ready_ex_beta: "ready_node ''beta'' 1 ex_beta"
proof -
  have "GetLocalNode (DBConfig ex_beta) = Inr (ex_node ''beta'' ''10.0.0.12'')"
    by (simp add: ex_beta_def GetLocalNode_def ClusterCheck_def mlen_def lookup_def)
  moreover have "wf ex_beta" using wf_ex_world wf_ex_config by (simp add: ex_beta_def wf_def wf_config_def)
  moreover have "linked False (Members ex_beta) ex_beta" using linked_ex load_tls_ex_beta by (simp add: linked_def) (simp add: ex_beta_def member_def)
  ultimately show ?thesis
    by (simp add: ready_node_def) (simp add: ex_beta_def find_member_def member_def GetNetworkingPlugin_def)
qed

theorem handover_witness:
  "\<exists>v b'. PromoteMember ''beta'' ex_alpha = Ret None v \<and> far_end ex_alpha ''beta'' ex_alpha_peer ex_beta v = Ret () b' \<and>
     active_hosts [ex_alpha, ex_beta] = {''alpha''} \<and> active_hosts [v, b'] = {''beta''} \<and> monitoring b'"
proof -
  have "one_active ex_alpha" "reaches ex_alpha ''beta'' ex_alpha_peer ex_beta"
    using wf_ex_world by (simp_all add: ex_alpha_def one_active_def members_def member_def wf_def reaches_def)
  moreover have "known_peer (DBConfig ex_beta) (Some ex_alpha_peer)" "AuthInfo ex_alpha_peer = TLSInfo True"
    by (simp_all add: known_peer_def ex_beta_def ex_alpha_peer_def)
  moreover have "find_member ex_alpha ''beta'' = Some 1" "Status (member ex_alpha 0) = ACTIVE"
    "Status (member ex_alpha 1) = PASSIVE" "Status (member ex_beta 1) = PASSIVE"
    by (simp_all add: ex_alpha_def ex_beta_def find_member_def member_def)
  moreover have "net_up (env ex_beta) iface ips = None" for iface ips by (simp add: ex_beta_def ex_env_def)
  ultimately show ?thesis
    using handover [OF ready_ex_alpha _ _ _ _ _ ready_ex_beta, of "Suc 0" ex_alpha_peer, where S = "{}" and T = "{}"] by auto
qed

section \<open>Sharing the config\<close>

text \<open>Calls that log, which change nothing where they arrive, may come before the config.\<close>

definition chatter :: "effect \<Rightarrow> bool" where
  "chatter e \<longleftrightarrow> silent e \<or> log_entry e"

definition at_rest :: "nat list \<Rightarrow> string list \<Rightarrow> Env \<Rightarrow> effect list \<Rightarrow> world \<Rightarrow> bool" where
  "at_rest ms hs e t w \<longleftrightarrow> linked False ms w \<and> map Hostname (members w) = hs \<and> env w = e \<and> only_added chatter t w"

lemma at_rest_config: "at_rest ms hs e t w \<Longrightarrow> at_rest ms hs e t (set_config f w)"
  "at_rest ms hs e t w \<Longrightarrow> at_rest ms hs e t (w\<lparr>cfg_lock := b\<rparr>)" "at_rest ms hs e t w \<Longrightarrow> at_rest ms hs e t (w\<lparr>disk := d\<rparr>)"
  by (auto simp: at_rest_def linked_def only_added_def set_config_def)

lemma at_rest_locked: "safe (at_rest ms hs e t) any_crash body \<Longrightarrow> safe (at_rest ms hs e t) any_crash (locked_cfg body)"
  unfolding locked_cfg_def lock_cfg_def unlock_cfg_def by (intro safe_intro at_rest_config) simp_all

lemma at_rest_emit: "chatter x \<Longrightarrow> safe (at_rest ms hs e t) C (emit x)"
  unfolding safe_def
  by (rule partialI) (auto simp: at_rest_def emit_run only_added_def)

lemma at_rest_quiet:
  assumes "quiet m" and "sound False ms m" and "safe (only_added chatter t) any_crash m"
  shows "safe (at_rest ms hs e t) any_crash m"
  unfolding safe_def
proof (rule partialI)
  fix w x v assume w: "at_rest ms hs e t w" and run: "m w = Ret x v"
  note c = quietD [OF assms(1) run]
  from w have l: "linked False ms w" by (simp add: at_rest_def)
  then have "map Hostname (members v) = map Hostname (members w)"
    by (intro core_members [OF c]) (auto simp: strip_def linked_def)
  with w core_fields(10) [OF c] safeD [OF assms(2) l run] safeD [OF assms(3) _ run] show "at_rest ms hs e t v"
    by (simp add: at_rest_def)
qed simp

lemma at_rest_Logging:
  "safe (at_rest ms hs e t) any_crash (Logging_Warn m)" "safe (at_rest ms hs e t) any_crash (Logging_Error m)"
  by (intro at_rest_quiet quiet_Logging sound_Logging only_added_Logging; simp add: chatter_def)+

lemma at_rest_addresses:
  "safe (at_rest ms hs e t) any_crash (makeGroupActive iface g)" "safe (at_rest ms hs e t) any_crash (makeGroupPassive iface g)"
  unfolding makeGroupActive_def makeGroupPassive_def BringUpIPs_def BringDownIPs_def
  by (intro safe_intro at_rest_emit at_rest_Logging; simp add: chatter_def)+

lemmas at_rest_intro = safe_intro at_rest_locked at_rest_Logging at_rest_addresses at_rest_config

lemma at_rest_groups:
  "safe (at_rest ms hs e t) any_crash (groupNew g)" "safe (at_rest ms hs e t) any_crash (groupDelete g)"
  "safe (at_rest ms hs e t) any_crash (groupAssign g uid iface)" "safe (at_rest ms hs e t) any_crash (groupUnassign g uid iface)"
  unfolding groupNew_def groupDelete_def groupAssign_def groupUnassign_def write_group_def write_iface_def activate_if_local_def
  by (intro at_rest_intro safe_case_bool; simp)+

lemma at_rest_Save
: "safe (at_rest ms hs e t) any_crash Save"
  unfolding Save_def write_config_def
  by (intro at_rest_intro at_rest_emit) (simp_all add: chatter_def at_rest_config)

lemma broadcast_one_run:
  assumes "linked ml ms w" and "GetProtoFunc d = Some f" and "r \<in> set ms" and "GetHostname (hostname_cmd (env w)) = Inr h"
  shows "\<exists>x v. broadcast_one f d r w = Ret x v \<and> linked ml ms v \<and> core v = core w \<and>
    trace v = trace w @ (if Hostname (member w r) = h then [] else [SentRpc (Hostname (member w r)) d])"
proof (cases "Hostname (member w r) = h")
  case True
  with assms(1,4) show ?thesis by (simp add: broadcast_one_def)
next
  case False
  with rpc_call_run [OF assms(1,3,2)] assms(4) show ?thesis by (auto simp: broadcast_one_def split: sum.split)
qed

lemma collect_run:
  assumes "linked ml ms w" and "GetProtoFunc d = Some f" and "set rs \<subseteq> set ms" and "GetHostname (hostname_cmd (env w)) = Inr h"
  shows "\<exists>x v. for_collect rs (broadcast_one f d) w = Ret x v \<and> linked ml ms v \<and> core v = core w \<and>
    trace v = trace w @ map (\<lambda>g. SentRpc g d) (filter (\<lambda>g. g \<noteq> h) (map (\<lambda>r. Hostname (member w r)) rs))"
  using assms
proof (induction rs arbitrary: w)
  case (Cons q rs)
  from Cons.prems(3) have "q \<in> set ms" by simp
  from broadcast_one_run [OF Cons.prems(1,2) this Cons.prems(4)] obtain x u where
    u: "broadcast_one f d q w = Ret x u" "linked ml ms u" "core u = core w"
      "trace u = trace w @ (if Hostname (member w q) = h then [] else [SentRpc (Hostname (member w q)) d])" by blast
  have h: "Hostname (member u r) = Hostname (member w r)" if "r \<in> set rs" for r
  proof -
    from that Cons.prems(1,3) have "r < length (heap w)" by (auto simp: linked_def)
    from core_member [OF u(3) this] show ?thesis by (rule strip_eq_fields(1))
  qed
  then have hs: "map (\<lambda>r. Hostname (member u r)) rs = map (\<lambda>r. Hostname (member w r)) rs" by simp
  from Cons.IH [OF u(2) Cons.prems(2)] Cons.prems(3,4) core_fields(10) [OF u(3)] obtain y v where
    "for_collect rs (broadcast_one f d) u = Ret y v" "linked ml ms v" "core v = core u"
    "trace v = trace u @ map (\<lambda>g. SentRpc g d) (filter (\<lambda>g. g \<noteq> h) (map (\<lambda>r. Hostname (member u r)) rs))" by auto
  with u show ?case unfolding hs by simp
qed simp

lemma Broadcast_run:
  assumes "linked False ms w" and "GetProtoFunc d = Some f" and "GetHostname (hostname_cmd (env w)) = Inr h"
  shows "\<exists>x v. Broadcast f d w = Ret x v \<and> core v = core w \<and>
    trace v = trace w @ map (\<lambda>g. SentRpc g d) (filter (\<lambda>g. g \<noteq> h) (map Hostname (members w)))"
proof -
  from assms(1) have l: "linked True ms (w\<lparr>ml_lock := True\<rparr>)" and ms: "Members w = ms" and un: "\<not> ml_lock w"
    by (simp_all add: linked_def)
  from collect_run [OF l assms(2) subset_refl] assms(3) obtain x u where
    u: "for_collect ms (broadcast_one f d) (w\<lparr>ml_lock := True\<rparr>) = Ret x u"
      "trace u = trace w @ map (\<lambda>g. SentRpc g d) (filter (\<lambda>g. g \<noteq> h) (map (\<lambda>r. Hostname (member w r)) ms))" by auto
  have run: "Broadcast f d w = Ret x (u\<lparr>ml_lock := False\<rparr>)" using u(1) ms un by (simp add: Broadcast_def locked_ml_Ret)
  with quietD [OF quiet_Broadcast run] u(2) show ?thesis by (simp add: members_def ms comp_def)
qed

lemma requests_broadcast:
  assumes "distinct hs" and "g \<in> set hs" and "g \<noteq> h"
  shows "requests_to g (map (\<lambda>g. SentRpc g d) (filter (\<lambda>g. g \<noteq> h) hs)) = [d]"
proof -
  have none: "requests_to g (map (\<lambda>g. SentRpc g d) (filter (\<lambda>g. g \<noteq> h) xs)) = []" if "g \<notin> set xs" for xs
    using that by (induction xs) (auto simp: requests_to_def)
  from assms(1,2) show ?thesis
  proof (induction hs)
    case (Cons x hs)
    then show ?case using assms(3) none [of hs] by (cases "x = g") (auto simp: requests_to_def)
  qed simp
qed

text \<open>The trace after a command that shares the config: calls that log, the config to every other member,
  and then at most calls about addresses.\<close>

fun ip_call :: "effect \<Rightarrow> bool" where
  "ip_call (SentRpc _ (ReqBringUpIP _)) = True"
| "ip_call (SentRpc _ (ReqBringDownIP _)) = True"
| "ip_call _ = False"

definition sync_of :: "Config \<Rightarrow> request" where
  "sync_of c = ReqConfigSync \<lparr>SyncReplicated = True, SyncConfigDoc = Valid c\<rparr>"

definition shared :: "string list \<Rightarrow> string \<Rightarrow> effect list \<Rightarrow> world \<Rightarrow> bool" where
  "shared hs h t v \<longleftrightarrow> (\<exists>l m. trace v = t @ l @ map (\<lambda>g. SentRpc g (sync_of (DBConfig v))) (filter (\<lambda>g. g \<noteq> h) hs) @ m \<and>
     list_all chatter l \<and> list_all ip_call m)"

lemma save_and_sync_shares:
  assumes "GetHostname (hostname_cmd e) = Inr h"
  shows "partial (at_rest ms hs e t) any_crash save_and_sync (\<lambda>_. shared hs h t)"
  unfolding save_and_sync_def
proof (rule partial_thn [OF safe_partial [OF at_rest_Save]], rule partialI)
  fix w x v assume w: "at_rest ms hs e t w" and run: "thn SyncConfig skip w = Ret x v"
  from w have l: "linked False ms w" and hs: "map Hostname (members w) = hs" and e: "env w = e"
    and t: "only_added chatter t w" by (simp_all add: at_rest_def)
  from Broadcast_run [OF l, of "sync_of (DBConfig w)" SendConfigSync h] assms e hs obtain y u where
    u: "Broadcast SendConfigSync (sync_of (DBConfig w)) w = Ret y u" "core u = core w"
      "trace u = trace w @ map (\<lambda>g. SentRpc g (sync_of (DBConfig w))) (filter (\<lambda>g. g \<noteq> h) hs)" by (auto simp: sync_of_def)
  from u(1) run have "v = u" by (simp add: SyncConfig_def sync_of_def)
  moreover from t obtain l where "trace w = t @ l" "list_all chatter l" by (auto simp: only_added_def)
  ultimately show "shared hs h t v"
    using u(3) core_fields(1) [OF u(2)] unfolding shared_def by - (rule exI [of _ l], rule exI [of _ "[]"], simp)

qed simp

lemma shared_call:
  "safe (shared hs h t) any_crash (Connect r)"
  "ip_call (SentRpc '''' d) \<Longrightarrow> safe (shared hs h t) any_crash (Send r f d)"
proof -
  have "trace v = trace w \<and> DBConfig v = DBConfig w" if "Connect r w = Ret x v" for w x v
    using safeD [OF trace_Connect refl that] core_fields(1) [OF quietD [OF quiet_Connect that]] by simp
  then show "safe (shared hs h t) any_crash (Connect r)"
    unfolding safe_def by (intro partialI) (auto simp: shared_def)
  assume "ip_call (SentRpc '''' d)"
  then have ip: "ip_call (SentRpc g d)" for g by (cases d) simp_all
  then have sent: "shared hs h t (w\<lparr>trace := trace w @ [SentRpc g d]\<rparr>)" if "shared hs h t w" for w g
    using that ip [of g] by (force simp: shared_def)
  have "v = w \<or> (\<exists>g. v = w\<lparr>trace := trace w @ [SentRpc g d]\<rparr>)" if "Send r f d w = Ret x v" for w x v
    using that by (auto simp: Send_def with_client_def Client_Send_def emit_run split: if_splits option.splits conn.splits)
  then show "safe (shared hs h t) any_crash (Send r f d)"
    unfolding safe_def by (intro partialI) (auto dest: sent)
qed

lemma shared_after:
  assumes "GetHostname (hostname_cmd e) = Inr h" and "safe (shared hs h t) any_crash k"
  shows "partial (at_rest ms hs e t) any_crash (thn save_and_sync k) (\<lambda>_. shared hs h t)"
  using save_and_sync_shares [OF assms(1)] safe_partial [OF assms(2)] by (rule partial_thn)

text \<open>The commands on groups share the config when they succeed.\<close>

fun group_command :: "command \<Rightarrow> bool" where
  "group_command (CmdNewGroup _) = True"
| "group_command (CmdDeleteGroup _) = True"
| "group_command (CmdGroupIPAdd _ _) = True"
| "group_command (CmdGroupIPRemove _ _) = True"
| "group_command (CmdGroupAssign _ _ _) = True"
| "group_command (CmdGroupUnassign _ _ _) = True"
| "group_command _ = False"

definition shares :: "string list \<Rightarrow> string \<Rightarrow> effect list \<Rightarrow> Response \<Rightarrow> world \<Rightarrow> bool" where
  "shares hs h t resp v \<longleftrightarrow> Success resp \<longrightarrow> shared hs h t v"

lemma shares_refused: "partial P C (ret (reply False m n)) (shares hs h t)"
  by (rule partial_ret) (simp add: shares_def)

lemma shares_post: "partial P C m (\<lambda>_. shared hs h t) \<Longrightarrow> partial P C m (shares hs h t)"
  by (erule partial_post) (simp add: shares_def)


lemma shares_in_cluster: "partial P C k (shares hs h t) \<Longrightarrow> partial P C (in_cluster k) (shares hs h t)"
  unfolding in_cluster_def by (intro partial_any_reading partial_if shares_refused)

lemma at_rest_ips:
  "safe (at_rest ms hs e t) any_crash (groupIpAdd g ips)" "safe (at_rest ms hs e t) any_crash (groupIpRemove g ips)"
  unfolding groupIpAdd_def groupIpRemove_def add_ip_def remove_ip_def write_group_def
  by (intro at_rest_intro; simp)+

lemma group_commands_share:
  assumes h: "GetHostname (hostname_cmd e) = Inr h"
  shows "partial (at_rest ms hs e t) any_crash (Cli_NewGroup g) (shares hs h t)"
    "partial (at_rest ms hs e t) any_crash (Cli_DeleteGroup g) (shares hs h t)"
    "partial (at_rest ms hs e t) any_crash (Cli_GroupAssign g n i) (shares hs h t)"
    "partial (at_rest ms hs e t) any_crash (Cli_GroupUnassign g n i) (shares hs h t)"
    "partial (at_rest ms hs e t) any_crash (Cli_GroupIPAdd g ips) (shares hs h t)"
    "partial (at_rest ms hs e t) any_crash (Cli_GroupIPRemove g ips) (shares hs h t)"
  unfolding Cli_NewGroup_def Cli_DeleteGroup_def Cli_GroupAssign_def Cli_GroupUnassign_def Cli_GroupIPAdd_def Cli_GroupIPRemove_def
    active_group_def with_ref_def
  by (intro shares_in_cluster partial_any_reading partial_if partial_case_sum partial_case_prod partial_bnd [OF safe_partial [OF at_rest_groups(1)]]
      partial_bnd [OF safe_partial [OF at_rest_groups(2)]] partial_bnd [OF safe_partial [OF at_rest_groups(3)]]
      partial_bnd [OF safe_partial [OF at_rest_groups(4)]] partial_bnd [OF safe_partial [OF at_rest_ips(1)]]
      partial_bnd [OF safe_partial [OF at_rest_ips(2)]] partial_case_option shares_refused shares_post [OF shared_after [OF h]]
      safe_intro shared_call; simp)+

lemma group_command_shares:
  assumes "GetHostname (hostname_cmd e) = Inr h" and "group_command cmd"
  shows "partial (at_rest ms hs e t) any_crash (run_command cmd) (shares hs h t)"
proof -
  have outcome: "partial P any_crash (outcome_of m) (shares hs h t)" if "partial P any_crash m (shares hs h t)" for P and m :: "Response go"
    unfolding outcome_of_def
    by (rule partial_bnd [OF that], rule partial_ret) (simp add: shares_def Response.truncate_def)
  show ?thesis using assms(2) by (cases cmd) (simp_all add: outcome group_commands_share [OF assms(1)])
qed

text \<open>The other daemon: calls that log leave it as it is, and calls about addresses leave its config.\<close>

lemma serve_chatter:
  assumes "wf b" and "known_peer (DBConfig b) (Some p)" and "AuthInfo p = TLSInfo True" and "list_all chatter l"
  shows "serve_all p (requests_to h l) b = Ret () b"
proof -
  have "serve_request (Some p) (ReqLogs q) b = Ret (Inr (RespOther (reply False '''' 0))) b" for q
    using assms(1,2) by (simp add: serve_request_known [OF assms(3)] answer_def Server_Logs_def authorized_known)
  with assms(4) show ?thesis
  proof (induction l)
    case (Cons x l)
    then show ?case by (cases x) (auto simp: requests_to_def chatter_def elim: log_entry.elims)
  qed (simp add: requests_to_def)
qed

lemma sound_authorized: "sound False ms k \<Longrightarrow> sound False ms (authorized peer k)"
  unfolding authorized_def CanCommunicate_def by (intro safe_intro sound_Logging)

lemma quiet_authorized: "quiet k \<Longrightarrow> quiet (authorized peer k)"
  unfolding authorized_def CanCommunicate_def by (intro quiet_intro quiet_Logging)

lemma serve_ip_calls:
  assumes "linked False ms b" and "AuthInfo p = TLSInfo True" and "list_all ip_call l"
  shows "\<exists>v. serve_all p (requests_to h l) b = Ret () v \<and> core v = core b"
proof -
  have q: "quiet (serve_request (Some p) r)" and s: "sound False ms (serve_request (Some p) r)"
    if "ip_call (SentRpc g r)" for g r
    using that unfolding serve_request_known [OF assms(2)]
    by (cases r; force simp: answer_def Server_BringUpIP_def Server_BringDownIP_def
        intro!: quiet_bnd quiet_ret quiet_authorized quiet_BringUpIPs quiet_BringDownIPs safe_bnd safe_ret sound_authorized sound_BringUpIPs sound_BringDownIPs)+
  from assms(1,3) show ?thesis
  proof (induction l arbitrary: b)
    case (Cons x l)
    then obtain g r where x: "x = SentRpc g r" and ip: "ip_call (SentRpc g r)" by (cases x) auto
    from safe_totalD [OF s [OF ip] Cons.prems(1)] obtain y u where
      u: "serve_request (Some p) r b = Ret y u" "linked False ms u" by blast
    show ?case
    proof (cases "g = h")
      case True
      from Cons.IH [OF u(2)] Cons.prems(2) quietD [OF q [OF ip] u(1)] u(1) True show ?thesis by (simp add: x requests_to_def)
    next
      case False
      with Cons.IH [OF Cons.prems(1)] Cons.prems(2) show ?thesis by (simp add: x requests_to_def)
    qed
  qed (simp add: requests_to_def)
qed

lemma serve_all_append: "serve_all p (qs @ rs) w = (case serve_all p qs w of Ret _ u \<Rightarrow> serve_all p rs u | Crash c \<Rightarrow> Crash c)"
  by (simp add: serve_all_def for_each_append split: outcome.split)


text \<open>\<^bold>\<open>C10.\<close> Whatever change to the groups a command reports to have made on one daemon, every other
  daemon of its member list has afterwards the same nodes and the same groups, in memory and on
  disk, and keeps its own local and plugin sections, the latter decoded from the file again.\<close>

theorem group_commands_reach_members:
  assumes "wf a" and "linked False (Members a) a" and "\<not> cfg_lock a"
    and "GetHostname (hostname_cmd (env a)) = Inr ha" and "hb \<in> Hostname ` set (members a)" and "hb \<noteq> ha"
    and "group_command cmd" and "run_command cmd a = Ret resp v" and "Success resp"
    and "wf b" and "linked False (Members b) b" and "\<not> cfg_lock b" and "known_peer (DBConfig b) (Some p)" and "AuthInfo p = TLSInfo True"
    and c: "c = (DBConfig v)\<lparr>Pulse := Pulse (DBConfig b), PluginConfigs := PluginConfigs (DBConfig b)\<rparr>"
    and "Validate (hostname_cmd (env b)) c = None" and "write_error (env b) = None"
  shows "\<exists>b'. far_end a hb p b v = Ret () b' \<and> DBConfig b' = decoded c \<and> disk b' = ConfigFile (Valid c)"
proof -
  let ?hs = "map Hostname (members a)"
  from assms(2) have rest: "at_rest (Members a) ?hs (env a) (trace a) a"
    by (simp add: at_rest_def only_added_refl)
  from partialD [OF group_command_shares [OF assms(4,7)] rest assms(8)] assms(9)
  obtain l m where t: "trace v = trace a @ l @ map (\<lambda>g. SentRpc g (sync_of (DBConfig v))) (filter (\<lambda>g. g \<noteq> ha) ?hs) @ m"
    and l: "list_all chatter l" and m: "list_all ip_call m" by (auto simp: shares_def shared_def)
  from assms(1-3) have "inv False False a" by (simp add: inv_def linked_def)
  from safeD [OF inv_command this assms(8)] have wfv: "wf_config (DBConfig v)" by (simp add: inv_def wf_def)
  from assms(1,5) have hs: "distinct ?hs" "hb \<in> set ?hs" by (simp_all add: wf_def wf_members_def)
  have mlb: "\<not> ml_lock b" using assms(11) by (simp add: linked_def)
  from ConfigSync_run [OF assms(10) mlb assms(12,13) _ wfv c assms(16,17), of "\<lparr>SyncReplicated = True, SyncConfigDoc = Valid (DBConfig v)\<rparr>"]
  obtain u where u: "Server_ConfigSync (Some p) \<lparr>SyncReplicated = True, SyncConfigDoc = Valid (DBConfig v)\<rparr> b = Ret (Inr (reply True '''' 0)) u"
    "DBConfig u = decoded c" "disk u = ConfigFile (Valid c)"
    and g: "grown (b\<lparr>DBConfig := decoded c, disk := ConfigFile (Valid c), trace := trace b @ [WroteConfig c]\<rparr>) u" by auto
  have lu: "linked False (Members u) u" using assms(11) by (intro linked_grown [OF _ g]) (simp add: linked_def)
  have s: "serve_request (Some p) (sync_of (DBConfig v)) b = Ret (Inr (RespOther (reply True '''' 0))) u"
    using u(1) by (simp add: serve_request_known [OF assms(14)] answer_def sync_of_def)
  from serve_ip_calls [OF lu assms(14) m] obtain b' where
    b: "serve_all p (requests_to hb m) u = Ret () b'" "core b' = core u" by blast
  have "far_end a hb p b v = Ret () b'"
    using b(1) s serve_chatter [OF assms(10,13,14) l, of hb] requests_broadcast [OF hs assms(6), of "sync_of (DBConfig v)"]
    by (simp add: far_end_def t serve_all_append)
  with u(2,3) core_fields(1,9) [OF b(2)] show ?thesis by simp
qed

lemma ex_alpha_fields [simp]:
  "DBConfig ex_alpha = ex_config" "Members ex_alpha = [0, 1]" "heap ex_alpha = heap ex_world" "trace ex_alpha = []"
  "\<not> ml_lock ex_alpha" "\<not> cfg_lock ex_alpha" "modules ex_alpha = modules ex_world"
  "hostname_cmd (env ex_alpha) = Inr ''alpha''" "write_error (env ex_alpha) = None"
  by (simp_all add: ex_alpha_def)

lemma ex_new_group:
  "\<exists>v. run_command (CmdNewGroup ''group2'') ex_alpha = Ret (reply True ''group2 successfully added.'' 0) v \<and>
     DBConfig v = ex_config\<lparr>Groups := Some [(''group1'', [''10.0.0.1/24'']), (''group2'', [])]\<rparr>"
proof -
  let ?c = "ex_config\<lparr>Groups := Some [(''group1'', [''10.0.0.1/24'']), (''group2'', [])]\<rparr>"
  let ?u = "set_config (\<lambda>c. c\<lparr>Groups := put (Groups c) ''group2'' []\<rparr>) ex_alpha"
  have u: "groupNew ''group2'' ex_alpha = Ret ''group2'' ?u"
  proof -
    have "?u\<lparr>cfg_lock := False\<rparr> = ?u" by (simp add: set_config_def)
    moreover have "set_config f (ex_alpha\<lparr>cfg_lock := True\<rparr>) = (set_config f ex_alpha)\<lparr>cfg_lock := True\<rparr>" for f
      by (simp add: set_config_def)
    ultimately show ?thesis
      by (simp add: groupNew_def locked_cfg_def lock_cfg_run unlock_cfg_def write_group_def)
  qed
  have c: "DBConfig ?u = ?c" by (simp add: put_def)
  have "Validate (Inr ''alpha'') ?c = None" using Validate_ex by (simp add: Validate_None_iff)
  then have s: "Save ?u = Ret None (?u\<lparr>disk := ConfigFile (Valid ?c), trace := [WroteConfig ?c]\<rparr>)" (is "_ = Ret None ?x")
    using Save_ok [of ?u] by (simp add: put_def)
  have "linked False [0, 1] ?x"
    using ready_ex_alpha by (simp add: ready_node_def linked_def set_config_def)
  from SyncConfig_total [OF this] obtain v where v: "SyncConfig ?x = Ret None v" "core v = core ?x" by blast
  have "run_command (CmdNewGroup ''group2'') ex_alpha = Ret (reply True ''group2 successfully added.'' 0) v"
    using u s v(1) by (simp add: outcome_of_def Cli_NewGroup_def in_cluster_def ClusterCheck_def mlen_def save_and_sync_def
        Response.truncate_def reply_def)
  with core_fields(1) [OF v(2)] c show ?thesis by simp
qed

theorem group_commands_reach_members_witness:
  "\<exists>v b'. run_command (CmdNewGroup ''group2'') ex_alpha = Ret (reply True ''group2 successfully added.'' 0) v \<and>
     far_end ex_alpha ''beta'' ex_alpha_peer ex_beta v = Ret () b' \<and> lookup (Groups (DBConfig b')) ''group2'' = Some []"
proof -
  from ex_new_group obtain v where
    v: "run_command (CmdNewGroup ''group2'') ex_alpha = Ret (reply True ''group2 successfully added.'' 0) v"
      "DBConfig v = ex_config\<lparr>Groups := Some [(''group1'', [''10.0.0.1/24'']), (''group2'', [])]\<rparr>" by blast
  let ?c = "(DBConfig v)\<lparr>Pulse := Pulse (DBConfig ex_beta), PluginConfigs := PluginConfigs (DBConfig ex_beta)\<rparr>"
  have "GetHostname (Inr ''beta'') = Inr ''beta''" by code_simp
  then have val: "Validate (hostname_cmd (env ex_beta)) ?c = None"
    using Validate_ex by (simp add: Validate_None_iff v(2) ex_beta_def lookup_def)
  have "\<exists>b'. far_end ex_alpha ''beta'' ex_alpha_peer ex_beta v = Ret () b' \<and> DBConfig b' = decoded ?c \<and> disk b' = ConfigFile (Valid ?c)"
  proof (rule
 group_commands_reach_members [where cmd = "CmdNewGroup ''group2''" and ha = "''alpha''" and resp = "reply True ''group2 successfully added.'' 0"])

    show "wf ex_alpha" "linked False (Members ex_alpha) ex_alpha" using ready_ex_alpha by (simp_all add: ready_node_def)
    show "wf ex_beta" "linked False (Members ex_beta) ex_beta" using ready_ex_beta by (simp_all add: ready_node_def)
    show "''beta'' \<in> Hostname ` set (members ex_alpha)" by (simp add: members_def member_def)
    show "known_peer (DBConfig ex_beta) (Some ex_alpha_peer)" "AuthInfo ex_alpha_peer = TLSInfo True"
      by (simp_all add: known_peer_def ex_beta_def ex_alpha_peer_def)
    show "Validate (hostname_cmd (env ex_beta)) ?c = None" by (rule val)
  qed (use v(1) in \<open>simp_all add: ex_beta_def ex_env_def\<close>)
  then show ?thesis using v by (auto simp: lookup_def)
qed

section \<open>An address that stays behind\<close>

lemma lookup_put_iface:
  assumes "lookup (Nodes c) uid = Some n"
  shows "lookup (Nodes (put_iface uid iface gs c)) = (lookup (Nodes c))(uid \<mapsto> n\<lparr>IPGroups := put (IPGroups n) iface gs\<rparr>)"
proof -
  have "\<not> is_nil (Nodes c)" using assms by (cases "Nodes c") (auto simp: lookup_def)
  with assms show ?thesis by (simp add: put_iface_def lookup_put)
qed

lemma addresses_put_iface:
  assumes "lookup (Nodes c) uid = Some n" and "NodeHostname n \<noteq> h"
  shows "addresses (put_iface uid iface gs c) h = addresses c h"
proof -
  have "assigned_to (put_iface uid iface gs c) h i g \<longleftrightarrow> assigned_to c h i g" for i g
    unfolding assigned_to_def lookup_put_iface [OF assms(1)] using assms
    by (metis (no_types, lifting) Node.select_convs(1) Node.surjective Node.update_convs(4) fun_upd_apply option.inject)
  moreover have "group_ips (put_iface uid iface gs c) = group_ips c" by (rule ext) (simp add: group_ips_def put_iface_def assms(1))
  ultimately show ?thesis by (simp add: addresses_def)
qed

lemma GetLocalNode_put_iface:
  assumes "lookup (Nodes c) uid = Some n" and "GetLocalNode c = Inr node" and "NodeHostname n \<noteq> NodeHostname node"
  shows "GetLocalNode (put_iface uid iface gs c) = Inr node"
proof -
  have "ClusterCheck (put_iface uid iface gs c)"
    using lookup_put_iface [OF assms(1), of iface gs] by (intro ClusterCheck_lookup [of _ uid]) simp
  moreover have "Pulse (put_iface uid iface gs c) = Pulse c" by (simp add: put_iface_def assms(1))
  ultimately show ?thesis using assms lookup_put_iface [OF assms(1), of iface gs]
    by (auto simp: GetLocalNode_def split: if_splits option.splits)
qed

lemma groupAssign_other_run:
  assumes "ready_node h r w" and "\<not> cfg_lock w" and "fst (GetActiveMember w) = h"
    and "groupExist (DBConfig w) g" and "interface_exists (env w) iface"
    and "lookup (Nodes (DBConfig w)) uid = Some n" and "NodeHostname n \<noteq> h" and "\<not> is_nil (IPGroups n)"
    and "nodeInterfaceGroupExists (DBConfig w) uid iface g = Some (False, i)"
    and "net_up (env w) iface (group_ips (DBConfig w) g) = None"
  shows "groupAssign g uid iface w = Ret None ((set_config (put_iface uid iface (iface_groups (DBConfig w) uid iface @ [g])) w)
    \<lparr>trace := trace w @ [BroughtUp iface (group_ips (DBConfig w) g)]\<rparr>)"
proof -
  let ?c = "put_iface uid iface (iface_groups (DBConfig w) uid iface @ [g])"
  let ?u = "w\<lparr>cfg_lock := True, DBConfig := ?c (DBConfig w)\<rparr>"
  from assms(1) obtain node where n: "GetLocalNode (DBConfig w) = Inr node" "NodeHostname node = h"
    and p: "GetNetworkingPlugin (modules w) \<noteq> None" by (auto simp: ready_node_def)
  have gi: "group_ips (?c (DBConfig w)) g = group_ips (DBConfig w) g" by (simp add: group_ips_def put_iface_def assms(6))
  have act: "GetActiveMember ?u = GetActiveMember w" by (simp add: GetActiveMember_def split: option.split)

  have "GetLocalNode (DBConfig ?u) = Inr node" using GetLocalNode_put_iface [OF assms(6) n(1)] n(2) assms(7) by simp
  then have "activate_if_local iface g ?u = Ret None (?u\<lparr>trace := trace w @ [BroughtUp iface (group_ips (DBConfig w) g)]\<rparr>)"
    using n(2) p assms(3,10) gi makeGroupActive_run [of ?u iface g] by (simp add: activate_if_local_def act)
  moreover have "write_iface uid iface (iface_groups (DBConfig w) uid iface @ [g]) (w\<lparr>cfg_lock := True\<rparr>) = Ret () ?u"
    using assms(6,8) by (simp add: write_iface_def set_config_def)
  ultimately show ?thesis using assms(2,4,5,9)
    by (simp add: groupAssign_def locked_cfg_def lock_cfg_run unlock_cfg_def set_config_def)
qed

lemma ready_other_config:
  assumes "ready_node h r w" and "lookup (Nodes (DBConfig w)) uid = Some n" and "NodeHostname n \<noteq> h"
  shows "ready_node h r ((set_config (put_iface uid iface gs) w)\<lparr>trace := t\<rparr>)"
  using assms GetLocalNode_put_iface [OF assms(2)]
  by (auto simp: ready_node_def wf_def wf_config_put_iface set_config_def linked_def find_member_def)

text \<open>\<^bold>\<open>C38.\<close> When the active daemon assigns a group to another node, it brings the addresses of the group up
  on itself, although its own config does not give them to it. It does not bring them down when it
  becomes passive: the old and the new active node then both hold them.\<close>

theorem assign_other_node_leaks:
  assumes "ready_node h r w" and "\<not> cfg_lock w" and "fst (GetActiveMember w) = h" and "Status (member w r) = ACTIVE"
    and "groupExist (DBConfig w) g" and "interface_exists (env w) iface"
    and "lookup (Nodes (DBConfig w)) uid = Some n" and "NodeHostname n \<noteq> h" and "\<not> is_nil (IPGroups n)"
    and "nodeInterfaceGroupExists (DBConfig w) uid iface g = Some (False, i)"
    and "net_up (env w) iface (group_ips (DBConfig w) g) = None"
    and "ip \<in> set (group_ips (DBConfig w) g)" and "(iface, ip) \<notin> addresses (DBConfig w) h"
  shows "\<exists>u v. groupAssign g uid iface w = Ret None u \<and> demote (Some r) u = Ret () v \<and> Status (member v r) = PASSIVE \<and>
    (iface, ip) \<in> held S (trace v)"
proof -
  let ?u = "(set_config (put_iface uid iface (iface_groups (DBConfig w) uid iface @ [g])) w)
    \<lparr>trace := trace w @ [BroughtUp iface (group_ips (DBConfig w) g)]\<rparr>"
  have run: "groupAssign g uid iface w = Ret None ?u" by (rule groupAssign_other_run [OF assms(1-3,5-11)])
  have r: "ready_node h r ?u" by (rule ready_other_config [OF assms(1,7,8)])
  have "Status (member ?u r) \<noteq> PASSIVE" using assms(4) by (simp add: set_config_def)
  from demote_local_run [OF r this] obtain l where
    d: "demote (Some r) ?u = Ret () ((update_member r (passive_now (now (env ?u))) ?u)\<lparr>trace := trace ?u @ l\<rparr>)" (is "_ = Ret () ?v")
    and l: "set (filter address_change l) = downs (DBConfig ?u) h" by blast
  from r have "r < length (heap ?u)" by (auto simp: ready_node_def linked_def dest: find_member_SomeD)
  then have "Status (member ?v r) = PASSIVE" by (simp add: member_update_member passive_now_def)
  moreover have "(iface, ip) \<in> held S (trace ?v)"
    using held_of_downs [OF l] assms(12,13) addresses_put_iface [OF assms(7,8)] by simp
  ultimately show ?thesis using run d by blast
qed

definition ex_two_groups :: world where
  "ex_two_groups = ex_world\<lparr>DBConfig := ex_config\<lparr>Groups := Some [(''group1'', [''10.0.0.1/24'']), (''group2'', [''10.0.0.2/24''])]\<rparr>\<rparr>"

lemma ready_ex_two_groups: "ready_node ''alpha'' 0 ex_two_groups"
proof -
  have "GetLocalNode (DBConfig ex_two_groups) = Inr (ex_node ''alpha'' ''10.0.0.11'')"
    by (simp add: ex_two_groups_def GetLocalNode_def ClusterCheck_def mlen_def lookup_def)
  moreover have "wf ex_two_groups"
    using wf_ex_world by (simp add: ex_two_groups_def wf_def wf_config_def map_ok_def wf_map_def keys_def)
  moreover have "linked False [0, 1] ex_two_groups" using linked_ex by (simp add: ex_two_groups_def linked_def)
  ultimately show ?thesis by (simp add: ready_node_def) (simp add: ex_two_groups_def find_member_def member_def GetNetworkingPlugin_def)
qed

lemma ex_two_groups_addresses: "(''eth0'', ''10.0.0.2/24'') \<notin> addresses (DBConfig ex_two_groups) ''alpha''"
proof
  assume "(''eth0'', ''10.0.0.2/24'') \<in> addresses (DBConfig ex_two_groups) ''alpha''"
  then obtain g where a: "assigned_to (DBConfig ex_two_groups) ''alpha'' ''eth0'' g"
    and ip: "''10.0.0.2/24'' \<in> set (group_ips (DBConfig ex_two_groups) g)" by (auto simp: addresses_def)
  from a have "g = ''group1''"
    by (elim assigned_to_def [THEN iffD1, elim_format] exE conjE) (auto simp: ex_two_groups_def lookup_def split: if_split_asm)
  with ip show False by (simp add: ex_two_groups_def group_ips_def lookup_def)
qed

theorem assign_other_node_leaks_witness:
  "\<exists>u v. groupAssign ''group2'' ''u2'' ''eth0'' ex_two_groups = Ret None u \<and> demote (Some 0) u = Ret () v \<and>
     Status (member v 0) = PASSIVE \<and> (''eth0'', ''10.0.0.2/24'') \<in> held {} (trace v)"
proof (rule assign_other_node_leaks [OF ready_ex_two_groups _ _ _ _ _ _ _ _ _ _ _ ex_two_groups_addresses])
  show "nodeInterfaceGroupExists (DBConfig ex_two_groups) ''u2'' ''eth0'' ''group2'' = Some (False, -1)"
    by (simp add: ex_two_groups_def nodeInterfaceGroupExists_def lookup_def index_of_def)
  show "lookup (Nodes (DBConfig ex_two_groups)) ''u2'' = Some (ex_node ''beta'' ''10.0.0.12'')"
    by (simp add: ex_two_groups_def lookup_def)
qed (simp_all add: ex_two_groups_def member_def GetActiveMember_def groupExist_def group_ips_def lookup_def ex_env_def)

section \<open>Routines end with the role\<close>

text \<open>The local member has a status in \<open>S\<close>, or the daemon is in no cluster any more.\<close>

definition local_status :: "Status set \<Rightarrow> world \<Rightarrow> bool" where
  "local_status S w \<longleftrightarrow> \<not> ClusterCheck (DBConfig w) \<or>
     (\<exists>node r. GetLocalNode (DBConfig w) = Inr node \<and> find_member w (NodeHostname node) = Some r \<and> Status (member w r) \<in> S)"

lemma local_status_env: "local_status S (w\<lparr>env := e\<rparr>) = local_status S w"
  by (simp add: local_status_def find_member_def)

lemma routine_ends:
  assumes "\<not> ml_lock w"
  shows "local_status {PASSIVE} w \<Longrightarrow> MonitorClientConns w = Ret True w"
    and "local_status {PASSIVE} w \<Longrightarrow> AddHealthCheckHandler w = Ret True w"
    and "local_status {ACTIVE} w \<Longrightarrow> MonitorReceivedHCs r w = Ret True w"
  using assms GetLocalMember_run
  by (auto simp: local_status_def MonitorClientConns_def AddHealthCheckHandler_def MonitorReceivedHCs_def)

text \<open>\<^bold>\<open>C18.\<close> The scheduled routines of a role end at the first tick at which the node has the other role, or is
  in no cluster, and do nothing at that tick: those of the active node once it is passive, the one
  of a passive node once it is active. No later tick is waited for.\<close>

theorem routines_end:
  assumes "\<not> ml_lock w"
  shows "(local_status {PASSIVE} w \<longrightarrow> Scheduler MonitorClientConns (tick # ticks) w = Ret () (w\<lparr>env := tick\<rparr>) \<and>
      Scheduler AddHealthCheckHandler (tick # ticks) w = Ret () (w\<lparr>env := tick\<rparr>)) \<and>
    (local_status {ACTIVE} w \<longrightarrow> Scheduler (MonitorReceivedHCs r) (tick # ticks) w = Ret () (w\<lparr>env := tick\<rparr>))"
  using assms routine_ends [of "w\<lparr>env := tick\<rparr>"] by (simp add: local_status_env)

theorem routines_end_witness:
  "Scheduler MonitorClientConns [ex_env, ex_env] ex_standby = Ret () ex_standby \<and>
   Scheduler AddHealthCheckHandler [ex_env, ex_env] ex_standby = Ret () ex_standby \<and>
   Scheduler (MonitorReceivedHCs 0) [ex_env, ex_env] ex_world = Ret () ex_world"
proof -
  have "local_status {PASSIVE} ex_standby" "local_status {ACTIVE} ex_world"
    by (simp_all add: local_status_def GetLocalNode_ex find_member_def member_def)
  moreover have "ex_standby\<lparr>env := ex_env\<rparr> = ex_standby" "ex_world\<lparr>env := ex_env\<rparr> = ex_world"
    by (simp_all add: ex_standby_def ex_world_def)
  ultimately show ?thesis
    using routines_end [of ex_standby ex_env "[ex_env]" 0] routines_end [of ex_world ex_env "[ex_env]" 0]
    by (simp del: Scheduler.simps)
qed

end
