(* ===== verification/SplitBrain.thy ===== *)
theory SplitBrain
  imports Cluster
begin

text \<open>
  A split brain: two daemons that both consider themselves active, after a link between them was down, and
  that hear of each other again through a health check. The theory follows the check from the routine that
  sends it, on the one, through the handler, on the other, to what both are afterwards, and then the return of
  a node after another one has taken over.
\<close>

section \<open>The side that is asked\<close>

lemma ready_core:
  assumes "ready_node h r w" and "core v = core w" and "linked False (Members w) v"
  shows "ready_node h r v"
proof -
  from assms(1) have wf: "wf w" and r: "find_member w h = Some r" by (auto simp: ready_node_def)
  have m: "strip (member v q) = strip (member w q)" if "q \<in> set (Members w)" for q
    using core_member [OF assms(2), of q] wf that by (simp add: wf_def wf_members_def)
  have "find_member v h = find_member w h"
    unfolding find_member_def core_fields(3) [OF assms(2)] by (rule find_cong) (auto dest!: m strip_eq_fields(1))
  with assms wf.core_only [OF assms(2) wf] show ?thesis
    by (simp add: ready_node_def core_fields(1,2,3) [OF assms(2)])
qed

lemma ready_status:
  assumes "ready_node h r w" and "core v = core w"
  shows "Status (member v r) = Status (member w r)" "Hostname (member v r) = h"
proof -
  from assms(1) have r: "r \<in> set (Members w)" "Hostname (member w r) = h" "wf_members w"
    by (auto simp: ready_node_def wf_def dest: find_member_SomeD)
  with core_member [OF assms(2), of r] have "strip (member v r) = strip (member w r)" by (simp add: wf_members_def)
  then show "Status (member v r) = Status (member w r)" "Hostname (member v r) = h"
    using r(2) by (auto dest: strip_eq_fields(1) strip_eq_fields(2))
qed

lemma held_logs: "list_all log_entry l \<Longrightarrow> held S l = S"
  by (induction l arbitrary: S) (auto elim!: log_entry.elims(2))

text \<open>A connection that is open stays open while the daemon logs.\<close>

lemma connected_locked: "safe (connected q) any_crash body \<Longrightarrow> safe (connected q) any_crash (locked_ml body)"
  unfolding locked_ml_def lock_ml_def unlock_ml_def by (intro safe_intro) (simp_all add: connected_def)

lemma connected_Logging:
  "safe (connected q) any_crash (Logging_Warn m)" "safe (connected q) any_crash (Logging_Info m)"
proof -
  have send: "safe (connected q) any_crash (Send r f d)" for r f d
    unfolding Send_def with_client_def Client_Send_def emit_def
    by (intro safe_intro) (auto intro!: safe_intro split: conn.split)
  have "safe (connected q) any_crash (broadcast_one f d r)" for f d r
    unfolding broadcast_one_def by (intro safe_intro connected_Connect send)
  then have "safe (connected q) any_crash (log_send m l)" for l
    unfolding log_send_def Broadcast_def by (intro safe_intro connected_locked)
  then show "safe (connected q) any_crash (Logging_Warn m)" "safe (connected q) any_crash (Logging_Info m)"
    unfolding Logging_Warn_def Logging_Info_def emit_def by (intro safe_intro; simp)+
qed

lemma log_run:
  assumes "ready_node h r w" and "f \<in> {Logging_Warn, Logging_Info}"
  shows "\<exists>v l. f m w = Ret () v \<and> ready_node h r v \<and> core v = core w \<and> trace v = trace w @ l \<and> list_all log_entry l \<and>
    (\<forall>q. connected q w \<longrightarrow> connected q v)"
proof -
  from assms(1) have l: "linked False (Members w) w" by (simp add: ready_node_def)
  from assms(2) have s: "sound False (Members w) (f m)" and q: "quiet (f m)"
      and o: "safe (only_added log_entry (trace w)) any_crash (f m)" and c: "safe (connected q) any_crash (f m)" for q
    by (auto intro: sound_Logging quiet_Logging only_added_Logging connected_Logging)
  from safe_totalD [OF s l] obtain v where v: "f m w = Ret () v" "linked False (Members w) v" by auto
  from safeD [OF o only_added_refl v(1)] obtain l where "trace v = trace w @ l" "list_all log_entry l" by (auto simp: only_added_def)
  with v quietD [OF q v(1)] ready_core [OF assms(1) _ v(2)] safeD [OF c _ v(1)] show ?thesis by blast
qed

lemma ready_winner:
  assumes "core v = core w" and "GetFailOverCountWinner ms w = Ret win w"
  shows "GetFailOverCountWinner ms v = Ret win v"
  using assms(2) by (simp add: GetFailOverCountWinner_def core_fields(1,10) [OF assms(1)] split: sum.splits)

text \<open>What an active daemon is after a health check of another one: it steps down unless it wins.\<close>

definition settled :: "string \<Rightarrow> string \<Rightarrow> nat \<Rightarrow> world \<Rightarrow> world \<Rightarrow> bool" where
  "settled win h r b b' \<longleftrightarrow>
     (if win = h then local_active b' = Some h \<and> (\<forall>T. held T (trace b') = held T (trace b))
      else local_active b' = None \<and> (\<forall>T. held T (trace b') = held T (trace b) - addresses (DBConfig b) h) \<and>
        Started (TaskMonitorReceivedHCs r) \<in> set (trace b'))"

lemma settle_decides:
  assumes "ready_node h r b" and "GetFailOverCountWinner ms b = Ret win b"
  shows "\<exists>v. settle_active ms r b = (if win \<noteq> h then bnd (MakePassive r) (\<lambda>err. case err of Some e \<Rightarrow> Logging_Error e | None \<Rightarrow> skip) v
      else SetLastHCResponse r 0 v) \<and>
    ready_node h r v \<and> core v = core b \<and> (\<forall>T. held T (trace v) = held T (trace b)) \<and> (\<forall>q. connected q b \<longrightarrow> connected q v)"
proof -
  from log_run [OF assms(1), of Logging_Warn "''Active node mismatch''"] obtain u l where
    u: "Logging_Warn ''Active node mismatch'' b = Ret () u" "ready_node h r u" "core u = core b" "trace u = trace b @ l" "list_all log_entry l"
      "\<forall>q. connected q b \<longrightarrow> connected q u" by auto
  from log_run [OF u(2), of Logging_Info "''Member '' @ win @ '' has been determined as the correct active node.''"] obtain v m where
    v: "Logging_Info (''Member '' @ win @ '' has been determined as the correct active node.'') u = Ret () v" "ready_node h r v"
      "core v = core u" "trace v = trace u @ m" "list_all log_entry m" "\<forall>q. connected q u \<longrightarrow> connected q v" by auto
  from v(3) u(3) have c: "core v = core b" by simp
  have "held T (trace v) = held T (trace b)" for T using u(4,5) v(4,5) by (simp add: held_logs)
  moreover have "settle_active ms r b = (if win \<noteq> h then bnd (MakePassive r) (\<lambda>err. case err of Some e \<Rightarrow> Logging_Error e | None \<Rightarrow> skip) v
      else SetLastHCResponse r 0 v)"
    using u(1) v(1) ready_status(2) [OF assms(1) c] ready_winner [OF u(3) assms(2)] by (simp add: settle_active_def)
  ultimately show ?thesis using v(2,6) u(6) c by blast
qed

lemma settle_active_run:
  assumes "ready_node h r b" and "Status (member b r) = ACTIVE" and "GetFailOverCountWinner ms b = Ret win b"
  shows "\<exists>b'. settle_active ms r b = Ret () b' \<and> settled win h r b b'"
proof -
  from settle_decides [OF assms(1,3)] obtain v where
    s: "settle_active ms r b = (if win \<noteq> h then bnd (MakePassive r) (\<lambda>err. case err of Some e \<Rightarrow> Logging_Error e | None \<Rightarrow> skip) v
      else SetLastHCResponse r 0 v)" and v: "ready_node h r v" "core v = core b" and held: "\<And>T. held T (trace v) = held T (trace b)" by blast
  note st = ready_status [OF assms(1) v(2)]
  show ?thesis
  proof (cases "win = h")
    case True
    let ?v = "update_member r (\<lambda>m. m\<lparr>LastHCResponse := 0\<rparr>) v"
    have "local_active ?v = Some h"
      using ready_active [OF v(1), of ?v "trace v" "\<lambda>m. m\<lparr>LastHCResponse := 0\<rparr>"] st assms(2) by simp
    with True held s show ?thesis by (simp add: settled_def SetLastHCResponse_def)
  next
    case False
    from MakePassive_local_run [OF v(1)] st(1) assms(2) obtain d where
      d: "MakePassive r v = Ret None ((update_member r (passive_now (now (env v))) v)\<lparr>trace := trace v @ d\<rparr>)" (is "_ = Ret None ?v")
        "set (filter address_change d) = downs (DBConfig v) h" "Started (TaskMonitorReceivedHCs r) \<in> set d" by auto
    have "local_active ?v = None"
      using ready_active [OF v(1) refl, of "passive_now (now (env v))"] by (simp add: passive_now_def)
    with False held s d(1,3) held_of_downs [OF d(2)] core_fields(1) [OF v(2)] show ?thesis by (simp add: settled_def)
  qed
qed

lemma HealthCheck_active_run:
  assumes "ready_node h r b" and "Status (member b r) = ACTIVE" and "one_active b"
    and "known_peer (DBConfig b) (Some p)" and "AuthInfo p = TLSInfo True" and "settle_active (Memberlist req) r b = Ret () b'"
  shows "\<exists>s. serve_request (Some p) (ReqHealthCheck req) b = Ret (Inr (RespHealthCheck \<lparr>HcScore = s\<rparr>)) b'"
proof -
  from assms(1) obtain node where n: "GetLocalNode (DBConfig b) = Inr node" "NodeHostname node = h"
    and r: "r \<in> set (Members b)" "Hostname (member b r) = h" "find_member b h = Some r" and wf: "wf b" and l: "\<not> ml_lock b"
    by (auto simp: ready_node_def linked_def dest: find_member_SomeD)
  from one_active_first [OF assms(3)] r(1) assms(2) have "snd (GetActiveMember b) = Some r" by (auto simp: active_in_def)
  then have "fst (GetActiveMember b) = h" using r(2) by (auto simp: GetActiveMember_def split: option.splits)
  with assms(6) n r l GetLocalMember_run [OF l n(1)] show ?thesis
    by (simp add: serve_request_known [OF assms(5)] answer_def Server_HealthCheck_def authorized_known [OF wf assms(4)])
qed

lemma HealthCheck_settled:
  assumes "ready_node h r b" and "Status (member b r) = ACTIVE" and "one_active b"
    and "known_peer (DBConfig b) (Some p)" and "AuthInfo p = TLSInfo True" and "GetFailOverCountWinner (Memberlist req) b = Ret win b"
  shows "\<exists>s b'. serve_request (Some p) (ReqHealthCheck req) b = Ret (Inr (RespHealthCheck \<lparr>HcScore = s\<rparr>)) b' \<and> settled win h r b b'"
  using settle_active_run [OF assms(1,2,6)] HealthCheck_active_run [OF assms(1-5)] by metis

text \<open>An active daemon that wins and has no time of a last health check is as before, but for what it logged.\<close>

lemma HealthCheck_won:
  assumes "ready_node h r b" and "Status (member b r) = ACTIVE" and "one_active b"
    and "known_peer (DBConfig b) (Some p)" and "AuthInfo p = TLSInfo True" and "GetFailOverCountWinner (Memberlist req) b = Ret h b"
    and "LastHCResponse (member b r) = 0"
  shows "\<exists>s b'. serve_request (Some p) (ReqHealthCheck req) b = Ret (Inr (RespHealthCheck \<lparr>HcScore = s\<rparr>)) b' \<and> ready_node h r b' \<and>
    core b' = core b \<and> (\<forall>T. held T (trace b') = held T (trace b)) \<and> (\<forall>q. connected q b \<longrightarrow> connected q b')"
proof -
  from settle_decides [OF assms(1,6)] obtain v where s: "settle_active (Memberlist req) r b = SetLastHCResponse r 0 v"
    and v: "ready_node h r v" "core v = core b" "\<forall>T. held T (trace v) = held T (trace b)" "\<forall>q. connected q b \<longrightarrow> connected q v" by auto
  from assms(1) have r: "r < length (heap b)" by (auto simp: ready_node_def linked_def dest: find_member_SomeD)
  have "LastHCResponse (strip m) = LastHCResponse m" for m by (simp add: strip_def)
  with core_member [OF v(2) r] have "LastHCResponse (member v r) = 0" using assms(7) by metis
  then have "update_member r (\<lambda>m. m\<lparr>LastHCResponse := 0\<rparr>) v = v" by (intro update_member_id) simp
  with s have "settle_active (Memberlist req) r b = Ret () v" by (simp add: SetLastHCResponse_def)
  with HealthCheck_active_run [OF assms(1-5) this] v show ?thesis by blast
qed

section \<open>The side that asks\<close>

lemma RoutineHC_answered:
  assumes "r < length (heap w)" and "connected r w"
    and "rpc_result (env w) (trace w) (Hostname (member w r)) (ReqHealthCheck data) = Inr (RespHealthCheck resp)"
  shows "\<exists>t l. RoutineHC r data w = Ret () ((update_member r (\<lambda>m. m\<lparr>LastHCResponse := t, Latency := l, Score := HcScore resp, HCBusy := False\<rparr>) w)
    \<lparr>trace := trace w @ [SentRpc (Hostname (member w r)) (ReqHealthCheck data)]\<rparr>)"
proof -
  let ?u = "update_member r (\<lambda>m. m\<lparr>HCBusy := True\<rparr>) w"
  have "connected r ?u" using assms(1,2) by (auto simp: connected_def member_update_member)
  with Connect_Send_connected [OF this, of "ReqHealthCheck data" SendHealthCheck] assms show ?thesis
    by (auto simp: RoutineHC_def SetHCBusy_def Member_SendHealthCheck_def with_client_def member_update_member connected_def
        SetScore_def SetLastHCResponse_def SetLatency_def update_member_twice o_def update_member_trace) (intro exI, rule refl)
qed

lemma check_exchange:
  assumes "r < length (heap a)" and "Hostname (member a r) = h" and "connected r a" and "reaches a h p b"
    and "serve_request (Some p) (ReqHealthCheck data) b = Ret (Inr (RespHealthCheck resp)) b'"
  shows "\<exists>t l v. v = (update_member r (\<lambda>m. m\<lparr>LastHCResponse := t, Latency := l, Score := HcScore resp, HCBusy := False\<rparr>) a)
      \<lparr>trace := trace a @ [SentRpc h (ReqHealthCheck data)]\<rparr> \<and> RoutineHC r data a = Ret () v \<and> far_end a h p b v = Ret () b'"
proof -
  have "rpc_result (env a) (trace a @ []) h (ReqHealthCheck data) = remote p b (requests_to h []) (ReqHealthCheck data)"
    using assms(4) unfolding reaches_def by blast
  then have "rpc_result (env a) (trace a) (Hostname (member a r)) (ReqHealthCheck data) = Inr (RespHealthCheck resp)"
    using assms(2,5) by (simp add: remote_def)
  from RoutineHC_answered [OF assms(1,3) this] obtain t l where "RoutineHC r data a =
      Ret () ((update_member r (\<lambda>m. m\<lparr>LastHCResponse := t, Latency := l, Score := HcScore resp, HCBusy := False\<rparr>) a)
      \<lparr>trace := trace a @ [SentRpc h (ReqHealthCheck data)]\<rparr>)" using assms(2) by auto
  then show ?thesis using assms(5) by (auto simp: far_end_def)
qed

lemma status_update:
  "(\<And>m. Status (f m) = Status m) \<Longrightarrow> Status (member ((update_member r f w)\<lparr>trace := t\<rparr>) q) = Status (member w q)"
  by (cases "r < length (heap w)") (simp_all add: member_def update_member_def nth_list_update list_update_beyond)

lemma local_active_update:
  assumes "\<And>m. Hostname (f m) = Hostname m" and "\<And>m. Status (f m) = Status m"
  shows "local_active ((update_member r f w)\<lparr>trace := t\<rparr>) = local_active w"
proof -
  let ?v = "(update_member r f w)\<lparr>trace := t\<rparr>"
  have "find_member ?v = find_member w"
    by (rule ext) (simp add: find_member_def hostname_update_member assms(1))
  moreover have "(\<lambda>q. Status (member ?v q)) = (\<lambda>q. Status (member w q))" by (rule ext) (rule status_update [OF assms(2)])
  ultimately show ?thesis unfolding local_active_def by (simp only: fun_eq_iff) simp
qed

text \<open>What the sender writes about the time of the last health check of a member is read by the receiver as
  the zero time exactly when it was.\<close>

definition same_clock :: "world \<Rightarrow> world \<Rightarrow> bool" where
  "same_clock a b \<longleftrightarrow> (\<forall>m \<in> set (members a). \<exists>s. parse_rfc1123 (env b) (format_rfc1123 (env a) (LastHCResponse m)) = Some s \<and>
     (s = 0 \<longleftrightarrow> LastHCResponse m = 0))"

lemma winner_of_list:
  assumes "members a = [m, n]" and "same_clock a b" and "Status m \<noteq> UNAVAILABLE"
  shows "GetFailOverCountWinner (Memberlist (rpc_memberlist a)) b =
    Ret (if AutoFailback (Pulse (DBConfig b)) \<and> LastHCResponse m = 0 then Hostname m else Hostname n) b"
  using assms by (auto simp: rpc_memberlist_def rpc_member_def GetFailOverCountWinner_two same_clock_def)

lemma ready_addresses:
  assumes "ready_node h r w" and "Status (member w r) = ACTIVE"
  shows "local_active w = Some h"
  using assms by (auto simp: ready_node_def local_active_def)

section \<open>What becomes of a split brain\<close>

text \<open>\<^bold>\<open>C8.\<close> Two daemons both consider themselves active, and one of them sends the other, which it lists as
  passive, its health check. The check is answered. When the receiver fails back automatically and
  the sender is first in its own list, the receiver steps down: only the sender is active, and the
  receiver has given up its addresses and watches for health checks again. The same holds when the receiver is
  first, unless the receiver fails back automatically and was never checked before. In the
  remaining cases both daemons stay active and keep their addresses: the split brain goes on.\<close>

theorem split_brain_check:
  assumes "ready_node ha ra a" and "Status (member a ra) = ACTIVE" and "LastHCResponse (member a ra) = 0"
    and "find_member a hb = Some rb" and "hb \<noteq> ha" and "Status (member a rb) = PASSIVE" and "connected rb a"
    and "Members a = (if first then [ra, rb] else [rb, ra])"
    and "ready_node hb r b" and "Status (member b r) = ACTIVE" and "one_active b"
    and "known_peer (DBConfig b) (Some p)" and "AuthInfo p = TLSInfo True" and "reaches a hb p b" and "same_clock a b"
    and "stays = (if first then \<not> AutoFailback (Pulse (DBConfig b)) else AutoFailback (Pulse (DBConfig b)) \<and> LastHCResponse (member a rb) = 0)"
  shows "active_hosts [a, b] = {ha, hb} \<and> (\<exists>v b'. RoutineHC rb (rpc_memberlist a) a = Ret () v \<and> far_end a hb p b v = Ret () b' \<and>
    (if stays then active_hosts [v, b'] = {ha, hb} \<and> held T (trace b') = held T (trace b)
     else active_hosts [v, b'] = {ha} \<and> held T (trace b') = held T (trace b) - addresses (DBConfig b) hb \<and>
       Started (TaskMonitorReceivedHCs r) \<in> set (trace b')))"
proof -
  let ?req = "ReqHealthCheck (rpc_memberlist a)"
  let ?win = "if stays then hb else ha"
  from assms(1) have ra: "Hostname (member a ra) = ha" by (auto simp: ready_node_def dest: find_member_SomeD)
  from find_member_SomeD [OF assms(4)] have rb: "rb \<in> set (Members a)" "Hostname (member a rb) = hb" by auto
  from assms(1) rb(1) have len: "rb < length (heap a)" by (auto simp: ready_node_def linked_def)
  have "GetFailOverCountWinner (Memberlist (rpc_memberlist a)) b = Ret ?win b"
  proof (cases first)
    case True
    with winner_of_list [OF _ assms(15), of "member a ra" "member a rb"] assms(2,3,8,16) ra rb(2) show ?thesis
      by (simp add: members_def)
  next
    case False
    with winner_of_list [OF _ assms(15), of "member a rb" "member a ra"] assms(6,8,16) ra rb(2) show ?thesis
      by (simp add: members_def)
  qed
  from HealthCheck_settled [OF assms(9-13) this] obtain s b' where
    b: "serve_request (Some p) ?req b = Ret (Inr (RespHealthCheck \<lparr>HcScore = s\<rparr>)) b'" "settled ?win hb r b b'" by auto
  from check_exchange [OF len rb(2) assms(7,14) b(1)] obtain t l v where v: "RoutineHC rb (rpc_memberlist a) a = Ret () v"
    "v = (update_member rb (\<lambda>m. m\<lparr>LastHCResponse := t, Latency := l, Score := s, HCBusy := False\<rparr>) a)\<lparr>trace := trace a @ [SentRpc hb ?req]\<rparr>"
    "far_end a hb p b v = Ret () b'" by auto
  have "local_active v = local_active a" unfolding v(2) by (rule local_active_update) simp_all
  then show ?thesis using v(1,3) b(2) assms(5) ready_addresses [OF assms(1,2)] ready_addresses [OF assms(9,10)]
    by (auto simp: active_hosts_def settled_def)
qed

text \<open>The two nodes of the example after a split: each is active, \<^verbatim>\<open>alpha\<close> reaches \<^verbatim>\<open>beta\<close> again, and each
  lists the other as passive; \<^verbatim>\<open>beta\<close> checked \<^verbatim>\<open>alpha\<close> last at the time \<open>t\<close>.\<close>

definition ex_clock :: "Env \<Rightarrow> Env" where
  "ex_clock e = e\<lparr>format_rfc1123 := (\<lambda>t. if t = 0 then ''zero'' else ''later''), parse_rfc1123 := (\<lambda>s. Some (if s = ''zero'' then 0 else 1))\<rparr>"

definition ex_right :: "int \<Rightarrow> world" where
  "ex_right t = ex_beta\<lparr>heap := [(ex_member ''alpha'' PASSIVE 2)\<lparr>LastHCResponse := t\<rparr>, ex_member ''beta'' ACTIVE 1], env := ex_clock (env ex_beta)\<rparr>"

definition ex_left :: world where
  "ex_left = ex_world\<lparr>env := (ex_clock ex_env)\<lparr>rpc_result := (\<lambda>t h. remote ex_alpha_peer (ex_right 3) (requests_to h t))\<rparr>\<rparr>"

definition ex_beta_peer :: Peer where
  "ex_beta_peer = \<lparr>PeerIp = ''10.0.0.12'', AuthInfo = TLSInfo True\<rparr>"

lemma ready_ex_left: "ready_node ''alpha'' 0 ex_left"
proof -
  have "load_tls ex_left = load_tls ex_world" by (rule load_tls_cong) (simp_all add: ex_left_def ex_clock_def)
  with linked_ex have "load_tls ex_left = TlsFilesOk" by (simp add: linked_def)
  with wf_ex_world linked_ex show ?thesis
    by (simp add: ready_node_def find_member_def member_def linked_def)
      (simp add: ex_left_def ex_clock_def GetLocalNode_ex GetNetworkingPlugin_def)
qed

lemma ready_ex_right: "ready_node ''beta'' 1 (ex_right t)"
proof -
  have "load_tls (ex_right t) = load_tls ex_beta" by (rule load_tls_cong) (simp_all add: ex_right_def ex_clock_def)
  then have t: "load_tls (ex_right t) = TlsFilesOk" by (simp add: load_tls_ex_beta)
  have f: "DBConfig (ex_right t) = DBConfig ex_beta" "Members (ex_right t) = [0, 1]" "modules (ex_right t) = modules ex_beta" "ml_lock (ex_right t) = ml_lock ex_beta"
    "heap (ex_right t) = [(ex_member ''alpha'' PASSIVE 2)\<lparr>LastHCResponse := t\<rparr>, ex_member ''beta'' ACTIVE 1]" "disk (ex_right t) = disk ex_beta"
    "dial (env (ex_right t)) = dial (env ex_beta)"
    by (simp_all add: ex_right_def ex_clock_def) (simp add: ex_beta_def)
  from ready_ex_beta have "wf_config (DBConfig (ex_right t))" "wf_disk (ex_right t)" "\<not> ml_lock (ex_right t)" "\<forall>tr x. dial (env (ex_right t)) tr x = None"
      "\<exists>node. GetLocalNode (DBConfig (ex_right t)) = Inr node \<and> NodeHostname node = ''beta''" "GetNetworkingPlugin (modules (ex_right t)) \<noteq> None"
    by (auto simp: ready_node_def linked_def wf_def wf_disk_def f)
  with t show ?thesis
    by (simp add: ready_node_def wf_def wf_members_def members_def member_def linked_def find_member_def f)
qed

lemma ex_split:
  "members ex_left = [ex_member ''alpha'' ACTIVE 2, ex_member ''beta'' PASSIVE 1]"
  "members (ex_right t) = [(ex_member ''alpha'' PASSIVE 2)\<lparr>LastHCResponse := t\<rparr>, ex_member ''beta'' ACTIVE 1]"
  "same_clock ex_left (ex_right t)" "same_clock (ex_right t) ex_left" "AutoFailback (Pulse (DBConfig (ex_right t)))"
  "known_peer (DBConfig (ex_right t)) (Some ex_alpha_peer)" "known_peer (DBConfig ex_left) (Some ex_beta_peer)"
  "Members ex_left = [0, 1]" "Members (ex_right t) = [0, 1]" "one_active ex_left" "one_active (ex_right t)"
proof -
  show m: "members ex_left = [ex_member ''alpha'' ACTIVE 2, ex_member ''beta'' PASSIVE 1]"
    "members (ex_right t) = [(ex_member ''alpha'' PASSIVE 2)\<lparr>LastHCResponse := t\<rparr>, ex_member ''beta'' ACTIVE 1]"
    by (simp_all add: ex_left_def ex_right_def ex_beta_def members_def member_def)
  show "same_clock ex_left (ex_right t)" "same_clock (ex_right t) ex_left"
    unfolding same_clock_def m by (simp_all add: ex_left_def ex_right_def ex_clock_def ex_member_def)
  show "AutoFailback (Pulse (DBConfig (ex_right t)))" by (simp add: ex_right_def ex_beta_def ex_config_def defaultConfig_def)
  show "known_peer (DBConfig (ex_right t)) (Some ex_alpha_peer)" "known_peer (DBConfig ex_left) (Some ex_beta_peer)"
    by (simp_all add: known_peer_def ex_left_def ex_right_def ex_beta_def ex_alpha_peer_def ex_beta_peer_def)
  show "Members ex_left = [0, 1]" "Members (ex_right t) = [0, 1]" by (simp_all add: ex_left_def ex_right_def ex_beta_def)
  show "one_active ex_left" "one_active (ex_right t)"
    using ready_ex_left ready_ex_right by (simp_all add: one_active_def m ready_node_def wf_def)
qed

theorem split_brain_check_witness:
  "\<exists>v b'. RoutineHC 1 (rpc_memberlist ex_left) ex_left = Ret () v \<and> far_end ex_left ''beta'' ex_alpha_peer (ex_right 3) v = Ret () b' \<and>
     active_hosts [ex_left, (ex_right 3)] = {''alpha'', ''beta''} \<and> active_hosts [v, b'] = {''alpha''}"
proof -
  have r: "reaches ex_left ''beta'' ex_alpha_peer (ex_right 3)" by (simp add: reaches_def ex_left_def)
  have m: "find_member ex_left ''beta'' = Some 1" "Status (member ex_left 0) = ACTIVE" "LastHCResponse (member ex_left 0) = 0"
    "Status (member ex_left 1) = PASSIVE" "connected 1 ex_left" "Status (member (ex_right 3) 1) = ACTIVE"
    by (simp_all add: ex_left_def ex_right_def find_member_def member_def connected_def ex_member_def)
  have l: "Members ex_left = (if True then [0, 1] else [1, 0])" "False = (if True then \<not> AutoFailback (Pulse (DBConfig (ex_right 3))) else
      AutoFailback (Pulse (DBConfig (ex_right 3))) \<and> LastHCResponse (member ex_left 1) = 0)" and t: "AuthInfo ex_alpha_peer = TLSInfo True"
    using ex_split by (simp_all add: ex_alpha_peer_def)
  from split_brain_check [OF ready_ex_left m(2,3,1) _ m(4,5) l(1) ready_ex_right m(6) ex_split(11,6) t r ex_split(3) l(2), of "{}"]
  show ?thesis by auto
qed

text \<open>\<^bold>\<open>C35.\<close> When the health checks of both cross on the way, they can leave the cluster without an active node:
  both list the same one first, the other one fails back automatically, and has checked it before. Each
  then takes the other for the winner and steps down, and both give up their addresses; each of them watches
  for health checks again.\<close>

theorem crossed_checks_leave_none:
  assumes "ready_node ha ra a" and "Status (member a ra) = ACTIVE" and "one_active a" and "LastHCResponse (member a ra) = 0"
    and "members a = [member a ra, mb]" and "Hostname mb = hb"
    and "ready_node hb rb b" and "Status (member b rb) = ACTIVE" and "one_active b" and "hb \<noteq> ha"
    and "members b = [ma, member b rb]" and "Hostname ma = ha" and "Status ma \<noteq> UNAVAILABLE" and "LastHCResponse ma \<noteq> 0"
    and "known_peer (DBConfig b) (Some p)" and "AuthInfo p = TLSInfo True" and "known_peer (DBConfig a) (Some q)" and "AuthInfo q = TLSInfo True"
    and "same_clock a b" and "same_clock b a" and "AutoFailback (Pulse (DBConfig b))"
  shows "\<exists>s t a' b'. serve_request (Some p) (ReqHealthCheck (rpc_memberlist a)) b = Ret (Inr (RespHealthCheck s)) b' \<and>
    serve_request (Some q) (ReqHealthCheck (rpc_memberlist b)) a = Ret (Inr (RespHealthCheck t)) a' \<and> active_hosts [a', b'] = {} \<and>
    held S (trace a') = held S (trace a) - addresses (DBConfig a) ha \<and> held T (trace b') = held T (trace b) - addresses (DBConfig b) hb \<and>
    Started (TaskMonitorReceivedHCs ra) \<in> set (trace a') \<and> Started (TaskMonitorReceivedHCs rb) \<in> set (trace b')"
proof -
  have h: "Hostname (member a ra) = ha" "Hostname (member b rb) = hb"
    using assms(1,7) by (auto simp: ready_node_def dest: find_member_SomeD)
  have "GetFailOverCountWinner (Memberlist (rpc_memberlist a)) b = Ret ha b"
    using winner_of_list [OF assms(5,19)] assms(2,4,21) h by simp
  from HealthCheck_settled [OF assms(7-9,15,16) this] obtain s b' where
    b: "serve_request (Some p) (ReqHealthCheck (rpc_memberlist a)) b = Ret (Inr (RespHealthCheck \<lparr>HcScore = s\<rparr>)) b'" "settled ha hb rb b b'" by blast
  have "GetFailOverCountWinner (Memberlist (rpc_memberlist b)) a = Ret hb a"
    using winner_of_list [OF assms(11,20)] assms(13,14) h by simp
  from HealthCheck_settled [OF assms(1-3,17,18) this] obtain t a' where
    a: "serve_request (Some q) (ReqHealthCheck (rpc_memberlist b)) a = Ret (Inr (RespHealthCheck \<lparr>HcScore = t\<rparr>)) a'" "settled hb ha ra a a'" by blast
  from a b assms(10) show ?thesis by (auto simp: settled_def active_hosts_def)
qed

theorem crossed_checks_leave_none_witness:
  "\<exists>s t a' b'. serve_request (Some ex_alpha_peer) (ReqHealthCheck (rpc_memberlist ex_left)) (ex_right 3) = Ret (Inr (RespHealthCheck s)) b' \<and>
     serve_request (Some ex_beta_peer) (ReqHealthCheck (rpc_memberlist (ex_right 3))) ex_left = Ret (Inr (RespHealthCheck t)) a' \<and>
     active_hosts [ex_left, (ex_right 3)] = {''alpha'', ''beta''} \<and> active_hosts [a', b'] = {}"
proof -
  have m: "member ex_left 0 = ex_member ''alpha'' ACTIVE 2" "member (ex_right 3) 1 = ex_member ''beta'' ACTIVE 1"
    by (simp_all add: ex_left_def ex_right_def member_def)
  have h: "active_hosts [ex_left, (ex_right 3)] = {''alpha'', ''beta''}"
    using ready_addresses [OF ready_ex_left] ready_addresses [OF ready_ex_right] m by (auto simp: active_hosts_def)
  let ?ma = "(ex_member ''alpha'' PASSIVE 2)\<lparr>LastHCResponse := 3\<rparr>" and ?mb = "ex_member ''beta'' PASSIVE 1"
  have e: "Status (member ex_left 0) = ACTIVE" "LastHCResponse (member ex_left 0) = 0" "members ex_left = [member ex_left 0, ?mb]"
    "Status (member (ex_right 3) 1) = ACTIVE" "members (ex_right 3) = [?ma, member (ex_right 3) 1]"
    using m ex_split(1,2) by (simp_all add: ex_member_def)
  have f: "Hostname ?mb = ''beta''" "Hostname ?ma = ''alpha''" "Status ?ma \<noteq> UNAVAILABLE" "LastHCResponse ?ma \<noteq> 0" "''beta'' \<noteq> ''alpha''"
    by simp_all
  have t: "AuthInfo ex_alpha_peer = TLSInfo True" "AuthInfo ex_beta_peer = TLSInfo True" by (simp_all add: ex_alpha_peer_def ex_beta_peer_def)
  from crossed_checks_leave_none [OF ready_ex_left e(1) ex_split(10) e(2,3) f(1) ready_ex_right e(4) ex_split(11) f(5) e(5) f(2,3,4)
      ex_split(6) t(1) ex_split(7) t(2) ex_split(3,4,5), of "{}" "{}"] h
  show ?thesis by blast
qed

section \<open>The return of a node\<close>

text \<open>A daemon whose calls under the name \<open>h\<close> reach the daemon \<open>b\<close> from now on.\<close>

definition now_reaches :: "world \<Rightarrow> string \<Rightarrow> Peer \<Rightarrow> world \<Rightarrow> world" where
  "now_reaches a h p b = a\<lparr>env := (env a)\<lparr>rpc_result := (\<lambda>t g req.
     if g = h then remote p b (requests_to h (drop (length (trace a)) t)) req else rpc_result (env a) t g req)\<rparr>\<rparr>"

lemma reaches_now: "reaches (now_reaches a h p b) h p b"
  by (simp add: reaches_def now_reaches_def)

lemma now_reaches_fields [simp]:
  "DBConfig (now_reaches a h p b) = DBConfig a" "Members (now_reaches a h p b) = Members a" "heap (now_reaches a h p b) = heap a"
  "trace (now_reaches a h p b) = trace a" "member (now_reaches a h p b) = member a" "members (now_reaches a h p b) = members a"
  "connected q (now_reaches a h p b) = connected q a" "one_active (now_reaches a h p b) = one_active a"
  "local_active (now_reaches a h p b) = local_active a" "rpc_memberlist (now_reaches a h p b) = rpc_memberlist a"
  "same_clock (now_reaches a h p b) c = same_clock a c" "same_clock c (now_reaches a h p b) = same_clock c a"
proof -
  let ?n = "now_reaches a h p b"
  show f: "DBConfig ?n = DBConfig a" "Members ?n = Members a" "heap ?n = heap a" "trace ?n = trace a" by (simp_all add: now_reaches_def)
  show m: "member ?n = member a" by (rule ext) (simp add: member_def f)
  show s: "members ?n = members a" by (simp add: members_def m f)
  show "connected q ?n = connected q a" by (simp add: connected_def m)
  show "one_active ?n = one_active a" by (simp add: one_active_def wf_members_def s f)
  have "find_member ?n = find_member a" by (rule ext) (simp add: find_member_def m f)
  then show "local_active ?n = local_active a" by (simp only: local_active_def m f)
  have e: "format_rfc1123 (env ?n) = format_rfc1123 (env a)" "parse_rfc1123 (env ?n) = parse_rfc1123 (env a)" by (simp_all add: now_reaches_def)
  have "rpc_member (env ?n) = rpc_member (env a)" by (rule ext) (simp add: rpc_member_def e)
  then show "rpc_memberlist ?n = rpc_memberlist a" by (simp add: rpc_memberlist_def s)
  show "same_clock ?n c = same_clock a c" "same_clock c ?n = same_clock c a" by (simp_all add: same_clock_def s e)
qed

lemma ready_now: "ready_node g r (now_reaches a h p b) = ready_node g r a"
proof -
  let ?n = "now_reaches a h p b"
  have "load_tls ?n = load_tls a" by (rule load_tls_cong) (simp_all add: now_reaches_def)
  moreover have "find_member ?n = find_member a" by (rule ext) (simp add: find_member_def)
  moreover have "modules ?n = modules a" "disk ?n = disk a" "ml_lock ?n = ml_lock a" "dial (env ?n) = dial (env a)" by (simp_all add: now_reaches_def)
  ultimately show ?thesis by (simp add: ready_node_def linked_def wf_def wf_members_def wf_disk_def)
qed

lemma ready_update:
  assumes "ready_node h r w" and "\<And>m. Hostname (f m) = Hostname m" and "\<And>m. MemberClient (f m) = MemberClient m"
  shows "ready_node h r ((update_member q f w)\<lparr>trace := t\<rparr>)"
proof -
  have "find_member ((update_member q f w)\<lparr>trace := t\<rparr>) h = find_member w h" by (simp add: find_member_def hostname_update_member assms(2))
  with assms(1) linked_changed [of False "Members w" w f t q, OF _ assms(3)] show ?thesis
    by (simp add: ready_node_def wf_update_member [OF assms(2)])
qed

lemma one_active_statuses: "one_active w \<longleftrightarrow> wf_members w \<and> length (filter (\<lambda>s. s = ACTIVE) (map Status (members w))) \<le> 1"
  by (simp add: one_active_def filter_map o_def)

lemma one_active_update:
  assumes "one_active w" and "\<And>m. Hostname (f m) = Hostname m" and "\<And>m. Status (f m) = Status m"
  shows "one_active ((update_member q f w)\<lparr>trace := t\<rparr>)"
  using assms(1) by (simp add: one_active_statuses wf_members_def map_field_update_member assms(2,3))

lemma same_clock_times: "same_clock a b \<longleftrightarrow> (\<forall>t \<in> set (map LastHCResponse (members a)).
    \<exists>s. parse_rfc1123 (env b) (format_rfc1123 (env a) t) = Some s \<and> (s = 0 \<longleftrightarrow> t = 0))"
  by (simp add: same_clock_def)

lemma same_clock_core:
  assumes "core v = core a" and "same_clock a b" and "wf_members a"
  shows "same_clock v b"
proof -
  have "map LastHCResponse (members v) = map LastHCResponse (members a)"
    using assms(3) by (intro core_members [OF assms(1)]) (simp_all add: strip_def wf_members_def)
  with assms(2) show ?thesis unfolding same_clock_times core_fields(10) [OF assms(1)] by simp
qed

lemma core_member_fields:
  assumes "core v = core w" and "q < length (heap w)"
  shows "Hostname (member v q) = Hostname (member w q)" "Status (member v q) = Status (member w q)"
    "LastHCResponse (member v q) = LastHCResponse (member w q)"
proof -
  have f: "Hostname (strip m) = Hostname m" "Status (strip m) = Status m" "LastHCResponse (strip m) = LastHCResponse m" for m
    by (simp_all add: strip_def)
  from core_member [OF assms] f show "Hostname (member v q) = Hostname (member w q)" "Status (member v q) = Status (member w q)"
    "LastHCResponse (member v q) = LastHCResponse (member w q)" by metis+
qed

text \<open>The same node with the list the other way round, as another iteration over the nodes of the config fills it.\<close>

definition ex_turned :: "int \<Rightarrow> world" where
  "ex_turned t = (ex_right t)\<lparr>Members := [1, 0]\<rparr>"

lemma ex_turned:
  "ready_node ''beta'' 1 (ex_turned t)" "one_active (ex_turned t)" "known_peer (DBConfig (ex_turned t)) (Some ex_alpha_peer)"
  "same_clock ex_left (ex_turned t)" "same_clock (ex_turned t) ex_left"
proof -
  have f: "DBConfig (ex_turned t) = DBConfig (ex_right t)" "Members (ex_turned t) = [1, 0]" "env (ex_turned t) = env (ex_right t)"
    "heap (ex_turned t) = heap (ex_right t)" "member (ex_turned t) = member (ex_right t)"
    by (simp_all add: ex_turned_def member_def fun_eq_iff)
  have e: "Members (ex_right t) = [0, 1]" "members (ex_turned t) = rev (members (ex_right t))" using ex_split(9) f by (simp_all add: members_def)
  have "load_tls (ex_turned t) = load_tls (ex_right t)" by (rule load_tls_cong) (simp_all add: ex_turned_def)
  moreover have "find_member (ex_turned t) ''beta'' = Some 1" by (simp add: find_member_def f) (simp add: ex_right_def member_def)
  ultimately show r: "ready_node ''beta'' 1 (ex_turned t)" using ready_ex_right [of t]
    by (simp add: ready_node_def wf_def wf_members_def wf_disk_def linked_def e f rev_map [symmetric]) (auto simp: ex_turned_def e)
  from r show "one_active (ex_turned t)" unfolding one_active_def by (simp add: e ex_split(2) ready_node_def wf_def)
  show "known_peer (DBConfig (ex_turned t)) (Some ex_alpha_peer)" using ex_split(6) f by simp
  show "same_clock ex_left (ex_turned t)" "same_clock (ex_turned t) ex_left"
    using ex_split(3,4) [of t] by (simp_all add: same_clock_def e f)
qed

lemma still_active_checks:
  assumes "ready_node ha ra a" and "Status (member a ra) = ACTIVE" and "rb \<in> set (Members a)" and "Hostname (member a rb) = hb" and "connected rb a"
    and "ready_node hb sb v" and "Status (member v sb) = ACTIVE" and "one_active v" and "hb \<noteq> ha"
    and "known_peer (DBConfig v) (Some p)" and "AuthInfo p = TLSInfo True"
    and "GetFailOverCountWinner (Memberlist (rpc_memberlist a)) v = Ret (if wins then ha else hb) v"
  shows "\<exists>u b'. RoutineHC rb (rpc_memberlist a) (now_reaches a hb p v) = Ret () u \<and> far_end (now_reaches a hb p v) hb p v u = Ret () b' \<and>
    held S (trace u) = held S (trace a) \<and>
    (if wins then active_hosts [u, b'] = {ha} \<and> held T (trace b') = held T (trace v) - addresses (DBConfig v) hb
     else active_hosts [u, b'] = {ha, hb} \<and> held T (trace b') = held T (trace v))"
proof -
  let ?a = "now_reaches a hb p v"
  from HealthCheck_settled [OF assms(6-8,10,11,12)] obtain s b' where
    b: "serve_request (Some p) (ReqHealthCheck (rpc_memberlist a)) v = Ret (Inr (RespHealthCheck \<lparr>HcScore = s\<rparr>)) b'"
      "settled (if wins then ha else hb) hb sb v b'" by blast
  have len: "rb < length (heap ?a)" using assms(1,3) by (auto simp: ready_node_def linked_def)
  from check_exchange [OF len _ _ reaches_now b(1)] assms(4,5) obtain t l u where
    u: "u = (update_member rb (\<lambda>m. m\<lparr>LastHCResponse := t, Latency := l, Score := s, HCBusy := False\<rparr>) ?a)
      \<lparr>trace := trace ?a @ [SentRpc hb (ReqHealthCheck (rpc_memberlist a))]\<rparr>"
    "RoutineHC rb (rpc_memberlist a) ?a = Ret () u" "far_end ?a hb p v u = Ret () b'" by auto
  have "local_active u = local_active ?a" unfolding u(1) by (rule local_active_update) simp_all
  moreover have "held S (trace u) = held S (trace a)" by (simp add: u(1))
  ultimately show ?thesis using u(2,3) b(2) assms(9) ready_addresses [OF assms(1,2)] by (auto simp: active_hosts_def settled_def)
qed

text \<open>The winner of a list of two members, whichever comes first.\<close>

lemma winner_either_order:
  assumes "Members a = (if first then [q, r] else [r, q])" and "same_clock a b"
    and "Status (member a q) \<noteq> UNAVAILABLE" and "Status (member a r) \<noteq> UNAVAILABLE"
    and "wins \<longleftrightarrow> (if first then AutoFailback (Pulse (DBConfig b)) \<and> LastHCResponse (member a q) = 0
      else \<not> (AutoFailback (Pulse (DBConfig b)) \<and> LastHCResponse (member a r) = 0))"
  shows "GetFailOverCountWinner (Memberlist (rpc_memberlist a)) b = Ret (Hostname (member a (if wins then q else r))) b"
proof (cases first)
  case True
  with winner_of_list [OF _ assms(2), of "member a q" "member a r"] assms show ?thesis by (simp add: members_def)
next
  case False
  with winner_of_list [OF _ assms(2), of "member a r" "member a q"] assms show ?thesis by (simp add: members_def)
qed

text \<open>\<^bold>\<open>C9.\<close> A node \<open>ha\<close> comes back after another one, \<open>hb\<close>, has taken over from it, and both consider themselves active, with no time
  of a health check of their own. The one that took over sends its health check, and, if the returned one is still active after it, that one sends its own.
  Whether a check is won by the returned node depends on the order of the sender's list as much as on the setting. The check of \<open>hb\<close> is: when the
  list has \<open>ha\<close> first, if \<open>ha\<close> fails back automatically and \<open>hb\<close> has no time of a health check for it; when the list has \<open>hb\<close> first, if \<open>ha\<close>
  does not fail back. The check of \<open>ha\<close> is: when its list has \<open>ha\<close> first, if \<open>hb\<close> fails back automatically; when it has \<open>hb\<close> first, unless \<open>hb\<close> fails back
  and \<open>ha\<close> has no time of a health check for it. A returned node that loses the first check gives up its addresses, and only \<open>hb\<close> is
  active; one that wins both is the only active one, and \<open>hb\<close> has given up its addresses; one that wins only the first leaves both active, each with its
  addresses. So with automatic failback the returned node gets its role back if it is first in both lists and \<open>hb\<close> has not checked it, but the one that took over keeps the role if
  it is first in its own list; without, the one that took over keeps it if the returned node is first in the list of \<open>hb\<close>.\<close>


theorem failback_contract:
  assumes "ready_node ha ra a" and "Status (member a ra) = ACTIVE" and "one_active a" and "LastHCResponse (member a ra) = 0"
    and "Members a = (if first_a then [ra, rb] else [rb, ra])" and "Hostname (member a rb) = hb" and "Status (member a rb) \<noteq> UNAVAILABLE" and "connected rb a"
    and "ready_node hb sb b" and "Status (member b sb) = ACTIVE" and "one_active b" and "LastHCResponse (member b sb) = 0" and "hb \<noteq> ha"
    and "Members b = (if first_b then [sa, sb] else [sb, sa])" and "Hostname (member b sa) = ha" and "Status (member b sa) \<noteq> UNAVAILABLE" and "connected sa b"
    and "known_peer (DBConfig a) (Some q)" and "AuthInfo q = TLSInfo True" and "known_peer (DBConfig b) (Some p)" and "AuthInfo p = TLSInfo True"
    and "same_clock a b" and "same_clock b a"
    and "stays \<longleftrightarrow> (if first_b then AutoFailback (Pulse (DBConfig a)) \<and> LastHCResponse (member b sa) = 0 else \<not> AutoFailback (Pulse (DBConfig a)))"
    and "wins \<longleftrightarrow> (if first_a then AutoFailback (Pulse (DBConfig b)) else \<not> (AutoFailback (Pulse (DBConfig b)) \<and> LastHCResponse (member a rb) = 0))"
  shows "\<exists>v a'. RoutineHC sa (rpc_memberlist b) (now_reaches b ha q a) = Ret () v \<and> far_end (now_reaches b ha q a) ha q a v = Ret () a' \<and>
    held T (trace v) = held T (trace b) \<and>
    (if \<not> stays then active_hosts [a', v] = {hb} \<and> held S (trace a') = held S (trace a) - addresses (DBConfig a) ha
     else \<exists>u b'. RoutineHC rb (rpc_memberlist a') (now_reaches a' hb p v) = Ret () u \<and> far_end (now_reaches a' hb p v) hb p v u = Ret () b' \<and>
       held S (trace u) = held S (trace a) \<and>
       (if wins then active_hosts [u, b'] = {ha} \<and> held T (trace b') = held T (trace b) - addresses (DBConfig b) hb
        else active_hosts [u, b'] = {ha, hb} \<and> held T (trace b') = held T (trace b)))"
proof -
  let ?b = "now_reaches b ha q a"
  let ?req = "ReqHealthCheck (rpc_memberlist b)"
  have h: "Hostname (member b sb) = hb" "Hostname (member a ra) = ha" using assms(1,9) by (auto simp: ready_node_def dest: find_member_SomeD)
  have win: "GetFailOverCountWinner (Memberlist (rpc_memberlist b)) a = Ret (if stays then ha else hb) a"
    using winner_either_order [OF assms(14,23,16), of stays] assms(10,12,15,24) h by simp
  have len: "sa < length (heap ?b)" using assms(9,14) by (auto simp: ready_node_def linked_def split: if_splits)
  have sent: "\<exists>v. RoutineHC sa (rpc_memberlist b) ?b = Ret () v \<and> far_end ?b ha q a v = Ret () a' \<and> ready_node hb sb v \<and>
      Status (member v sb) = ACTIVE \<and> one_active v \<and> DBConfig v = DBConfig b \<and> same_clock a v \<and> local_active v = Some hb \<and>
      held T (trace v) = held T (trace b)"
    if "serve_request (Some q) ?req a = Ret (Inr (RespHealthCheck resp)) a'" for resp a'
  proof -
    from check_exchange [OF len _ _ reaches_now that] assms(15,17) obtain t l v where
      v: "v = (update_member sa (\<lambda>m. m\<lparr>LastHCResponse := t, Latency := l, Score := HcScore resp, HCBusy := False\<rparr>) ?b)\<lparr>trace := trace b @ [SentRpc ha ?req]\<rparr>"
      "RoutineHC sa (rpc_memberlist b) ?b = Ret () v" "far_end ?b ha q a v = Ret () a'" by auto
    have "ready_node hb sb v" unfolding v(1) by (rule ready_update) (simp_all add: ready_now assms(9))
    moreover have la: "local_active v = local_active ?b" unfolding v(1) by (rule local_active_update) simp_all
    moreover have "one_active v" unfolding v(1) by (rule one_active_update) (simp_all add: assms(11))
    moreover have "same_clock a v" using assms(22) by (simp add: same_clock_def v(1)) (simp add: now_reaches_def)
    moreover have "Status (member v sb) = Status (member ?b sb)" unfolding v(1) by (rule status_update) simp
    moreover have "DBConfig v = DBConfig b" "held T (trace v) = held T (trace b)" by (simp_all add: v(1))
    ultimately show ?thesis using v(2,3) ready_addresses [OF assms(9,10)] assms(10) by simp
  qed
  show ?thesis
  proof (cases stays)
    case True
    with win have "GetFailOverCountWinner (Memberlist (rpc_memberlist b)) a = Ret ha a" by simp
    from HealthCheck_won [OF assms(1-3,18,19) this assms(4)] obtain s a' where
      a': "serve_request (Some q) ?req a = Ret (Inr (RespHealthCheck \<lparr>HcScore = s\<rparr>)) a'" "ready_node ha ra a'" "core a' = core a"
      "\<forall>T. held T (trace a') = held T (trace a)" "\<forall>q. connected q a \<longrightarrow> connected q a'" by blast
    from sent [OF a'(1)] obtain v where v: "RoutineHC sa (rpc_memberlist b) ?b = Ret () v" "far_end ?b ha q a v = Ret () a'" "ready_node hb sb v"
      "Status (member v sb) = ACTIVE" "one_active v" "DBConfig v = DBConfig b" "same_clock a v" "held T (trace v) = held T (trace b)" by blast
    from assms(1,5) have w: "wf_members a" "ra < length (heap a)" "rb < length (heap a)" by (auto simp: ready_node_def wf_def linked_def split: if_splits)
    note f = core_member_fields [OF a'(3) w(2)] core_member_fields [OF a'(3) w(3)] core_fields(3) [OF a'(3)]
    have "Members a' = (if first_a then [ra, rb] else [rb, ra])" using assms(5) f by simp
    from winner_either_order [OF this same_clock_core [OF a'(3) v(7) w(1)], of wins]
    have "GetFailOverCountWinner (Memberlist (rpc_memberlist a')) v = Ret (if wins then ha else hb) v"
      using f assms(2,4,6,7,25) v(6) h by simp
    moreover have "rb \<in> set (Members a')" "Status (member a' ra) = ACTIVE" "Hostname (member a' rb) = hb" "connected rb a'" "known_peer (DBConfig v) (Some p)"
      using assms(2,5,6,8,20) f a'(5) v(6) by (simp_all split: if_splits)
    ultimately obtain u b' where "RoutineHC rb (rpc_memberlist a') (now_reaches a' hb p v) = Ret () u" "far_end (now_reaches a' hb p v) hb p v u = Ret () b'"
      "held S (trace u) = held S (trace a)" "if wins then active_hosts [u, b'] = {ha} \<and> held T (trace b') = held T (trace b) - addresses (DBConfig b) hb
        else active_hosts [u, b'] = {ha, hb} \<and> held T (trace b') = held T (trace b)"
      using still_active_checks [OF a'(2) _ _ _ _ v(3-5) assms(13) _ assms(21), of rb wins S T] unfolding v(6,8) using a'(4) by metis
    with v(1,2,8) True show ?thesis by (intro exI [of _ v] exI [of _ a'] conjI) (simp_all, blast?)

  next
    case False
    with win have "GetFailOverCountWinner (Memberlist (rpc_memberlist b)) a = Ret hb a" by simp
    from HealthCheck_settled [OF assms(1-3,18,19) this] obtain s a' where
      a': "serve_request (Some q) ?req a = Ret (Inr (RespHealthCheck \<lparr>HcScore = s\<rparr>)) a'" "settled hb ha ra a a'" by blast
    from sent [OF a'(1)] a'(2) assms(13) False show ?thesis by (auto simp: active_hosts_def settled_def)
  qed
qed

theorem failback_contract_witness:
  "(\<exists>v a' u b'. RoutineHC 0 (rpc_memberlist (ex_right 0)) (now_reaches (ex_right 0) ''alpha'' ex_beta_peer ex_left) = Ret () v \<and>
     far_end (now_reaches (ex_right 0) ''alpha'' ex_beta_peer ex_left) ''alpha'' ex_beta_peer ex_left v = Ret () a' \<and>
     RoutineHC 1 (rpc_memberlist a') (now_reaches a' ''beta'' ex_alpha_peer v) = Ret () u \<and>
     far_end (now_reaches a' ''beta'' ex_alpha_peer v) ''beta'' ex_alpha_peer v u = Ret () b' \<and> active_hosts [u, b'] = {''alpha''}) \<and>
   (\<exists>v a'. RoutineHC 0 (rpc_memberlist (ex_turned 0)) (now_reaches (ex_turned 0) ''alpha'' ex_beta_peer ex_left) = Ret () v \<and>
     far_end (now_reaches (ex_turned 0) ''alpha'' ex_beta_peer ex_left) ''alpha'' ex_beta_peer ex_left v = Ret () a' \<and> active_hosts [a', v] = {''beta''})"
proof -
  have m: "Status (member ex_left 0) = ACTIVE" "LastHCResponse (member ex_left 0) = 0" "Hostname (member ex_left 1) = ''beta''"
    "Status (member ex_left 1) \<noteq> UNAVAILABLE" "connected 1 ex_left" "''beta'' \<noteq> ''alpha''"
    "Members ex_left = (if True then [0, 1] else [1, 0])" "Members (ex_right 0) = (if True then [0, 1] else [1, 0])"
    "Members (ex_turned 0) = (if False then [0, 1] else [1, 0])"
    using ex_split(8,9) by (simp_all add: ex_left_def ex_turned_def member_def connected_def ex_member_def)
  have n: "Status (member (ex_right 0) 1) = ACTIVE" "LastHCResponse (member (ex_right 0) 1) = 0" "Hostname (member (ex_right 0) 0) = ''alpha''"
    "Status (member (ex_right 0) 0) \<noteq> UNAVAILABLE" "connected 0 (ex_right 0)" "LastHCResponse (member (ex_right 0) 0) = 0"
    by (simp_all add: ex_right_def member_def connected_def ex_member_def)
  have n': "Status (member (ex_turned 0) 1) = ACTIVE" "LastHCResponse (member (ex_turned 0) 1) = 0" "Hostname (member (ex_turned 0) 0) = ''alpha''"
    "Status (member (ex_turned 0) 0) \<noteq> UNAVAILABLE" "connected 0 (ex_turned 0)"
    using n by (simp_all add: ex_turned_def member_def connected_def)
  have t: "AuthInfo ex_alpha_peer = TLSInfo True" "AuthInfo ex_beta_peer = TLSInfo True" by (simp_all add: ex_alpha_peer_def ex_beta_peer_def)
  have f: "AutoFailback (Pulse (DBConfig ex_left)) = True" "AutoFailback (Pulse (DBConfig (ex_right 0))) = True"
    "AutoFailback (Pulse (DBConfig (ex_turned 0))) = True"
    using ex_split(5) by (simp_all add: ex_left_def ex_turned_def ex_config_def defaultConfig_def)
  from failback_contract [OF ready_ex_left m(1) ex_split(10) m(2,7,3,4,5) ready_ex_right n(1) ex_split(11) n(2) m(6) m(8) n(3-5)
      ex_split(7) t(2) ex_split(6) t(1) ex_split(3,4), of True True "{}" "{}"] f n(6)
  have 1: "\<exists>v a' u b'. RoutineHC 0 (rpc_memberlist (ex_right 0)) (now_reaches (ex_right 0) ''alpha'' ex_beta_peer ex_left) = Ret () v \<and>
     far_end (now_reaches (ex_right 0) ''alpha'' ex_beta_peer ex_left) ''alpha'' ex_beta_peer ex_left v = Ret () a' \<and>
     RoutineHC 1 (rpc_memberlist a') (now_reaches a' ''beta'' ex_alpha_peer v) = Ret () u \<and>
     far_end (now_reaches a' ''beta'' ex_alpha_peer v) ''beta'' ex_alpha_peer v u = Ret () b' \<and> active_hosts [u, b'] = {''alpha''}"
    by auto
  from failback_contract [OF ready_ex_left m(1) ex_split(10) m(2,7,3,4,5) ex_turned(1) n'(1) ex_turned(2) n'(2) m(6) m(9) n'(3-5)
      ex_split(7) t(2) ex_turned(3) t(1) ex_turned(4,5), of False True "{}" "{}"] f
  have "\<exists>v a'. RoutineHC 0 (rpc_memberlist (ex_turned 0)) (now_reaches (ex_turned 0) ''alpha'' ex_beta_peer ex_left) = Ret () v \<and>
     far_end (now_reaches (ex_turned 0) ''alpha'' ex_beta_peer ex_left) ''alpha'' ex_beta_peer ex_left v = Ret () a' \<and> active_hosts [a', v] = {''beta''}"
    by auto
  with 1 show ?thesis by blast
qed

end
