(* ===== verification/Rotation.thy ===== *)
theory Rotation
  imports SplitBrain
begin

text \<open>
  A cluster of two daemons over time. Its steps are those of a cluster whose links are up: the active daemon hands
  over to the other one, watches its connections or checks the health of the other one, the standby looks at the time
  of the last health check before it is overdue, and the clocks go on. Any of them can come next, in any order and
  any number of times. In every state that is reached, exactly one of the two is active and holds exactly the addresses that its config
  assigns to it, and the other one holds none.
\<close>

section \<open>One daemon of a pair\<close>

text \<open>The member list as the table of statuses that it is to the outside.\<close>

definition recorded :: "world \<Rightarrow> string \<Rightarrow> Status option" where
  "recorded w h = map_option (\<lambda>r. Status (member w r)) (find_member w h)"

text \<open>\<open>w\<close> is the daemon of the node \<open>h\<close> in a cluster with the node \<open>g\<close>: it can serve, it knows the other one, which calls
  it as the peer \<open>ps g\<close>, its links are up, and its network plugin works.\<close>

definition stands :: "(string \<Rightarrow> Peer) \<Rightarrow> string \<Rightarrow> string \<Rightarrow> world \<Rightarrow> bool" where
  "stands ps h g w \<longleftrightarrow> (\<exists>r q. ready_node h r w \<and> find_member w g = Some q \<and> set (Members w) = {r, q}) \<and> g \<noteq> h \<and> all_members w \<and>
     known_peer (DBConfig w) (Some (ps g)) \<and> AuthInfo (ps g) = TLSInfo True \<and>
     (\<forall>iface ips. net_up (env w) iface ips = None) \<and> (\<forall>tr x. link_state (env w) tr x = Ready)"

text \<open>\<open>v\<close> is \<open>w\<close> but for fields of the members other than their names, the trace, and parts of the surroundings.\<close>

definition alike :: "world \<Rightarrow> world \<Rightarrow> bool" where
  "alike w v \<longleftrightarrow> DBConfig v = DBConfig w \<and> Members v = Members w \<and> modules v = modules w \<and> disk v = disk w \<and>
     length (heap v) = length (heap w) \<and> (\<forall>r \<in> set (Members w). Hostname (member v r) = Hostname (member w r)) \<and>
     net_up (env v) = net_up (env w) \<and> link_state (env v) = link_state (env w) \<and> map_order (env v) = map_order (env w)"

lemma alike_trans: "alike u v \<Longrightarrow> alike v w \<Longrightarrow> alike u w"
  by (simp add: alike_def)

lemma alike_find: "alike w v \<Longrightarrow> find_member v = find_member w"
  unfolding find_member_def alike_def fun_eq_iff by (auto intro: find_cong)

lemma alike_stands:
  assumes "alike w v" and "linked False (Members w) v" and "stands ps h g w"
  shows "stands ps h g v"
proof -
  have f: "find_member v = find_member w" by (rule alike_find [OF assms(1)])
  have "map Hostname (members v) = map Hostname (members w)" using assms(1) by (simp add: alike_def members_def)
  then have "wf v = wf w" "Hostname ` set (members v) = Hostname ` set (members w)"
    using assms(1) by (simp_all add: alike_def wf_def wf_members_def wf_disk_def flip: set_map)
  with assms f show ?thesis by (simp add: stands_def ready_node_def alike_def all_members_def)
qed

lemma alike_core:
  assumes "core v = core w" and "wf_members w"
  shows "alike w v"
  using core_fields [OF assms(1)] core_member_fields(1) [OF assms(1)] assms(2) by (simp add: alike_def wf_members_def)

lemma alike_update: "(\<And>m. Hostname (f m) = Hostname m) \<Longrightarrow> alike w ((update_member r f w)\<lparr>trace := t\<rparr>)"
  by (simp add: alike_def hostname_update_member)

lemma alike_now_reaches: "alike w (now_reaches w h p b)"
  by (simp add: alike_def) (simp add: now_reaches_def)

lemma stands_now_reaches: "stands ps h g (now_reaches w x p b) = stands ps h g w"
proof -
  have "find_member (now_reaches w x p b) = find_member w" by (rule alike_find [OF alike_now_reaches])
  moreover have "net_up (env (now_reaches w x p b)) = net_up (env w)" "link_state (env (now_reaches w x p b)) = link_state (env w)"
    by (simp_all add: now_reaches_def)
  ultimately show ?thesis by (simp add: stands_def ready_now all_members_def)
qed

lemma find_member_now_reaches [simp]: "find_member (now_reaches w x p b) = find_member w"
  by (rule alike_find [OF alike_now_reaches])

lemma recorded_now_reaches [simp]: "recorded (now_reaches w x p b) = recorded w"
  by (simp add: recorded_def fun_eq_iff)

text \<open>The two roles: the one that leads is active and holds exactly its addresses, the one that follows is passive and holds
  none.\<close>

definition leads :: "(string \<Rightarrow> Peer) \<Rightarrow> string \<Rightarrow> string \<Rightarrow> world \<Rightarrow> bool" where
  "leads ps h g w \<longleftrightarrow> stands ps h g w \<and> recorded w h = Some ACTIVE \<and> held {} (trace w) = addresses (DBConfig w) h"

definition follows :: "(string \<Rightarrow> Peer) \<Rightarrow> string \<Rightarrow> string \<Rightarrow> world \<Rightarrow> bool" where
  "follows ps h g w \<longleftrightarrow> stands ps h g w \<and> recorded w h = Some PASSIVE \<and> held {} (trace w) = {}"

lemma standsE:
  assumes "stands ps h g w"
  obtains r q where "ready_node h r w" "find_member w h = Some r" "find_member w g = Some q" "set (Members w) = {r, q}" "r \<noteq> q"
    "r < length (heap w)" "q < length (heap w)" "Hostname (member w r) = h" "Hostname (member w q) = g" "wf_members w"
    "linked False (Members w) w"
proof -
  from assms obtain r q where rq: "ready_node h r w" "find_member w g = Some q" "set (Members w) = {r, q}" "g \<noteq> h"
    by (auto simp: stands_def)
  from rq(1) have w: "find_member w h = Some r" "wf_members w" "linked False (Members w) w" by (auto simp: ready_node_def wf_def)
  with rq find_member_SomeD [OF w(1)] find_member_SomeD [OF rq(2)] show thesis
    by (intro that [of r q]) (auto simp: linked_def)
qed

lemma stands_one_active:
  assumes "stands ps h g w" and "recorded w g \<noteq> Some ACTIVE"
  shows "one_active w"
proof -
  from assms(1) obtain r q where "find_member w g = Some q" "set (Members w) = {r, q}" "wf_members w" by (rule standsE)
  with assms(2) have "active_in {r} w" by (auto simp: active_in_def recorded_def)
  then show ?thesis by (rule active_in_one)
qed

lemma stands_local_active:
  assumes "stands ps h g w"
  shows "local_active w = (if recorded w h = Some ACTIVE then Some h else None)"
proof -
  from assms obtain r where "ready_node h r w" "find_member w h = Some r" by (rule standsE)
  then show ?thesis by (auto simp: ready_node_def local_active_def recorded_def)
qed

lemma recorded_core:
  assumes "core v = core (update_member r f w)" and "wf_members w" and "find_member w h = Some r" and "\<And>m. Hostname (f m) = Hostname m"
  shows "recorded v g = (if g = h then Some (Status (f (member w r))) else recorded w g)"
proof -
  let ?u = "update_member r f w"
  from find_member_SomeD [OF assms(3)] assms(2) have r: "r \<in> set (Members w)" "Hostname (member w r) = h" "r < length (heap w)"
    by (auto simp: wf_members_def)
  have wu: "wf_members ?u" using assms(2,4) by (simp add: wf_members_def map_field_update_member)
  have "find_member v = find_member ?u" by (rule alike_find [OF alike_core [OF assms(1) wu]])
  moreover have "find_member ?u = find_member w" by (rule ext) (simp add: find_member_def hostname_update_member assms(4))
  moreover have "Status (member v q) = Status (if q = r then f (member w r) else member w q)" if "q \<in> set (Members w)" for q
    using core_member_fields(2) [OF assms(1), of q] that assms(2) r(3) by (simp add: wf_members_def member_update_member)
  ultimately show ?thesis using assms(3) find_member_SomeD [of w g] r(2) by (cases "find_member w g") (auto simp: recorded_def)
qed

lemma alike_changed:
  assumes "core v = core (update_member r f w)" and "wf_members w" and "\<And>m. Hostname (f m) = Hostname m"
  shows "alike w v"
proof (rule alike_trans)
  have "wf_members (update_member r f w)" using assms(2,3) by (simp add: wf_members_def map_field_update_member)
  then show "alike (update_member r f w) v" by (rule alike_core [OF assms(1)])
  show "alike w (update_member r f w)" by (simp add: alike_def hostname_update_member assms(3))
qed

lemma stands_core:
  assumes "core v = core (update_member r f w)" and "linked False (Members w) v" and "stands ps h g w" and "\<And>m. Hostname (f m) = Hostname m"
  shows "stands ps h g v"
proof (rule alike_stands [OF alike_changed assms(2,3)])
  show "core v = core (update_member r f w)" by (rule assms(1))
  show "wf_members w" using assms(3) by (rule standsE)
qed (rule assms(4))

section \<open>The steps of the pair\<close>

text \<open>Handing over: the roles change, and each keeps what it had recorded of the other.\<close>

lemma hand_over_run:
  assumes "leads ps ha hb a" and "follows ps hb ha b" and "recorded a hb \<notin> {Some ACTIVE, Some UNAVAILABLE}"
  shows "\<exists>v b'. PromoteMember hb (now_reaches a hb (ps ha) b) = Ret None v \<and>
    far_end (now_reaches a hb (ps ha) b) hb (ps ha) b v = Ret () b' \<and> follows ps ha hb v \<and> leads ps hb ha b' \<and>
    recorded v hb = recorded a hb \<and> recorded b' ha = recorded b ha \<and> alike a v"
proof -
  let ?a = "now_reaches a hb (ps ha) b"
  let ?p = "ReqPromote \<lparr>PromoteTarget = hb\<rparr>"
  from assms(1,2) have s: "stands ps ha hb ?a" "stands ps hb ha b" by (simp_all add: leads_def follows_def stands_now_reaches)
  from s(1) obtain ra rb where a: "ready_node ha ra ?a" "find_member ?a ha = Some ra" "find_member ?a hb = Some rb" "wf_members ?a" by (rule standsE)
  from s(2) obtain sb where b: "ready_node hb sb b" "find_member b hb = Some sb" "wf_members b" by (rule standsE)
  have st: "Status (member ?a ra) = ACTIVE" "Status (member ?a rb) \<noteq> UNAVAILABLE" "one_active ?a"
    using assms(1,3) a(2,3) stands_one_active [OF s(1)] by (auto simp: leads_def recorded_def)
  have h: "hb \<noteq> ha" "hb \<noteq> ''''" "known_peer (DBConfig b) (Some (ps ha))" "AuthInfo (ps ha) = TLSInfo True" "\<And>i ips. net_up (env b) i ips = None"
    using s(2) b(1) by (auto simp: stands_def ready_node_def)
  from Promote_served [OF b(1) h(3-5)] obtain b' m where
    b': "serve_request (Some (ps ha)) ?p b = Ret (Inr (RespOther (reply True '''' 0))) b'" "core b' = core (update_member sb active_now b)"
      "trace b' = trace b @ m" "set (filter address_change m) = ups (DBConfig b) hb" "linked False (Members b) b'" by blast
  have "rpc_result (env ?a) (trace ?a @ t) hb ?p = Inr (RespOther (reply True '''' 0))" if "list_all silent t" for t
    using reaches_now [of a hb "ps ha" b] requests_silent [OF that] b'(1) by (simp add: reaches_def remote_def)
  from promote_other_run [OF a(1) st(1,3) a(3) h(1,2) st(2) this] obtain v l where
    v: "PromoteMember hb ?a = Ret None v" "core v = core (update_member ra (passive_now (now (env ?a))) ?a)"
      "trace v = trace ?a @ l @ [SentRpc hb ?p]" "list_all silent l" "set (filter address_change l) = downs (DBConfig ?a) ha"
      "linked False (Members ?a) v" by blast
  have act: "\<And>m. Hostname (active_now m) = Hostname m" "\<And>t m. Hostname (passive_now t m) = Hostname m"
    by (simp_all add: active_now_def passive_now_def)
  have "far_end ?a hb (ps ha) b v = Ret () b'" using v(3) requests_silent [OF v(4)] b'(1) by (simp add: far_end_def)
  moreover have "follows ps ha hb v"
    using stands_core [OF v(2,6) s(1) act(2)] recorded_core [OF v(2) a(4,2) act(2)] assms(1) held_of_downs [OF v(5), of "held {} (trace a)"]
    by (simp add: follows_def leads_def v(3) passive_now_def)
  moreover have "leads ps hb ha b'"
    using stands_core [OF b'(2,5) s(2) act(1)] recorded_core [OF b'(2) b(3,2) act(1)] assms(2) held_of_ups [OF b'(4), of "held {} (trace b)"]
      core_fields(1) [OF b'(2)] by (simp add: follows_def leads_def b'(3) active_now_def)
  moreover have "recorded v hb = recorded a hb" "recorded b' ha = recorded b ha"
    using recorded_core [OF v(2) a(4,2) act(2)] recorded_core [OF b'(2) b(3,2) act(1)] h(1) by simp_all

  moreover have "alike a v" by (rule alike_trans [OF alike_now_reaches alike_changed [OF v(2) a(4) act(2)]])
  ultimately show ?thesis using v(1) by blast
qed

text \<open>What a computation keeps that changes neither the registry nor the addresses of the machine.\<close>

definition unmoved :: "world \<Rightarrow> world \<Rightarrow> bool" where
  "unmoved w v \<longleftrightarrow> alike w v \<and> held {} (trace v) = held {} (trace w)"

lemma unmoved_refl: "unmoved w w"
  by (simp add: unmoved_def alike_def)

lemma held_calm: "list_all (\<lambda>e. \<not> address_change e) l \<Longrightarrow> held S l = S"
  by (induction l arbitrary: S) (auto split: effect.split)

lemma unmoved_status:
  assumes "unmoved w u"
  shows "unmoved w ((with_status r st u)\<lparr>trace := trace u @ status_events (with_status r st u)\<rparr>)"
proof -
  have "alike u ((with_status r st u)\<lparr>trace := t\<rparr>)" for t unfolding with_status_def by (rule alike_update) simp
  with assms show ?thesis by (auto simp: unmoved_def held_calm [OF status_events_silent(2)] intro: alike_trans)
qed

lemma unmoved_SetStatus: "safe (unmoved w) C (SetStatus r st)"
  unfolding safe_def by (rule partialI) (auto simp: SetStatus_run unmoved_status)

lemma unmoved_setters: "safe (unmoved w) C (SetLatency r l)" "safe (unmoved w) C (SetScore r s)" "safe (unmoved w) C (SetLastHCResponse r t)"
  unfolding setter_defs
  by (intro safe_modify, simp add: unmoved_def alike_def hostname_update_member)+

lemma unmoved_quiet:
  assumes "wf_members w" and "quiet m" and "\<And>t. safe (only_added (\<lambda>e. \<not> address_change e) t) any_crash m"
  shows "safe (unmoved w) any_crash m"
  unfolding safe_def
proof (rule partialI)
  fix u x v assume u: "unmoved w u" and run: "m u = Ret x v"
  then have "map Hostname (members u) = map Hostname (members w)" by (simp add: unmoved_def alike_def members_def)
  with u assms(1) have wfm: "wf_members u" by (simp add: unmoved_def alike_def wf_members_def)
  from safeD [OF assms(3) only_added_refl run] obtain l where "trace v = trace u @ l" "list_all (\<lambda>e. \<not> address_change e) l"
    by (auto simp: only_added_def)
  with u alike_core [OF quietD [OF assms(2) run] wfm] show "unmoved w v" by (auto simp: unmoved_def held_calm intro: alike_trans)
qed simp

lemma unmoved_Logging: "wf_members w \<Longrightarrow> safe (unmoved w) any_crash (Logging_Error m)"
proof (rule unmoved_quiet [OF _ quiet_Logging(3) only_added_Logging(3)])
  show "\<not> address_change e" if "log_entry e" for e using that by (cases e) auto
qed

lemma unmoved_monitor_member:
  assumes "wf_members w"
  shows "safe (unmoved w) any_crash (monitor_member lh r)"
proof -
  have "safe (unmoved w) any_crash (case state of Live Idle \<Rightarrow> skip | Live Ready \<Rightarrow> SetStatus r PASSIVE | _ \<Rightarrow> SetStatus r UNAVAILABLE)" for state
    by (auto split: connectivity.split live_state.split intro!: safe_intro unmoved_SetStatus)
  then show ?thesis unfolding monitor_member_def
    by (intro safe_intro unmoved_quiet [OF assms quiet_Connect only_added_Connect] unmoved_Logging [OF assms] safe_with_client) simp_all
qed


text \<open>Watching the connections: the other one is recorded as passive and connected, and nothing else changes.\<close>

lemma watch_run:
  assumes "leads ps h g w"
  shows "\<exists>v q. MonitorClientConns w = Ret False v \<and> leads ps h g v \<and> recorded v g = Some PASSIVE \<and> find_member v g = Some q \<and> connected q v"
proof -
  from assms have s: "stands ps h g w" by (simp add: leads_def)
  from s obtain r q where rq: "ready_node h r w" "find_member w h = Some r" "find_member w g = Some q" "set (Members w) = {r, q}" "r \<noteq> q"
    "Hostname (member w r) = h" "wf_members w" "linked False (Members w) w" by (rule standsE)
  from rq(1) obtain node where n: "wf w" "GetLocalNode (DBConfig w) = Inr node" "find_member w (NodeHostname node) = Some r" "\<not> ml_lock w"
    by (auto simp: ready_node_def linked_def)
  from s have ls: "\<And>tr x. link_state (env w) tr x = Ready" by (simp add: stands_def)
  from assms rq(2) have st: "Status (member w r) = ACTIVE" by (simp add: leads_def recorded_def)
  with MonitorClientConns_run [OF n(1) rq(8) n(2,3) _ ls] rq(4,5) obtain v where
    v: "MonitorClientConns w = Ret False v" "linked False (Members w) v" "connected q v" "Status (member v r) = ACTIVE" "Status (member v q) = PASSIVE"
    by (auto simp: link_status_def)
  have "ClusterCheck (DBConfig w)" using n(2) by (auto simp: GetLocalNode_def split: if_splits)
  with v(1) st GetLocalMember_run [OF n(4,2,3)] obtain x where "for_return (Members w) (monitor_member (Hostname (member w r))) w = Ret x v"
    by (auto simp: MonitorClientConns_def split: outcome.splits)
  from safeD [OF safe_for_return [OF unmoved_monitor_member [OF rq(7)]] unmoved_refl this] have u: "alike w v" "held {} (trace v) = held {} (trace w)"
    by (simp_all add: unmoved_def)
  from alike_stands [OF u(1) v(2) s] assms u(2) alike_find [OF u(1)] rq(2,3) v u(1) show ?thesis
    by (auto simp: leads_def recorded_def alike_def)
qed

text \<open>A standby may come to suspect the active one while it waits. It stays a standby.\<close>

lemma follows_decides:
  assumes "follows ps h g w"
  shows "follows ps h g (before_decision e w)" "recorded (before_decision e w) g = Some PASSIVE \<longleftrightarrow> recorded w g = Some PASSIVE"
proof -
  let ?v = "before_decision e w"
  from assms have s: "stands ps h g w" by (simp add: follows_def)
  from s obtain r q where r: "find_member w h = Some r" "find_member w g = Some q" "wf_members w" "linked False (Members w) w" by (rule standsE)
  have taken: "unmoved w (limit_taken u) = unmoved w u" for u by (simp add: unmoved_def alike_def limit_taken_def)
  have "unmoved w ?v" unfolding before_decision_def taken
    by (cases "suspected e w") (simp_all add: unmoved_refl unmoved_status [OF unmoved_refl] del: with_status_fields)
  then have u: "alike w ?v" "held {} (trace ?v) = held {} (trace w)" by (simp_all add: unmoved_def)
  have st: "Status (member ?v x) = PASSIVE \<longleftrightarrow> Status (member w x) = PASSIVE" if "x \<in> set (Members w)" for x
  proof -
    have "suspected e w = Some x \<Longrightarrow> Status (member w x) = ACTIVE"
      by (auto simp: suspected_def GetActiveMember_def dest: find_SomeD split: option.splits if_splits)
    then show ?thesis using that r(3) by (auto simp: before_decision_status)
  qed
  have "stands ps h g ?v" using u(1) linked_before_decision [OF r(4)] s by (rule alike_stands)
  moreover have rec: "recorded ?v x = Some PASSIVE \<longleftrightarrow> recorded w x = Some PASSIVE" for x
    using alike_find [OF u(1)] find_member_SomeD [of w x] st by (cases "find_member w x") (auto simp: recorded_def)
  ultimately show "follows ps h g ?v" using assms u(2) unfolding follows_def by metis
  show "recorded ?v g = Some PASSIVE \<longleftrightarrow> recorded w g = Some PASSIVE" by (rule rec)
qed

lemma follows_monitors:
  assumes "follows ps h g w"
  shows "MonitorReceivedHCs q w = (let u = before_decision (elapsed_seconds (now (env w)) (LastHCResponse (member w q))) w
     in if overdue w q then failover q u else Ret False u)"
proof -
  from assms have s: "stands ps h g w" by (simp add: follows_def)
  from s obtain r where r: "ready_node h r w" "find_member w h = Some r" by (rule standsE)
  from r(1) obtain node where n: "GetLocalNode (DBConfig w) = Inr node" "find_member w (NodeHostname node) = Some r" "\<not> ml_lock w"
    by (auto simp: ready_node_def linked_def)
  from assms r(2) have "Status (member w r) \<noteq> ACTIVE" by (simp add: follows_def recorded_def)
  moreover have "ClusterCheck (DBConfig w)" using n(1) by (auto simp: GetLocalNode_def split: if_splits)
  ultimately show ?thesis using n by (intro MonitorReceivedHCs_run)
qed

text \<open>A standby that is not overdue goes on waiting.\<close>

lemma listen_run:
  assumes "follows ps h g w" and "\<not> overdue w q"
  shows "\<exists>v. MonitorReceivedHCs q w = Ret False v \<and> follows ps h g v"
  using follows_monitors [OF assms(1), of q] follows_decides(1) [OF assms(1)] assms(2) by (simp add: Let_def)

lemma unmoved_Update: "wf_members w \<Longrightarrow> safe (unmoved w) any_crash (Update l)"
  unfolding Update_def update_entry_def update_from_def locked_ml_def lock_ml_def unlock_ml_def
  by (intro safe_intro unmoved_SetStatus unmoved_setters unmoved_Logging) (simp_all add: unmoved_def alike_def)

text \<open>What a daemon sends of its list about one member.\<close>

lemma find_rpc_member:
  assumes "find_member a h = Some r"
  shows "find (\<lambda>e. MlHostname e = h) (Memberlist (rpc_memberlist a)) = Some (rpc_member (env a) (member a r))"
proof -
  have "find (\<lambda>e. MlHostname e = h) (map (rpc_member (env a)) (map (member a) rs)) =
      map_option (\<lambda>r. rpc_member (env a) (member a r)) (find (\<lambda>r. Hostname (member a r) = h) rs)" for rs
    by (induction rs) (simp_all add: rpc_member_def)
  with assms show ?thesis by (simp add: rpc_memberlist_def members_def find_member_def)
qed

text \<open>A standby that is sent the list of the active one answers, takes both statuses over, and is a standby as before.\<close>

lemma standby_served:
  assumes "follows ps hb ha b" and "wf_members a" and "recorded a ha = Some sa" and "recorded a hb = Some PASSIVE"
  shows "\<exists>s b'. serve_request (Some (ps ha)) (ReqHealthCheck (rpc_memberlist a)) b = Ret (Inr (RespHealthCheck \<lparr>HcScore = s\<rparr>)) b' \<and>
    follows ps hb ha b' \<and> recorded b' ha = Some sa"
proof -
  let ?req = "rpc_memberlist a"
  from assms(1) have s: "stands ps hb ha b" by (simp add: follows_def)
  from s obtain r q where rq: "ready_node hb r b" "find_member b hb = Some r" "find_member b ha = Some q" "set (Members b) = {r, q}" "r \<noteq> q"
    "r < length (heap b)" "Hostname (member b r) = hb" "Hostname (member b q) = ha" "wf_members b" "linked False (Members b) b" by (rule standsE)
  from rq(1) obtain node where n: "wf b" "\<not> ml_lock b" "GetLocalNode (DBConfig b) = Inr node" "NodeHostname node = hb" "hb \<noteq> ''''"
    by (auto simp: ready_node_def linked_def)
  from s have p: "known_peer (DBConfig b) (Some (ps ha))" "AuthInfo (ps ha) = TLSInfo True" "ha \<noteq> hb" by (simp_all add: stands_def)
  have st: "Status (member b r) = PASSIVE" using assms(1) rq(2) by (simp add: follows_def recorded_def)
  have act: "fst (GetActiveMember b) \<noteq> NodeHostname node"
  proof -
    have "Hostname (member b x) = ha" if "find (\<lambda>r. Status (member b r) = ACTIVE) (Members b) = Some x" for x
      using that st rq(4,8) by (auto dest!: find_SomeD)
    then show ?thesis using n(4,5) p(3) by (auto simp: GetActiveMember_def split: option.split)
  qed
  have d: "distinct (map MlHostname (Memberlist ?req))"
    using assms(2) by (simp add: rpc_memberlist_def rpc_member_def comp_def wf_members_def)
  from HealthCheck_standby_run [OF n(1,2) p(1) n(3) _ _ act d] rq(2) n(4,5) obtain v where
    v: "Server_HealthCheck (Some (ps ha)) ?req b = Ret (Inr \<lparr>HcScore = int32 (Score (member b r))\<rparr>) v"
      "Update (Memberlist ?req) (update_member r (\<lambda>m. m\<lparr>LastHCResponse := now (env b)\<rparr>) b) = Ret () v" "same_but_members b v"
      "member v r = (taken_over hb (Memberlist ?req) b r)\<lparr>LastHCResponse := now (env b)\<rparr>"
      "\<forall>x \<in> set (Members b). x \<noteq> r \<longrightarrow> member v x = taken_over hb (Memberlist ?req) b x" by auto
  have "unmoved b (update_member r (\<lambda>m. m\<lparr>LastHCResponse := now (env b)\<rparr>) b)" by (simp add: unmoved_def alike_def hostname_update_member)
  from safeD [OF unmoved_Update [OF rq(9)] this v(2)] have u: "alike b v" "held {} (trace v) = held {} (trace b)" by (simp_all add: unmoved_def)
  from assms(3,4) obtain ra rb where e: "find_member a ha = Some ra" "Status (member a ra) = sa" "find_member a hb = Some rb" "Status (member a rb) = PASSIVE"
    by (auto simp: recorded_def)
  have sv: "Status (member v r) = PASSIVE" "Status (member v q) = sa"
    using v(4,5) rq(4,5,7,8) e find_rpc_member [OF e(1)] find_rpc_member [OF e(3)] by (simp_all add: taken_over_def take_over_def rpc_member_def)
  have "MemberClient (member v x) = MemberClient (member b x)" if "x \<in> set (Members b)" for x
    using that v(4,5) by (cases "x = r") (simp_all add: taken_over_def take_over_def split: option.split)
  moreover have "load_tls v = load_tls b" using v(3) by (intro load_tls_cong) (auto simp: same_but_members_def)
  ultimately have "linked False (Members b) v" using rq(10) same_but_members_fields [OF v(3)] by (simp add: linked_def)
  from alike_stands [OF u(1) this s] u(2) sv rq(2,3) assms(1) alike_find [OF u(1)] v(1) p(2) show ?thesis
    by (simp add: follows_def recorded_def serve_request_known answer_def)
qed

text \<open>A health check of the active one: both keep their roles, and the standby records the active one as such.\<close>

lemma check_run:
  assumes "leads ps ha hb a" and "follows ps hb ha b" and "recorded a hb = Some PASSIVE" and "find_member a hb = Some q" and "connected q a"
  shows "\<exists>v b'. RoutineHC q (rpc_memberlist a) (now_reaches a hb (ps ha) b) = Ret () v \<and>
    far_end (now_reaches a hb (ps ha) b) hb (ps ha) b v = Ret () b' \<and> leads ps ha hb v \<and> follows ps hb ha b' \<and>
    recorded v = recorded a \<and> recorded b' ha = Some ACTIVE"
proof -
  let ?a = "now_reaches a hb (ps ha) b"
  from assms(1) have s: "stands ps ha hb a" and l: "recorded a ha = Some ACTIVE" by (simp_all add: leads_def)
  from s obtain qq where q: "wf_members a" "find_member a hb = Some qq" "qq < length (heap a)" "Hostname (member a qq) = hb" "linked False (Members a) a"
    by (rule standsE)
  with assms(4) have qq: "qq = q" by simp
  from standby_served [OF assms(2) q(1) l assms(3)] obtain sc b' where
    b': "serve_request (Some (ps ha)) (ReqHealthCheck (rpc_memberlist a)) b = Ret (Inr (RespHealthCheck \<lparr>HcScore = sc\<rparr>)) b'"
      "follows ps hb ha b'" "recorded b' ha = Some ACTIVE" by blast
  have "q < length (heap ?a)" "Hostname (member ?a q) = hb" "connected q ?a" using q(3,4) assms(5) qq by simp_all
  from check_exchange [OF this reaches_now b'(1)] obtain t x v where
    v: "v = (update_member q (\<lambda>m. m\<lparr>LastHCResponse := t, Latency := x, Score := sc, HCBusy := False\<rparr>) ?a)
      \<lparr>trace := trace ?a @ [SentRpc hb (ReqHealthCheck (rpc_memberlist a))]\<rparr>"
    "RoutineHC q (rpc_memberlist a) ?a = Ret () v" "far_end ?a hb (ps ha) b v = Ret () b'" by auto
  have k: "alike ?a v" unfolding v(1) by (rule alike_update) simp
  from s have sa: "stands ps ha hb ?a" by (simp add: stands_now_reaches)
  then have "linked False (Members ?a) ?a" by (rule standsE)
  then have "linked False (Members ?a) v" unfolding v(1) by (rule linked_changed) simp
  from alike_stands [OF k this sa] have "stands ps ha hb v" .

  moreover have "Status (member v z) = Status (member ?a z)" for z unfolding v(1) by (rule status_update) simp
  then have r: "recorded v = recorded a" using alike_find [OF k] by (simp add: recorded_def fun_eq_iff)

  moreover have "held {} (trace v) = held {} (trace a)" "DBConfig v = DBConfig a" by (simp_all add: v(1))
  ultimately have "leads ps ha hb v" using assms(1) by (simp add: leads_def)
  with v(2,3) b'(2,3) r show ?thesis by blast
qed

section \<open>The transition system\<close>

text \<open>A node is a name with its daemon. The steps of a pair of nodes that is connected; the administrator, or the routine that
  finds a higher score, asks the active daemon to hand over, and the health check goes to a member that is recorded as passive, as
  \<^verbatim>\<open>AddHealthCheckHandler\<close> starts it. \<open>mirror\<close> says that each of the two can be the one that acts.\<close>

type_synonym node_state = "string \<times> world"

inductive pair_step :: "(string \<Rightarrow> Peer) \<Rightarrow> node_state \<times> node_state \<Rightarrow> node_state \<times> node_state \<Rightarrow> bool" for ps where
  hand_over: "local_active a = Some ha \<Longrightarrow> recorded a hb \<noteq> Some UNAVAILABLE \<Longrightarrow>
    PromoteMember hb (now_reaches a hb (ps ha) b) = Ret None v \<Longrightarrow> far_end (now_reaches a hb (ps ha) b) hb (ps ha) b v = Ret () b' \<Longrightarrow>
    pair_step ps ((ha, a), (hb, b)) ((ha, v), (hb, b'))"
| watch: "local_active a = Some ha \<Longrightarrow> MonitorClientConns a = Ret done v \<Longrightarrow> pair_step ps ((ha, a), (hb, b)) ((ha, v), (hb, b))"
| check: "local_active a = Some ha \<Longrightarrow> find_member a hb = Some q \<Longrightarrow> recorded a hb = Some PASSIVE \<Longrightarrow> connected q a \<Longrightarrow>
    RoutineHC q (rpc_memberlist a) (now_reaches a hb (ps ha) b) = Ret () v \<Longrightarrow> far_end (now_reaches a hb (ps ha) b) hb (ps ha) b v = Ret () b' \<Longrightarrow>
    pair_step ps ((ha, a), (hb, b)) ((ha, v), (hb, b'))"
| listen: "local_active b = None \<Longrightarrow> \<not> overdue b q \<Longrightarrow> MonitorReceivedHCs q b = Ret done v \<Longrightarrow>
    pair_step ps ((ha, a), (hb, b)) ((ha, a), (hb, v))"
| tick: "pair_step ps ((ha, a), (hb, b)) ((ha, a\<lparr>env := (env a)\<lparr>now := t\<rparr>\<rparr>), (hb, b))"
| mirror: "pair_step ps (y, x) (y', x') \<Longrightarrow> pair_step ps (x, y) (x', y')"

text \<open>The invariant: one leads and the other follows.\<close>

definition lead_by :: "(string \<Rightarrow> Peer) \<Rightarrow> node_state \<Rightarrow> node_state \<Rightarrow> bool" where
  "lead_by ps x y \<longleftrightarrow> leads ps (fst x) (fst y) (snd x) \<and> follows ps (fst y) (fst x) (snd y)"

definition paired :: "(string \<Rightarrow> Peer) \<Rightarrow> node_state \<times> node_state \<Rightarrow> bool" where
  "paired ps s \<longleftrightarrow> lead_by ps (fst s) (snd s) \<or> lead_by ps (snd s) (fst s)"

lemma leads_tick: "leads ps h g (w\<lparr>env := (env w)\<lparr>now := t\<rparr>\<rparr>) = leads ps h g w"
  and follows_tick: "follows ps h g (w\<lparr>env := (env w)\<lparr>now := t\<rparr>\<rparr>) = follows ps h g w"
proof -
  let ?v = "w\<lparr>env := (env w)\<lparr>now := t\<rparr>\<rparr>"
  have m: "member ?v = member w" by (rule ext) (simp add: member_def)
  have f: "find_member ?v = find_member w" by (rule ext) (simp add: find_member_def m)
  have "load_tls ?v = load_tls w" by (rule load_tls_cong) simp_all
  then have "stands ps h g ?v = stands ps h g w"
    by (simp add: stands_def ready_node_def linked_def wf_def wf_members_def wf_disk_def members_def all_members_def m f)
  then show "leads ps h g ?v = leads ps h g w" "follows ps h g ?v = follows ps h g w"
    by (simp_all add: leads_def follows_def recorded_def m f)
qed

lemma roles_local:
  "leads ps h g w \<Longrightarrow> local_active w = Some h" "follows ps h g w \<Longrightarrow> local_active w = None"
  by (auto simp: leads_def follows_def stands_local_active)

lemma promote_active_refused:
  assumes "linked False (Members a) a" and "find_member a hb = Some q" and "Status (member a q) = ACTIVE" and "hb \<noteq> ''''"
  shows "\<exists>v. PromoteMember hb a = Ret (Some ''unable to promote member as it is already active'') v \<and> core v = core a \<and> linked False (Members a) v"
proof -
  let ?m = "''Unable to promote member '' @ Hostname (member a q) @ '' as it is active''"
  from safe_totalD [OF sound_Logging(1) assms(1), of ?m] obtain v where v: "Logging_Warn ?m a = Ret () v" "linked False (Members a) v" by auto

  with quietD [OF quiet_Logging(1) v(1)] assms show ?thesis
    by (auto simp: PromoteMember_def GetMemberByHostname_run linked_def promote_unless_def)
qed

lemma pair_step_paired: "pair_step ps s s' \<Longrightarrow> paired ps s \<Longrightarrow> paired ps s'"
proof (induction rule: pair_step.induct)
  case (hand_over a ha hb b v b')
  then have r: "leads ps ha hb a" "follows ps hb ha b" by (auto simp: paired_def lead_by_def dest: roles_local)
  let ?a = "now_reaches a hb (ps ha) b"
  have "recorded a hb \<noteq> Some ACTIVE"
  proof
    assume act: "recorded a hb = Some ACTIVE"
    from r(1) have "stands ps ha hb ?a" by (simp add: leads_def stands_now_reaches)
    then obtain q where q: "find_member ?a hb = Some q" "linked False (Members ?a) ?a" by (rule standsE)
    moreover have "hb \<noteq> ''''" using r(2) by (auto simp: follows_def stands_def ready_node_def)
    moreover have "Status (member ?a q) = ACTIVE" using act q(1) by (simp add: recorded_def)
    ultimately show False using promote_active_refused [of ?a hb q] hand_over.hyps(3) by auto
  qed
  with hand_over_run [OF r] hand_over.hyps(2-4) show ?case by (auto simp: paired_def lead_by_def)
next
  case (watch a ha "done" v hb b)
  then have r: "leads ps ha hb a" "follows ps hb ha b" by (auto simp: paired_def lead_by_def dest: roles_local)
  with watch_run [OF r(1)] watch.hyps(2) show ?case by (auto simp: paired_def lead_by_def)
next
  case (check a ha hb q b v b')
  then have r: "leads ps ha hb a" "follows ps hb ha b" by (auto simp: paired_def lead_by_def dest: roles_local)
  with check_run [OF r check.hyps(3,2,4)] check.hyps(5,6) show ?case by (auto simp: paired_def lead_by_def)
next
  case (listen b q "done" v ha a hb)
  then have r: "leads ps ha hb a" "follows ps hb ha b" by (auto simp: paired_def lead_by_def dest: roles_local)
  with listen_run [OF r(2) listen.hyps(2)] listen.hyps(3) show ?case by (auto simp: paired_def lead_by_def)
next
  case (tick ha a hb b t)
  then show ?case by (simp add: paired_def lead_by_def leads_tick follows_tick)
next
  case (mirror y x y' x')
  then show ?case by (auto simp: paired_def)
qed

lemma pair_steps_paired: "(pair_step ps)\<^sup>*\<^sup>* s s' \<Longrightarrow> paired ps s \<Longrightarrow> paired ps s'"
  by (induction rule: rtranclp_induct) (auto intro: pair_step_paired)

text \<open>\<^bold>\<open>C2.\<close> Two connected daemons, one active and the other passive, hand over, watch their connections, check each other's health,
  wait for health checks and let time pass, in any order and any number of times. Whatever state they reach, exactly one of them
  considers itself active, it has brought up exactly the addresses that its config assigns to it, and
  the other one has none up.\<close>

theorem pair_invariant:
  assumes "paired ps s" and "(pair_step ps)\<^sup>*\<^sup>* s ((ha, a), (hb, b))"
  shows "ha \<noteq> hb \<and> (\<exists>l \<in> {ha, hb}. active_hosts [a, b] = {l} \<and>
    held {} (trace a) = (if l = ha then addresses (DBConfig a) ha else {}) \<and>
    held {} (trace b) = (if l = hb then addresses (DBConfig b) hb else {}))"
proof -
  have p: "paired ps ((ha, a), (hb, b))" by (rule pair_steps_paired [OF assms(2,1)])
  then have "ha \<noteq> hb" by (auto simp: paired_def lead_by_def leads_def stands_def)
  moreover have "active_hosts [v, w] = {h} \<and> active_hosts [w, v] = {h} \<and> held {} (trace v) = addresses (DBConfig v) h \<and> held {} (trace w) = {}"
    if "leads ps h g v" "follows ps g h w" for h g v w
    using roles_local(1) [OF that(1)] roles_local(2) [OF that(2)] that by (simp add: active_hosts_def leads_def follows_def)
  ultimately show ?thesis using p by (auto simp: paired_def lead_by_def)

qed

text \<open>\<^bold>\<open>C3.\<close> In every state that the pair can reach, the active daemon can hand over and the cluster settles: the daemon watches its
  connections once and hands over, the promoted one watches its connections once and checks the health of the other; every one of these calls
  returns without error. Then only the promoted one is active and holds its addresses, the other one holds none,
  and both record the promoted one as active and the other as passive.\<close>

theorem handover_converges:
  assumes "paired ps s" and "(pair_step ps)\<^sup>*\<^sup>* s ((ha, a), (hb, b))" and "local_active a = Some ha"
  shows "\<exists>a1 a2 b2 b3 q b4 a4. MonitorClientConns a = Ret False a1 \<and>
    PromoteMember hb (now_reaches a1 hb (ps ha) b) = Ret None a2 \<and> far_end (now_reaches a1 hb (ps ha) b) hb (ps ha) b a2 = Ret () b2 \<and>
    MonitorClientConns b2 = Ret False b3 \<and> find_member b3 ha = Some q \<and>
    RoutineHC q (rpc_memberlist b3) (now_reaches b3 ha (ps hb) a2) = Ret () b4 \<and> far_end (now_reaches b3 ha (ps hb) a2) ha (ps hb) a2 b4 = Ret () a4 \<and>
    active_hosts [a4, b4] = {hb} \<and> held {} (trace a4) = {} \<and> held {} (trace b4) = addresses (DBConfig b4) hb \<and>
    (\<forall>w \<in> {a4, b4}. recorded w hb = Some ACTIVE \<and> recorded w ha = Some PASSIVE)"
proof -
  have "paired ps ((ha, a), (hb, b))" by (rule pair_steps_paired [OF assms(2,1)])
  with assms(3) have r: "leads ps ha hb a" "follows ps hb ha b" by (auto simp: paired_def lead_by_def dest: roles_local)
  from watch_run [OF r(1)] obtain a1 where 1: "MonitorClientConns a = Ret False a1" "leads ps ha hb a1" "recorded a1 hb = Some PASSIVE" by blast
  from hand_over_run [OF 1(2) r(2)] 1(3) obtain a2 b2 where
    2: "PromoteMember hb (now_reaches a1 hb (ps ha) b) = Ret None a2" "far_end (now_reaches a1 hb (ps ha) b) hb (ps ha) b a2 = Ret () b2"
      "follows ps ha hb a2" "leads ps hb ha b2" by auto
  from watch_run [OF 2(4)] obtain b3 q where
    3: "MonitorClientConns b2 = Ret False b3" "leads ps hb ha b3" "recorded b3 ha = Some PASSIVE" "find_member b3 ha = Some q" "connected q b3" by blast
  from check_run [OF 3(2) 2(3) 3(3-5)] obtain b4 a4 where
    4: "RoutineHC q (rpc_memberlist b3) (now_reaches b3 ha (ps hb) a2) = Ret () b4" "far_end (now_reaches b3 ha (ps hb) a2) ha (ps hb) a2 b4 = Ret () a4"
      "leads ps hb ha b4" "follows ps ha hb a4" "recorded b4 = recorded b3" "recorded a4 hb = Some ACTIVE" by blast
  have "active_hosts [a4, b4] = {hb}" using 4(3,4) by (simp add: active_hosts_def roles_local)
  moreover have "held {} (trace a4) = {}" "held {} (trace b4) = addresses (DBConfig b4) hb"
    "\<forall>w \<in> {a4, b4}. recorded w hb = Some ACTIVE \<and> recorded w ha = Some PASSIVE"
    using 4(3-6) 3(3) by (auto simp: leads_def follows_def)
  ultimately show ?thesis using 1(1) 2(1,2) 3(1,4) 4(1,2) by blast
qed

text \<open>\<^bold>\<open>C36.\<close> The handler of a promotion does not touch what the daemon has recorded of the others: right after a handover the promoted daemon
  records two active members, itself and the one that has stepped down, and refuses to hand over back to it, because it takes
  it for active already. Only the first watch over its connections records one active member again.\<close>

theorem promoted_records_two_active:
  assumes "leads ps ha hb a" and "follows ps hb ha b" and "recorded a hb = Some PASSIVE" and "recorded b ha = Some ACTIVE"
  shows "\<exists>v b' u w. PromoteMember hb (now_reaches a hb (ps ha) b) = Ret None v \<and> far_end (now_reaches a hb (ps ha) b) hb (ps ha) b v = Ret () b' \<and>
    recorded b' ha = Some ACTIVE \<and> recorded b' hb = Some ACTIVE \<and> \<not> one_active b' \<and> active_hosts [v, b'] = {hb} \<and>
    PromoteMember ha (now_reaches b' ha (ps hb) v) = Ret (Some ''unable to promote member as it is already active'') u \<and>
    MonitorClientConns b' = Ret False w \<and> one_active w"
proof -
  from hand_over_run [OF assms(1,2)] assms(3) obtain v b' where
    v: "PromoteMember hb (now_reaches a hb (ps ha) b) = Ret None v" "far_end (now_reaches a hb (ps ha) b) hb (ps ha) b v = Ret () b'"
      "follows ps ha hb v" "leads ps hb ha b'" "recorded b' ha = Some ACTIVE" using assms(4) by auto
  let ?b = "now_reaches b' ha (ps hb) v"
  from v(4) have "stands ps hb ha ?b" and r: "recorded b' hb = Some ACTIVE" by (simp_all add: leads_def stands_now_reaches)
  from this(1) obtain q p where q: "find_member ?b ha
 = Some q" "find_member ?b hb = Some p" "linked False (Members ?b) ?b" "p \<noteq> q" by (rule standsE)
  have "ha \<noteq> ''''" using v(3) by (auto simp: follows_def stands_def ready_node_def)
  moreover have st: "Status (member b' q) = ACTIVE" "Status (member b' p) = ACTIVE" using v(5) r q(1,2) by (simp_all add: recorded_def)
  ultimately obtain u where u: "PromoteMember ha ?b = Ret (Some ''unable to promote member as it is already active'') u"
    using promote_active_refused [OF q(3,1)] by auto
  have "\<not> one_active b'"
  proof
    assume "one_active b'"
    then obtain x where "active_in {x} b'" by (auto simp: one_active_iff)
    with st q(4) find_member_SomeD [of b' ha q] find_member_SomeD [of b' hb p] q(1,2) show False by (auto simp: active_in_def)
  qed
  moreover from watch_run [OF v(4)] obtain w where w: "MonitorClientConns b' = Ret False w" "leads ps hb ha w" "recorded w ha = Some PASSIVE" by blast
  then have "one_active w" by (intro stands_one_active [of ps hb ha]) (simp_all add: leads_def)
  moreover have "active_hosts [v, b'] = {hb}" using v(3,4) by (simp add: active_hosts_def roles_local)
  ultimately show ?thesis using v(1,2,5) r u w(1) by blast
qed

section \<open>The pair of the example\<close>

definition ex_up :: world where
  "ex_up = ex_world\<lparr>trace := [BroughtUp ''eth0'' [''10.0.0.1/24'']], env := ex_env\<lparr>map_order := (\<lambda>_ ks. rev ks)\<rparr>\<rparr>"

definition ex_peers :: "string \<Rightarrow> Peer" where
  "ex_peers h = (if h = ''alpha'' then ex_alpha_peer else ex_beta_peer)"

lemma ready_ex_up: "ready_node ''alpha'' 0 ex_up"
proof -
  have "load_tls ex_up = load_tls ex_world" by (rule load_tls_cong) (simp_all add: ex_up_def)
  with linked_ex have "load_tls ex_up = TlsFilesOk" by (simp add: linked_def)
  with wf_ex_world linked_ex show ?thesis
    by (simp add: ready_node_def find_member_def member_def linked_def) (simp add: ex_up_def GetLocalNode_ex GetNetworkingPlugin_def)
qed


lemma ex_up_addresses: "addresses (DBConfig ex_up) ''alpha'' = {(''eth0'', ''10.0.0.1/24'')}"
proof -
  have "assigned_to ex_config ''alpha'' i g \<longleftrightarrow> i = ''eth0'' \<and> g = ''group1''" for i g
    by (auto simp: assigned_to_def lookup_def ex_config_def ex_node_def split: if_split_asm intro: exI [of _ "''u1''"])
  then show ?thesis by (auto simp: addresses_def ex_up_def group_ips_def lookup_def)
qed

lemma ex_pair: "leads ex_peers ''alpha'' ''beta'' ex_up" "follows ex_peers ''beta'' ''alpha'' ex_beta"
  "recorded ex_up ''beta'' = Some PASSIVE" "recorded ex_beta ''alpha'' = Some ACTIVE"
proof -
  have f: "find_member ex_up ''alpha'' = Some 0" "find_member ex_up ''beta'' = Some 1" "find_member ex_beta ''alpha'' = Some 0"
    "find_member ex_beta ''beta'' = Some 1" by (simp_all add: ex_up_def ex_beta_def find_member_def member_def)
  have s: "Status (member ex_up 0) = ACTIVE" "Status (member ex_up 1) = PASSIVE" "Status (member ex_beta 0) = ACTIVE" "Status (member ex_beta 1) = PASSIVE"
    by (simp_all add: ex_up_def ex_beta_def member_def)
  have "stands ex_peers ''alpha'' ''beta'' ex_up"
    using ready_ex_up f(2) all_members_ex by (simp add: stands_def ex_peers_def ex_beta_peer_def known_peer_def) (auto simp: ex_up_def ex_env_def all_members_def)
  then show "leads ex_peers ''alpha'' ''beta'' ex_up" using ex_up_addresses f s by (simp add: leads_def recorded_def) (simp add: ex_up_def)
  have "stands ex_peers ''beta'' ''alpha'' ex_beta"
    using ready_ex_beta f(3) all_members_ex by (simp add: stands_def ex_peers_def ex_alpha_peer_def known_peer_def) (auto simp: ex_beta_def ex_env_def all_members_def members_def member_def)

  then show "follows ex_peers ''beta'' ''alpha'' ex_beta" using f s by (simp add: follows_def recorded_def) (simp add: ex_beta_def)
  show "recorded ex_up ''beta'' = Some PASSIVE" "recorded ex_beta ''alpha'' = Some ACTIVE" using f s by (simp_all add: recorded_def)
qed

lemma ex_paired: "paired ex_peers ((''alpha'', ex_up), (''beta'', ex_beta))"
  using ex_pair by (simp add: paired_def lead_by_def)

theorem pair_invariant_witness:
  "\<exists>v b'. PromoteMember ''beta'' (now_reaches ex_up ''beta'' ex_alpha_peer ex_beta) = Ret None v \<and>
     pair_step ex_peers ((''alpha'', ex_up), (''beta'', ex_beta)) ((''alpha'', v), (''beta'', b')) \<and>
     (\<exists>l \<in> {''alpha'', ''beta''}. active_hosts [v, b'] = {l} \<and> held {} (trace v) = (if l = ''alpha'' then addresses (DBConfig v) ''alpha'' else {}))"
proof -
  from hand_over_run [OF ex_pair(1,2)] ex_pair(3) obtain v b' where
    v: "PromoteMember ''beta'' (now_reaches ex_up ''beta'' (ex_peers ''alpha'') ex_beta) = Ret None v"
      "far_end (now_reaches ex_up ''beta'' (ex_peers ''alpha'') ex_beta) ''beta'' (ex_peers ''alpha'') ex_beta v = Ret () b'" by auto
  have s: "pair_step ex_peers ((''alpha'', ex_up), (''beta'', ex_beta)) ((''alpha'', v), (''beta'', b'))"
    using roles_local(1) [OF ex_pair(1)] ex_pair(3) v by (intro hand_over) simp_all
  with v(1) pair_invariant [OF ex_paired r_into_rtranclp [where r = "pair_step ex_peers", OF s]] show ?thesis by (auto simp: ex_peers_def)
qed

theorem handover_converges_witness:
  "\<exists>a1 a2 b2 b3 q b4 a4. MonitorClientConns ex_up = Ret False a1 \<and>
     PromoteMember ''beta'' (now_reaches a1 ''beta'' (ex_peers ''alpha'') ex_beta) = Ret None a2 \<and>
     far_end (now_reaches a1 ''beta'' (ex_peers ''alpha'') ex_beta) ''beta'' (ex_peers ''alpha'') ex_beta a2 = Ret () b2 \<and>
     MonitorClientConns b2 = Ret False b3 \<and> RoutineHC q (rpc_memberlist b3) (now_reaches b3 ''alpha'' (ex_peers ''beta'') a2) = Ret () b4 \<and>
     far_end (now_reaches b3 ''alpha'' (ex_peers ''beta'') a2) ''alpha'' (ex_peers ''beta'') a2 b4 = Ret () a4 \<and>
     active_hosts [a4, b4] = {''beta''} \<and> held {} (trace a4) = {}"
  using handover_converges [OF ex_paired rtranclp.rtrancl_refl roles_local(1) [OF ex_pair(1)]] by (elim exE conjE) (intro exI conjI)


theorem promoted_records_two_active_witness:
  "\<exists>v b' u. PromoteMember ''beta'' (now_reaches ex_up ''beta'' ex_alpha_peer ex_beta) = Ret None v \<and>
     far_end (now_reaches ex_up ''beta'' ex_alpha_peer ex_beta) ''beta'' ex_alpha_peer ex_beta v = Ret () b' \<and> \<not> one_active b' \<and>
     PromoteMember ''alpha'' (now_reaches b' ''alpha'' ex_beta_peer v) = Ret (Some ''unable to promote member as it is already active'') u"
proof -
  have "ex_peers ''alpha'' = ex_alpha_peer" "ex_peers ''beta'' = ex_beta_peer" by (simp_all add: ex_peers_def)
  with promoted_records_two_active [OF ex_pair] show ?thesis by auto
qed

end
