(* ===== verification/Takeover.thy ===== *)
theory Takeover
  imports Rotation
begin

text \<open>
  The pair of \<open>Rotation\<close> when its active machine is lost. The standby that no longer hears of it takes over with its own addresses,
  from every state that the pair can reach in which it knows who the active one is; right after a handover it does not know
  that yet, and then it may wait for the lost one.
\<close>

section \<open>A standby that is overdue\<close>

lemma stands_kept:
  assumes "stands ps h g w" and "unmoved w v" and "linked False (Members w) v" and "\<And>x. x \<in> set (Members w) \<Longrightarrow> Status (member v x) = Status (member w x)"
  shows "stands ps h g v" "recorded v = recorded w" "held {} (trace v) = held {} (trace w)" "DBConfig v = DBConfig w"
proof -
  from assms(2) have a: "alike w v" and h: "held {} (trace v) = held {} (trace w)" by (simp_all add: unmoved_def)
  from a assms(3,1) show "stands ps h g v" by (rule alike_stands)
  show "recorded v = recorded w"
  proof
    fix x show "recorded v x = recorded w x"
      using alike_find [OF a] find_member_SomeD [of w x] assms(4) by (cases "find_member w x") (auto simp: recorded_def)
  qed
  show "held {} (trace v) = held {} (trace w)" by (rule h)
  show "DBConfig v = DBConfig w" using a by (simp add: alike_def)
qed

lemma info_run:
  assumes "stands ps h g w"
  shows "\<exists>v. Logging_Info m w = Ret () v \<and> unmoved w v \<and> linked False (Members w) v \<and> core v = core w \<and> (monitoring w \<longrightarrow> monitoring v)"
proof -
  from assms have w: "wf_members w" "linked False (Members w) w" by (auto elim: standsE)
  have e: "\<not> address_change e" if "log_entry e" for e using that by (cases e) auto
  from safe_totalD [OF sound_Logging(2) w(2), of m] obtain v where v: "Logging_Info m w = Ret () v" "linked False (Members w) v" by auto
  from safeD [OF unmoved_quiet [OF w(1) quiet_Logging(2) only_added_Logging(2) [OF e]] unmoved_refl v(1)] have "unmoved w v" by simp
  with v quietD [OF quiet_Logging(2) v(1)] safeD [OF monitoring_Logging _ v(1)] show ?thesis by blast
qed

lemma time_run:
  assumes "stands ps h g w"
  shows "unmoved w (update_member r (\<lambda>m. m\<lparr>LastHCResponse := t\<rparr>) w)" "linked False (Members w) (update_member r (\<lambda>m. m\<lparr>LastHCResponse := t\<rparr>) w)"
    "Status (member (update_member r (\<lambda>m. m\<lparr>LastHCResponse := t\<rparr>) w) x) = Status (member w x)"
proof -
  from assms have l: "linked False (Members w) w" by (auto elim: standsE)
  show "unmoved w (update_member r (\<lambda>m. m\<lparr>LastHCResponse := t\<rparr>) w)" by (simp add: unmoved_def alike_def hostname_update_member)
  show "linked False (Members w) (update_member r (\<lambda>m. m\<lparr>LastHCResponse := t\<rparr>) w)" using l by (rule linked_keep) simp
  show "Status (member (update_member r (\<lambda>m. m\<lparr>LastHCResponse := t\<rparr>) w) x) = Status (member w x)"
    using status_update [where f = "\<lambda>m. m\<lparr>LastHCResponse := t\<rparr>" and r = r and w = w and t = "trace w" and q = x] by simp
qed

text \<open>What the local node does to the silent one, and what becomes of itself.\<close>

lemma mark_run:
  assumes "follows ps h g w"
  shows "\<exists>v. (case snd (GetActiveMember w) of Some a \<Rightarrow> SetStatus a UNAVAILABLE | None \<Rightarrow> skip) w = Ret () v \<and>
    follows ps h g v \<and> recorded v g \<noteq> Some ACTIVE"
proof -
  from assms have s: "stands ps h g w" and p: "recorded w h = Some PASSIVE" and e: "held {} (trace w) = {}" by (simp_all add: follows_def)
  from s obtain r q where rq: "find_member w h = Some r" "find_member w g = Some q" "set (Members w) = {r, q}" "r \<noteq> q" "wf_members w"
    "linked False (Members w) w" by (rule standsE)
  have g: "snd (GetActiveMember w) = find (\<lambda>x. Status (member w x) = ACTIVE) (Members w)" by (simp add: GetActiveMember_def split: option.split)
  show ?thesis
  proof (cases "snd (GetActiveMember w)")
    case None
    then have "Status (member w q) \<noteq> ACTIVE" using rq(3) by (auto simp: g find_None_iff)
    with None assms rq(2) show ?thesis by (simp add: recorded_def)
  next
    case (Some a)
    let ?v = "(with_status a UNAVAILABLE w)\<lparr>trace := trace w @ status_events (with_status a UNAVAILABLE w)\<rparr>"
    from Some have a: "a \<in> set (Members w)" "Status (member w a) = ACTIVE" unfolding g by (auto dest: find_SomeD)
    with rq(1,3) p have aq: "a = q" by (auto simp: recorded_def)
    have u: "unmoved w ?v" by (rule unmoved_status [OF unmoved_refl])
    have "linked False (Members w) ?v" using rq(6) by (auto simp: with_status_def intro: linked_keep)
    with u s have "stands ps h g ?v" by (auto simp: unmoved_def intro: alike_stands)
    moreover have "Status (member ?v x) = (if x = q then UNAVAILABLE else Status (member w x))" if "x \<in> {r, q}" for x
      using that status_with_status [OF rq(5), of x a UNAVAILABLE] rq(3) aq by simp
    moreover have "find_member ?v = find_member w" using u by (simp only: unmoved_def alike_find)
    ultimately have "follows ps h g ?v" "recorded ?v g \<noteq> Some ACTIVE"
      using u e p rq(1,2,4) by (simp_all add: follows_def recorded_def unmoved_def del: with_status_fields)
    then show ?thesis using Some by (simp add: SetStatus_run)
  qed
qed

lemma activate_run:
  assumes "follows ps h g w" and "find_member w h = Some r"
  shows "\<exists>v. MakeActive r w = Ret None v \<and> leads ps h g v \<and> recorded v g = recorded w g \<and> monitoring v"
proof -
  from assms(1) have s: "stands ps h g w" and e: "held {} (trace w) = {}" by (simp_all add: follows_def)
  from s assms(2) have r: "ready_node h r w" "wf_members w" "linked False (Members w) w" by (auto elim!: standsE)
  from s have n: "\<And>i ips. net_up (env w) i ips = None" "g \<noteq> h" by (simp_all add: stands_def)
  from MakeActive_local_run [OF r(1) n(1)] obtain l where l: "MakeActive r w = Ret None ((update_member r active_now w)\<lparr>trace := trace w @ l\<rparr>)"
    "set (filter address_change l) = ups (DBConfig w) h" "{Started TaskMonitorClientConns, Started TaskAddHealthCheckHandler} \<subseteq> set l" by blast
  let ?v = "(update_member r active_now w)\<lparr>trace := trace w @ l\<rparr>"
  have c: "core ?v = core (update_member r active_now w)" and h: "\<And>m. Hostname (active_now m) = Hostname m" by (simp_all add: active_now_def)
  have "linked False (Members w) ?v" by (rule linked_changed [OF r(3)]) (simp add: active_now_def)
  from stands_core [OF c this s h] have "leads ps h g ?v"
    using recorded_core [OF c r(2) assms(2) h] held_of_ups [OF l(2)] e by (simp add: leads_def active_now_def)
  moreover have "recorded ?v g = recorded w g" using recorded_core [OF c r(2) assms(2) h] n(2) by simp
  moreover have "monitoring ?v" using l(3) by (auto simp: monitoring_def)
  ultimately show ?thesis using l(1) by blast
qed

text \<open>The takeover, once the local member is the next active one.\<close>

lemma failover_takes_over:
  assumes "follows ps h g w" and "find_member w h = Some r" and "GetNextActiveMember w = Ret (Inr r) w"
  shows "\<exists>v. failover q w = Ret True v \<and> leads ps h g v \<and> recorded v g \<noteq> Some ACTIVE \<and> monitoring v"
proof -
  from assms(1) have "stands ps h g w" by (simp add: follows_def)
  then obtain node where n: "GetLocalNode (DBConfig w) = Inr node" "NodeHostname node = h" "Hostname (member w r) = h"
    using find_member_SomeD [OF assms(2)] by (auto simp: stands_def ready_node_def)
  from mark_run [OF assms(1)] obtain x where x: "(case snd (GetActiveMember w) of Some a \<Rightarrow> SetStatus a UNAVAILABLE | None \<Rightarrow> skip) w = Ret () x"
    "follows ps h g x" "recorded x g \<noteq> Some ACTIVE" by blast
  have "find_member x h = Some r"
  proof -
    have "unmoved w x"
      using x(1) unmoved_status [OF unmoved_refl, of w] unmoved_refl by (auto simp: SetStatus_run split: option.splits)
    then show ?thesis using alike_find [of w x] assms(2) by (simp add: unmoved_def)

  qed
  from activate_run [OF x(2) this] obtain y where y: "MakeActive r x = Ret None y" "leads ps h g y" "recorded y g = recorded x g" "monitoring y" by blast
  let ?z = "update_member r (\<lambda>m. m\<lparr>LastHCResponse := 0\<rparr>) y"
  from y(2) have sy: "stands ps h g y" by (simp add: leads_def)
  note z = stands_kept [OF sy time_run(1,2) [OF sy] time_run(3) [OF sy]]
  from info_run [OF z(1), of "''Local node is now active''"] obtain v where
    v: "Logging_Info ''Local node is now active'' ?z = Ret () v" "unmoved ?z v" "linked False (Members ?z) v" "core v = core ?z" "monitoring ?z \<longrightarrow> monitoring v" by blast
  have "Status (member v i) = Status (member ?z i)" if "i \<in> set (Members ?z)" for i
  proof -
    have "wf_members ?z" using z(1) by (rule standsE)
    then show ?thesis using that core_member_fields(2) [OF v(4)] by (simp add: wf_members_def)
  qed
  note k = stands_kept [OF z(1) v(2,3) this]
  have "failover q w = Ret True v"
    using assms(3) n x(1) y(1) v(1) by (simp add: failover_def SetLastHCResponse_def)
  moreover have "leads ps h g v" using k z y(2) by (simp add: leads_def)
  moreover have "monitoring v" using v(5) y(4) by (simp add: monitoring_def)
  ultimately show ?thesis using k(2) z(2) y(3) x(3) by auto
qed

section \<open>The active node is lost\<close>

text \<open>A daemon at the time \<open>t\<close>.\<close>

definition at_time :: "int \<Rightarrow> world \<Rightarrow> world" where
  "at_time t w = w\<lparr>env := (env w)\<lparr>now := t\<rparr>\<rparr>"

lemma at_time_fields [simp]:
  "DBConfig (at_time t w) = DBConfig w" "member (at_time t w) = member w" "find_member (at_time t w) = find_member w"
  "recorded (at_time t w) = recorded w" "now (env (at_time t w)) = t" "limit_now (at_time t w) = limit_now w"
  "Members (at_time t w) = Members w" "order_at (at_time t w) = order_at w"
proof -
  show m: "member (at_time t w) = member w" by (rule ext) (simp add: member_def at_time_def)
  show f: "find_member (at_time t w) = find_member w" by (rule ext) (simp add: find_member_def m at_time_def)
  show "recorded (at_time t w) = recorded w" by (rule ext) (simp add: recorded_def m f)
  show "order_at (at_time t w) = order_at w" by (rule ext) (simp add: order_at_def at_time_def)
qed (simp_all add: at_time_def limit_now_def)

lemma follows_at_time [simp]: "follows ps h g (at_time t w) = follows ps h g w"
  unfolding at_time_def by (rule follows_tick)

text \<open>A standby is overdue once its limit has passed; the bound keeps the limit below the longest interval that Go can measure.\<close>

lemma overdue_in_time:
  assumes "0 \<le> FailOverLimit (Pulse (DBConfig w))" and "FailOverLimit (Pulse (DBConfig w)) \<le> 4000000000000"
    and "LastHCResponse (member w r) + limit_now w div 1000 * 1000000000 \<le> t"
  shows "overdue (at_time t w) r"
proof -
  let ?l = "FailOverLimit (Pulse (DBConfig w))"
  have "int64 (?l * 2) = ?l * 2" using assms(1,2) by (intro int64_id) simp_all
  then have l: "0 \<le> limit_now w" "limit_now w \<le> 8000000000000" using assms(1,2) by (simp_all add: limit_now_def)
  then have "limit_now w sdiv 1000 = limit_now w div 1000" by (simp add: signed_divide_int_def sgn_if)
  also have "limit_now w div 1000 * 1000000000 \<le> since t (LastHCResponse (member w r))"
    using assms(3) l zdiv_mono1 [OF l(2), of 1000] pos_imp_zdiv_nonneg_iff [of 1000 "limit_now w"] by (simp add: since_def min_def max_def)
  then have "limit_now w div 1000 \<le> since t (LastHCResponse (member w r)) div 1000000000"
    using zdiv_mono1 [of "limit_now w div 1000 * 1000000000" _ 1000000000] by simp
  finally show ?thesis by (simp add: overdue_def elapsed_seconds_def)
qed

lemma standby_is_next:
  assumes "follows ps h g w" and "find_member w h = Some r" and "recorded w g \<noteq> Some PASSIVE"
  shows "GetNextActiveMember w = Ret (Inr r) w"
proof -
  from assms(1) have s: "stands ps h g w" and p: "recorded w h = Some PASSIVE" by (simp_all add: follows_def)
  from s assms(2) obtain q where q: "find_member w g = Some q" "set (Members w) = {r, q}" "linked False (Members w) w" by (auto elim!: standsE)
  from s obtain node where n: "wf w" "GetLocalNode (DBConfig w) = Inr node" "NodeHostname node = h" by (auto simp: stands_def ready_node_def)
  from s q(3) have a: "all_members w" "\<not> ml_lock w" by (simp_all add: stands_def linked_def)
  from GetNextActiveMember_spec [OF n(1) a] obtain res where res: "GetNextActiveMember w = Ret res w" "case res of
       Inr r \<Rightarrow> r \<in> set (Members w) \<and> Status (member w r) = PASSIVE
     | Inl _ \<Rightarrow> (\<forall>(uid, node) \<in> set (entries (Nodes (DBConfig w))). Status (member w (member_of w node)) \<noteq> PASSIVE)" by blast
  have "member_of w node = r" using assms(2) n(3) by (simp add: member_of_def)
  with res(2) GetLocalNode_entry [OF n(2)] p assms(2,3) q(1,2) have "res = Inr r" by (cases res) (auto simp: recorded_def)
  with res(1) show ?thesis by simp
qed

text \<open>\<^bold>\<open>C6.\<close> The active machine is lost, in any state that the pair can reach in which the standby does not record it as passive.
  When the standby has not heard of it for as many whole seconds as its limit has, which is the configured one, or twice that
  at the first check after a start with delay, it takes over: one run of its routine makes it active, with exactly the
  addresses that its config assigns to it, starts the routines of an active node, and records the lost one as active no longer.\<close>

theorem lost_active_replaced:
  assumes "paired ps s" and "(pair_step ps)\<^sup>*\<^sup>* s ((ha, a), (hb, b))" and "local_active a = Some ha"
    and "recorded b ha \<noteq> Some PASSIVE" and "find_member b hb = Some r"
    and "0 \<le> FailOverLimit (Pulse (DBConfig b))" and "FailOverLimit (Pulse (DBConfig b)) \<le> 4000000000000"
  shows "\<forall>t \<ge> LastHCResponse (member b r) + limit_now b div 1000 * 1000000000. \<exists>v. MonitorReceivedHCs r (at_time t b) = Ret True v \<and>
    local_active v = Some hb \<and> held {} (trace v) = addresses (DBConfig v) hb \<and> recorded v ha \<noteq> Some ACTIVE \<and> monitoring v"
proof (intro allI impI)
  fix t assume t: "LastHCResponse (member b r) + limit_now b div 1000 * 1000000000 \<le> t"
  have "paired ps ((ha, a), (hb, b))" by (rule pair_steps_paired [OF assms(2,1)])
  with assms(3) have "follows ps hb ha b" by (auto simp: paired_def lead_by_def dest: roles_local)
  then have f: "follows ps hb ha (at_time t b)" by simp
  let ?u = "before_decision (elapsed_seconds t (LastHCResponse (member b r))) (at_time t b)"
  have r: "find_member ?u hb = Some r" using assms(5) by (simp add: find_member_before_decision)
  have "recorded ?u ha \<noteq> Some PASSIVE" using follows_decides(2) [OF f] assms(4) by simp
  from failover_takes_over [OF follows_decides(1) [OF f] r standby_is_next [OF follows_decides(1) [OF f] r this], of r]
  obtain v where v: "failover r ?u = Ret True v" "leads ps hb ha v" "recorded v ha \<noteq> Some ACTIVE" "monitoring v" by blast
  have "MonitorReceivedHCs r (at_time t b) = Ret True v"
    using follows_monitors [OF f, of r] overdue_in_time [OF assms(6,7) t] v(1) by (simp add: Let_def)
  with v(2-4) roles_local(1) [OF v(2)] show "\<exists>v. MonitorReceivedHCs r (at_time t b) = Ret True v \<and> local_active v = Some hb \<and>
    held {} (trace v) = addresses (DBConfig v) hb \<and> recorded v ha \<noteq> Some ACTIVE \<and> monitoring v" by (auto simp: leads_def)
qed

lemma failover_waits:
  assumes "follows ps h g w" and "find_member w g = Some q" and "GetNextActiveMember w = Ret (Inr q) w"
    and "find_member w h = Some r"
  shows "\<exists>v. failover r w = Ret False v \<and> follows ps h g v \<and> LastHCResponse (member v r) = now (env w)"
proof -
  from assms(1) have s: "stands ps h g w" by (simp add: follows_def)
  then obtain node where n: "GetLocalNode (DBConfig w) = Inr node" "NodeHostname node = h" "g \<noteq> h" "Hostname (member w q) = g"
    using find_member_SomeD [OF assms(2)] by (auto simp: stands_def ready_node_def)
  from info_run [OF s, of "''Waiting on '' @ g @ '' to become active''"] obtain u where
    u: "Logging_Info (''Waiting on '' @ g @ '' to become active'') w = Ret () u" "unmoved w u" "linked False (Members w) u" "core u = core w" by blast
  let ?v = "update_member r (\<lambda>m. m\<lparr>LastHCResponse := now (env w)\<rparr>) u"
  from s have wf: "wf_members w" by (rule standsE)
  then have "Status (member u i) = Status (member w i)" if "i \<in> set (Members w)" for i
    using that core_member_fields(2) [OF u(4)] by (simp add: wf_members_def)
  note k = stands_kept [OF s u(2,3) this]
  note z = stands_kept [OF k(1) time_run(1,2) [OF k(1)] time_run(3) [OF k(1)]]
  have "failover r w = Ret False ?v"
    using assms(3) n u(1) core_fields(10) [OF u(4)] by (simp add: failover_def SetLastHCResponse_def)
  moreover have "follows ps h g ?v" using assms(1) k z by (simp add: follows_def)
  moreover have "r < length (heap u)"
    using find_member_SomeD [OF assms(4)] wf core_fields(12) [OF u(4)] by (simp add: wf_members_def)
  then have "LastHCResponse (member ?v r) = now (env w)" by (simp add: member_update_member)
  ultimately show ?thesis by blast
qed

lemma first_passive_is_next:
  assumes "stands ps h g w" and "recorded w g = Some PASSIVE" and "find_member w g = Some q"
    and "map (NodeHostname \<circ> snd) (range_by (order_at w ''GetNextActiveMember'') (Nodes (DBConfig w))) = g # hs"
  shows "GetNextActiveMember w = Ret (Inr q) w"
proof -
  let ?ns = "range_by (order_at w ''GetNextActiveMember'') (Nodes (DBConfig w))"
  from assms(1) have a: "all_members w" "wf w" "\<not> ml_lock w" by (auto simp: stands_def ready_node_def linked_def)
  from assms(4) obtain uid n rest where ns: "?ns = (uid, n) # rest" "NodeHostname n = g" by (cases ?ns) auto
  have "set ?ns = set (entries (Nodes (DBConfig w)))" using a(2) by (simp add: set_range_by wf_def wf_config_def map_ok_def)
  with ns(1) have "(uid, n) \<in> set (entries (Nodes (DBConfig w)))" by auto
  from all_members_found(1) [OF a(1) this a(3)] ns assms(2,3) show ?thesis
    by (simp add: GetNextActiveMember_def member_of_def recorded_def)

qed

text \<open>\<^bold>\<open>C37.\<close> A daemon that has handed over still records the promoted one as passive until it hears of it. When the promoted machine is lost
  before its first health check, and the loop over the nodes of the config meets its node first, the daemon does not take over,
  however late it is: it waits for the lost machine, and its time starts anew. No node of the cluster is active then.\<close>

theorem lost_after_handover_waits:
  assumes "leads ps ha hb a" and "follows ps hb ha b" and "recorded a hb = Some PASSIVE" and "find_member a ha = Some r"
    and "map (NodeHostname \<circ> snd) (range_by (order_at a ''GetNextActiveMember'') (Nodes (DBConfig a))) = hb # hs"
  shows "\<exists>v b'. PromoteMember hb (now_reaches a hb (ps ha) b) = Ret None v \<and> far_end (now_reaches a hb (ps ha) b) hb (ps ha) b v = Ret () b' \<and>
    DBConfig v = DBConfig a \<and> (\<forall>t. overdue (at_time t v) r \<longrightarrow> (\<exists>x. MonitorReceivedHCs r (at_time t v) = Ret False x \<and> local_active x = None \<and>
      held {} (trace x) = {} \<and> LastHCResponse (member x r) = t))"
proof -
  from hand_over_run [OF assms(1,2)] assms(3) obtain v b' where
    v: "PromoteMember hb (now_reaches a hb (ps ha) b) = Ret None v" "far_end (now_reaches a hb (ps ha) b) hb (ps ha) b v = Ret () b'"
      "follows ps ha hb v" "recorded v hb = Some PASSIVE" "alike a v" by auto
  have "\<exists>x. MonitorReceivedHCs r (at_time t v) = Ret False x \<and> local_active x = None \<and> held {} (trace x) = {} \<and> LastHCResponse (member x r) = t"
    if o: "overdue (at_time t v) r" for t
  proof -
    let ?w = "at_time t v" let ?u = "before_decision (elapsed_seconds (now (env ?w)) (LastHCResponse (member ?w r))) ?w"
    have f: "follows ps ha hb ?w" using v(3) by simp
    note d = follows_decides [OF f, of "elapsed_seconds (now (env ?w)) (LastHCResponse (member ?w r))"]
    then have s: "stands ps ha hb ?u" by (simp add: follows_def)
    from s obtain q where q: "find_member ?u hb = Some q" by (rule standsE)
    have env: "env ?u = env ?w" by (simp add: before_decision_def split: option.split)
    have r: "find_member ?u ha = Some r" using alike_find [OF v(5)] assms(4) by (simp add: find_member_before_decision)
    have "order_at ?u = order_at a" "DBConfig ?u = DBConfig a"
      using v(5) env by (simp_all add: order_at_def [abs_def] before_decision_fields alike_def) (simp add: at_time_def)
    with first_passive_is_next [OF s _ q] d(2) v(4) assms(5) have "GetNextActiveMember ?u = Ret (Inr q) ?u" by simp
    from failover_waits [OF d(1) q this r] obtain x where x: "failover r ?u = Ret False x" "follows ps ha hb x" "LastHCResponse (member x r) = now (env ?u)" by blast
    with follows_monitors [OF f, of r] o env roles_local(2) [OF x(2)] show ?thesis by (auto simp: Let_def follows_def)
  qed
  moreover have "DBConfig v = DBConfig a" using v(5) by (simp add: alike_def)
  ultimately show ?thesis using v(1,2) by blast
qed

section \<open>On the example\<close>

theorem lost_active_replaced_witness:
  "\<exists>v. MonitorReceivedHCs 1 (at_time (LastHCResponse (member ex_beta 1) + 10000000000) ex_beta) = Ret True v \<and> local_active v = Some ''beta'' \<and>
     held {} (trace v) = addresses (DBConfig v) ''beta'' \<and> recorded v ''alpha'' \<noteq> Some ACTIVE"
proof -
  have b: "recorded ex_beta ''alpha'' \<noteq> Some PASSIVE" "find_member ex_beta ''beta'' = Some 1" "0 \<le> FailOverLimit (Pulse (DBConfig ex_beta))"
    "FailOverLimit (Pulse (DBConfig ex_beta)) \<le> 4000000000000"
    using ex_pair(4) by (simp_all add: ex_beta_def find_member_def member_def ex_config_def defaultConfig_def)
  from lost_active_replaced [OF ex_paired rtranclp.rtrancl_refl roles_local(1) [OF ex_pair(1)] b]
  show ?thesis by (auto simp: limit_now_def ex_beta_def ex_config_def defaultConfig_def ex_world_def)

qed

theorem lost_after_handover_waits_witness:
  "\<exists>v t x. PromoteMember ''beta'' (now_reaches ex_up ''beta'' (ex_peers ''alpha'') ex_beta) = Ret None v \<and> overdue (at_time t v) 0 \<and>
     MonitorReceivedHCs 0 (at_time t v) = Ret False x \<and> local_active x = None \<and> held {} (trace x) = {}"
proof -
  have f: "find_member ex_up ''alpha'' = Some 0"
    "map (NodeHostname \<circ> snd) (range_by (order_at ex_up ''GetNextActiveMember'') (Nodes (DBConfig ex_up))) = ''beta'' # [''alpha'']"
    "0 \<le> FailOverLimit (Pulse (DBConfig ex_up))" "FailOverLimit (Pulse (DBConfig ex_up)) \<le> 4000000000000"
    by (auto simp: ex_up_def find_member_def member_def range_by_def order_at_def keys_def lookup_def ex_config_def defaultConfig_def Let_def)
  from lost_after_handover_waits [OF ex_pair(1-3) f(1,2)] obtain v where
    v: "PromoteMember ''beta'' (now_reaches ex_up ''beta'' (ex_peers ''alpha'') ex_beta) = Ret None v" "DBConfig v = DBConfig ex_up"
      "\<And>t. overdue (at_time t v) 0 \<Longrightarrow> \<exists>x. MonitorReceivedHCs 0 (at_time t v) = Ret False x \<and> local_active x = None \<and> held {} (trace x) = {}"
    by blast
  have "overdue (at_time (LastHCResponse (member v 0) + limit_now v div 1000 * 1000000000) v) 0" using f(3,4) by (intro overdue_in_time) (simp_all add: v(2))

  with v(1) v(3) show ?thesis by blast
qed

end
