(* ===== verification/Joining.thy ===== *)
theory Joining
  imports Cluster
begin

text \<open>
  A join seen from both ends: the daemon that joins runs \<open>Cli_Join\<close>, the member of the cluster that it
  names runs \<open>Server_Join\<close>. When the joining daemon reports success, both have the same nodes and
  groups.
\<close>

section \<open>Steps that make no call\<close>

definition local_only :: "Env \<Rightarrow> effect list \<Rightarrow> world \<Rightarrow> bool" where
  "local_only e t w \<longleftrightarrow> env w = e \<and> only_added silent t w"

lemma local_only_frame:
  "local_only e t w \<Longrightarrow> local_only e t (set_config f w)" "local_only e t w \<Longrightarrow> local_only e t (w\<lparr>cfg_lock := b\<rparr>)"
  "local_only e t w \<Longrightarrow> local_only e t (w\<lparr>ml_lock := b\<rparr>)" "local_only e t w \<Longrightarrow> local_only e t (w\<lparr>certs := x\<rparr>)"
  "local_only e t w \<Longrightarrow> local_only e t (w\<lparr>disk := d\<rparr>)" "local_only e t w \<Longrightarrow> local_only e t (update_member r g w)"
  "local_only e t w \<Longrightarrow> local_only e t (w\<lparr>DBConfig := c\<rparr>)" "local_only e t w \<Longrightarrow> local_only e t (w\<lparr>heap := h\<rparr>)"
  by (auto simp: local_only_def only_added_def set_config_def)

lemma local_only_emit: "silent x \<Longrightarrow> safe (local_only e t) any_crash (emit x)"
  unfolding safe_def by (rule partialI) (auto simp: local_only_def emit_run only_added_def)

lemma local_only_locked:
  "safe (local_only e t) any_crash body \<Longrightarrow> safe (local_only e t) any_crash (locked_cfg body)"
  "safe (local_only e t) any_crash body \<Longrightarrow> safe (local_only e t) any_crash (locked_ml body)"
  unfolding locked_cfg_def lock_cfg_def unlock_cfg_def locked_ml_def lock_ml_def unlock_ml_def
  by (intro safe_intro local_only_frame; simp)+

lemma local_only_Save: "safe (local_only e t) any_crash Save"
  unfolding Save_def write_config_def
  by (intro local_only_locked safe_intro local_only_emit) (simp_all add: local_only_frame)

lemma local_only_nodeCreateLocal: "safe (local_only e t) any_crash (nodeCreateLocal ip port False)"
  unfolding nodeCreateLocal_def nodeAdd_def UpdateValue_def write_iface_def
  by (intro local_only_locked safe_intro local_only_Save local_only_frame) simp_all

lemma local_only_definition: "safe (local_only e t) any_crash (local_definition h ip port)"
  unfolding local_definition_def by (intro safe_intro local_only_nodeCreateLocal)

lemma local_only_install: "safe (local_only e t) any_crash (install_ca ip r)"
  unfolding install_ca_def CreateFolder_def WriteCertFile_def WriteKeyFile_def write_cert_def GenTLSKeys_def sign_with_def
    GenerateCerts_def generate_def certTemplate_def createCert_def WriteKeyFileFromRSAKey_def
  by (intro safe_intro local_only_frame; assumption?) simp_all

section \<open>The joining side\<close>

lemma GetLocalMember_frame:
  assumes "GetLocalMember w = Ret x v"
  shows "DBConfig v = DBConfig w \<and> disk v = disk w \<and> env v = env w \<and> trace v = trace w"
  using assms
  by (auto simp: GetLocalMember_def locked_ml_Ret new_member_def split: sum.splits option.splits outcome.splits)

text \<open>What is in memory is what the file decodes to.\<close>

definition on_disk :: "world \<Rightarrow> bool" where
  "on_disk w \<longleftrightarrow> (\<exists>d. disk w = ConfigFile (Valid d) \<and> DBConfig w = decoded d)"

lemma keep_local_decoded [simp]: "keep_local l (decoded c) = keep_local l c"
  by (simp add: keep_local_def decoded_def)

lemma adopt_config_success:
  assumes "inv False False w" and "adopt_config r w = Ret resp v" and "Success resp"
    and "JoinedConfig r = Valid c" and "wf_config c"
  shows "Nodes (DBConfig v) = Nodes c \<and> Groups (DBConfig v) = Groups c \<and> on_disk v \<and>
    Validate (hostname_cmd (env w)) (DBConfig v) = None \<and> local_only (env w) (trace w) v"
proof -
  let ?d = "keep_local (DBConfig w) c"
  let ?u = "w\<lparr>DBConfig := ?d\<rparr>"
  from assms(1) have w: "wf w" "\<not> cfg_lock w" "\<not> ml_lock w" by (simp_all add: inv_def)
  have wfu: "wf ?u" using w(1) assms(5) wf_keep_local by (simp add: wf_def)
  have cl: "w\<lparr>cfg_lock := False\<rparr> = w" using w(2) by simp
  have set: "SetConfig ?d w = Ret () ?u"
    using w(2) cl by (simp add: SetConfig_def locked_cfg_def lock_cfg_run unlock_cfg_def)
  from assms(2,3) set unmarshal_empty [OF assms(5)] assms(4) obtain x where x: "Save ?u = Ret None x"
    by (auto simp: adopt_config_def outcome_bnd_Ret split: option.splits outcome.splits)
  from x w(2) have xs: "DBConfig x = ?d" "disk x = ConfigFile (Valid ?d)" "env x = env w" "Validate (hostname_cmd (env w)) ?d = None"
    "only_added silent (trace w) x"
    by (auto simp: Save_Ret only_added_def split: option.splits)
  from assms(2) set unmarshal_empty [OF assms(5)] assms(4) x Reload_after_Save [OF wfu x] obtain m e y where
    y: "GetLocalMember (x\<lparr>DBConfig := decoded ?d, trace := trace x @ [Started TaskServerSetup]\<rparr>) = Ret (m, e) y"
    and v: "v = update_member m (\<lambda>m. m\<lparr>LastHCResponse := now (env y)\<rparr>) y"
    by (auto simp: adopt_config_def outcome_bnd_Ret emit_run SetLastHCResponse_def split: outcome.splits)
  from GetLocalMember_frame [OF y] v xs show ?thesis
    by (auto simp: local_only_def only_added_def keep_local_def on_disk_def)
qed

lemma join_peer_success:
  assumes "inv False False w" and "join_peer req cl d w = Ret resp v" and "Success resp"
  shows "\<exists>q r u. Client_Send (JoinIp req @ '':'' @ JoinPort req) SendJoin (ReqJoin q) cl w = Ret (Inr (RespJoin r)) u \<and> Success r \<and>
    inv False False u \<and> (\<forall>c. JoinedConfig r = Valid c \<longrightarrow> wf_config c \<longrightarrow>
      Nodes (DBConfig v) = Nodes c \<and> Groups (DBConfig v) = Groups c \<and> on_disk v \<and>
      Validate (hostname_cmd (env w)) (DBConfig v) = None \<and> local_only (env w) (trace u) v)"
proof -
  obtain uid n where d: "d = (uid, n)" by (cases d)
  let ?q = "\<lparr>JoinBindIp = '''', JoinBindPort = '''', JoinIp = '''', JoinPort = '''', JoinReplicated = False,
     JoinConfig = Valid n, JoinToken = JoinToken req, JoinUid = uid\<rparr>"
  from assms(2,3) obtain r u x where send: "Client_Send (JoinIp req @ '':'' @ JoinPort req) SendJoin (ReqJoin ?q) cl w = Ret (Inr (RespJoin r)) u"
    and s: "Success r" and i: "install_ca (JoinBindIp req) r u = Ret None x" and a: "adopt_config r x = Ret resp v"
    by (auto simp: join_peer_def d split: outcome.splits sum.splits response.splits if_splits option.splits)

  have ui: "inv False False u" by (rule safeD [OF inv_Client_Send assms(1) send])
  have "safe (inv False False) any_crash (install_ca (JoinBindIp req) r)"
    unfolding install_ca_def WriteCertFile_def WriteKeyFile_def by (intro inv_intro)
  from safeD [OF this ui i] have "inv False False x" .
  moreover have e
: "env u = env w" by (rule core_fields(10) [OF quietD [OF quiet_Client_Send send]])
  have lx: "local_only (env w) (trace u) x"
    by (rule safeD [OF local_only_install _ i]) (simp add: local_only_def e only_added_refl)
  moreover from lx have "env x = env w" by (simp add: local_only_def)
  ultimately have "Nodes (DBConfig v) = Nodes c \<and> Groups (DBConfig v) = Groups c \<and> on_disk v \<and>
      Validate (hostname_cmd (env w)) (DBConfig v) = None \<and> local_only (env w) (trace u) v"
    if "JoinedConfig r = Valid c" "wf_config c" for c
    using adopt_config_success [OF _ a assms(3) that] by (auto simp: local_only_def intro: only_added_trans)
  with send s ui show ?thesis by blast
qed

section \<open>The admitting side\<close>

lemma join_reply_config:
  assumes "join_reply uid w = Ret r v"
  shows "JoinedConfig r = Valid (DBConfig v)"
  using assms
  by (auto simp: join_reply_def split: sum.splits if_splits outcome.splits dest: core_fields(1) [OF quietD [OF quiet_Logging(2)]])

lemma admitted_config:
  assumes "Server_Join req b = Ret (Inr r) v" and "Success r"
  shows "JoinedConfig r = Valid (DBConfig v)"
proof -
  from assms obtain w where "admit (JoinUid req) w = Ret r v"
    by (auto simp: Server_Join_def Let_def split: if_splits outcome.splits json_doc.splits option.splits)
  with assms(2) obtain u where "join_reply (JoinUid req) u = Ret r v"
    by (auto simp: admit_def outcome_bnd_Ret outcome_thn_Ret simp del: bnd_run thn_run split: option.splits)
  then show ?thesis by (rule join_reply_config)
qed

text \<open>\<^bold>\<open>C11.\<close> When a join reports success, the daemon that joined and the member of the cluster that it asked
  have the same nodes and groups, the config in memory is what the file on disk decodes to, and the new node is one of the
  nodes of the cluster under its host name.\<close>

theorem join_agrees:
  assumes "inv False False a" and "inv False False b" and "GetHostname (hostname_cmd (env a)) = Inr h"
    and "reaches a (JoinIp req @ '':'' @ JoinPort req) p b"
    and "Cli_Join req a = Ret resp v" and "Success resp"
  shows "\<exists>b'. far_end a (JoinIp req @ '':'' @ JoinPort req) p b v = Ret () b' \<and> Nodes (DBConfig v) = Nodes (DBConfig b') \<and>
    Groups (DBConfig v) = Groups (DBConfig b') \<and> (\<exists>d. disk v = ConfigFile (Valid d) \<and> DBConfig v = decoded d) \<and>
    (ClusterCheck (DBConfig b') \<longrightarrow> h \<in> NodeHostname ` snd ` set (entries (Nodes (DBConfig b'))))"
proof -
  let ?addr = "JoinIp req @ '':'' @ JoinPort req"
  obtain err cl where cc: "Client_Connect a (JoinIp req) (JoinPort req) False newClient = (err, cl)" by fastforce
  from assms(3,5,6) cc obtain d w where d: "local_definition h (JoinBindIp req) (JoinBindPort req) a = Ret (Some d) w"
    and j: "join_peer req cl d w = Ret resp v"
    by (auto simp: Cli_Join_def split: if_splits option.splits outcome.splits)
  have "safe (inv False False) any_crash (local_definition h (JoinBindIp req) (JoinBindPort req))"
    unfolding local_definition_def by (intro inv_intro)
  from safeD [OF this assms(1) d] have iw: "inv False False w" .
  have "local_only (env a) (trace a) w"
    by (rule safeD [OF local_only_definition _ d]) (simp add: local_only_def only_added_refl)
  then obtain l where e: "env w = env a" and l: "trace w = trace a @ l" "list_all silent l"
    by (auto simp: local_only_def only_added_def)
  from join_peer_success [OF iw j assms(6)] obtain q r u where
    send: "Client_Send ?addr SendJoin (ReqJoin q) cl w = Ret (Inr (RespJoin r)) u" and s: "Success r"
    and post: "\<And>c. JoinedConfig r = Valid c \<Longrightarrow> wf_config c \<Longrightarrow> Nodes (DBConfig v) = Nodes c \<and> Groups (DBConfig v) = Groups c \<and>
      on_disk v \<and> Validate (hostname_cmd (env w)) (DBConfig v) = None \<and> local_only (env w) (trace u) v"
    by blast
  from send have res: "rpc_result (env w) (trace w) ?addr (ReqJoin q) = Inr (RespJoin r)" and u: "trace u = trace w @ [SentRpc ?addr (ReqJoin q)]"
    by (auto simp: Client_Send_def emit_run split: if_splits option.splits conn.splits)
  from res assms(4) e l requests_silent [OF l(2), of ?addr] have "remote p b [] (ReqJoin q) = Inr (RespJoin r)"
    by (simp add: reaches_def)
  then obtain b' where b': "serve_request (Some p) (ReqJoin q) b = Ret (Inr (RespJoin r)) b'"
    by (auto simp: remote_def split: outcome.splits)
  then obtain x where "Server_Join q b = Ret x b'" "map_sum id RespJoin x = Inr (RespJoin r)"
    by (auto simp: serve_request_def serverInterceptor_def answer_def split: outcome.splits)
  then have "Server_Join q b = Ret (Inr r) b'" by (cases x) auto

  from admitted_config [OF this s] have c: "JoinedConfig r = Valid (DBConfig b')" .
  have wfc: "wf_config (DBConfig b')" using safeD [OF inv_serve assms(2) b'] by (simp add: inv_def wf_def)
  from post [OF c wfc] obtain m where v: "Nodes (DBConfig v) = Nodes (DBConfig b')" "Groups (DBConfig v) = Groups (DBConfig b')"
    "on_disk v" "Validate (hostname_cmd (env a)) (DBConfig v) = None"
    "trace v = trace a @ l @ SentRpc ?addr (ReqJoin q) # m" "list_all silent m"
    using e l(1) u by (auto simp: local_only_def only_added_def)
  have "requests_to ?addr (l @ [SentRpc ?addr (ReqJoin q)] @ m) = [ReqJoin q]"
    using requests_silent [OF l(2)] requests_silent [OF v(6)] by simp
  then have "far_end a ?addr p b v = Ret () b'" using b' v(5) by (simp add: far_end_def)
  moreover have "ClusterCheck (DBConfig b') \<longrightarrow> h \<in> NodeHostname ` snd ` set (entries (Nodes (DBConfig b')))"
    using v(1,4) assms(3) by (auto simp: Validate_None_iff ClusterCheck_def)
  ultimately show ?thesis using v by (auto simp: on_disk_def)
qed

text \<open>A third node joins the cluster of the example.\<close>

definition ex_gamma :: world where
  "ex_gamma = ex_fresh\<lparr>env := ex_env\<lparr>hostname_cmd := Inr ''gamma'', interface_names := [''lo''],
     rpc_result := (\<lambda>t h. remote ex_stranger ex_world (requests_to h t))\<rparr>\<rparr>"

definition ex_gamma_join :: JoinRequest where
  "ex_gamma_join = ex_join\<lparr>JoinBindIp := ''10.0.0.13'', JoinBindPort := ''8443'', JoinIp := ''10.0.0.11'', JoinPort := ''8443''\<rparr>"

definition ex_gamma_node :: Node where
  "ex_gamma_node = \<lparr>NodeHostname = ''gamma'', IP = ''10.0.0.13'', Port = ''8443'', IPGroups = Some []\<rparr>"

lemma GetHostname_gamma [simp]: "GetHostname (Inr ''gamma'') = Inr ''gamma''"
  by code_simp

lemma ex_gamma_fields [simp]:
  "DBConfig ex_gamma = defaultConfig" "\<not> cfg_lock ex_gamma" "\<not> ml_lock ex_gamma" "trace ex_gamma = []" "certs ex_gamma = None"
  "hostname_cmd (env ex_gamma) = Inr ''gamma''" "new_uuid (env ex_gamma) = ''u3''" "interface_names (env ex_gamma) = [''lo'']"
  "write_error (env ex_gamma) = None" "dial (env ex_gamma) = (\<lambda>_ _. None)"
  "rpc_result (env ex_gamma) = (\<lambda>t h. remote ex_stranger ex_world (requests_to h t))"
  by (simp_all add: ex_gamma_def ex_fresh_def)

lemma ex_gamma_definition:
  "local_definition ''gamma'' ''10.0.0.13'' ''8443'' ex_gamma = Ret (Some (''u3'', ex_gamma_node)) (local_node_saved ''u3'' ex_gamma_node ex_gamma)"
proof -
  have empty: "Nodes defaultConfig = Some []" by (simp add: defaultConfig_def)
  have "Validate (Inr ''gamma'') (local_node_config ''u3'' ex_gamma_node defaultConfig) = None"
    by (simp add: Validate_None_iff defaultConfig_def local_node_config_def ex_gamma_node_def put_def)
  with nodeCreateLocal_start [of ex_gamma "''gamma''" "''u3''" ex_gamma_node "''10.0.0.13''" "''8443''" False]
  have "nodeCreateLocal ''10.0.0.13'' ''8443'' False ex_gamma = Ret (Inr (''u3'', ex_gamma_node)) (local_node_saved ''u3'' ex_gamma_node ex_gamma)"
    using local_node_saved_fields [where w = ex_gamma] empty by (simp add: lookup_def ex_gamma_node_def)
  then show ?thesis using empty by (simp add: local_definition_def nodeGetByHostname_def)
qed

abbreviation ex_joined :: Config where
  "ex_joined \<equiv> ex_config\<lparr>Nodes := put (Nodes ex_config) ''u3'' ex_gamma_node\<rparr>"

lemma ex_admits_gamma:
  "\<exists>v. Server_Join \<lparr>JoinBindIp = '''', JoinBindPort = '''', JoinIp = '''', JoinPort = '''', JoinReplicated = False,
     JoinConfig = Valid ex_gamma_node, JoinToken = ''secret'', JoinUid = ''u3''\<rparr> ex_world =
     Ret (Inr \<lparr>Success = True, Message = ''Successfully added '', ErrorCode = 0,
       JoinedConfig = Valid ex_joined, CaCrt = ''Cca'', CaKey = ''Kca''\<rparr>) v" (is "\<exists>v. Server_Join ?q _ = _")
proof -
  have "Validate (hostname_cmd (env ex_world)) ex_joined = None"
    by (simp add: Validate_None_iff put_def)
  moreover have "read_cert ex_world ''ca.crt'' = Inr ''Cca''" "read_cert ex_world ''ca.key'' = Inr ''Kca''"
    by (simp_all add: read_cert_def lookup_def)
  moreover have "wf_node ex_gamma_node" by (simp add: wf_node_def wf_map_def keys_def ex_gamma_node_def)
  ultimately show ?thesis
    using Join_admits_run [OF wf_ex_world, of ?q ex_gamma_node ex_joined "''Cca''" "''Kca''"] linked_ex
    by (auto simp: SHA256StringValidation_def GenerateSHA256Hash_def ClusterCheck_def mlen_def lookup_def)
qed

lemma ex_install_gamma:
  assumes "env w = env ex_gamma" and "certs w = None" and "CaCrt r = ''Cca''" and "CaKey r = ''Kca''"
  shows "\<exists>cs. install_ca ''10.0.0.13'' r w = Ret None (w\<lparr>certs := cs\<rparr>)"
  using assms
  by (simp add: install_ca_def CreateFolder_def WriteCertFile_def WriteKeyFile_def write_cert_def GenTLSKeys_def sign_with_def
      GenerateCerts_def generate_def certTemplate_def createCert_def WriteKeyFileFromRSAKey_def CheckFileExists_def LoadFile_def
      read_cert_def ex_gamma_def ex_fresh_def ex_env_def put_def lookup_def) (rule exI, rule refl)

lemma ex_adopt_gamma:
  assumes "inv False False w" and "env w = env ex_gamma" and "Pulse (DBConfig w) = (Pulse defaultConfig)\<lparr>LocalNodeUid := ''u3''\<rparr>"
    and "JoinedConfig r = Valid ex_joined"
  shows "\<exists>resp v. adopt_config r w = Ret resp v \<and> Success resp"
proof -
  let ?d = "keep_local (DBConfig w) ex_joined"
  let ?u = "w\<lparr>DBConfig := ?d\<rparr>"
  let ?x = "?u\<lparr>disk := ConfigFile (Valid ?d), trace := trace w @ [WroteConfig ?d]\<rparr>"
  from assms(1) have w: "wf w" "\<not> cfg_lock w" "\<not> ml_lock w" by (simp_all add: inv_def)
  have n: "wf_node ex_gamma_node" by (simp add: wf_node_def wf_map_def keys_def ex_gamma_node_def)
  have wfj: "wf_config ex_joined" using wf_ex_config n by (rule wf_config_updates(6))
  have wfu: "wf ?u" using w(1) wfj wf_keep_local by (simp add: wf_def)
  have cl: "w\<lparr>cfg_lock := False\<rparr> = w" using w(2) by simp
  have set: "SetConfig ?d w = Ret () ?u"
    using w(2) cl by (simp add: SetConfig_def locked_cfg_def lock_cfg_run unlock_cfg_def)
  have "Validate (Inr ''gamma'') ?d = None"
    by (simp add: Validate_None_iff keep_local_def put_def assms(3) defaultConfig_def ex_gamma_node_def)
  then have s: "Save ?u = Ret None ?x" using Save_ok [of ?u] w(2) assms(2) by simp
  have found: "\<exists>m e y. GetLocalMember z = Ret (m, e) y" if "\<not> ml_lock z" for z
    using that by (auto simp: GetLocalMember_def locked_ml_Ret new_member_def split: sum.split option.split)
  have "\<not> ml_lock (?x\<lparr>DBConfig := decoded ?d, trace := trace ?x @ [Started TaskServerSetup]\<rparr>)" using w(3) by simp
  from found [OF this] obtain m e y where "GetLocalMember (?x\<lparr>DBConfig := decoded ?d, trace := trace ?x @ [Started TaskServerSetup]\<rparr>) = Ret (m, e) y" by blast
  with set
 s Reload_after_Save [OF wfu s] unmarshal_empty [OF wfj] assms(4) show ?thesis
    by (simp add: adopt_config_def emit_run SetLastHCResponse_def)
qed

lemma ex_gamma_joins: "\<exists>resp v. Cli_Join ex_gamma_join ex_gamma = Ret resp v \<and> Success resp"
proof -
  let ?w = "local_node_saved ''u3'' ex_gamma_node ex_gamma"
  let ?q = "\<lparr>JoinBindIp = '''', JoinBindPort = '''', JoinIp = '''', JoinPort = '''', JoinReplicated = False,
     JoinConfig = Valid ex_gamma_node, JoinToken = ''secret'', JoinUid = ''u3''\<rparr>"
  let ?r = "\<lparr>Success = True, Message = ''Successfully added '', ErrorCode = 0, JoinedConfig = Valid ex_joined, CaCrt = ''Cca'', CaKey = ''Kca''\<rparr>"
  have iw: "inv False False ?w"
  proof -
    have "inv False False ex_gamma"
      by (simp add: ex_gamma_def ex_fresh_def inv_def wf_def wf_disk_def wf_members_def members_def wf_config_default)
    moreover have "safe (inv False False) any_crash (local_definition ''gamma'' ''10.0.0.13'' ''8443'')"
      unfolding local_definition_def by (intro inv_intro)
    ultimately show ?thesis using ex_gamma_definition by (blast dest: safeD)
  qed
  have "serve_request (Some ex_stranger) (ReqJoin ?q) ex_world = answer RespJoin (Server_Join ?q) ex_world"
    by (simp add: serve_request_def serverInterceptor_def)
  with ex_admits_gamma have rem: "remote ex_stranger ex_world [] (ReqJoin ?q) = Inr (RespJoin ?r)"
    by (auto simp: remote_def answer_def)
  let ?u = "?w\<lparr>trace := trace ?w @ [SentRpc ''10.0.0.11:8443'' (ReqJoin ?q)]\<rparr>"
  have t: "requests_to h (trace ?w) = []" for h
    by (simp add: local_node_saved_def Let_def requests_to_def)
  have send: "Client_Send ''10.0.0.11:8443'' SendJoin (ReqJoin ?q) \<lparr>Connection = Some Opened, Requester = True\<rparr> ?w = Ret (Inr (RespJoin ?r)) ?u"
    using rem t by (simp add: Client_Send_def emit_run local_node_saved_fields)
  have "env ?u = env ex_gamma" "certs ?u = None" by (simp_all add: local_node_saved_def Let_def)
  from ex_install_gamma [OF this, of ?r] obtain cs where i: "install_ca ''10.0.0.13'' ?r ?u = Ret None (?u\<lparr>certs := cs\<rparr>)" by auto
  have "inv False False (?u\<lparr>certs := cs\<rparr>)" using iw by simp
  from ex_adopt_gamma [OF this, of ?r] obtain resp v where a: "adopt_config ?r (?u\<lparr>certs := cs\<rparr>) = Ret resp v" "Success resp"
    by (auto simp: local_node_saved_fields local_node_config_def)
  have port: "port_in_range ''8443''"
    by (simp add: port_in_range_def Atoi_def ParseInt_def signed_parse_def ParseUint_def is_digit_def digit_val_def)
  have "ClusterCheck defaultConfig = False" by (simp add: ClusterCheck_def mlen_def defaultConfig_def)
  with ex_gamma_definition send i a port show ?thesis
    by (simp add: Cli_Join_def ex_gamma_join_def ex_join_def Client_Connect_def newClient_def join_peer_def)
qed

theorem join_agrees_witness:
  "\<exists>resp v b'. Cli_Join ex_gamma_join ex_gamma = Ret resp v \<and> Success resp \<and>
     far_end ex_gamma ''10.0.0.11:8443'' ex_stranger ex_world v = Ret () b' \<and> Nodes (DBConfig v) = Nodes (DBConfig b') \<and>
     Groups (DBConfig v) = Groups (DBConfig b')"
proof -
  from ex_gamma_joins obtain resp v where j: "Cli_Join ex_gamma_join ex_gamma = Ret resp v" "Success resp" by blast
  have "inv False False ex_gamma"
    by (simp add: ex_gamma_def ex_fresh_def inv_def wf_def wf_disk_def wf_members_def members_def wf_config_default)
  moreover have "reaches ex_gamma ''10.0.0.11:8443'' ex_stranger ex_world" by (simp add: reaches_def)
  ultimately show ?thesis
    using join_agrees [OF _ inv_ex_world, of ex_gamma "''gamma''" ex_gamma_join ex_stranger resp v] j
    by (auto simp: ex_gamma_join_def)
qed

end
