(* ===== verification/Accessors.thy ===== *)
theory Accessors
  imports MemberList
begin

text \<open>
  The accessors of \<^verbatim>\<open>member.go\<close>. A member is shared by its address between the routines, the server and the
  commands; what they may rely on is stated once, for a field with a getter and a setter, and holds for every
  field. The mutex of a member is held inside an accessor only.
\<close>

section \<open>Getters\<close>

definition GetHCBusy :: "nat \<Rightarrow> bool go" where
  "GetHCBusy r = reading (\<lambda>w. HCBusy (member w r)) ret"

definition GetLatency :: "nat \<Rightarrow> string go" where
  "GetLatency r = reading (\<lambda>w. Latency (member w r)) ret"

definition GetScore :: "nat \<Rightarrow> int go" where
  "GetScore r = reading (\<lambda>w. Score (member w r)) ret"

definition GetLastHCResponse :: "nat \<Rightarrow> int go" where
  "GetLastHCResponse r = reading (\<lambda>w. LastHCResponse (member w r)) ret"

definition Member_GetHostname :: "nat \<Rightarrow> string go" where
  "Member_GetHostname r = reading (\<lambda>w. Hostname (member w r)) ret"

definition GetStatus :: "nat \<Rightarrow> Status go" where
  "GetStatus r = reading (\<lambda>w. Status (member w r)) ret"

section \<open>What a field promises\<close>

locale accessor =
  fixes sel :: "Member \<Rightarrow> 'a" and upd :: "'a \<Rightarrow> Member \<Rightarrow> Member"
    and get :: "nat \<Rightarrow> 'a go" and set :: "nat \<Rightarrow> 'a \<Rightarrow> unit go"
  assumes sel_upd: "sel (upd x m) = x" and upd_upd: "upd x (upd y m) = upd x m"
    and get_run: "get r w = Ret (sel (member w r)) w"
    and set_run: "r < length (heap w) \<Longrightarrow> \<exists>v. set r x w = Ret () v \<and> heap v = (heap w)[r := upd x (member w r)]"
begin

lemma set_members:
  assumes "r < length (heap w)"
  obtains v where "set r x w = Ret () v" and "member v = (member w)(r := upd x (member w r))" and "length (heap v) = length (heap w)"
proof -
  from set_run [OF assms] obtain v where v: "set r x w = Ret () v" "heap v = (heap w)[r := upd x (member w r)]" by blast
  then have "member v = (member w)(r := upd x (member w r))"
    using assms by (intro ext) (simp add: member_def nth_list_update)
  with v that show thesis by simp
qed

text \<open>What was set is read back, at its member and at no other, and the last of two writes counts.\<close>

lemma get_after_set:
  assumes "r < length (heap w)"
  shows "\<exists>v. thn (set r x) (get q) w = Ret (if q = r then x else sel (member w q)) v"
proof -
  from set_members [OF assms, of x] obtain v where "set r x w = Ret () v" "member v = (member w)(r := upd x (member w r))" by blast
  then show ?thesis by (simp add: thn_def get_run sel_upd)
qed

lemma set_set:
  assumes "r < length (heap w)"
  shows "\<exists>u v. thn (set r y) (set r x) w = Ret () u \<and> set r x w = Ret () v \<and> member u = member v"
proof -
  from set_members [OF assms, of y] obtain t where t: "set r y w = Ret () t" "member t = (member w)(r := upd y (member w r))"
      "length (heap t) = length (heap w)" by blast
  with assms have "r < length (heap t)" by simp
  from set_members [OF this, of x] obtain u where u: "set r x t = Ret () u" "member u = (member t)(r := upd x (member t r))" by blast
  from set_members [OF assms, of x] obtain v where v: "set r x w = Ret () v" "member v = (member w)(r := upd x (member w r))" by blast
  from t u v have "member u = member v" by (simp add: upd_upd)
  with t u v show ?thesis by (simp add: thn_def)
qed

end

text \<open>Two fields that do not overlap: writing one does not change what is read from the other.\<close>

locale disjoint_fields = a: accessor sel upd get set + b: accessor sel' upd' get' set'
  for sel :: "Member \<Rightarrow> 'a" and upd get set and sel' :: "Member \<Rightarrow> 'b" and upd' get' set' +
  assumes other: "sel' (upd x m) = sel' m" "sel (upd' y m) = sel m"
begin

lemma get_other:
  assumes "r < length (heap w)"
  shows "\<exists>v. thn (set r x) (get' q) w = Ret (sel' (member w q)) v" "\<exists>v. thn (set' r y) (get q) w = Ret (sel (member w q)) v"
proof -
  from a.set_members [OF assms, of x] obtain v where "set r x w = Ret () v" "member v = (member w)(r := upd x (member w r))" by blast
  then show "\<exists>v. thn (set r x) (get' q) w = Ret (sel' (member w q)) v" by (simp add: thn_def b.get_run other)
  from b.set_members [OF assms, of y] obtain u where "set' r y w = Ret () u" "member u = (member w)(r := upd' y (member w r))" by blast
  then show "\<exists>v. thn (set' r y) (get q) w = Ret (sel (member w q)) v" by (simp add: thn_def a.get_run other)
qed

end

section \<open>The fields of a member\<close>

interpretation busy: accessor HCBusy "\<lambda>x. HCBusy_update (\<lambda>_. x)" GetHCBusy SetHCBusy
  by unfold_locales (simp_all add: GetHCBusy_def SetHCBusy_def update_member_def member_def)

interpretation latency: accessor Latency "\<lambda>x. Latency_update (\<lambda>_. x)" GetLatency SetLatency
  by unfold_locales (simp_all add: GetLatency_def SetLatency_def update_member_def member_def)

interpretation score: accessor Score "\<lambda>x. Score_update (\<lambda>_. x)" GetScore SetScore
  by unfold_locales (simp_all add: GetScore_def SetScore_def update_member_def member_def)

interpretation last_hc: accessor LastHCResponse "\<lambda>x. LastHCResponse_update (\<lambda>_. x)" GetLastHCResponse SetLastHCResponse
  by unfold_locales (simp_all add: GetLastHCResponse_def SetLastHCResponse_def update_member_def member_def)

interpretation hostname: accessor Hostname "\<lambda>x. Hostname_update (\<lambda>_. x)" Member_GetHostname SetHostname
  by unfold_locales (simp_all add: Member_GetHostname_def SetHostname_def update_member_def member_def)

interpretation status: accessor Status "\<lambda>x. Status_update (\<lambda>_. x)" GetStatus SetStatus
  by unfold_locales (simp_all add: GetStatus_def SetStatus_run with_status_def update_member_def member_def)

interpretation score_status: disjoint_fields Score "\<lambda>x. Score_update (\<lambda>_. x)" GetScore SetScore
  Status "\<lambda>x. Status_update (\<lambda>_. x)" GetStatus SetStatus
  by unfold_locales simp_all

interpretation last_hc_status: disjoint_fields LastHCResponse "\<lambda>x. LastHCResponse_update (\<lambda>_. x)" GetLastHCResponse SetLastHCResponse
  Status "\<lambda>x. Status_update (\<lambda>_. x)" GetStatus SetStatus
  by unfold_locales simp_all

interpretation busy_status: disjoint_fields HCBusy "\<lambda>x. HCBusy_update (\<lambda>_. x)" GetHCBusy SetHCBusy
  Status "\<lambda>x. Status_update (\<lambda>_. x)" GetStatus SetStatus
  by unfold_locales simp_all

text \<open>Changing the status of a member, which also tells the plugins, is read back and keeps its score, the
  time of its last health check and whether one is running.\<close>

theorem status_round_trip:
  assumes "r < length (heap w)"
  shows "(\<exists>v. thn (SetStatus r s) (GetStatus r) w = Ret s v) \<and> (\<exists>v. thn (SetStatus r s) (GetScore q) w = Ret (Score (member w q)) v) \<and>
    (\<exists>v. thn (SetStatus r s) (GetLastHCResponse q) w = Ret (LastHCResponse (member w q)) v) \<and>
    (\<exists>v. thn (SetStatus r s) (GetHCBusy q) w = Ret (HCBusy (member w q)) v)"
  using status.get_after_set [OF assms, of s r] score_status.get_other(2) [OF assms, of s q]
    last_hc_status.get_other(2) [OF assms, of s q] busy_status.get_other(2) [OF assms, of s q] by simp

end
