(* ===== verification/Pulsectl.thy ===== *)
theory Pulsectl
  imports CliServer
begin

text \<open>
  The command line client, \<^verbatim>\<open>src/pulsectl\<close> and \<^verbatim>\<open>cmd/pulsectl\<close>: what each command checks, which call it
  makes to the daemon, what it shows and which exit code it returns. The client runs against the
  command line server of a daemon of this development. The \<^verbatim>\<open>flag\<close> package of Go is modelled as far
  as it is used, with string flags only; help texts and rendered tables are kept as the text of
  which command and the cells of which table.
\<close>

section \<open>The terminal\<close>

datatype ui = Out string | Err string | HelpOut string | HelpErr string | Table "string list" "string list list"

text \<open>The daemon at the other end, what was shown, and the calls that were made.\<close>

record terminal =
  daemon :: world
  shown :: "ui list"
  sent :: "command list"

text \<open>The connection: an error of \<^verbatim>\<open>grpc.Dial\<close>, and an error of the call that keeps it from the daemon.\<close>

record line =
  dial_error :: "string option"
  call_error :: "string option"

type_synonym 'a ctl = "(terminal, 'a) prog"

definition tell :: "ui list \<Rightarrow> unit ctl" where
  "tell us = modify (\<lambda>t. t\<lparr>shown := shown t @ us\<rparr>)"

definition exit_with :: "ui list \<Rightarrow> int \<Rightarrow> int ctl" where
  "exit_with us code = thn (tell us) (ret code)"

section \<open>Flags\<close>

text \<open>The name and the value of an argument \<^verbatim>\<open>name=value\<close>; the first character is part of the name.\<close>

definition flag_parts :: "string \<Rightarrow> string \<times> string option" where
  "flag_parts name = (case dropWhile (\<lambda>c. c \<noteq> CHR ''='') (tl name) of
     [] \<Rightarrow> (name, None)
   | _ # v \<Rightarrow> (hd name # takeWhile (\<lambda>c. c \<noteq> CHR ''='') (tl name), Some v))"

text \<open>\<^verbatim>\<open>FlagSet.Parse\<close>: the values of the flags and the remaining arguments, or an error, on which the usage
  is shown (\<^verbatim>\<open>-h\<close> and \<^verbatim>\<open>-help\<close> count as errors).\<close>

fun parse_flags :: "(string \<times> string) list \<Rightarrow> string list \<Rightarrow> ((string \<times> string) list \<times> string list) option" where
  "parse_flags fs [] = Some (fs, [])"
| "parse_flags fs (s # args) =
     (if length s < 2 \<or> hd s \<noteq> CHR ''-'' then Some (fs, s # args)
      else if s = ''--'' then Some (fs, args)
      else let name = (if s ! 1 = CHR ''-'' then drop 2 s else drop 1 s)
           in if hd name = CHR ''-'' \<or> hd name = CHR ''='' then None
              else (case flag_parts name of (n, v) \<Rightarrow>
                if map_of fs n = None then None
                else (case v of
                  Some x \<Rightarrow> parse_flags (AList.update n x fs) args
                | None \<Rightarrow> (case args of
                    [] \<Rightarrow> None
                  | x # rest \<Rightarrow> parse_flags (AList.update n x fs) rest))))"

text \<open>A parse error shows the usage and ends the command.\<close>

definition with_flags :: "string \<Rightarrow> (string \<times> string) list \<Rightarrow> string list \<Rightarrow> ((string \<Rightarrow> string) \<Rightarrow> string list \<Rightarrow> int ctl) \<Rightarrow> int ctl" where
  "with_flags cmd defaults args k = (case parse_flags defaults args of
     None \<Rightarrow> exit_with [HelpOut cmd] 1
   | Some (fs, cmds) \<Rightarrow> k (\<lambda>n. case map_of fs n of None \<Rightarrow> '''' | Some v \<Rightarrow> v) cmds)"

section \<open>Calls\<close>

definition dialled :: "line \<Rightarrow> string \<Rightarrow> int ctl \<Rightarrow> int ctl" where
  "dialled l msg k = (case dial_error l of Some e \<Rightarrow> exit_with [Err msg, Err e] 1 | None \<Rightarrow> k)"

text \<open>A call of the command line server. A command that stops the daemon ends the session.\<close>

definition on_daemon :: "'a go \<Rightarrow> 'a ctl" where
  "on_daemon m = (\<lambda>t. case m (daemon t) of Ret x w \<Rightarrow> Ret x (t\<lparr>daemon := w\<rparr>) | Crash c \<Rightarrow> Crash c)"

definition call :: "line \<Rightarrow> command \<Rightarrow> 'a go \<Rightarrow> (string + 'a) ctl" where
  "call l cmd m = thn (modify (\<lambda>t. t\<lparr>sent := sent t @ [cmd]\<rparr>)) (case call_error l of
     Some e \<Rightarrow> ret (Inl e)
   | None \<Rightarrow> bnd (on_daemon m) (\<lambda>r. ret (Inr r)))"

definition check_mark :: string where
  "check_mark = [CHR 0x0A] @ ''['' @ [CHR 0xE2, CHR 0x9C, CHR 0x93] @ ''] ''"

text \<open>How most commands report: an error of the call is shown, and the exit code is then \<open>code\<close>.\<close>

definition report :: "string \<Rightarrow> ui list \<Rightarrow> int \<Rightarrow> string + Response \<Rightarrow> int ctl" where
  "report cross detail code r = (case r of
     Inl e \<Rightarrow> exit_with (Out ''PulseHA CLI connection error. Is the PulseHA service running?'' # detail) code
   | Inr resp \<Rightarrow>
       if Success resp then exit_with [Out (check_mark @ Message resp @ [CHR 0x0A])] 0
       else exit_with [Out ([CHR 0x0A] @ cross @ Message resp @ [CHR 0x0A])] 1)"

definition call_lenient :: "line \<Rightarrow> command \<Rightarrow> int ctl" where
  "call_lenient l cmd = bnd (call l cmd (run_command cmd)) (\<lambda>r. report ''[x] '' (case r of Inl e \<Rightarrow> [Out e] | Inr _ \<Rightarrow> []) 0 r)"

definition call_strict :: "line \<Rightarrow> command \<Rightarrow> int ctl" where
  "call_strict l cmd = bnd (call l cmd (run_command cmd)) (\<lambda>r. report ''[x] '' [] 1 r)"

section \<open>Commands\<close>

text \<open>The address checks of several commands; \<open>None\<close> is an invalid address.\<close>

definition clean_ip :: "string \<Rightarrow> string option" where
  "clean_ip ip = (if IsIPv6 ip then Some (SanitizeIPv6 ip) else if IsIPv4 ip then Some ip else None)"

definition usage_error :: "string \<Rightarrow> string \<Rightarrow> int ctl" where
  "usage_error cmd msg = exit_with [Err msg, Err '''', HelpErr cmd] 1"

definition bad_argument :: "string \<Rightarrow> string \<Rightarrow> int ctl" where
  "bad_argument cmd msg = exit_with [Err (msg @ [CHR 0x0A]), HelpOut cmd] 1"


text \<open>The bind address and the bind port have defaults, which are refused.\<close>

definition JoinCommand_Run :: "line \<Rightarrow> string list \<Rightarrow> int ctl" where
  "JoinCommand_Run l args = with_flags ''join'' [(''bind-ip'', ''127.0.0.1''), (''bind-port'', ''1234''), (''token'', '''')] args (\<lambda>opt cmds.
     if length cmds < 2 then usage_error ''join'' ''Please specify an address, port to join''
     else if opt ''bind-ip'' = ''127.0.0.1'' then bad_argument ''join'' ''Please specify a bind IP address''
     else if opt ''bind-port'' = ''1234'' then bad_argument ''join'' ''Please specify a bind port''
     else if opt ''token'' = '''' then bad_argument ''join'' ''Please provide a valid unique cluster token''
     else case clean_ip (opt ''bind-ip'') of
       None \<Rightarrow> bad_argument ''join'' ''Please specify a valid join address.''
     | Some bindIP \<Rightarrow>
         if \<not> IsPort (opt ''bind-port'') then bad_argument ''join'' ''Please specify a valid port 0-65536''
         else case clean_ip (cmds ! 0) of
           None \<Rightarrow> bad_argument ''join'' ''Please specify a valid join address''
         | Some joinIP \<Rightarrow>
             if \<not> IsPort (cmds ! 1) then bad_argument ''join'' ''Please specify a valid join port 0-65536''
             else dialled l ''GRPC client connection error. Is the PulseHA service running?''
               (call_lenient l (CmdJoin \<lparr>JoinBindIp = bindIP, JoinBindPort = opt ''bind-port'', JoinIp = joinIP, JoinPort = cmds ! 1,
                  JoinReplicated = False, JoinConfig = Invalid ''unexpected end of JSON input'', JoinToken = opt ''token'', JoinUid = ''''\<rparr>)))"

definition CreateCommand_Run :: "line \<Rightarrow> string list \<Rightarrow> int ctl" where
  "CreateCommand_Run l args = with_flags ''create'' [] args (\<lambda>_ cmds.
     if length cmds < 2 then bad_argument ''create'' ''Please specify an address and port for PulseHA to listen on''
     else case clean_ip (cmds ! 0) of
       None \<Rightarrow> bad_argument ''create'' ''Please specify a valid join address.''
     | Some bindIP \<Rightarrow>
         if \<not> IsPort (cmds ! 1) then bad_argument ''create'' ''Please specify a valid port 0-65536.''
         else dialled l ''GRPC client connection error'' (call_strict l (CmdCreate bindIP (cmds ! 1))))"

definition LeaveCommand_Run :: "line \<Rightarrow> string list \<Rightarrow> int ctl" where
  "LeaveCommand_Run l args = with_flags ''leave'' [] args (\<lambda>_ _.
     dialled l ''GRPC client connection error. Is the PulseHA service running?'' (call_lenient l CmdLeave))"

definition RemoveCommand_Run :: "line \<Rightarrow> string list \<Rightarrow> int ctl" where
  "RemoveCommand_Run l args = with_flags ''remove'' [] args (\<lambda>_ cmds.
     if cmds = [] then usage_error ''remove'' ''Please specify a node hostname to remove''
     else dialled l ''GRPC client connection error. Is the PulseHA service running?'' (call_lenient l (CmdRemove (cmds ! 0))))"

definition PromoteCommand_Run :: "line \<Rightarrow> string list \<Rightarrow> int ctl" where
  "PromoteCommand_Run l args = with_flags ''promote'' [] args (\<lambda>_ addr.
     if addr = [] then usage_error ''promote'' ''Please specify a node to promote!''
     else dialled l ''GRPC client connection error'' (call_lenient l (CmdPromote (addr ! 0))))"

text \<open>The commands \<^verbatim>\<open>cert\<close> and \<^verbatim>\<open>describe\<close> have the same body; the latter is not in the table of commands.\<close>

definition CertCommand_Run :: "line \<Rightarrow> string list \<Rightarrow> int ctl" where
  "CertCommand_Run l args = with_flags ''cert'' [] args (\<lambda>_ cmds.
     if cmds = [] then bad_argument ''cert'' ''Please specify the PulseHA bind IP address''
     else case clean_ip (cmds ! 0) of
       None \<Rightarrow> bad_argument ''cert'' ''Please specify a valid join IP address.''
     | Some bindIP \<Rightarrow> dialled l ''GRPC client connection error'' (call_strict l (CmdTLS bindIP)))"

definition DescribeCommand_Run :: "line \<Rightarrow> string list \<Rightarrow> int ctl" where
  "DescribeCommand_Run l args = CertCommand_Run l args"

definition TokenCommand_Run :: "line \<Rightarrow> string list \<Rightarrow> int ctl" where
  "TokenCommand_Run l args = with_flags ''token'' [] args (\<lambda>_ _.
     dialled l ''GRPC client connection error'' (call_strict l CmdToken))"

definition ConfigCommand_Run :: "line \<Rightarrow> string list \<Rightarrow> int ctl" where
  "ConfigCommand_Run l args = with_flags ''config'' [] args (\<lambda>_ cmds.
     if cmds = [] then usage_error ''config'' ''Please specify a config key to update''
     else if length cmds = 1 then usage_error ''config'' ''Please specify a new config value''
     else dialled l ''GRPC client connection error'' (call_lenient l (CmdConfig (cmds ! 0) (cmds ! 1))))"

definition NetworkCommand_Run :: "line \<Rightarrow> string list \<Rightarrow> int ctl" where
  "NetworkCommand_Run l args = with_flags ''network'' [] args (\<lambda>_ cmds.
     dialled l ''GRPC client connection error. Is the PulseHA service running?''
      (if cmds \<noteq> [] \<and> cmds ! 0 = ''resync'' then call_lenient l (CmdNetwork ''resync'')
       else usage_error ''network'' ''Unknown action provided.''))"

definition VersionCommand_Run :: "string \<Rightarrow> string \<Rightarrow> int ctl" where
  "VersionCommand_Run version build =
     (if length build < 7 then crash_with OutOfRange
      else exit_with [Out (''PulseHA '' @ version @ '' Build '' @ take 7 build)] 0)"

fun StatusString :: "Status \<Rightarrow> string" where
  "StatusString ACTIVE = ''ACTIVE''"
| "StatusString LEAVING = ''LEAVING''"
| "StatusString PASSIVE = ''PASSIVE''"
| "StatusString UNAVAILABLE = ''UNAVAILABLE''"
| "StatusString SUSPICIOUS = ''SUSPICIOUS''"
| "StatusString MONITORING = ''MONITORING''"
| "StatusString UNCONFIGURED = ''UNCONFIGURED''"

definition drawStatusTable :: "line \<Rightarrow> unit ctl" where
  "drawStatusTable l = bnd (call l CmdStatus Cli_Status) (\<lambda>r. case r of
     Inl e \<Rightarrow> tell [Out ''PulseHA CLI connection error'', Out e]
   | Inr resp \<Rightarrow> tell [Table [''Node Hostname'', ''Bind Address'', ''Latency'', ''Status'', ''Score'', ''Last Received'']
       (map (\<lambda>n. [RowHostname n, RowIp n, RowLatency n, StatusString (RowStatus n), Itoa (RowScore n), RowLastReceived n]) (StatusRows resp))])"

text \<open>\<^verbatim>\<open>status\<close> does not parse its arguments.\<close>

definition StatusCommand_Run :: "line \<Rightarrow> string list \<Rightarrow> int ctl" where
  "StatusCommand_Run l args = dialled l ''GRPC client connection error'' (thn (drawStatusTable l) (ret 0))"

section \<open>The groups command\<close>

definition Join_with :: "string \<Rightarrow> string list \<Rightarrow> string" where
  "Join_with sep xs = (case xs of [] \<Rightarrow> '''' | y # ys \<Rightarrow> y @ concat (map (\<lambda>z. sep @ z) ys))"

definition drawGroupsTable :: "line \<Rightarrow> unit ctl" where
  "drawGroupsTable l = bnd (call l CmdGroupList Cli_GroupList) (\<lambda>r. case r of
     Inl e \<Rightarrow> tell [Out ''PulseHA CLI connection error'', Out e]
   | Inr resp \<Rightarrow> tell [Table [''Group Name'', ''IP Assignments'', ''Nodes'', ''Ifaces'']
       (map (\<lambda>g. [GroupName g, Join_with '', '' (GroupIps g), Join_with [CHR 0x0A] (GroupNodes g), Join_with [CHR 0x0A] (GroupInterfaces g)]) (GroupRows resp))])"

definition GroupsCommand_New :: "line \<Rightarrow> string \<Rightarrow> int ctl" where
  "GroupsCommand_New l groupName = bnd (call l (CmdNewGroup groupName) (run_command (CmdNewGroup groupName))) (\<lambda>r.
     report '' [x] '' (case r of Inl e \<Rightarrow> [Out e] | Inr _ \<Rightarrow> []) 0 r)"

definition GroupsCommand_Delete :: "line \<Rightarrow> string \<Rightarrow> int ctl" where
  "GroupsCommand_Delete l groupName =
     (if groupName = '''' then usage_error ''groups'' ''Please specify a group name'' else call_lenient l (CmdDeleteGroup groupName))"

definition GroupsCommand_Add :: "line \<Rightarrow> string \<Rightarrow> string \<Rightarrow> int ctl" where
  "GroupsCommand_Add l groupName fIPs =
     (if groupName = '''' then usage_error ''groups'' ''Please specify a group name''
      else if fIPs = '''' then usage_error ''groups'' ''Please specify at least one IP address''
      else call_lenient l (CmdGroupIPAdd groupName (split_at (CHR '','') fIPs)))"

definition GroupsCommand_Remove :: "line \<Rightarrow> string \<Rightarrow> string \<Rightarrow> int ctl" where
  "GroupsCommand_Remove l groupName fIPs =
     (if groupName = '''' then usage_error ''groups'' ''Please specify a group name''
      else if fIPs = '''' then usage_error ''groups'' ''Please specify at least one IP address''
      else call_lenient l (CmdGroupIPRemove groupName (split_at (CHR '','') fIPs)))"

definition GroupsCommand_Assign :: "line \<Rightarrow> string \<Rightarrow> string \<Rightarrow> string \<Rightarrow> int ctl" where
  "GroupsCommand_Assign l groupName nodeHostname nodeIface =
     (if groupName = '''' then usage_error ''groups'' ''Please specify a group name''
      else if nodeHostname = '''' then usage_error ''groups'' ''Please specify the node hostname''
      else if nodeIface = '''' then usage_error ''groups'' ''Please specify ame network interface''
      else call_lenient l (CmdGroupAssign groupName nodeHostname nodeIface))"

definition GroupsCommand_Unassign :: "line \<Rightarrow> string \<Rightarrow> string \<Rightarrow> string \<Rightarrow> int ctl" where
  "GroupsCommand_Unassign l groupName nodeHostname nodeIface =
     (if groupName = '''' then usage_error ''groups'' ''Please specify a group name''
      else if nodeHostname = '''' then usage_error ''groups'' ''Please specify the node hostname''
      else if nodeIface = '''' then usage_error ''groups'' ''Please specify ame network interface''
      else call_lenient l (CmdGroupUnassign groupName nodeHostname nodeIface))"

definition GroupsCommand_Run :: "line \<Rightarrow> string list \<Rightarrow> int ctl" where
  "GroupsCommand_Run l args = with_flags ''groups'' [(''name'', ''''), (''ips'', ''''), (''node'', ''''), (''iface'', '''')] args (\<lambda>opt cmds.
     dialled l ''GRPC client connection error''
      (if cmds = [] then thn (drawGroupsTable l) (ret 0)
       else if cmds ! 0 = ''new'' then GroupsCommand_New l (opt ''name'')
       else if cmds ! 0 = ''delete'' then GroupsCommand_Delete l (opt ''name'')
       else if cmds ! 0 = ''add'' then GroupsCommand_Add l (opt ''name'') (opt ''ips'')
       else if cmds ! 0 = ''remove'' then GroupsCommand_Remove l (opt ''name'') (opt ''ips'')
       else if cmds ! 0 = ''assign'' then GroupsCommand_Assign l (opt ''name'') (opt ''node'') (opt ''iface'')
       else if cmds ! 0 = ''unassign'' then GroupsCommand_Unassign l (opt ''name'') (opt ''node'') (opt ''iface'')
       else usage_error ''groups'' ''Unknown action provided.''))"

section \<open>The program\<close>

text \<open>\<^verbatim>\<open>realMain\<close> turns a version flag anywhere in the arguments into the version command. The library
  that runs the commands is not part of the sources; the table of commands is.\<close>

definition version_args :: "string list \<Rightarrow> string list" where
  "version_args args = (if ''-v'' \<in> set args \<or> ''--version'' \<in> set args then ''version'' # args else args)"

definition Commands :: "string \<Rightarrow> string \<Rightarrow> line \<Rightarrow> string \<Rightarrow> (string list \<Rightarrow> int ctl) option" where
  "Commands version build l = map_of [
     (''join'', JoinCommand_Run l), (''create'', CreateCommand_Run l), (''groups'', GroupsCommand_Run l),
     (''leave'', LeaveCommand_Run l), (''remove'', RemoveCommand_Run l), (''status'', StatusCommand_Run l),
     (''promote'', PromoteCommand_Run l), (''cert'', CertCommand_Run l), (''token'', TokenCommand_Run l),
     (''config'', ConfigCommand_Run l), (''network'', NetworkCommand_Run l), (''version'', \<lambda>_. VersionCommand_Run version build)]"


section \<open>One run is at most one command of the daemon\<close>

text \<open>The command of the client that makes a call; none makes \<^verbatim>\<open>Describe\<close>.\<close>

fun client_of :: "command \<Rightarrow> string" where
  "client_of (CmdJoin _) = ''join''"
| "client_of CmdLeave = ''leave''"
| "client_of (CmdRemove _) = ''remove''"
| "client_of (CmdCreate _ _) = ''create''"
| "client_of (CmdNewGroup _) = ''groups''"
| "client_of (CmdDeleteGroup _) = ''groups''"
| "client_of (CmdGroupIPAdd _ _) = ''groups''"
| "client_of (CmdGroupIPRemove _ _) = ''groups''"
| "client_of (CmdGroupAssign _ _ _) = ''groups''"
| "client_of (CmdGroupUnassign _ _ _) = ''groups''"
| "client_of CmdGroupList = ''groups''"
| "client_of CmdStatus = ''status''"
| "client_of (CmdPromote _) = ''promote''"
| "client_of (CmdTLS _) = ''cert''"
| "client_of (CmdConfig _ _) = ''config''"
| "client_of CmdToken = ''token''"
| "client_of (CmdNetwork _) = ''network''"
| "client_of (CmdDescribe _) = ''''"

text \<open>The exit code when a call does not reach the daemon.\<close>

definition lost_code :: "string \<Rightarrow> int" where
  "lost_code name = (if name \<in> {''create'', ''cert'', ''token''} then 1 else 0)"

text \<open>What a run shows that makes no call: the usage of the command, or why there is no connection.\<close>

definition refused :: "line \<Rightarrow> string \<Rightarrow> ui list \<Rightarrow> bool" where
  "refused l name us \<longleftrightarrow> HelpOut name \<in> set us \<or> HelpErr name \<in> set us \<or> (\<exists>e. dial_error l = Some e \<and> Err e \<in> set us)"

definition one_call :: "line \<Rightarrow> string \<Rightarrow> terminal \<Rightarrow> int \<Rightarrow> terminal \<Rightarrow> bool" where
  "one_call l name t code u \<longleftrightarrow>
     sent u = sent t \<and> daemon u = daemon t \<and> (\<exists>us. shown u = shown t @ us \<and>
       (if name = ''version'' then code = 0 else code = 1 \<and> refused l name us)) \<or>
     (\<exists>cmd. client_of cmd = name \<and> dial_error l = None \<and> sent u = sent t @ [cmd] \<and>
        (case call_error l of
           Some _ \<Rightarrow> daemon u = daemon t \<and> code = lost_code name
         | None \<Rightarrow> \<exists>resp. run_command cmd (daemon t) = Ret resp (daemon u) \<and>
             code = (if Success resp \<or> cmd = CmdStatus \<or> cmd = CmdGroupList then 0 else 1)))"

definition obeys :: "line \<Rightarrow> string \<Rightarrow> int ctl \<Rightarrow> bool" where
  "obeys l name m \<longleftrightarrow> (\<forall>t code u. m t = Ret code u \<longrightarrow> one_call l name t code u)"

named_theorems obeys_intro "client programs that make at most one call"

lemma tell_run [simp]: "tell us t = Ret () (t\<lparr>shown := shown t @ us\<rparr>)"
  by (simp add: tell_def)

lemma exit_with_run [simp]: "exit_with us code t = Ret code (t\<lparr>shown := shown t @ us\<rparr>)"
  by (simp add: exit_with_def)

lemma obeys_refused: "name \<noteq> ''version'' \<Longrightarrow> refused l name us \<Longrightarrow> obeys l name (exit_with us 1)"
  by (simp add: obeys_def one_call_def)

lemma obeys_exit [obeys_intro]:
  "name \<noteq> ''version'' \<Longrightarrow> obeys l name (usage_error name m)" "name \<noteq> ''version'' \<Longrightarrow> obeys l name (bad_argument name m)"
  unfolding usage_error_def bad_argument_def by (rule obeys_refused; simp add: refused_def)+

lemma obeys_branches [obeys_intro]:
  "obeys l n m \<Longrightarrow> obeys l n k \<Longrightarrow> obeys l n (if b then m else k)"
  "obeys l n m \<Longrightarrow> (\<And>y. obeys l n (f y)) \<Longrightarrow> obeys l n (case x of None \<Rightarrow> m | Some y \<Rightarrow> f y)"
  by (auto split: option.split)

lemma obeys_flags [obeys_intro]:
  "name \<noteq> ''version'' \<Longrightarrow> (\<And>opt cmds. obeys l name (k opt cmds)) \<Longrightarrow> obeys l name (with_flags name d args k)"
  unfolding with_flags_def by (auto intro!: obeys_refused simp: refused_def split: option.split)

lemma obeys_dialled [obeys_intro]:
  "name \<noteq> ''version'' \<Longrightarrow> (dial_error l = None \<Longrightarrow> obeys l name k) \<Longrightarrow> obeys l name (dialled l msg k)"
  unfolding dialled_def by (auto intro!: obeys_refused simp: refused_def split: option.split)

lemma report_run:
  "\<exists>us. report cross detail code r t = Ret (case r of Inl _ \<Rightarrow> code | Inr resp \<Rightarrow> if Success resp then 0 else 1) (t\<lparr>shown := shown t @ us\<rparr>)"
  by (cases r) (auto simp: report_def)

lemma call_run:
  "call l cmd m t = Ret r u \<Longrightarrow> sent u = sent t @ [cmd] \<and>
     (case r of Inl e \<Rightarrow> call_error l = Some e \<and> daemon u = daemon t
      | Inr x \<Rightarrow> call_error l = None \<and> m (daemon t) = Ret x (daemon u))"
  by (auto simp: call_def on_daemon_def split: option.splits outcome.splits)

lemma obeys_report:
  assumes "\<And>r. \<exists>cross detail. f r = report cross detail (lost_code name) r" and "dial_error l = None" and "client_of cmd = name"
    and "cmd \<noteq> CmdStatus" and "cmd \<noteq> CmdGroupList"
  shows "obeys l name (bnd (call l cmd (run_command cmd)) f)"
  unfolding obeys_def
proof (intro allI impI)
  fix t code u
  assume "bnd (call l cmd (run_command cmd)) f t = Ret code u"
  then obtain r v where c: "call l cmd (run_command cmd) t = Ret r v" and f: "f r v = Ret code u" by (auto simp: outcome_bnd_Ret simp del: bnd_run)
  from assms(1) obtain cross detail where "f r = report cross detail (lost_code name) r" by blast
  with f report_run [of cross detail "lost_code name" r v] obtain us where
    "code = (case r of Inl _ \<Rightarrow> lost_code name | Inr resp \<Rightarrow> if Success resp then 0 else 1)" "u = v\<lparr>shown := shown v @ us\<rparr>" by auto
  with call_run [OF c] assms(2-5) show "one_call l name t code u" by (auto simp: one_call_def split: sum.splits)
qed

lemma obeys_lenient [obeys_intro]:
  "dial_error l = None \<Longrightarrow> client_of cmd = name \<Longrightarrow> lost_code name = 0 \<Longrightarrow> cmd \<noteq> CmdStatus \<and> cmd \<noteq> CmdGroupList \<Longrightarrow> obeys l name (call_lenient l cmd)"
  unfolding call_lenient_def by (rule obeys_report) auto

lemma obeys_strict [obeys_intro]:
  "dial_error l = None \<Longrightarrow> client_of cmd = name \<Longrightarrow> lost_code name = 1 \<Longrightarrow> cmd \<noteq> CmdStatus \<and> cmd \<noteq> CmdGroupList \<Longrightarrow> obeys l name (call_strict l cmd)"
  unfolding call_strict_def by (rule obeys_report) auto

lemma obeys_new_group [obeys_intro]: "dial_error l = None \<Longrightarrow> obeys l ''groups'' (GroupsCommand_New l g)"
  unfolding GroupsCommand_New_def by (rule obeys_report) (auto simp: lost_code_def)

lemma obeys_table:
  assumes "cmd = CmdStatus \<or> cmd = CmdGroupList" and "run_command cmd = outcome_of m" and "dial_error l = None"
    and f: "\<And>r. \<exists>us. f r = tell us"
  shows "obeys l (client_of cmd) (thn (bnd (call l cmd m) f) (ret 0))"
  unfolding obeys_def
proof (intro allI impI)
  fix t u and code :: int
  assume "thn (bnd (call l cmd m) f) (ret 0) t = Ret code u"
  then obtain r v where c: "call l cmd m t = Ret r v" and r: "f r v = Ret () u" and "code = 0"
    by (auto simp: outcome_bnd_Ret outcome_thn_Ret simp del: bnd_run thn_run)
  from f obtain us where "f r = tell us" by blast
  with r have "sent u = sent v" "daemon u = daemon v" by auto
  with call_run [OF c] assms(1-3) \<open>code = 0\<close> show "one_call l (client_of cmd) t code u"
    by (cases r) (auto simp: one_call_def outcome_of_def lost_code_def)
qed

lemma obeys_tables [obeys_intro]:
  "dial_error l = None \<Longrightarrow> obeys l ''status'' (thn (drawStatusTable l) (ret 0))"
  "dial_error l = None \<Longrightarrow> obeys l ''groups'' (thn (drawGroupsTable l) (ret 0))"
proof -
  assume d: "dial_error l = None"
  show "obeys l ''status'' (thn (drawStatusTable l) (ret 0))"
    unfolding drawStatusTable_def by (rule obeys_table [of CmdStatus _ l, OF _ _ d, unfolded client_of.simps]) (auto split: sum.splits)
  show "obeys l ''groups'' (thn (drawGroupsTable l) (ret 0))"
    unfolding drawGroupsTable_def by (rule obeys_table [of CmdGroupList _ l, OF _ _ d, unfolded client_of.simps]) (auto split: sum.splits)
qed

lemma obeys_commands:
  "obeys l ''join'' (JoinCommand_Run l args)" "obeys l ''create'' (CreateCommand_Run l args)" "obeys l ''groups'' (GroupsCommand_Run l args)"
  "obeys l ''leave'' (LeaveCommand_Run l args)" "obeys l ''remove'' (RemoveCommand_Run l args)" "obeys l ''status'' (StatusCommand_Run l args)"
  "obeys l ''promote'' (PromoteCommand_Run l args)" "obeys l ''cert'' (CertCommand_Run l args)" "obeys l ''token'' (TokenCommand_Run l args)"
  "obeys l ''config'' (ConfigCommand_Run l args)" "obeys l ''network'' (NetworkCommand_Run l args)" "obeys l ''version'' (VersionCommand_Run v b)"
proof -
  show "obeys l ''version'' (VersionCommand_Run v b)" by (simp add: VersionCommand_Run_def obeys_def one_call_def)
  show "obeys l ''join'' (JoinCommand_Run l args)" "obeys l ''create'' (CreateCommand_Run l args)" "obeys l ''groups'' (GroupsCommand_Run l args)"
    "obeys l ''leave'' (LeaveCommand_Run l args)" "obeys l ''remove'' (RemoveCommand_Run l args)" "obeys l ''status'' (StatusCommand_Run l args)"
    "obeys l ''promote'' (PromoteCommand_Run l args)" "obeys l ''cert'' (CertCommand_Run l args)" "obeys l ''token'' (TokenCommand_Run l args)"
    "obeys l ''config'' (ConfigCommand_Run l args)" "obeys l ''network'' (NetworkCommand_Run l args)"
    unfolding JoinCommand_Run_def CreateCommand_Run_def GroupsCommand_Run_def LeaveCommand_Run_def RemoveCommand_Run_def
      StatusCommand_Run_def PromoteCommand_Run_def CertCommand_Run_def TokenCommand_Run_def ConfigCommand_Run_def
      NetworkCommand_Run_def GroupsCommand_Delete_def GroupsCommand_Add_def GroupsCommand_Remove_def
      GroupsCommand_Assign_def GroupsCommand_Unassign_def
    by (intro obeys_intro; simp add: lost_code_def)+
qed

lemma Commands_obey: "Commands v b l name = Some f \<Longrightarrow> obeys l name (f args)"
  by (auto simp: Commands_def obeys_commands split: if_splits)

text \<open>The call that well-formed arguments ask for. An argument is plain when it cannot be taken for a flag.\<close>

definition plain :: "string \<Rightarrow> bool" where
  "plain s \<longleftrightarrow> length s < 2 \<or> hd s \<noteq> CHR ''-''"

definition asked :: "string \<Rightarrow> string list \<Rightarrow> command option" where
  "asked name args = (case args of
     [] \<Rightarrow> map_of [(''leave'', CmdLeave), (''token'', CmdToken), (''status'', CmdStatus), (''groups'', CmdGroupList)] name
   | [x] \<Rightarrow>
       if \<not> plain x then None
       else if name = ''remove'' then Some (CmdRemove x)
       else if name = ''promote'' then Some (CmdPromote x)
       else if name = ''cert'' then map_option CmdTLS (clean_ip x)
       else if name = ''network'' \<and> x = ''resync'' then Some (CmdNetwork x)
       else None
   | [x, y] \<Rightarrow>
       if \<not> plain x then None
       else if name = ''config'' then Some (CmdConfig x y)
       else if name = ''create'' \<and> IsPort y then map_option (\<lambda>ip. CmdCreate ip y) (clean_ip x)
       else None
   | [n, g, act] \<Rightarrow>
       if name \<noteq> ''groups'' \<or> n \<noteq> ''-name'' \<or> g = '''' then None
       else if act = ''new'' then Some (CmdNewGroup g)
       else if act = ''delete'' then Some (CmdDeleteGroup g)
       else None
   | [n, g, i, ips, act] \<Rightarrow>
       if name \<noteq> ''groups'' \<or> n \<noteq> ''-name'' \<or> g = '''' \<or> i \<noteq> ''-ips'' \<or> ips = '''' then None
       else if act = ''add'' then Some (CmdGroupIPAdd g (split_at (CHR '','') ips))
       else if act = ''remove'' then Some (CmdGroupIPRemove g (split_at (CHR '','') ips))
       else None
   | [n, g, h, node, i, iface, act] \<Rightarrow>
       if name \<noteq> ''groups'' \<or> n \<noteq> ''-name'' \<or> g = '''' \<or> h \<noteq> ''-node'' \<or> node = '''' \<or> i \<noteq> ''-iface'' \<or> iface = '''' then None
       else if act = ''assign'' then Some (CmdGroupAssign g node iface)
       else if act = ''unassign'' then Some (CmdGroupUnassign g node iface)
       else None
   | [b, bip, p, bport, k, token, ip, port] \<Rightarrow>
       if name \<noteq> ''join'' \<or> b \<noteq> ''-bind-ip'' \<or> bip = ''127.0.0.1'' \<or> p \<noteq> ''-bind-port'' \<or> bport = ''1234'' \<or> \<not> IsPort bport \<or> k \<noteq> ''-token'' \<or>
         token = '''' \<or> \<not> plain ip \<or> \<not> IsPort port then None
       else (case (clean_ip bip, clean_ip ip) of
         (Some bindIP, Some joinIP) \<Rightarrow> Some (CmdJoin \<lparr>JoinBindIp = bindIP, JoinBindPort = bport, JoinIp = joinIP, JoinPort = port,
            JoinReplicated = False, JoinConfig = Invalid ''unexpected end of JSON input'', JoinToken = token, JoinUid = ''''\<rparr>)
       | _ \<Rightarrow> None)
   | _ \<Rightarrow> None)"

lemma sent_report: "bnd (call l cmd m) (\<lambda>r. report x (d r) c r) t = Ret code u \<Longrightarrow> sent u = sent t @ [cmd]"
  by (auto simp: call_def on_daemon_def report_def split: option.splits outcome.splits sum.splits if_splits)

lemma sent_calls:
  "call_lenient l cmd t = Ret code u \<Longrightarrow> sent u = sent t @ [cmd]" "call_strict l cmd t = Ret code u \<Longrightarrow> sent u = sent t @ [cmd]"
  "GroupsCommand_New l g t = Ret code u \<Longrightarrow> sent u = sent t @ [CmdNewGroup g]"
  "thn (drawStatusTable l) (ret 0) t = Ret code u \<Longrightarrow> sent u = sent t @ [CmdStatus]"
  "thn (drawGroupsTable l) (ret 0) t = Ret code u \<Longrightarrow> sent u = sent t @ [CmdGroupList]"
proof -
  show "call_lenient l cmd t = Ret code u \<Longrightarrow> sent u = sent t @ [cmd]" "call_strict l cmd t = Ret code u \<Longrightarrow> sent u = sent t @ [cmd]"
    "GroupsCommand_New l g t = Ret code u \<Longrightarrow> sent u = sent t @ [CmdNewGroup g]"
    unfolding call_lenient_def call_strict_def GroupsCommand_New_def by (erule sent_report)+
  show "thn (drawStatusTable l) (ret 0) t = Ret code u \<Longrightarrow> sent u = sent t @ [CmdStatus]"
    "thn (drawGroupsTable l) (ret 0) t = Ret code u \<Longrightarrow> sent u = sent t @ [CmdGroupList]"
    by (auto simp: drawStatusTable_def drawGroupsTable_def call_def on_daemon_def split: option.splits outcome.splits sum.splits)
qed

lemma plain_arguments: "plain x \<Longrightarrow> parse_flags fs (x # xs) = Some (fs, x # xs)"
  by (simp add: plain_def)

lemma valued_flags:
  "map_of fs ''name'' \<noteq> None \<Longrightarrow> parse_flags fs (''-name'' # x # rest) = parse_flags (AList.update ''name'' x fs) rest"
  "map_of fs ''ips'' \<noteq> None \<Longrightarrow> parse_flags fs (''-ips'' # x # rest) = parse_flags (AList.update ''ips'' x fs) rest"
  "map_of fs ''node'' \<noteq> None \<Longrightarrow> parse_flags fs (''-node'' # x # rest) = parse_flags (AList.update ''node'' x fs) rest"
  "map_of fs ''iface'' \<noteq> None \<Longrightarrow> parse_flags fs (''-iface'' # x # rest) = parse_flags (AList.update ''iface'' x fs) rest"
  "map_of fs ''bind-ip'' \<noteq> None \<Longrightarrow> parse_flags fs (''-bind-ip'' # x # rest) = parse_flags (AList.update ''bind-ip'' x fs) rest"
  "map_of fs ''bind-port'' \<noteq> None \<Longrightarrow> parse_flags fs (''-bind-port'' # x # rest) = parse_flags (AList.update ''bind-port'' x fs) rest"
  "map_of fs ''token'' \<noteq> None \<Longrightarrow> parse_flags fs (''-token'' # x # rest) = parse_flags (AList.update ''token'' x fs) rest"
  by (auto simp: flag_parts_def Let_def)

lemma asked_sent:
  assumes "asked name args = Some cmd" and "dial_error l = None" and "Commands v b l name = Some run" and "run args t = Ret code u"
  shows "sent u = sent t @ [cmd]"
proof -
  note runs = JoinCommand_Run_def CreateCommand_Run_def GroupsCommand_Run_def LeaveCommand_Run_def RemoveCommand_Run_def
      StatusCommand_Run_def PromoteCommand_Run_def CertCommand_Run_def TokenCommand_Run_def ConfigCommand_Run_def
      NetworkCommand_Run_def GroupsCommand_Delete_def GroupsCommand_Add_def GroupsCommand_Remove_def
      GroupsCommand_Assign_def GroupsCommand_Unassign_def with_flags_def dialled_def
  have acts: "plain ''new''" "plain ''delete''" "plain ''add''" "plain ''remove''" "plain ''assign''" "plain ''unassign''" "plain ''resync''"
    by (simp_all add: plain_def)
  from assms show ?thesis
    unfolding asked_def Commands_def
    by (auto simp: runs plain_arguments valued_flags acts simp del: parse_flags.simps(2) thn_run dest!: sent_calls split: list.splits if_splits option.splits)
qed

text \<open>\<^bold>\<open>C20.\<close> A run of the command line client makes at most one call, of its own command, and the exit code is fixed in every case. A run that makes none
  leaves the daemon as it was and, but for \<^verbatim>\<open>version\<close>, which exits with code 0, shows its usage or the error of the connection and exits with code 1. When the
  call does not reach the daemon, the daemon stays as it was and the code is 1 for \<^verbatim>\<open>create\<close>, \<^verbatim>\<open>cert\<close> and \<^verbatim>\<open>token\<close> and 0 for all others. When it does,
  the daemon does exactly what the command does, and the code is 0 if it reports success and 1 if not, except for the two commands that show
  a table, which always exit with 0. Well-formed arguments make the call they ask for.\<close>

theorem pulsectl_one_command:
  assumes "Commands version build l name = Some run" and "run args t = Ret code u"
  shows "(sent u = sent t \<and> daemon u = daemon t \<and> (\<exists>us. shown u = shown t @ us \<and>
       (if name = ''version'' then code = 0 else code = 1 \<and> refused l name us)) \<or>
     (\<exists>cmd. client_of cmd = name \<and> dial_error l = None \<and> sent u = sent t @ [cmd] \<and>
        (case call_error l of
           Some _ \<Rightarrow> daemon u = daemon t \<and> code = lost_code name
         | None \<Rightarrow> \<exists>resp. run_command cmd (daemon t) = Ret resp (daemon u) \<and>
             code = (if Success resp \<or> cmd = CmdStatus \<or> cmd = CmdGroupList then 0 else 1)))) \<and>
    (\<forall>cmd. dial_error l = None \<and> asked name args = Some cmd \<longrightarrow> sent u = sent t @ [cmd])"
  using assms(2) Commands_obey [OF assms(1), of args] asked_sent [OF _ _ assms(1,2)]
  unfolding obeys_def one_call_def by blast


definition ex_terminal :: terminal where
  "ex_terminal = \<lparr>daemon = ex_fresh, shown = [], sent = []\<rparr>"

definition ex_line :: "string option \<Rightarrow> line" where
  "ex_line e = \<lparr>dial_error = None, call_error = e\<rparr>"

lemma ex_promote:
  "run_command (CmdPromote ''beta'') ex_fresh = Ret (reply False CLUSTER_REQUIRED_MESSAGE 1) ex_fresh"
  by (simp add: outcome_of_def Cli_Promote_def in_cluster_def ex_fresh_def ClusterCheck_def mlen_def defaultConfig_def
      Response.truncate_def reply_def)

theorem pulsectl_one_command_witness:
  "\<exists>run code u. Commands ''1.0'' ''0123456'' (ex_line None) ''promote'' = Some run \<and> run [''beta''] ex_terminal = Ret code u \<and>
     code = 1 \<and> sent u = [CmdPromote ''beta''] \<and> daemon u = ex_fresh"
proof -
  let ?l = "ex_line None"
  have c: "Commands ''1.0'' ''0123456'' ?l ''promote'' = Some (PromoteCommand_Run ?l)" by (simp add: Commands_def)
  have "\<exists>code u. PromoteCommand_Run ?l [''beta''] ex_terminal = Ret code u \<and> sent u = [CmdPromote ''beta'']"
    using ex_promote by (simp add: PromoteCommand_Run_def with_flags_def dialled_def call_lenient_def call_def on_daemon_def report_def
        ex_line_def ex_terminal_def reply_def del: run_command.simps)
  then obtain code u where r: "PromoteCommand_Run ?l [''beta''] ex_terminal = Ret code u" and s: "sent u = [CmdPromote ''beta'']" by blast
  from pulsectl_one_command [OF c r] s ex_promote have "code = 1" "daemon u = ex_fresh"
    by (auto simp: ex_terminal_def ex_line_def reply_def simp del: run_command.simps)
  with c r s show ?thesis by blast
qed

section \<open>What the join command sends\<close>

lemma clean_ip_parses: "clean_ip ip = Some x \<Longrightarrow> ParseIP x \<noteq> None"
  by (auto simp: clean_ip_def IsIPv6_def IsIPv4_def SanitizeIPv6_def Let_def split: if_splits option.splits)

lemma IsPort_range: "IsPort p \<Longrightarrow> port_in_range p"
  by (auto simp: IsPort_def port_in_range_def split: prod.splits option.splits)

text \<open>The join command sends only requests that it has checked: both addresses parse, both ports are
  between 1 and 65535, so that the daemon does not refuse the bind port, the token is not empty and
  the bind address is not the loopback default.\<close>

theorem join_sends_checked:
  assumes "JoinCommand_Run l args t = Ret code u" and "CmdJoin req \<in> set (sent u)" and "CmdJoin req \<notin> set (sent t)"
  shows "ParseIP (JoinBindIp req) \<noteq> None \<and> ParseIP (JoinIp req) \<noteq> None \<and> port_in_range (JoinBindPort req) \<and>
    port_in_range (JoinPort req) \<and> JoinToken req \<noteq> ''''"
proof (cases "parse_flags [(''bind-ip'', ''127.0.0.1''), (''bind-port'', ''1234''), (''token'', '''')] args")
  case None
  with assms show ?thesis by (auto simp: JoinCommand_Run_def with_flags_def)
next
  case (Some p)
  obtain fs cmds where p: "p = (fs, cmds)" by (cases p)
  from assms Some p show ?thesis
    unfolding JoinCommand_Run_def with_flags_def dialled_def usage_error_def bad_argument_def
    by (auto split: if_split_asm option.split_asm dest!: sent_calls(1) intro: IsPort_range dest: clean_ip_parses)
qed


lemma clean_ip_v4:
  assumes "length f = 4" and "\<forall>x \<in> set f. x < 256"
  shows "clean_ip (v4_string f) = Some (v4_string f)"
proof -
  have "CHR '':'' \<notin> set (v4_string f)" using v4_string_chars [of "CHR '':''" f] by auto
  moreover have "ParseIP (v4_string f) = Some (v4_mapped f)" by (simp add: ParseIP_def ParseAddr_v4 [OF assms])
  ultimately show ?thesis by (simp add: clean_ip_def IsIPv6_def IsIPv4_def To4_mapped [OF assms] remove_all_def Let_def)
qed

lemma ex_join_args:
  "clean_ip ''10.0.0.1'' = Some ''10.0.0.1''" "clean_ip ''10.0.0.2'' = Some ''10.0.0.2''" "IsPort ''8443''"
proof -
  have "v4_string [10, 0, 0, 1] = ''10.0.0.1''" "v4_string [10, 0, 0, 2] = ''10.0.0.2''" by code_simp+
  with clean_ip_v4 [of "[10, 0, 0, 1]"] clean_ip_v4 [of "[10, 0, 0, 2]"]
  show "clean_ip ''10.0.0.1'' = Some ''10.0.0.1''" "clean_ip ''10.0.0.2'' = Some ''10.0.0.2''" by simp_all
  show "IsPort ''8443''" by (simp add: IsPort_def Atoi_def ParseInt_def signed_parse_def ParseUint_def is_digit_def digit_val_def)
qed

theorem join_sends_checked_witness:
  "\<exists>u req. JoinCommand_Run (ex_line (Some ''unavailable''))
       [''-bind-ip'', ''10.0.0.2'', ''--bind-port=8443'', ''-token'', ''t'', ''10.0.0.1'', ''8443''] ex_terminal = Ret 0 u \<and>
     sent u = [CmdJoin req] \<and> JoinIp req = ''10.0.0.1'' \<and> port_in_range (JoinBindPort req) \<and> ParseIP (JoinBindIp req) \<noteq> None"
proof -
  let ?l = "ex_line (Some ''unavailable'')"
  let ?args = "[''-bind-ip'', ''10.0.0.2'', ''--bind-port=8443'', ''-token'', ''t'', ''10.0.0.1'', ''8443'']"
  let ?req = "\<lparr>JoinBindIp = ''10.0.0.2'', JoinBindPort = ''8443'', JoinIp = ''10.0.0.1'', JoinPort = ''8443'',
                  JoinReplicated = False, JoinConfig = Invalid ''unexpected end of JSON input'', JoinToken = ''t'', JoinUid = ''''\<rparr>"
  have "\<exists>u. JoinCommand_Run ?l ?args ex_terminal = Ret 0 u \<and> sent u = [CmdJoin ?req]"
    by (simp add: JoinCommand_Run_def with_flags_def flag_parts_def ex_join_args dialled_def call_lenient_def call_def report_def
        ex_line_def ex_terminal_def Let_def)
  then obtain u where r: "JoinCommand_Run ?l ?args ex_terminal = Ret 0 u" and s: "sent u = [CmdJoin ?req]" by blast
  have "CmdJoin ?req \<in> set (sent u)" "CmdJoin ?req \<notin> set (sent ex_terminal)" using s by (simp_all add: ex_terminal_def)
  from join_sends_checked [OF r this] r s show ?thesis by fastforce
qed

section \<open>An unreachable daemon\<close>

text \<open>When the daemon cannot be reached, the commands that change the cluster still exit with code 0, as if
  they had succeeded; only create, cert and token report the failure.\<close>

theorem unreachable_daemon_exit_zero:
  assumes "dial_error l = None" and "call_error l = Some e"
  shows "(\<exists>u. LeaveCommand_Run l [] t = Ret 0 u \<and> daemon u = daemon t) \<and>
    (\<exists>u. ConfigCommand_Run l [''fo_limit'', ''1''] t = Ret 0 u \<and> daemon u = daemon t) \<and>
    (\<exists>u. PromoteCommand_Run l [''beta''] t = Ret 0 u \<and> daemon u = daemon t) \<and>
    (\<exists>u. GroupsCommand_Run l [''-name'', ''g'', ''delete''] t = Ret 0 u \<and> daemon u = daemon t) \<and>
    (\<exists>u. TokenCommand_Run l [] t = Ret 1 u)"
  using assms by (simp add: LeaveCommand_Run_def ConfigCommand_Run_def PromoteCommand_Run_def GroupsCommand_Run_def
      GroupsCommand_Delete_def TokenCommand_Run_def with_flags_def flag_parts_def Let_def dialled_def call_lenient_def call_strict_def
      call_def report_def)

theorem unreachable_daemon_exit_zero_witness:
  "\<exists>u. LeaveCommand_Run (ex_line (Some ''unavailable'')) [] ex_terminal = Ret 0 u \<and> daemon u = ex_fresh"
  using unreachable_daemon_exit_zero [of "ex_line (Some ''unavailable'')" "''unavailable''" ex_terminal]
  by (auto simp: ex_line_def ex_terminal_def)

end
