(* ===== verification/Usage.thy ===== *)
theory Usage
  imports Pulsectl
begin

text \<open>
  The texts of the command line client: \<^verbatim>\<open>Help\<close> and \<^verbatim>\<open>Synopsis\<close> of every command, and \<^verbatim>\<open>realMain\<close>, which gives its arguments to the
  library \<^verbatim>\<open>mitchellh/cli\<close>; that library is a parameter. The usage line of a command is what an administrator types next, so the
  lemmas say for which commands it names the command it belongs to.
\<close>

section \<open>Texts\<close>

text \<open>A raw string of Go that spans lines, and \<^verbatim>\<open>strings.TrimSpace\<close> on characters below 128.\<close>

definition text_of :: "string list \<Rightarrow> string" where
  "text_of ls = concat (map (\<lambda>l. l @ [CHR 0x0A]) ls)"

definition white_space :: "char \<Rightarrow> bool" where
  "white_space c \<longleftrightarrow> c \<in> {CHR 0x09, CHR 0x0A, CHR 0x0B, CHR 0x0C, CHR 0x0D, CHR 0x20}"

definition TrimSpace :: "string \<Rightarrow> string" where
  "TrimSpace s = rev (dropWhile white_space (rev (dropWhile white_space s)))"

definition JoinCommand_Help :: string where
  "JoinCommand_Help = TrimSpace (text_of [
     '''',
     ''Usage: pulsectl join [bind-ip] [bind-port] [token] <destination IP> <destination port>'',
     ''  Tells a running PulseHA agent to join the cluster'',
     ''  by specifying at least one existing member.'',
     ''Options:'',
     ''  -bind-ip pulse daemon bind address'',
     ''  -bind-port pulse daemon bind  port'',
     ''  -token - unique cluster token''])"

definition JoinCommand_Synopsis :: string where
  "JoinCommand_Synopsis = ''Tell PulseHA to join a cluster''"

definition CreateCommand_Help :: string where
  "CreateCommand_Help = TrimSpace (text_of [
     '''',
     ''Usage: pulsectl create <bind IP> <bind port>'',
     ''  Tells the PulseHA daemon to configure a new cluster.''])"

definition CreateCommand_Synopsis :: string where
  "CreateCommand_Synopsis = ''Tell PulseHA to create new HA cluster''"

definition GroupsCommand_Help :: string where
  "GroupsCommand_Help = TrimSpace (text_of [
     '''',
     ''Usage: pulsectl group [options] (new/delete/add/remove/assign/unassign) ...'',
     ''  Tells a running PulseHA agent to join the cluster'',
     ''  by specifying at least one existing member.'',
     ''Options:'',
     ''  - name - Name of a group.'',
     ''  - ips - Selected floating IPs separated by a comma.'',
     ''  - node - Node hostname.'',
     ''  - iface - Node network interface.''])"

definition GroupsCommand_Synopsis :: string where
  "GroupsCommand_Synopsis = ''Manage floating IP groups''"

definition LeaveCommand_Help :: string where
  "LeaveCommand_Help = TrimSpace (text_of [
     '''',
     ''Usage: pulsectl leave [options] ...'',
     ''  Tells a running PulseHA agent to join the cluster'',
     ''  by specifying at least one existing member.'',
     ''Options:''])"

definition LeaveCommand_Synopsis :: string where
  "LeaveCommand_Synopsis = ''Tell Pulse to create new HA cluster''"

definition RemoveCommand_Help :: string where
  "RemoveCommand_Help = TrimSpace (text_of [
     '''',
     ''Usage: pulsectl remove [hostname] ...'',
     ''  Tells a running PulseHA agent to remove a node from the cluster'',
     ''  by specifying at least one existing member'' @ [CHR 0x27] @ ''s hostname'' @ [CHR 0x27] @ ''.'',
     ''Options:'',
     ''  - hostname - node hostname''])"

definition RemoveCommand_Synopsis :: string where
  "RemoveCommand_Synopsis = ''Remove node from PulseHA cluster''"

definition StatusCommand_Help :: string where
  "StatusCommand_Help = TrimSpace (text_of [
     '''',
     ''Usage: pulsectl status [options] ...'',
     ''Options:''])"

definition StatusCommand_Synopsis :: string where
  "StatusCommand_Synopsis = ''Provides a status overview of your configured cluster''"

definition PromoteCommand_Help :: string where
  "PromoteCommand_Help = TrimSpace (text_of [
     '''',
     ''Usage: pulsectl status [options] ...'',
     ''Options:''])"

definition PromoteCommand_Synopsis :: string where
  "PromoteCommand_Synopsis = ''Promote a passive member/node in the cluster''"

definition CertCommand_Help :: string where
  "CertCommand_Help = TrimSpace (text_of [
     '''',
     ''Usage: pulsectl cert <Bind IP>'',
     ''  Generate new TLS certificates for PulseHA.''])"

definition CertCommand_Synopsis :: string where
  "CertCommand_Synopsis = ''Generate new TLS certificates for PulseHA''"

definition TokenCommand_Help :: string where
  "TokenCommand_Help = TrimSpace (text_of [
     '''',
     ''Usage: pulsectl token'',
     ''  Generates new new cluster token for PulseHA.''])"

definition TokenCommand_Synopsis :: string where
  "TokenCommand_Synopsis = ''Generate new cluster token for PulseHA''"

definition ConfigCommand_Help :: string where
  "ConfigCommand_Help = TrimSpace (text_of [
     '''',
     ''Usage: pulsectl config <key> <new-value> [options] ...'',
     ''  Update pulse config key with a new value defined in the '',
     ''  pulsectl section in the config'',
     ''Options:''])"

definition ConfigCommand_Synopsis :: string where
  "ConfigCommand_Synopsis = ''Manage floating IP groups''"

definition NetworkCommand_Help :: string where
  "NetworkCommand_Help = TrimSpace (text_of [
     '''',
     ''Usage: pulsectl network [options] (resync) ...'',
     ''  Instruct PulseHA to perform particular network related commnads'',
     ''Options:''])"

definition NetworkCommand_Synopsis :: string where
  "NetworkCommand_Synopsis = ''Network related commands''"

definition VersionCommand_Help :: string where
  "VersionCommand_Help = ''''"

definition VersionCommand_Synopsis :: string where
  "VersionCommand_Synopsis = ''Prints the PulseHA version''"

definition DescribeCommand_Help :: string where
  "DescribeCommand_Help = TrimSpace (text_of [
     '''',
     ''Usage: pulsectl cert <Bind IP>'',
     ''  Generate new TLS certificates for PulseHA.''])"

definition DescribeCommand_Synopsis :: string where
  "DescribeCommand_Synopsis = ''Generate new TLS certificates for PulseHA''"

text \<open>The texts of the commands of the table, by the name they are called with.\<close>

definition Help_of :: "string \<Rightarrow> string option" where
  "Help_of = map_of [(''join'', JoinCommand_Help), (''create'', CreateCommand_Help), (''groups'', GroupsCommand_Help),
     (''leave'', LeaveCommand_Help), (''remove'', RemoveCommand_Help), (''status'', StatusCommand_Help), (''promote'', PromoteCommand_Help),
     (''cert'', CertCommand_Help), (''token'', TokenCommand_Help), (''config'', ConfigCommand_Help), (''network'', NetworkCommand_Help),
     (''version'', VersionCommand_Help)]"

definition Synopsis_of :: "string \<Rightarrow> string option" where
  "Synopsis_of = map_of [(''join'', JoinCommand_Synopsis), (''create'', CreateCommand_Synopsis), (''groups'', GroupsCommand_Synopsis),
     (''leave'', LeaveCommand_Synopsis), (''remove'', RemoveCommand_Synopsis), (''status'', StatusCommand_Synopsis), (''promote'', PromoteCommand_Synopsis),
     (''cert'', CertCommand_Synopsis), (''token'', TokenCommand_Synopsis), (''config'', ConfigCommand_Synopsis), (''network'', NetworkCommand_Synopsis),
     (''version'', VersionCommand_Synopsis)]"

section \<open>Main\<close>

text \<open>\<^verbatim>\<open>realMain\<close>. \<open>run\<close> is \<^verbatim>\<open>CLI.Run\<close> of the library on the table of commands; its result is an exit code and an error.\<close>

definition realMain :: "(string list \<Rightarrow> (int \<times> string option) ctl) \<Rightarrow> string list \<Rightarrow> int ctl" where
  "realMain run args = bnd (run (version_args args)) (\<lambda>(exitCode, err). case err of
     Some e \<Rightarrow> exit_with [Err (''Error executing CLI: '' @ e)] 1
   | None \<Rightarrow> ret exitCode)"

text \<open>What the library documents: the first argument that is the name of a command runs it with the rest, unless help is asked for.\<close>

definition asks_help :: "string list \<Rightarrow> bool" where
  "asks_help args \<longleftrightarrow> set args \<inter> {''-h'', ''-help'', ''--help''} \<noteq> {}"

definition dispatches :: "string \<Rightarrow> string \<Rightarrow> line \<Rightarrow> (string list \<Rightarrow> (int \<times> string option) ctl) \<Rightarrow> bool" where
  "dispatches version build l run \<longleftrightarrow> (\<forall>name rest f. Commands version build l name = Some f \<and> \<not> asks_help rest \<longrightarrow>
     run (name # rest) = bnd (f rest) (\<lambda>code. ret (code, None)))"

lemma dispatches_possible: "dispatches v b l (\<lambda>args. case args of
    [] \<Rightarrow> ret (1, Some ''no command'')
  | name # rest \<Rightarrow> (case Commands v b l name of None \<Rightarrow> ret (127, None) | Some f \<Rightarrow> bnd (f rest) (\<lambda>code. ret (code, None))))"
  by (simp add: dispatches_def)

section \<open>What the texts say\<close>


definition starts_with :: "string \<Rightarrow> string \<Rightarrow> bool" where
  "starts_with p s \<longleftrightarrow> take (length p) s = p"

lemma help_evaluated:
  "\<forall>c \<in> set [''join'', ''create'', ''leave'', ''remove'', ''status'', ''cert'', ''token'', ''config'', ''network''].
     case Help_of c of None \<Rightarrow> False | Some h \<Rightarrow> starts_with (''Usage: pulsectl '' @ c) h"
  "case Help_of ''promote'' of None \<Rightarrow> False | Some h \<Rightarrow> starts_with ''Usage: pulsectl status '' h"
  "case Help_of ''groups'' of None \<Rightarrow> False | Some h \<Rightarrow> starts_with ''Usage: pulsectl group '' h"
  by code_simp+

text \<open>The usage line of \<^verbatim>\<open>promote\<close> is that of \<^verbatim>\<open>status\<close>, the one of \<^verbatim>\<open>groups\<close> names a command that does not exist, and the command \<^verbatim>\<open>config\<close> has
  the synopsis of \<^verbatim>\<open>groups\<close>; what \<^verbatim>\<open>leave\<close> says of itself is about creating a cluster.\<close>

lemma help_of_another_command:
  "\<exists>h. Help_of ''promote'' = Some h \<and> starts_with ''Usage: pulsectl status '' h"
  "\<exists>h. Help_of ''groups'' = Some h \<and> starts_with ''Usage: pulsectl group '' h" "Commands v b l ''group'' = None"
  "Synopsis_of ''config'' = Synopsis_of ''groups''" "Synopsis_of ''leave'' = Some ''Tell Pulse to create new HA cluster''"
  "DescribeCommand_Help = CertCommand_Help" "DescribeCommand_Synopsis = CertCommand_Synopsis"
proof -
  show "\<exists>h. Help_of ''promote'' = Some h \<and> starts_with ''Usage: pulsectl status '' h"
    "\<exists>h. Help_of ''groups'' = Some h \<and> starts_with ''Usage: pulsectl group '' h"
    using help_evaluated(2,3) by (auto split: option.splits)
qed (simp_all add: Commands_def Synopsis_of_def ConfigCommand_Synopsis_def GroupsCommand_Synopsis_def LeaveCommand_Synopsis_def
    DescribeCommand_Help_def CertCommand_Help_def DescribeCommand_Synopsis_def CertCommand_Synopsis_def)

text \<open>Every command of the table has a help text and a synopsis.\<close>

lemma texts_complete: "Commands v b l c \<noteq> None \<longleftrightarrow> Help_of c \<noteq> None" "Help_of c \<noteq> None \<longleftrightarrow> Synopsis_of c \<noteq> None"
  unfolding Commands_def Help_of_def Synopsis_of_def by (auto split: if_splits)

section \<open>One run of the program\<close>

lemma realMain_runs:
  assumes "dispatches v b l run" and "Commands v b l name = Some f" and "version_args args = name # rest" and "\<not> asks_help rest"
  shows "realMain run args = f rest"
proof
  fix t
  from assms have "run (version_args args) = bnd (f rest) (\<lambda>code. ret (code, None))" by (simp add: dispatches_def)
  then show "realMain run args t = f rest t" by (simp add: realMain_def split: outcome.split)
qed

text \<open>The whole program makes at most one call to the daemon, and a version flag anywhere shows the version without one.\<close>

lemma realMain_one_call:
  assumes "dispatches v b l run" and "Commands v b l name = Some f" and "version_args args = name # rest" and "\<not> asks_help rest"
    and "realMain run args t = Ret code u"
  shows "one_call l name t code u"
  using assms(5) Commands_obey [OF assms(2)] unfolding realMain_runs [OF assms(1-4)] obeys_def by blast

lemma realMain_version:
  assumes "dispatches v b l run" and "''-v'' \<in> set args \<or> ''--version'' \<in> set args" and "\<not> asks_help args"
  shows "realMain run args = VersionCommand_Run v b"
proof -
  have "version_args args = ''version'' # args" using assms(2) by (auto simp: version_args_def)
  from realMain_runs [OF assms(1) _ this assms(3)] show ?thesis by (simp add: Commands_def)
qed

end
