(* ===== verification/Network.thy ===== *)
theory Network
  imports Prelude IpAddr
begin

text \<open>
  The package \<^verbatim>\<open>packages/network/network.go\<close> and the networking plugin \<^verbatim>\<open>plugins/netcore/main.go\<close>,
  which bring floating addresses up and down on the machine. The netlink library is a parameter:
  a record of its calls on a kernel state of any type. Commands that are run through
  \<^verbatim>\<open>utils.Execute\<close> are kept in the order in which they are run; what they answer is an argument.
\<close>

section \<open>The machine\<close>

text \<open>\<open>Slave\<close> says that \<^verbatim>\<open>Attrs().Slave\<close> is not nil; \<open>AddrIP\<close> is the text of \<^verbatim>\<open>addr.IP\<close>.\<close>

record link =
  LinkName :: string
  Slave :: bool

record addr =
  AddrIP :: string
  Label :: string

record ('k, 'a) netlink =
  LinkByName :: "'k \<Rightarrow> string \<Rightarrow> string + link"
  LinkList :: "'k \<Rightarrow> string + link list"
  AddrList :: "'k \<Rightarrow> link \<Rightarrow> string + addr list"
  NlParseAddr :: "string \<Rightarrow> string + 'a"
  AddrAdd :: "'k \<Rightarrow> link \<Rightarrow> 'a \<Rightarrow> string + 'k"
  AddrDel :: "'k \<Rightarrow> link \<Rightarrow> 'a \<Rightarrow> string + 'k"

text \<open>The announcements that the plugin starts with \<^verbatim>\<open>go\<close>.\<close>

datatype announce = SendGARP_task string string | IPv6NDP_task string

record 'k host =
  kernel :: 'k
  commands :: "(string \<times> string list) list"
  announced :: "announce list"

type_synonym exec = "string \<Rightarrow> string list \<Rightarrow> string + string"

section \<open>The network package\<close>

definition Execute :: "exec \<Rightarrow> string \<Rightarrow> string list \<Rightarrow> ('k host, string + string) prog" where
  "Execute exec cmd args = thn (modify (\<lambda>h. h\<lparr>commands := commands h @ [(cmd, args)]\<rparr>)) (ret (exec cmd args))"

definition InterfaceExist :: "('k, 'a) netlink \<Rightarrow> string \<Rightarrow> 'k \<Rightarrow> link option" where
  "InterfaceExist nl name k = (case LinkByName nl k name of Inl _ \<Rightarrow> None | Inr link \<Rightarrow> Some link)"

definition SendGARP :: "('k, 'a) netlink \<Rightarrow> exec \<Rightarrow> string \<Rightarrow> string \<Rightarrow> ('k host, bool) prog" where
  "SendGARP nl exec iface ip = reading (\<lambda>h. InterfaceExist nl iface (kernel h)) (\<lambda>link. case link of
     None \<Rightarrow> crash_with (Fatal ''Unable to GARP as the network interface does not exist! Closing..'')
   | Some _ \<Rightarrow> (case ParseCIDR ip of
       None \<Rightarrow> ret False
     | Some (cidrIP, _) \<Rightarrow> bnd (Execute exec ''arping'' [''-U'', ''-c'', ''5'', ''-I'', iface, IP_String cidrIP]) (\<lambda>res.
         ret (case res of Inl _ \<Rightarrow> False | Inr _ \<Rightarrow> True))))"

definition netInterfaceStatus :: "exec \<Rightarrow> string \<Rightarrow> ('k host, bool) prog" where
  "netInterfaceStatus exec iface = bnd (Execute exec ''cat'' [''/sys/class/net/'' @ iface @ ''/operstate'']) (\<lambda>res.
     ret (case res of Inl _ \<Rightarrow> False | Inr _ \<Rightarrow> True))"

text \<open>\<^verbatim>\<open>CheckIfIPExists\<close> answers whether the address was found, the label of the address, and an error.\<close>

fun check_links :: "('k, 'a) netlink \<Rightarrow> 'k \<Rightarrow> string \<Rightarrow> link list \<Rightarrow> bool \<times> string \<times> string option" where
  "check_links nl k ipAddr [] = (False, '''', None)"
| "check_links nl k ipAddr (link # links) = (case AddrList nl k link of
     Inl err \<Rightarrow> (True, '''', Some err)
   | Inr addrs \<Rightarrow> (case find (\<lambda>a. ipAddr = AddrIP a) addrs of
       Some a \<Rightarrow> (True, Label a, None)
     | None \<Rightarrow> check_links nl k ipAddr links))"

definition CheckIfIPExists :: "('k, 'a) netlink \<Rightarrow> string \<Rightarrow> 'k \<Rightarrow> bool \<times> string \<times> string option" where
  "CheckIfIPExists nl ipAddr k = (case LinkList nl k of
     Inl err \<Rightarrow> (True, '''', Some err)
   | Inr links \<Rightarrow> check_links nl k ipAddr links)"

definition BringIPdown :: "('k, 'a) netlink \<Rightarrow> string \<Rightarrow> string \<Rightarrow> ('k host, string option) prog" where
  "BringIPdown nl iface ip = reading (\<lambda>h. InterfaceExist nl iface (kernel h)) (\<lambda>link. case link of
     None \<Rightarrow> ret (Some ''unable to bring IP down as the network interface does not exist'')
   | Some link \<Rightarrow> (case NlParseAddr nl ip of
       Inl _ \<Rightarrow> ret (Some ''unable to bring IP down because ip address couldn't be parsed'')
     | Inr a \<Rightarrow> reading (\<lambda>h. AddrDel nl (kernel h) link a) (\<lambda>res. case res of
         Inl _ \<Rightarrow> ret (Some (''Unable to bring down ip '' @ ip @ '' on interface '' @ iface @ ''. Perhaps it doesn't exist?''))
       | Inr k \<Rightarrow> thn (modify (\<lambda>h. h\<lparr>kernel := k\<rparr>)) (ret None))))"

text \<open>The text of the IP of a CIDR string; \<^verbatim>\<open>net.IP(nil).String()\<close> is \<^verbatim>\<open><nil>\<close>.\<close>

definition cidr_ip :: "string \<Rightarrow> string" where
  "cidr_ip ip = (case GetCIDR ip of None \<Rightarrow> ''<nil>'' | Some (ipOb, _) \<Rightarrow> IP_String ipOb)"

definition BringIPup :: "('k, 'a) netlink \<Rightarrow> string \<Rightarrow> string \<Rightarrow> ('k host, string option) prog" where
  "BringIPup nl iface ip = reading (\<lambda>h. InterfaceExist nl iface (kernel h)) (\<lambda>link. case link of
     None \<Rightarrow> ret (Some ''unable to bring IP up as the network interface does not exist'')
   | Some link \<Rightarrow> reading (\<lambda>h. CheckIfIPExists nl (cidr_ip ip) (kernel h)) (\<lambda>(exists, eIface, err). case err of
       Some e \<Rightarrow> ret (Some e)
     | None \<Rightarrow>
         thn (if exists then thn (BringIPdown nl eIface ip) skip else skip)
        (case NlParseAddr nl ip of
           Inl _ \<Rightarrow> ret (Some ''unable to bring IP up because ip address couldn't be parsed'')
         | Inr a \<Rightarrow> reading (\<lambda>h. AddrAdd nl (kernel h) link a) (\<lambda>res. case res of
             Inl _ \<Rightarrow> ret (Some ''unable to bring IP up as netlink failed to do so'')
           | Inr k \<Rightarrow> thn (modify (\<lambda>h. h\<lparr>kernel := k\<rparr>)) (ret None)))))"

definition Curl :: "exec \<Rightarrow> string \<Rightarrow> ('k host, bool) prog" where
  "Curl exec httpRequestURL =
     bnd (Execute exec ''curl'' [''-s'', ''-o'', ''/dev/null'', ''-w'', [CHR 0x22] @ ''%{http_code}'' @ [CHR 0x22], httpRequestURL]) (\<lambda>res.
       ret (case res of Inl _ \<Rightarrow> False | Inr output \<Rightarrow> output = [CHR 0x22] @ ''200'' @ [CHR 0x22]))"

text \<open>\<^verbatim>\<open>ICMPv4\<close> runs \<^verbatim>\<open>bash\<close> itself, with the output of the shell only; the command is kept the same way.\<close>

definition ICMPv4 :: "exec \<Rightarrow> string \<Rightarrow> ('k host, string option) prog" where
  "ICMPv4 exec Ipv4Addr =
     bnd (Execute exec ''bash'' [''-c'', ''ping -c 1 -W 1 '' @ Ipv4Addr @ '' &> /dev/null ; echo $?'']) (\<lambda>res.
       ret (case res of
         Inl err \<Rightarrow> Some err
       | Inr out \<Rightarrow> if CHR ''0'' \<notin> set out then Some ''failed to reach host'' else None))"

definition ArpScan :: "exec \<Rightarrow> string \<Rightarrow> ('k host, string) prog" where
  "ArpScan exec addrWSubnet = bnd (Execute exec ''arp-scan'' [''arp-scan'', addrWSubnet]) (\<lambda>res.
     ret (case res of Inl err \<Rightarrow> err | Inr output \<Rightarrow> output))"

definition IPv6NDP :: "exec \<Rightarrow> string \<Rightarrow> ('k host, string) prog" where
  "IPv6NDP exec ipv6Iface = bnd (Execute exec ''ndptool'' [''-t'', ''na'', ''-U'', ''-i'', ipv6Iface]) (\<lambda>res.
     ret (case res of Inl err \<Rightarrow> err | Inr output \<Rightarrow> output))"

definition GetInterfaceNames :: "('k, 'a) netlink \<Rightarrow> ('k host, string list) prog" where
  "GetInterfaceNames nl = reading (\<lambda>h. LinkList nl (kernel h)) (\<lambda>res. case res of
     Inl _ \<Rightarrow> ret []
   | Inr links \<Rightarrow> for_collect links (\<lambda>iface. reading (\<lambda>h. LinkByName nl (kernel h) (LinkName iface)) (\<lambda>res. case res of
       Inl _ \<Rightarrow> crash_with NilDeref
     | Inr intface \<Rightarrow> ret (if Slave intface then [] else [LinkName iface]))))"

section \<open>The netcore plugin\<close>

definition start_announce :: "announce \<Rightarrow> ('k host, unit) prog" where
  "start_announce a = modify (\<lambda>h. h\<lparr>announced := announced h @ [a]\<rparr>)"

definition announce_ip :: "string \<Rightarrow> string \<Rightarrow> announce" where
  "announce_ip iface ip = (if IsIPv6 ip then IPv6NDP_task iface else SendGARP_task iface ip)"

definition netcore_BringUpIPs :: "('k, 'a) netlink \<Rightarrow> string \<Rightarrow> string list \<Rightarrow> ('k host, string option) prog" where
  "netcore_BringUpIPs nl iface ips = for_return ips (\<lambda>ip. bnd (BringIPup nl iface ip) (\<lambda>err. case err of
     Some e \<Rightarrow> ret (Some e)
   | None \<Rightarrow> thn (start_announce (announce_ip iface ip)) (ret None)))"

definition netcore_BringDownIPs :: "('k, 'a) netlink \<Rightarrow> string \<Rightarrow> string list \<Rightarrow> ('k host, string option) prog" where
  "netcore_BringDownIPs nl iface ips =
     thn (for_each ips (\<lambda>ip. thn (BringIPdown nl iface ip) skip)) (ret None)"


section \<open>Which announcement is started\<close>

text \<open>No text with a slash is an IP address.\<close>

lemma v4_loop_slash: "CHR ''/'' \<in> set s \<Longrightarrow> v4_loop s fs val len = None"
  by (induction s fs val len rule: v4_loop.induct) (auto simp: Let_def)

lemma hex_field_rest:
  "hex_field s acc off = Some (v, n, rest) \<Longrightarrow> CHR ''/'' \<in> set s \<Longrightarrow> CHR ''/'' \<in> set rest"
  by (induction s acc off rule: hex_field.induct) (auto simp: hex_val_def Let_def split: if_splits option.splits)

lemma v6_loop_slash:
  "v6_loop n s out ell = Some (out', ell', rest) \<Longrightarrow> CHR ''/'' \<in> set s \<Longrightarrow> CHR ''/'' \<in> set rest"
proof (induction n s out ell rule: v6_loop.induct)
  case (1 s out ell)
  then show ?case by simp
next
  case (2 n s out ell)
  from 2(3) obtain acc off rest0 where h: "hex_field s 0 0 = Some (acc, off, rest0)" by (auto split: option.splits)
  from hex_field_rest [OF h 2(4)] have r: "CHR ''/'' \<in> set rest0" .
  have four: "parseIPv4 s = None" using 2(4) by (simp add: parseIPv4_def v4_loop_slash)
  from r obtain c rest1 where c: "rest0 = c # rest1" by (cases rest0) auto
  from 2(3) h c four have colon: "c = CHR '':''" "rest1 \<noteq> []" by (auto split: if_splits)
  from r c colon have r1: "CHR ''/'' \<in> set rest1" by simp
  then obtain d rest2 where d: "rest1 = d # rest2" by (cases rest1) auto
  show ?case
  proof (cases "d = CHR '':''")
    case True
    with r1 d have "CHR ''/'' \<in> set rest2" by simp
    with 2 h c colon d True show ?thesis by (auto split: if_splits)
  next
    case False
    with 2 h c colon d r1 show ?thesis by (auto split: if_splits)
  qed
qed

lemma slash_after_ellipsis: "CHR ''/'' \<in> set s \<Longrightarrow> take 2 s = ''::'' \<Longrightarrow> CHR ''/'' \<in> set (drop 2 s)"
  by (cases s; cases "tl s") auto

lemma parseIPv6_loop:
  assumes "parseIPv6 s = Some (g, z)"
  shows "z = (CHR ''%'' \<in> set s) \<and>
    (takeWhile (\<lambda>c. c \<noteq> CHR ''%'') s = ''::'' \<or>
     (\<exists>u ell x e. v6_loop 8 u [] ell = Some (x, e, []) \<and>
        (u = takeWhile (\<lambda>c. c \<noteq> CHR ''%'') s \<or>
         take 2 (takeWhile (\<lambda>c. c \<noteq> CHR ''%'') s) = ''::'' \<and> u = drop 2 (takeWhile (\<lambda>c. c \<noteq> CHR ''%'') s))))"
proof -
  define t where "t = takeWhile (\<lambda>c. c \<noteq> CHR ''%'') s"
  obtain u and ell :: "nat option" where u: "(if take 2 t = ''::'' then (drop 2 t, Some 0) else (t, None)) = (u, ell)" by fastforce
  from assms have "z = (CHR ''%'' \<in> set s) \<and> (t = ''::'' \<or> (\<exists>x e. v6_loop 8 u [] ell = Some (x, e, [])))"
    unfolding parseIPv6_def Let_def t_def [symmetric] u
    by (simp split: if_split_asm option.split_asm prod.split_asm)
  with u show ?thesis unfolding t_def [symmetric] by (auto split: if_split_asm)
qed

lemma parseIPv6_slash:
  assumes "CHR ''/'' \<in> set s" and "parseIPv6 s = Some (g, z)"
  shows z
proof (rule ccontr)
  assume "\<not> z"
  with parseIPv6_loop [OF assms(2)] have "CHR ''%'' \<notin> set s" by simp
  then have t: "takeWhile (\<lambda>c. c \<noteq> CHR ''%'') s = s" by (intro takeWhile_eq_all_conv [THEN iffD2]) auto
  from assms(1) have "s \<noteq> ''::''" by auto
  with parseIPv6_loop [OF assms(2)] t obtain u ell x e where l: "v6_loop 8 u [] ell = Some (x, e, [])"
    and "u = s \<or> take 2 s = ''::'' \<and> u = drop 2 s" by auto
  with assms(1) slash_after_ellipsis have "CHR ''/'' \<in> set u" by blast
  with v6_loop_slash [OF l] show False by simp
qed

lemma ParseIP_slash: "CHR ''/'' \<in> set s \<Longrightarrow> ParseIP s = None"
  by (auto simp: ParseIP_def ParseAddr_def parseIPv4_def v4_loop_slash split: option.splits bool.splits dest!: parseIPv6_slash)

lemma announce_cidr: "CHR ''/'' \<in> set ip \<Longrightarrow> announce_ip iface ip = SendGARP_task iface ip"
  by (simp add: announce_ip_def IsIPv6_def Let_def remove_all_def ParseIP_slash)

section \<open>What bringing up does to the addresses of the machine\<close>

text \<open>
  What the plugin relies on: netlink finds a link under its own name and changes no link, adding puts the
  address on the link and changes nothing else, and deleting needs the address to be there and takes it off.
  A deletion can take other addresses of the same interface with it: on Linux those that are secondary to the
  deleted one, unless \<^verbatim>\<open>promote_secondaries\<close> is set. \<open>view\<close> gives the pairs of interface name and address
  that a kernel state holds; \<open>secondary a b\<close> says that \<open>b\<close> can be a secondary address of \<open>a\<close>, being in its
  subnet.
\<close>

definition netlink_ok :: "('k, 'a) netlink \<Rightarrow> ('k \<Rightarrow> (string \<times> 'a) set) \<Rightarrow> ('a \<Rightarrow> 'a \<Rightarrow> bool) \<Rightarrow> bool" where
  "netlink_ok nl view secondary \<longleftrightarrow>
     (\<forall>k n l. LinkByName nl k n = Inr l \<longrightarrow> LinkName l = n) \<and>
     (\<forall>k l a k'. AddrAdd nl k l a = Inr k' \<longrightarrow> view k' = insert (LinkName l, a) (view k) \<and> LinkByName nl k' = LinkByName nl k) \<and>
     (\<forall>k l a k'. AddrDel nl k l a = Inr k' \<longrightarrow> (LinkName l, a) \<in> view k - view k' \<and> view k' \<subseteq> view k \<and>
        (\<forall>(i, b) \<in> view k - view k'. i = LinkName l \<and> (b = a \<or> secondary a b)) \<and> LinkByName nl k' = LinkByName nl k)"

definition parsed :: "('k, 'a) netlink \<Rightarrow> string list \<Rightarrow> 'a set" where
  "parsed nl ips = {a. \<exists>ip \<in> set ips. NlParseAddr nl ip = Inr a}"

text \<open>The addresses that a list has more than once.\<close>

fun repeated :: "('k, 'a) netlink \<Rightarrow> string list \<Rightarrow> 'a \<Rightarrow> bool" where
  "repeated nl [] a = False"
| "repeated nl (ip # ips) a = (repeated nl ips a \<or> NlParseAddr nl ip = Inr a \<and> a \<in> parsed nl ips)"

lemma netlink_okD:
  assumes "netlink_ok nl view secondary"
  shows "LinkByName nl k n = Inr l \<Longrightarrow> LinkName l = n"
    and "AddrAdd nl k l a = Inr k' \<Longrightarrow> view k' = insert (LinkName l, a) (view k) \<and> LinkByName nl k' = LinkByName nl k"
    and "AddrDel nl k l a = Inr k' \<Longrightarrow> (LinkName l, a) \<in> view k \<and> view k' \<subseteq> view k \<and>
        (\<forall>i b. (i, b) \<in> view k \<longrightarrow> (i, b) \<notin> view k' \<longrightarrow> i = LinkName l \<and> (b = a \<or> secondary a b))"
  using assms unfolding netlink_ok_def by blast+

text \<open>The step from \<open>k\<close> to \<open>k'\<close> brings nothing up but the address of \<open>ip\<close>, and what else is gone after it can be
  secondary to that address, which was up.\<close>

definition only_ip :: "('k, 'a) netlink \<Rightarrow> ('k \<Rightarrow> (string \<times> 'a) set) \<Rightarrow> ('a \<Rightarrow> 'a \<Rightarrow> bool) \<Rightarrow> string \<Rightarrow> string \<Rightarrow> 'k \<Rightarrow> 'k \<Rightarrow> bool" where
  "only_ip nl view secondary iface ip k k' \<longleftrightarrow>
     (\<forall>i b. (i, b) \<in> view k' \<longrightarrow> (i, b) \<in> view k \<or> i = iface \<and> NlParseAddr nl ip = Inr b) \<and>
     (\<forall>i b. (i, b) \<in> view k \<longrightarrow> (i, b) \<notin> view k' \<longrightarrow> NlParseAddr nl ip \<noteq> Inr b \<longrightarrow>
        (\<exists>a. NlParseAddr nl ip = Inr a \<and> secondary a b \<and> (i, a) \<in> view k))"

lemma only_ip_refl [simp]: "only_ip nl view secondary iface ip k k"
  by (simp add: only_ip_def)

lemma host_kernel_same [simp]: "h\<lparr>kernel := kernel h\<rparr> = h"
  by simp

lemma BringIPdown_run:
  assumes "netlink_ok nl view secondary"
  shows "\<exists>r k. BringIPdown nl eIface ip h = Ret r (h\<lparr>kernel := k\<rparr>) \<and> only_ip nl view secondary iface ip (kernel h) k \<and> view k \<subseteq> view (kernel h)"
proof (cases "\<exists>l a k. InterfaceExist nl eIface (kernel h) = Some l \<and> NlParseAddr nl ip = Inr a \<and> AddrDel nl (kernel h) l a = Inr k")
  case True
  then obtain l a k where *: "InterfaceExist nl eIface (kernel h) = Some l" "NlParseAddr nl ip = Inr a" "AddrDel nl (kernel h) l a = Inr k" by blast
  have "BringIPdown nl eIface ip h = Ret None (h\<lparr>kernel := k\<rparr>)" using * by (simp add: BringIPdown_def)
  moreover have "only_ip nl view secondary iface ip (kernel h) k" "view k \<subseteq> view (kernel h)"
    using netlink_okD(3) [OF assms *(3)] *(2) by (auto simp: only_ip_def)
  ultimately show ?thesis by blast
next
  case False
  then have "\<exists>r. BringIPdown nl eIface ip h = Ret (Some r) (h\<lparr>kernel := kernel h\<rparr>)"
    by (auto simp: BringIPdown_def split: option.splits sum.splits)
  then obtain r where "BringIPdown nl eIface ip h = Ret (Some r) (h\<lparr>kernel := kernel h\<rparr>)" ..
  then show ?thesis by (intro exI conjI) (assumption, rule only_ip_refl, simp)
qed

lemma take_down_run:
  assumes "netlink_ok nl view secondary"
  shows "\<exists>k. (if found then thn (BringIPdown nl eIface ip) skip else skip) h = Ret () (h\<lparr>kernel := k\<rparr>) \<and>
    only_ip nl view secondary iface ip (kernel h) k \<and> view k \<subseteq> view (kernel h)"
proof (cases found)
  case True
  from BringIPdown_run [OF assms, of eIface ip h iface] obtain r k where "BringIPdown nl eIface ip h = Ret r (h\<lparr>kernel := k\<rparr>)"
    "only_ip nl view secondary iface ip (kernel h) k" "view k \<subseteq> view (kernel h)" by blast
  then show ?thesis using True by (intro exI [of _ k]) simp
next
  case False
  then show ?thesis by (intro exI [of _ "kernel h"]) simp
qed

lemma BringIPup_run:
  assumes "netlink_ok nl view secondary"
  shows "\<exists>r k. BringIPup nl iface ip h = Ret r (h\<lparr>kernel := k\<rparr>) \<and> only_ip nl view secondary iface ip (kernel h) k \<and>
    (r = None \<longrightarrow> (\<exists>a. NlParseAddr nl ip = Inr a \<and> (iface, a) \<in> view k))"
proof -
  obtain found eIface err where c: "CheckIfIPExists nl (cidr_ip ip) (kernel h) = (found, eIface, err)"
    by (cases "CheckIfIPExists nl (cidr_ip ip) (kernel h)")
  obtain k where k: "(if found then thn (BringIPdown nl eIface ip) skip else skip) h = Ret () (h\<lparr>kernel := k\<rparr>)"
    and o: "only_ip nl view secondary iface ip (kernel h) k" and sub: "view k \<subseteq> view (kernel h)" using take_down_run [OF assms] by blast
  consider "InterfaceExist nl iface (kernel h) = None \<or> err \<noteq> None"
    | l a k' where "InterfaceExist nl iface (kernel h) = Some l" "err = None" "NlParseAddr nl ip = Inr a" "AddrAdd nl k l a = Inr k'"
    | l where "InterfaceExist nl iface (kernel h) = Some l" "err = None" "\<nexists>a k'. NlParseAddr nl ip = Inr a \<and> AddrAdd nl k l a = Inr k'"
    by (cases "InterfaceExist nl iface (kernel h)"; cases err) blast+
  then show ?thesis
  proof cases
    case 1
    then have "\<exists>e. BringIPup nl iface ip h = Ret (Some e) (h\<lparr>kernel := kernel h\<rparr>)"
      using c by (cases "InterfaceExist nl iface (kernel h)") (auto simp: BringIPup_def)
    then obtain e where "BringIPup nl iface ip h = Ret (Some e) (h\<lparr>kernel := kernel h\<rparr>)" ..
    then show ?thesis by (intro exI conjI) (assumption, rule only_ip_refl, simp)
  next
    case (2 l a k')
    then have run: "BringIPup nl iface ip h = Ret None (h\<lparr>kernel := k'\<rparr>)" using c k by (simp add: BringIPup_def)
    from 2(1) have "LinkName l = iface" using netlink_okD(1) [OF assms] by (auto simp: InterfaceExist_def split: sum.splits)
    with netlink_okD(2) [OF assms 2(4)] have "view k' = insert (iface, a) (view k)" by simp
    with o sub 2(3) have "(iface, a) \<in> view k'" "only_ip nl view secondary iface ip (kernel h) k'" by (auto simp: only_ip_def)
    with run 2(3) show ?thesis by blast
  next
    case (3 l)
    then have "\<exists>e. BringIPup nl iface ip h = Ret (Some e) (h\<lparr>kernel := k\<rparr>)"
      using c k by (cases "NlParseAddr nl ip"; cases "AddrAdd nl k l (projr (NlParseAddr nl ip))") (auto simp: BringIPup_def)
    with o show ?thesis by blast
  qed
qed


lemma start_announce_run [simp]: "start_announce a h = Ret () (h\<lparr>announced := announced h @ [a]\<rparr>)"
  by (simp add: start_announce_def)

lemma parsed_simps [simp]: "parsed nl [] = {}" "a \<in> parsed nl (ip # ips) \<longleftrightarrow> NlParseAddr nl ip = Inr a \<or> a \<in> parsed nl ips"
  by (auto simp: parsed_def)

text \<open>An address that the loop takes off an interface before it adds it: one that was up there when the loop
  began, or one that the loop has put there itself because the list repeats it.\<close>

definition displaced :: "('k, 'a) netlink \<Rightarrow> ('k \<Rightarrow> (string \<times> 'a) set) \<Rightarrow> string \<Rightarrow> string list \<Rightarrow> 'k host \<Rightarrow> string \<Rightarrow> 'a \<Rightarrow> bool" where
  "displaced nl view iface ips h i c \<longleftrightarrow> c \<in> parsed nl ips \<and> ((i, c) \<in> view (kernel h) \<or> i = iface \<and> repeated nl ips c)"

text \<open>What the loop leaves after \<open>n\<close> addresses were brought up.\<close>

definition brought :: "('k, 'a) netlink \<Rightarrow> ('k \<Rightarrow> (string \<times> 'a) set) \<Rightarrow> ('a \<Rightarrow> 'a \<Rightarrow> bool) \<Rightarrow> string \<Rightarrow> string list \<Rightarrow> 'k host \<Rightarrow>
    string option \<Rightarrow> nat \<Rightarrow> 'k host \<Rightarrow> bool" where
  "brought nl view secondary iface ips h r n h' \<longleftrightarrow> n \<le> length ips \<and> (r = None \<longleftrightarrow> n = length ips) \<and>
     announced h' = announced h @ map (announce_ip iface) (take n ips) \<and>
     (\<forall>ip \<in> set (take n ips). \<exists>a. NlParseAddr nl ip = Inr a \<and>
        ((iface, a) \<in> view (kernel h') \<or> r \<noteq> None \<and> NlParseAddr nl (ips ! n) = Inr a \<or>
         (\<exists>c. c \<noteq> a \<and> secondary c a \<and> displaced nl view iface (take (Suc n) ips) h iface c))) \<and>
     (\<forall>i b. b \<notin> parsed nl (take (Suc n) ips) \<longrightarrow>
        ((i, b) \<in> view (kernel h') \<longrightarrow> (i, b) \<in> view (kernel h)) \<and>
        ((i, b) \<in> view (kernel h) \<longrightarrow> (i, b) \<in> view (kernel h') \<or>
           (\<exists>c. secondary c b \<and> displaced nl view iface (take (Suc n) ips) h i c)))"

lemma displaced_Cons:
  assumes "only_ip nl view secondary iface ip (kernel h) (kernel h1)" and "displaced nl view iface ips h1 i c"
  shows "displaced nl view iface (ip # ips) h i c"
  using assms by (auto simp: displaced_def only_ip_def)

lemma brought_first:
  assumes b: "brought nl view secondary iface ips h1 r n h'" and p: "NlParseAddr nl ip = Inr a" and up: "(iface, a) \<in> view (kernel h1)"
  shows "(iface, a) \<in> view (kernel h') \<or> r \<noteq> None \<and> NlParseAddr nl (ips ! n) = Inr a \<or>
    (\<exists>c. c \<noteq> a \<and> secondary c a \<and> displaced nl view iface (take (Suc n) ips) h1 iface c)"
proof (cases "a \<in> parsed nl (take n ips)")
  case True
  then obtain ip' where ip': "ip' \<in> set (take n ips)" "NlParseAddr nl ip' = Inr a" by (auto simp: parsed_def)
  with b obtain a' where "NlParseAddr nl ip' = Inr a'" "(iface, a') \<in> view (kernel h') \<or> r \<noteq> None \<and> NlParseAddr nl (ips ! n) = Inr a' \<or>
    (\<exists>c. c \<noteq> a' \<and> secondary c a' \<and> displaced nl view iface (take (Suc n) ips) h1 iface c)" unfolding brought_def by blast
  with ip'(2) show ?thesis by simp
next
  case False
  show ?thesis
  proof (cases "r \<noteq> None \<and> NlParseAddr nl (ips ! n) = Inr a")
    case no: False
    have out: "a \<notin> parsed nl (take (Suc n) ips)"
    proof
      assume *: "a \<in> parsed nl (take (Suc n) ips)"
      with False have n: "n < length ips" by (metis not_less take_all le_SucI)
      with * False have "NlParseAddr nl (ips ! n) = Inr a" by (auto simp: parsed_def take_Suc_conv_app_nth)
      with no n b show False by (auto simp: brought_def)
    qed
    with b up have "(iface, a) \<in> view (kernel h') \<or> (\<exists>c. secondary c a \<and> displaced nl view iface (take (Suc n) ips) h1 iface c)"
      by (auto simp: brought_def)
    moreover have "c \<noteq> a" if "displaced nl view iface (take (Suc n) ips) h1 iface c" for c
      using that out by (auto simp: displaced_def)
    ultimately show ?thesis by blast
  qed simp
qed

lemma brought_Cons:
  assumes o: "only_ip nl view secondary iface ip (kernel h) k" and p: "NlParseAddr nl ip = Inr a" and up: "(iface, a) \<in> view k"
    and b: "brought nl view secondary iface ips (h\<lparr>kernel := k, announced := announced h @ [announce_ip iface ip]\<rparr>) r n h'"
  shows "brought nl view secondary iface (ip # ips) h r (Suc n) h'"
proof -
  let ?h = "h\<lparr>kernel := k, announced := announced h @ [announce_ip iface ip]\<rparr>"
  have d: "displaced nl view iface (ip # take (Suc n) ips) h i c" if "displaced nl view iface (take (Suc n) ips) ?h i c" for i c
    using displaced_Cons [of nl view secondary iface ip h ?h] o that by simp
  have da: "displaced nl view iface (ip # take (Suc n) ips) h i a" if "(i, a) \<in> view (kernel h)" for i
    using that p by (simp add: displaced_def)
  have first: "(iface, a) \<in> view (kernel h') \<or> r \<noteq> None \<and> NlParseAddr nl (ips ! n) = Inr a \<or>
      (\<exists>c. c \<noteq> a \<and> secondary c a \<and> displaced nl view iface (ip # take (Suc n) ips) h iface c)"
    using brought_first [OF b p] up d by auto
  have rest: "\<forall>ip' \<in> set (take n ips). \<exists>a'. NlParseAddr nl ip' = Inr a' \<and>
        ((iface, a') \<in> view (kernel h') \<or> r \<noteq> None \<and> NlParseAddr nl (ips ! n) = Inr a' \<or>
         (\<exists>c. c \<noteq> a' \<and> secondary c a' \<and> displaced nl view iface (ip # take (Suc n) ips) h iface c))"
    using b d unfolding brought_def by blast
  have other: "((i, x) \<in> view (kernel h') \<longrightarrow> (i, x) \<in> view (kernel h)) \<and>
      ((i, x) \<in> view (kernel h) \<longrightarrow> (i, x) \<in> view (kernel h') \<or> (\<exists>c. secondary c x \<and> displaced nl view iface (ip # take (Suc n) ips) h i c))"
    if x: "x \<notin> parsed nl (ip # take (Suc n) ips)" for i x
  proof -
    from x p have "x \<notin> parsed nl (take (Suc n) ips)" "NlParseAddr nl ip \<noteq> Inr x" by auto
    with b o have "(i, x) \<in> view (kernel h') \<longrightarrow> (i, x) \<in> view k" "(i, x) \<in> view k \<longrightarrow> (i, x) \<in> view (kernel h)"
      "(i, x) \<in> view k \<longrightarrow> (i, x) \<in> view (kernel h') \<or> (\<exists>c. secondary c x \<and> displaced nl view iface (take (Suc n) ips) ?h i c)"
      "(i, x) \<in> view (kernel h) \<longrightarrow> (i, x) \<notin> view k \<longrightarrow> secondary a x \<and> (i, a) \<in> view (kernel h)"
      using p by (auto simp: brought_def only_ip_def)
    then show ?thesis using d da by blast
  qed
  from b have "n \<le> length ips" "r = None \<longleftrightarrow> n = length ips"
    "announced h' = announced h @ announce_ip iface ip # map (announce_ip iface) (take n ips)" by (simp_all add: brought_def)
  with first rest other p show ?thesis unfolding brought_def by simp
qed

lemma netcore_brought:
  assumes "netlink_ok nl view secondary"
  shows "\<exists>r n h'. netcore_BringUpIPs nl iface ips h = Ret r h' \<and> brought nl view secondary iface ips h r n h'"
proof (induction ips arbitrary: h)
  case Nil
  show ?case by (simp add: netcore_BringUpIPs_def brought_def)
next
  case (Cons ip ips)
  from BringIPup_run [OF assms, of iface ip h] obtain r k where run: "BringIPup nl iface ip h = Ret r (h\<lparr>kernel := k\<rparr>)"
    and o: "only_ip nl view secondary iface ip (kernel h) k" and up: "r = None \<longrightarrow> (\<exists>a. NlParseAddr nl ip = Inr a \<and> (iface, a) \<in> view k)" by blast
  show ?case
  proof (cases r)
    case None
    let ?h = "h\<lparr>kernel := k, announced := announced h @ [announce_ip iface ip]\<rparr>"
    from Cons.IH [of ?h] obtain r' n h' where rest: "netcore_BringUpIPs nl iface ips ?h = Ret r' h'" "brought nl view secondary iface ips ?h r' n h'" by blast
    from rest(1) run None have "netcore_BringUpIPs nl iface (ip # ips) h = Ret r' h'"
      by (simp add: netcore_BringUpIPs_def)
    with up None brought_Cons [OF o _ _ rest(2)] show ?thesis by blast
  next
    case (Some e)
    with run have "netcore_BringUpIPs nl iface (ip # ips) h = Ret (Some e) (h\<lparr>kernel := k\<rparr>)" by (simp add: netcore_BringUpIPs_def)
    moreover have "(\<exists>c. secondary c b \<and> displaced nl view iface [ip] h i c)"
      if "NlParseAddr nl ip \<noteq> Inr b" "(i, b) \<in> view (kernel h)" "(i, b) \<notin> view k" for i b
      using o that unfolding only_ip_def displaced_def by (metis parsed_simps(2))
    with o have "brought nl view secondary iface (ip # ips) h (Some e) 0 (h\<lparr>kernel := k\<rparr>)"
      unfolding brought_def only_ip_def by auto

    ultimately show ?thesis by blast
  qed
qed

text \<open>\<^bold>\<open>C19.\<close> The networking plugin brings up the given addresses one after the other and always returns: it stops
  at the first that fails, reports success exactly when none does, and has announced those before it.
  These are on the interface, and no address outside the list has come up anywhere. An address is
  missing in the end only if the failing call has taken it off, or if it can be secondary to another
  address of the list that was up already (or is listed twice): before the plugin adds such an
  address it deletes it, and Linux may then delete its secondary addresses. If none of the
  addresses was up before, all that were announced are up and nothing else has changed.\<close>

theorem netcore_BringUpIPs_spec:
  assumes "netlink_ok nl view secondary"
  shows "\<exists>r n h'. netcore_BringUpIPs nl iface ips h = Ret r h' \<and> n \<le> length ips \<and> (r = None \<longleftrightarrow> n = length ips) \<and>
     announced h' = announced h @ map (announce_ip iface) (take n ips) \<and>
     (\<forall>ip \<in> set (take n ips). \<exists>a. NlParseAddr nl ip = Inr a \<and>
        ((iface, a) \<in> view (kernel h') \<or> r \<noteq> None \<and> NlParseAddr nl (ips ! n) = Inr a \<or>
         (\<exists>c. c \<noteq> a \<and> secondary c a \<and> displaced nl view iface (take (Suc n) ips) h iface c))) \<and>
     (\<forall>i b. b \<notin> parsed nl (take (Suc n) ips) \<longrightarrow>
        ((i, b) \<in> view (kernel h') \<longrightarrow> (i, b) \<in> view (kernel h)) \<and>
        ((i, b) \<in> view (kernel h) \<longrightarrow> (i, b) \<in> view (kernel h') \<or>
           (\<exists>c. secondary c b \<and> displaced nl view iface (take (Suc n) ips) h i c)))"
  using netcore_brought [OF assms] unfolding brought_def .

text \<open>A machine with two interfaces, whose kernel state is the list of its addresses, the newest first. Of the
  addresses of an interface that agree up to their last dot the oldest is the primary one; deleting it
  deletes the others.\<close>

definition ex_subnet :: "string \<Rightarrow> string" where
  "ex_subnet a = rev (dropWhile (\<lambda>c. c \<noteq> CHR ''.'') (rev a))"

definition ex_AddrDel :: "(string \<times> string) list \<Rightarrow> link \<Rightarrow> string \<Rightarrow> string + (string \<times> string) list" where
  "ex_AddrDel k l a =
     (let same = (\<lambda>(i, b). i = LinkName l \<and> ex_subnet b = ex_subnet a) in
      if (LinkName l, a) \<notin> set k then Inl ''cannot assign requested address''
      else if last (filter same k) = (LinkName l, a) then Inr (filter (\<lambda>x. \<not> same x) k)
      else Inr (filter (\<lambda>x. x \<noteq> (LinkName l, a)) k))"

definition ex_netlink :: "((string \<times> string) list, string) netlink" where
  "ex_netlink = \<lparr>
     LinkByName = (\<lambda>k n. if n \<in> {''eth0'', ''eth1''} then Inr \<lparr>LinkName = n, Slave = False\<rparr> else Inl ''Link not found''),
     LinkList = (\<lambda>k. Inr [\<lparr>LinkName = ''eth0'', Slave = False\<rparr>, \<lparr>LinkName = ''eth1'', Slave = False\<rparr>]),
     AddrList = (\<lambda>k l. Inr (map (\<lambda>(i, a). \<lparr>AddrIP = takeWhile (\<lambda>c. c \<noteq> CHR ''/'') a, Label = i\<rparr>) (filter (\<lambda>(i, a). i = LinkName l) k))),
     NlParseAddr = (\<lambda>s. if CHR ''/'' \<in> set s then Inr s else Inl ''invalid CIDR address''),
     AddrAdd = (\<lambda>k l a. if (LinkName l, a) \<in> set k then Inl ''file exists'' else Inr ((LinkName l, a) # k)),
     AddrDel = ex_AddrDel\<rparr>"

definition ex_host :: "(string \<times> string) list \<Rightarrow> (string \<times> string) list host" where
  "ex_host k = \<lparr>kernel = k, commands = [], announced = []\<rparr>"

definition ex_secondary :: "string \<Rightarrow> string \<Rightarrow> bool" where
  "ex_secondary a b \<longleftrightarrow> ex_subnet b = ex_subnet a"

lemma ex_AddrDel_ok:
  assumes "ex_AddrDel k l a = Inr k'"
  shows "(LinkName l, a) \<in> set k - set k' \<and> set k' \<subseteq> set k \<and>
    (\<forall>(i, b) \<in> set k - set k'. i = LinkName l \<and> (b = a \<or> ex_secondary a b))"
  using assms by (auto simp: ex_AddrDel_def ex_secondary_def Let_def split: if_splits)

lemma ex_netlink_ok: "netlink_ok ex_netlink set ex_secondary"
proof -
  have d: "AddrDel ex_netlink = ex_AddrDel" by (simp add: ex_netlink_def)
  have "\<forall>k l a k'. AddrAdd ex_netlink k l a = Inr k' \<longrightarrow> set k' = insert (LinkName l, a) (set k)" by (simp add: ex_netlink_def)
  moreover have "\<forall>k k'. LinkByName ex_netlink k' = LinkByName ex_netlink k" by (simp add: ex_netlink_def)
  moreover have "\<forall>k n l. LinkByName ex_netlink k n = Inr l \<longrightarrow> LinkName l = n" by (auto simp: ex_netlink_def split: if_splits)
  ultimately show ?thesis unfolding netlink_ok_def d using ex_AddrDel_ok by blast
qed

lemma cidr_ip_v4:
  assumes "length f = 4" and "\<forall>x \<in> set f. x < 256" and "n \<le> 32"
  shows "cidr_ip (v4_string f @ ''/'' @ utoa n) = v4_string f"
  by (simp add: cidr_ip_def GetCIDR_def ValidIPAddress_v4_run [OF assms] IP_String_def To4_mapped [OF assms(1,2)] del: append_Cons)

lemma ex_cidr: "cidr_ip ''10.0.0.9/24'' = ''10.0.0.9''"
proof -
  have "v4_string [10, 0, 0, 9] = ''10.0.0.9''" "utoa 24 = ''24''" by code_simp+
  with cidr_ip_v4 [of "[10, 0, 0, 9]" 24] show ?thesis by simp
qed

text \<open>Two addresses are up on an interface, the second of them primary. Bringing up the primary one again
  succeeds, and the other one is gone.\<close>

theorem netcore_BringUpIPs_spec_witness:
  "\<exists>h'. netcore_BringUpIPs ex_netlink ''eth0'' [''10.0.0.9/24''] (ex_host [(''eth0'', ''10.0.0.7/24''), (''eth0'', ''10.0.0.9/24'')]) = Ret None h' \<and>
     kernel h' = [(''eth0'', ''10.0.0.9/24'')] \<and> announced h' = [SendGARP_task ''eth0'' ''10.0.0.9/24'']"
proof -
  let ?h = "ex_host [(''eth0'', ''10.0.0.7/24''), (''eth0'', ''10.0.0.9/24'')]"
  from netcore_BringUpIPs_spec [OF ex_netlink_ok, of "''eth0''" "[''10.0.0.9/24'']" ?h]
  obtain r n h' where *: "netcore_BringUpIPs ex_netlink ''eth0'' [''10.0.0.9/24''] ?h = Ret r h'" "r = None \<longleftrightarrow> n = Suc 0"
    "announced h' = announced ?h @ map (announce_ip ''eth0'') (take n [''10.0.0.9/24''])" by auto
  have "netcore_BringUpIPs ex_netlink ''eth0'' [''10.0.0.9/24''] ?h =
      Ret None \<lparr>kernel = [(''eth0'', ''10.0.0.9/24'')], commands = [], announced = [announce_ip ''eth0'' ''10.0.0.9/24'']\<rparr>"
    by (simp add: netcore_BringUpIPs_def BringIPup_def InterfaceExist_def CheckIfIPExists_def ex_cidr
        ex_host_def, simp add: ex_netlink_def ex_AddrDel_def ex_subnet_def BringIPdown_def InterfaceExist_def)
  moreover have "announce_ip ''eth0'' ''10.0.0.9/24'' = SendGARP_task ''eth0'' ''10.0.0.9/24''" by (rule announce_cidr) simp
  ultimately show ?thesis using * by (auto simp: ex_host_def)
qed

text \<open>The plugin never announces an IPv6 address by neighbour discovery: netlink accepts only addresses
  in CIDR notation, and the plugin asks whether the whole CIDR text is an IPv6 address, which no
  such text is. Every address that it brings up is announced by ARP.\<close>

theorem netcore_announces_by_arp:
  assumes "netlink_ok nl view secondary" and "\<forall>s a. NlParseAddr nl s = Inr a \<longrightarrow> CHR ''/'' \<in> set s"
  shows "\<exists>r h' n. netcore_BringUpIPs nl iface ips h = Ret r h' \<and> (r = None \<longleftrightarrow> n = length ips) \<and>
    announced h' = announced h @ map (SendGARP_task iface) (take n ips)"
proof -
  from netcore_brought [OF assms(1)] obtain r n h' where run: "netcore_BringUpIPs nl iface ips h = Ret r h'"
    and b: "brought nl view secondary iface ips h r n h'" by blast
  from b assms(2) have "\<forall>ip \<in> set (take n ips). CHR ''/'' \<in> set ip" by (auto simp: brought_def)
  then have "map (announce_ip iface) (take n ips) = map (SendGARP_task iface) (take n ips)" by (auto intro: announce_cidr)
  with run b show ?thesis by (auto simp: brought_def)
qed

theorem netcore_announces_by_arp_witness:
  "\<exists>h'. netcore_BringUpIPs ex_netlink ''eth0'' [''fd00::1/64''] (ex_host []) = Ret None h' \<and>
     announced h' = [SendGARP_task ''eth0'' ''fd00::1/64'']"
proof -
  have slash: "\<forall>s a. NlParseAddr ex_netlink s = Inr a \<longrightarrow> CHR ''/'' \<in> set s" by (auto simp: ex_netlink_def split: if_splits)
  have "\<exists>h'. netcore_BringUpIPs ex_netlink ''eth0'' [''fd00::1/64''] (ex_host []) = Ret None h'"
    by (simp add: netcore_BringUpIPs_def BringIPup_def InterfaceExist_def CheckIfIPExists_def ex_host_def,
       simp add: ex_netlink_def BringIPdown_def InterfaceExist_def)
  with netcore_announces_by_arp [OF ex_netlink_ok slash, of "''eth0''" "[''fd00::1/64'']" "ex_host []"] show ?thesis
    by (auto simp: ex_host_def)
qed

end
