(* ===== verification/Float64.thy ===== *)
theory Float64
  imports Complex_Main "HOL-Library.Word" "HOL-Library.Log_Nat"
begin

text \<open>
  What the source uses of \<^verbatim>\<open>float64\<close>: the arithmetic of IEEE 754 on values that are not negative, as rational
  numbers, and the conversion to \<^verbatim>\<open>uint\<close>. The result of an operation is the exact one rounded to the nearest
  number with a significand of 53 bits, to an even significand when two are as near. Only numbers below
  \<open>2 ^ 1024\<close> occur, so that nothing rounds to infinity.
\<close>

section \<open>Rounding\<close>

definition nearest_even :: "rat \<Rightarrow> int" where
  "nearest_even q = (let n = \<lfloor>q\<rfloor>; d = q - of_int n in if d < 1 / 2 \<or> d = 1 / 2 \<and> even n then n else n + 1)"

text \<open>The weight of the last bit is \<open>2 ^ shift y\<close> for a number that is \<open>y\<close> times the least one, \<open>2 ^ - 1074\<close>.\<close>

definition least :: nat where
  "least = 1074"

definition shift :: "rat \<Rightarrow> nat" where
  "shift y = floorlog 2 (nat \<lfloor>y\<rfloor>) - 53"

definition float64 :: "rat \<Rightarrow> rat" where
  "float64 q = (let y = q * 2 ^ least; k = shift y in of_int (nearest_even (y / 2 ^ k)) * 2 ^ k / 2 ^ least)"

text \<open>\<^verbatim>\<open>uint(f)\<close> drops the fraction; of a value that no \<^verbatim>\<open>uint\<close> has, the language leaves the result to the
  implementation, and \<open>large\<close> is what it gives.\<close>

definition uint_of_float :: "(rat \<Rightarrow> 64 word) \<Rightarrow> rat \<Rightarrow> 64 word" where
  "uint_of_float large f = (if f < 2 ^ 64 then word_of_int \<lfloor>f\<rfloor> else large f)"

section \<open>Laws of rounding\<close>

lemma nearest_even_mono: "p \<le> q \<Longrightarrow> nearest_even p \<le> nearest_even q"
proof -
  assume le: "p \<le> q"
  then have f: "\<lfloor>p\<rfloor> \<le> \<lfloor>q\<rfloor>" by (rule floor_mono)
  show ?thesis
  proof (cases "\<lfloor>p\<rfloor> = \<lfloor>q\<rfloor>")
    case True
    with le show ?thesis by (auto simp: nearest_even_def Let_def)
  next
    case False
    with f have "\<lfloor>p\<rfloor> + 1 \<le> \<lfloor>q\<rfloor>" by simp
    then show ?thesis by (auto simp: nearest_even_def Let_def)
  qed
qed

lemma nearest_even_of_int [simp]: "nearest_even (of_int n) = n"
  by (simp add: nearest_even_def Let_def)

lemma nearest_evenI:
  assumes "\<bar>q - of_int n\<bar> < 1 / 2 \<or> \<bar>q - of_int n\<bar> = 1 / 2 \<and> even n"
  shows "nearest_even q = n"
proof (cases "of_int n \<le> q")
  case True
  with assms have "\<lfloor>q\<rfloor> = n" by (intro floor_unique) auto
  with True assms show ?thesis by (auto simp: nearest_even_def Let_def)
next
  case False
  with assms have "\<lfloor>q\<rfloor> = n - 1" by (intro floor_unique) (auto simp: abs_if)
  with False assms show ?thesis by (auto simp: nearest_even_def Let_def abs_if)
qed

lemma shift_upper:
  assumes "0 \<le> y"
  shows "y < 2 ^ (53 + shift y)"
proof -
  have "nat \<lfloor>y\<rfloor> < 2 ^ (53 + shift y)"
  proof (cases "nat \<lfloor>y\<rfloor> = 0")
    case False
    then have "nat \<lfloor>y\<rfloor> < 2 ^ floorlog 2 (nat \<lfloor>y\<rfloor>)" using floorlog_bounds [of "nat \<lfloor>y\<rfloor>" 2] by simp
    also have "\<dots> \<le> 2 ^ (53 + shift y)" by (rule power_increasing) (simp_all add: shift_def)
    finally show ?thesis .
  qed (simp add: shift_def)
  then have "\<lfloor>y\<rfloor> < 2 ^ (53 + shift y)" using assms by (simp add: nat_less_iff)
  then show ?thesis by (simp add: floor_less_iff)
qed

lemma shift_lower:
  assumes "0 < shift y"
  shows "2 ^ (52 + shift y) \<le> y"
proof -
  let ?n = "nat \<lfloor>y\<rfloor>"
  from assms have l: "floorlog 2 ?n = 53 + shift y" by (simp add: shift_def)
  then have "0 < ?n" by (metis add_is_0 floorlog_def less_numeral_extra(3) not_gr_zero zero_neq_numeral)
  with floorlog_bounds [of ?n 2] l have "2 ^ (52 + shift y) \<le> ?n" by simp
  then have "2 ^ (52 + shift y) \<le> \<lfloor>y\<rfloor>" by (simp add: le_nat_iff)
  then show ?thesis by (simp add: le_floor_iff)
qed

lemma shift_mono: "0 \<le> y \<Longrightarrow> y \<le> z \<Longrightarrow> shift y \<le> shift z"
  unfolding shift_def by (intro diff_le_mono floorlog_mono nat_mono floor_mono)

definition scaled :: "rat \<Rightarrow> rat" where
  "scaled y = of_int (nearest_even (y / 2 ^ shift y)) * 2 ^ shift y"

lemma float64_scaled: "float64 q = scaled (q * 2 ^ least) / 2 ^ least"
  by (simp add: float64_def scaled_def Let_def)

lemma scaled_upper:
  assumes "0 \<le> y"
  shows "scaled y \<le> 2 ^ (53 + shift y)"
proof -
  from shift_upper [OF assms] have "y / 2 ^ shift y \<le> of_int (2 ^ 53)" by (simp add: power_add divide_le_eq)
  from nearest_even_mono [OF this] have "nearest_even (y / 2 ^ shift y) \<le> 2 ^ 53" unfolding nearest_even_of_int .
  then have "(of_int (nearest_even (y / 2 ^ shift y)) :: rat) \<le> 2 ^ 53"
    by (metis of_int_le_iff of_int_numeral of_int_power)
  then show ?thesis unfolding scaled_def power_add by (intro mult_right_mono) simp_all
qed

lemma scaled_lower:
  assumes "0 < shift y"
  shows "2 ^ (52 + shift y) \<le> scaled y"
proof -
  from shift_lower [OF assms] have "of_int (2 ^ 52) \<le> y / 2 ^ shift y" by (simp add: power_add le_divide_eq)
  from nearest_even_mono [OF this] have "2 ^ 52 \<le> nearest_even (y / 2 ^ shift y)" unfolding nearest_even_of_int .
  then have "2 ^ 52 \<le> (of_int (nearest_even (y / 2 ^ shift y)) :: rat)"
    by (metis of_int_le_iff of_int_numeral of_int_power)
  then show ?thesis unfolding scaled_def power_add by (intro mult_right_mono) simp_all
qed

lemma scaled_mono:
  assumes "0 \<le> y" and "y \<le> z"
  shows "scaled y \<le> scaled z"
proof (cases "shift y = shift z")
  case True
  have "nearest_even (y / 2 ^ shift z) \<le> nearest_even (z / 2 ^ shift z)"
    using assms(2) by (intro nearest_even_mono divide_right_mono) simp_all
  then show ?thesis by (simp add: scaled_def True mult_right_mono)
next
  case False
  with shift_mono [OF assms] have less: "shift y < shift z" by simp
  have "scaled y \<le> 2 ^ (53 + shift y)" by (rule scaled_upper [OF assms(1)])
  also have "\<dots> \<le> 2 ^ (52 + shift z)" using less by (intro power_increasing) simp_all
  also have "\<dots> \<le> scaled z" using less by (intro scaled_lower) simp
  finally show ?thesis .
qed

text \<open>Rounding keeps the order, and keeps every number that has a significand of 53 bits.\<close>

lemma float64_mono: "0 \<le> p \<Longrightarrow> p \<le> q \<Longrightarrow> float64 p \<le> float64 q"
  unfolding float64_scaled by (intro divide_right_mono scaled_mono mult_right_mono mult_nonneg_nonneg) simp_all

lemma float64_exact:
  assumes "m < 2 ^ 53" and "q * 2 ^ least = of_nat m * 2 ^ j"
  shows "float64 q = q"
proof -
  let ?y = "of_nat m * 2 ^ j :: rat"
  have m: "(of_nat m :: rat) < 2 ^ 53" using assms(1) by (metis of_nat_less_iff of_nat_numeral of_nat_power)
  have "shift ?y \<le> j"
  proof (rule ccontr)
    assume "\<not> shift ?y \<le> j"
    then have "(2::rat) ^ (53 + j) \<le> 2 ^ (52 + shift ?y)" by (intro power_increasing) simp_all
    also have "\<dots> \<le> ?y" using \<open>\<not> shift ?y \<le> j\<close> by (intro shift_lower) simp
    also have "?y < 2 ^ 53 * 2 ^ j" using m by (intro mult_strict_right_mono) simp_all
    finally show False by (simp add: power_add)
  qed
  then have "(2::rat) ^ j = 2 ^ (j - shift ?y) * 2 ^ shift ?y" by (simp flip: power_add)
  then obtain d where d: "(2::rat) ^ j = 2 ^ d * 2 ^ shift ?y" by blast
  define k where "k = shift ?y"
  have "?y / 2 ^ k = of_int (int m * 2 ^ d)" unfolding d [folded k_def] by simp
  then have "nearest_even (?y / 2 ^ k) = int m * 2 ^ d" by (simp only: nearest_even_of_int)
  then have "scaled ?y = of_int (int m * 2 ^ d) * 2 ^ k" by (simp only: scaled_def k_def)
  then have "scaled ?y = ?y" unfolding d [folded k_def] by simp

  then have "float64 q = q * 2 ^ least / 2 ^ least" unfolding float64_scaled assms(2) by (rule arg_cong)
  then show ?thesis by simp

qed

text \<open>Whole numbers and fractions with a denominator of 256, as far as they are exact.\<close>

lemma float64_256ths: "n < 2 ^ 53 \<Longrightarrow> float64 (of_nat n / 256) = of_nat n / 256"
proof (rule float64_exact [of n _ "least - 8"])
  have "(2::rat) ^ least = 2 ^ 8 * 2 ^ (least - 8)" by (simp add: least_def flip: power_add)
  then show "of_nat n / 256 * 2 ^ least = (of_nat n :: rat) * 2 ^ (least - 8)" by simp
qed

lemma float64_nat: "n < 2 ^ 53 \<Longrightarrow> float64 (of_nat n * 2 ^ j) = of_nat n * 2 ^ j"
  by (rule float64_exact [of n _ "least + j"]) (simp_all add: power_add)

text \<open>Rounding of a number whose last bit weighs \<open>2 ^ j\<close>.\<close>

lemma float64_value:
  assumes "2 ^ 52 * 2 ^ j \<le> q" and "q < 2 ^ 53 * 2 ^ j"
  shows "float64 q = of_int (nearest_even (q / 2 ^ j)) * 2 ^ j"
proof -
  let ?y = "q * 2 ^ least"
  have lo: "2 ^ (52 + (least + j)) \<le> ?y" and hi: "?y < 2 ^ (53 + (least + j))"
    using mult_right_mono [OF assms(1), of "2 ^ least"] mult_strict_right_mono [OF assms(2), of "2 ^ least"]
    by (simp_all add: power_add mult_ac)
  have "(0::rat) \<le> 2 ^ (52 + (least + j))" by simp
  with lo have "0 \<le> ?y" by (rule order_trans [rotated])
  have "shift ?y = least + j"
  proof (rule antisym)
    show "shift ?y \<le> least + j"
    proof (rule ccontr)
      assume a: "\<not> shift ?y \<le> least + j"
      then have "(2::rat) ^ (53 + (least + j)) \<le> 2 ^ (52 + shift ?y)" by (intro power_increasing) simp_all
      also have "\<dots> \<le> ?y" using a by (intro shift_lower) simp
      finally show False using hi by simp
    qed
    show "least + j \<le> shift ?y"
    proof (rule ccontr)
      assume a: "\<not> least + j \<le> shift ?y"
      have "?y < 2 ^ (53 + shift ?y)" by (rule shift_upper [OF \<open>0 \<le> ?y\<close>])
      also have "\<dots> \<le> 2 ^ (52 + (least + j))" using a by (intro power_increasing) simp_all
      finally show False using lo by simp
    qed
  qed
  then have "?y / 2 ^ shift ?y = q / 2 ^ j" by (simp add: power_add)
  with \<open>shift ?y = least + j\<close> show ?thesis by (simp add: float64_scaled scaled_def power_add)
qed

lemma float64_valueI:
  assumes "2 ^ 52 * 2 ^ j \<le> q" and "q < 2 ^ 53 * 2 ^ j"
    and "\<bar>q / 2 ^ j - of_int n\<bar> < 1 / 2 \<or> \<bar>q / 2 ^ j - of_int n\<bar> = 1 / 2 \<and> even n"
  shows "float64 q = of_int n * 2 ^ j"
  using float64_value [OF assms(1,2)] nearest_evenI [OF assms(3)] by simp

end
