(* ===== verification/Serial.thy ===== *)
theory Serial
  imports ConfigStore Float64
begin

text \<open>
  The serial health check plugin: \<^verbatim>\<open>plugins/hcSerial/packages/serial\<close>, which turns connection
  options into the \<^verbatim>\<open>termios2\<close> structure of Linux and opens the port, \<^verbatim>\<open>internal/hcSerial\<close> and
  the plugin itself. Machine integers keep their width: \<^verbatim>\<open>uint\<close> has 64 bits, the flags and
  speeds of the structure 32 and its control characters 8. The system calls are answers of a
  record; the state has the files that were opened, with whether they still are, the \<^verbatim>\<open>ioctl\<close> calls, what was
  written and printed, and the plugin's variable \<^verbatim>\<open>serial\<close>.
\<close>

unbundle bit_operations_syntax

section \<open>Options and structures\<close>

record ConnectionOptions =
  PortName :: string
  BaudRate :: "64 word"
  DataBits :: "64 word"
  StopBits :: "64 word"
  ParityMode :: int
  RTSCTSFlowControl :: bool
  InterCharacterTimeout :: "64 word"
  MinimumReadSize :: "64 word"
  Rs485Enable :: bool
  Rs485RtsHighDuringSend :: bool
  Rs485RtsHighAfterSend :: bool
  Rs485RxDuringTx :: bool
  Rs485DelayRtsBeforeSend :: "64 word"
  Rs485DelayRtsAfterSend :: "64 word"

definition StandardBaudRates :: "64 word list" where
  "StandardBaudRates = [50, 75, 110, 134, 150, 200, 300, 600, 1200, 1800, 2400, 4800, 7200, 9600, 14400, 19200,
     28800, 38400, 57600, 76800, 115200, 230400]"

definition IsStandardBaudRate :: "64 word \<Rightarrow> bool" where
  "IsStandardBaudRate baudRate = (baudRate \<in> set StandardBaudRates)"

record termios2 =
  c_iflag :: "32 word"
  c_oflag :: "32 word"
  c_cflag :: "32 word"
  c_lflag :: "32 word"
  c_line :: "8 word"
  c_cc :: "8 word list"
  c_ispeed :: "32 word"
  c_ospeed :: "32 word"

record serial_rs485 =
  rs485_flags :: "32 word"
  delay_rts_before_send :: "32 word"
  delay_rts_after_send :: "32 word"

text \<open>The constants of the package and, of the \<^verbatim>\<open>syscall\<close> and \<^verbatim>\<open>unix\<close> packages, their values on Linux.
  The delays, of the signed type \<^verbatim>\<open>int\<close>, are kept as the 64 bits that represent them.\<close>

abbreviation CSTOPB :: "32 word" where "CSTOPB \<equiv> 0x40"
abbreviation CREAD :: "32 word" where "CREAD \<equiv> 0x80"
abbreviation PARENB :: "32 word" where "PARENB \<equiv> 0x100"
abbreviation PARODD :: "32 word" where "PARODD \<equiv> 0x200"
abbreviation CLOCAL :: "32 word" where "CLOCAL \<equiv> 0x800"
abbreviation kBOTHER :: "32 word" where "kBOTHER \<equiv> 0x1000"
abbreviation CS5 :: "32 word" where "CS5 \<equiv> 0"
abbreviation CS6 :: "32 word" where "CS6 \<equiv> 0x10"
abbreviation CS7 :: "32 word" where "CS7 \<equiv> 0x20"
abbreviation CS8 :: "32 word" where "CS8 \<equiv> 0x30"
abbreviation CSIZE :: "32 word" where "CSIZE \<equiv> 0x30"
abbreviation CRTSCTS :: "32 word" where "CRTSCTS \<equiv> 0x80000000"
abbreviation VTIME :: nat where "VTIME \<equiv> 5"
abbreviation VMIN :: nat where "VMIN \<equiv> 6"
abbreviation kNCCS :: nat where "kNCCS \<equiv> 19"
abbreviation kTCSETS2 :: nat where "kTCSETS2 \<equiv> 0x402C542B"
abbreviation tIOCSRS485 :: nat where "tIOCSRS485 \<equiv> 0x542F"

section \<open>From options to the structure\<close>

text \<open>\<^verbatim>\<open>round\<close>, and the expression of the timeout, with its floating point operations in their order.\<close>

definition go_round :: "rat \<Rightarrow> rat" where
  "go_round d = of_int \<lfloor>float64 (d + 1 / 2)\<rfloor>"

definition timeout_float :: "64 word \<Rightarrow> rat" where
  "timeout_float t = float64 (go_round (float64 (float64 (of_nat (unat t)) / 100)) * 100)"

definition round_timeout :: "(rat \<Rightarrow> 64 word) \<Rightarrow> 64 word \<Rightarrow> 64 word" where
  "round_timeout large t = uint_of_float large (timeout_float t)"

definition stop_flags :: "64 word \<Rightarrow> string + 32 word" where
  "stop_flags n = (if n = 1 then Inr 0 else if n = 2 then Inr CSTOPB else Inl ''invalid setting for StopBits'')"

definition parity_flags :: "int \<Rightarrow> string + 32 word" where
  "parity_flags p = (if p = 0 then Inr 0 else if p = 1 then Inr (PARENB OR PARODD) else if p = 2 then Inr PARENB
     else Inl ''invalid ParityMode value'')"

definition data_flags :: "64 word \<Rightarrow> string + 32 word" where
  "data_flags n = (if n = 5 then Inr CS5 else if n = 6 then Inr CS6 else if n = 7 then Inr CS7 else if n = 8 then Inr CS8
     else Inl ''invalid DataBits value'')"

definition getTermios2 :: "(rat \<Rightarrow> 64 word) \<Rightarrow> ConnectionOptions \<Rightarrow> string + termios2" where
  "getTermios2 large opts =
     (let vtime = round_timeout large (InterCharacterTimeout opts); vmin = MinimumReadSize opts in
      if vmin = 0 \<and> vtime < 100 then Inl ''invalid values for InterCharacterTimeout and MinimumReadSize''
      else if vtime > 25500 then Inl ''invalid value for InterCharacterTimeout''
      else case stop_flags (StopBits opts) of Inl e \<Rightarrow> Inl e | Inr s \<Rightarrow>
       (case parity_flags (ParityMode opts) of Inl e \<Rightarrow> Inl e | Inr p \<Rightarrow>
       (case data_flags (DataBits opts) of Inl e \<Rightarrow> Inl e | Inr d \<Rightarrow>
          Inr \<lparr>c_iflag = 0, c_oflag = 0,
            c_cflag = (CLOCAL OR CREAD OR kBOTHER) OR s OR p OR d OR (if RTSCTSFlowControl opts then CRTSCTS else 0),
            c_lflag = 0, c_line = 0,
            c_cc = (replicate kNCCS 0)[VTIME := ucast (vtime div 100), VMIN := ucast vmin],
            c_ispeed = ucast (BaudRate opts), c_ospeed = ucast (BaudRate opts)\<rparr>)))"

section \<open>Opening the port\<close>

datatype ioctl_arg = Termios termios2 | Rs485 serial_rs485

text \<open>What the system calls answer: an error of opening the file or of \<^verbatim>\<open>SetNonblock\<close>, for an
  \<^verbatim>\<open>ioctl\<close> its result and its error number, for a read what it gives, and for a write the number of bytes and an error;
  and what the machine gives for a conversion to \<^verbatim>\<open>uint\<close> that the language leaves open.\<close>

record Sys =
  open_file :: "string \<Rightarrow> string option"
  set_nonblock :: "string option"
  ioctl :: "nat \<Rightarrow> ioctl_arg \<Rightarrow> int \<times> string option"
  read_file :: "string + string"
  write_file :: "string \<Rightarrow> nat \<times> string option"
  uint_large :: "rat \<Rightarrow> 64 word"

record port =
  files :: "bool list"
  ioctls :: "(nat \<times> ioctl_arg) list"
  written :: "(nat \<times> string) list"
  printed :: "string list"
  serial :: "nat option"

definition open_files :: "port \<Rightarrow> nat" where
  "open_files s = length (filter id (files s))"

definition call_ioctl :: "Sys \<Rightarrow> nat \<Rightarrow> ioctl_arg \<Rightarrow> string \<Rightarrow> string \<Rightarrow> (port, string option) prog" where
  "call_ioctl sys req arg name unknown =
     thn (modify (\<lambda>s. s\<lparr>ioctls := ioctls s @ [(req, arg)]\<rparr>))
         (ret (case ioctl sys req arg of (r, errno) \<Rightarrow>
            (case errno of Some e \<Rightarrow> Some (name @ '': '' @ e) | None \<Rightarrow> if r \<noteq> 0 then Some unknown else None)))"

definition rs485_of :: "ConnectionOptions \<Rightarrow> serial_rs485" where
  "rs485_of opts = \<lparr>
     rs485_flags = 1 OR (if Rs485RtsHighDuringSend opts then 2 else 0) OR (if Rs485RtsHighAfterSend opts then 4 else 0),
     delay_rts_before_send = ucast (Rs485DelayRtsBeforeSend opts),
     delay_rts_after_send = ucast (Rs485DelayRtsAfterSend opts)\<rparr>"

text \<open>The file that is opened is the next one of the list; on success the function gives it back.\<close>

definition serial_setup :: "Sys \<Rightarrow> ConnectionOptions \<Rightarrow> (port, string + nat) prog" where
  "serial_setup sys opts = (case open_file sys (PortName opts) of
     Some e \<Rightarrow> ret (Inl e)
   | None \<Rightarrow> reading (\<lambda>s. length (files s)) (\<lambda>file. thn (modify (\<lambda>s. s\<lparr>files := files s @ [True]\<rparr>)) (case set_nonblock sys of
       Some e \<Rightarrow> ret (Inl e)
     | None \<Rightarrow> (case getTermios2 (uint_large sys) opts of
         Inl e \<Rightarrow> ret (Inl e)
       | Inr t2 \<Rightarrow> bnd (call_ioctl sys kTCSETS2 (Termios t2) ''SYS_IOCTL'' ''unknown error from SYS_IOCTL'') (\<lambda>err. case err of
           Some e \<Rightarrow> ret (Inl e)
         | None \<Rightarrow> if Rs485Enable opts
             then bnd (call_ioctl sys tIOCSRS485 (Rs485 (rs485_of opts)) ''SYS_IOCTL (RS485)'' ''Unknown error from SYS_IOCTL (RS485)'')
               (\<lambda>err. case err of Some e \<Rightarrow> ret (Inl e) | None \<Rightarrow> ret (Inr file))
             else ret (Inr file))))))"

section \<open>The plugin\<close>

definition hc_options :: ConnectionOptions where
  "hc_options = \<lparr>PortName = '''', BaudRate = 9600, DataBits = 0, StopBits = 0, ParityMode = 0, RTSCTSFlowControl = False,
     InterCharacterTimeout = 0, MinimumReadSize = 0, Rs485Enable = False, Rs485RtsHighDuringSend = False,
     Rs485RtsHighAfterSend = False, Rs485RxDuringTx = False, Rs485DelayRtsBeforeSend = 0, Rs485DelayRtsAfterSend = 0\<rparr>"

text \<open>The methods of \<^verbatim>\<open>os.File\<close> that the plugin uses; on a closed file reading and writing only report an error.\<close>

definition ErrClosed :: string where
  "ErrClosed = ''file already closed''"

definition file_open :: "nat \<Rightarrow> port \<Rightarrow> bool" where
  "file_open file s \<longleftrightarrow> file < length (files s) \<and> files s ! file"

definition file_read :: "Sys \<Rightarrow> nat \<Rightarrow> (port, string + string) prog" where
  "file_read sys file = reading (file_open file) (\<lambda>ok. ret (if ok then read_file sys else Inl ErrClosed))"

definition file_write :: "Sys \<Rightarrow> nat \<Rightarrow> string \<Rightarrow> (port, nat \<times> string option) prog" where
  "file_write sys file b = reading (file_open file) (\<lambda>ok.
     if ok then thn (modify (\<lambda>s. s\<lparr>written := written s @ [(file, b)]\<rparr>)) (ret (write_file sys b)) else ret (0, Some ErrClosed))"

definition file_close :: "nat \<Rightarrow> (port, unit) prog" where
  "file_close file = modify (\<lambda>s. s\<lparr>files := (files s)[file := False]\<rparr>)"

definition hex_digit :: "nat \<Rightarrow> char" where
  "hex_digit n = (if n < 10 then digit_char n else char_of (87 + n))"

definition EncodeToString :: "string \<Rightarrow> string" where
  "EncodeToString bs = concat (map (\<lambda>c. [hex_digit (of_char c div 16), hex_digit (of_char c mod 16)]) bs)"

text \<open>The one read of the plugin, into a buffer of 32 bytes.\<close>

definition setupListener :: "Sys \<Rightarrow> nat \<Rightarrow> (port, unit) prog" where
  "setupListener sys file = bnd (file_read sys file) (\<lambda>res. case res of
     Inl err \<Rightarrow> if err \<noteq> ''EOF'' then modify (\<lambda>s. s\<lparr>printed := printed s @ [''Error reading from serial port:  '' @ err]\<rparr>) else skip
   | Inr buf \<Rightarrow> modify (\<lambda>s. s\<lparr>printed := printed s @ [''Rx:  '' @ EncodeToString (take 32 buf)]\<rparr>))"

text \<open>\<^verbatim>\<open>Open\<close>, with its options as an argument: the deferred \<^verbatim>\<open>Close\<close> runs when it returns.\<close>

definition open_with :: "Sys \<Rightarrow> ConnectionOptions \<Rightarrow> (port, string + nat) prog" where
  "open_with sys opts = bnd (serial_setup sys opts) (\<lambda>res. case res of
     Inl e \<Rightarrow> ret (Inl e)
   | Inr s \<Rightarrow> thn (setupListener sys s) (thn (file_close s) (ret (Inr s))))"

definition hcSerial_Open :: "Sys \<Rightarrow> (port, string + nat) prog" where
  "hcSerial_Open sys = open_with sys hc_options"

definition hcSerial_Write :: "Sys \<Rightarrow> nat \<Rightarrow> string \<Rightarrow> (port, nat \<times> string option) prog" where
  "hcSerial_Write sys rwc b = file_write sys rwc b"

text \<open>The default section is an empty struct \<^verbatim>\<open>config.Config\<close>.\<close>

definition hcSerial_default :: plugin_value where
  "hcSerial_default = StructValue (JObject [(''PortName'', JString ''''), (''BaudRate'', JNum 0), (''Weight'', JNum 0)])"

text \<open>The plugin acts on the daemon and on its port.\<close>

definition on_daemon :: "'a go \<Rightarrow> (world \<times> port, 'a) prog" where
  "on_daemon m = (\<lambda>(w, s). case m w of Ret x v \<Rightarrow> Ret x (v, s) | Crash c \<Rightarrow> Crash c)"

definition on_port :: "(port, 'a) prog \<Rightarrow> (world \<times> port, 'a) prog" where
  "on_port m = (\<lambda>(w, s). case m s of Ret x t \<Rightarrow> Ret x (w, t) | Crash c \<Rightarrow> Crash c)"

definition hcSerial_Run :: "Sys \<Rightarrow> (world \<times> port, string option) prog" where
  "hcSerial_Run sys =
     thn (on_daemon (reading (\<lambda>w. GetPluginConfig (DBConfig w) ''PingHC'') (\<lambda>found.
            case found of Inl _ \<Rightarrow> thn (SetPluginConfig ''PingHC'' hcSerial_default) skip | Inr _ \<Rightarrow> skip)))
    (bnd (on_port (hcSerial_Open sys)) (\<lambda>res.
     thn (on_port (modify (\<lambda>s. s\<lparr>serial := (case res of Inr hcs \<Rightarrow> Some hcs | Inl _ \<Rightarrow> None)\<rparr>)))
         (case res of Inl e \<Rightarrow> crash_with (Panic e) | Inr _ \<Rightarrow> ret None)))"

definition hcSerial_Send :: "Sys \<Rightarrow> (port, string option) prog" where
  "hcSerial_Send sys = reading serial (\<lambda>hs. case hs of
     None \<Rightarrow> crash_with NilDeref
   | Some rwc \<Rightarrow> thn (hcSerial_Write sys rwc ''pulseha'') (ret None))"


section \<open>What the structure says\<close>

text \<open>The least timeout whose floating point value no \<^verbatim>\<open>uint\<close> has.\<close>

abbreviation too_long :: nat where "too_long \<equiv> 2 ^ 64 - 1024"

definition valid_options :: "(rat \<Rightarrow> 64 word) \<Rightarrow> ConnectionOptions \<Rightarrow> bool" where
  "valid_options large opts \<longleftrightarrow> StopBits opts \<in> {1, 2} \<and> ParityMode opts \<in> {0, 1, 2} \<and> DataBits opts \<in> {5, 6, 7, 8} \<and>
     (let t = unat (InterCharacterTimeout opts) in
      if t < too_long then t < 25550 \<and> (MinimumReadSize opts \<noteq> 0 \<or> 50 \<le> t)
      else unat (large (2 ^ 64)) \<le> 25500 \<and> (MinimumReadSize opts \<noteq> 0 \<or> 100 \<le> unat (large (2 ^ 64))))"

lemma float64_nonneg: "0 \<le> q \<Longrightarrow> 0 \<le> float64 q"
  using float64_mono [of 0 q] float64_nat [of 0 0] by simp

lemma timeout_float_mono:
  assumes "unat s \<le> unat t"
  shows "timeout_float s \<le> timeout_float t"
proof -
  let ?f = "\<lambda>t :: 64 word. float64 (float64 (of_nat (unat t)) / 100)"
  have f: "0 \<le> float64 (of_nat n)" for n by (intro float64_nonneg of_nat_0_le_iff)
  have nn: "0 \<le> ?f s" by (intro float64_nonneg divide_nonneg_nonneg f) simp
  then have nn2: "0 \<le> float64 (?f s + 1 / 2)" by (intro float64_nonneg) simp
  have "?f s \<le> ?f t" using assms
    by (intro float64_mono divide_right_mono divide_nonneg_nonneg f of_nat_0_le_iff) (simp_all only: of_nat_le_iff zero_le_numeral)
  then have "float64 (?f s + 1 / 2) \<le> float64 (?f t + 1 / 2)" using nn by (intro float64_mono) simp_all
  then show ?thesis unfolding timeout_float_def go_round_def using nn2
    by (intro float64_mono mult_right_mono) (simp_all add: floor_mono)
qed

text \<open>Up to 2 ^ 50 the computation is exact: the nearest multiple of 100, halves up.\<close>

lemma timeout_float_exact:
  assumes "unat t < 2 ^ 50"
  shows "timeout_float t = of_nat ((unat t + 50) div 100 * 100)"
proof -
  define u where "u = unat t"
  define n where "n = (u + 50) div 100"
  have n: "100 * n \<le> u + 50" "u \<le> 100 * n + 49" "n < 2 ^ 44" using assms by (auto simp: n_def u_def)
  define d where "d = float64 (of_nat (u) / 100)"
  have lo: "of_nat (256 * n - 128) / 256 \<le> d"
  proof -
    have "of_nat (256 * n - 128) / 256 \<le> (of_nat (u) / 100 :: rat)"
    proof -
      have "100 * (256 * n - 128) \<le> 256 * u" using n(1) by simp
      then have "of_nat (100 * (256 * n - 128)) \<le> (of_nat (256 * u) :: rat)" by (simp only: of_nat_le_iff)
      then show ?thesis by simp
    qed
    from float64_mono [OF _ this] n(3) show ?thesis by (simp add: d_def float64_256ths)
  qed
  have hi: "d \<le> of_nat (256 * n + 127) / 256"
  proof -
    have "(of_nat (u) / 100 :: rat) \<le> of_nat (256 * n + 127) / 256"
    proof -
      have "256 * u \<le> 100 * (256 * n + 127)" using n(2) by simp
      then have "of_nat (256 * u) \<le> (of_nat (100 * (256 * n + 127)) :: rat)" by (simp only: of_nat_le_iff)
      then show ?thesis by simp

    qed
    from float64_mono [OF _ this] n(3) have "d \<le> float64 (of_nat (256 * n + 127) / 256)" by (simp add: d_def)
    also have "\<dots> = of_nat (256 * n + 127) / 256" using n(3) by (intro float64_256ths) simp
    finally show ?thesis .
  qed
  have "0 \<le> d" by (simp add: d_def float64_nonneg)
  have "of_nat (256 * n) / 256 \<le> float64 (d + 1 / 2)"
  proof -
    have "of_nat (256 * n) / 256 \<le> d + 1 / 2"
      using lo \<open>0 \<le> d\<close> by (cases "n = 0") (simp_all add: of_nat_diff)
    from float64_mono [OF _ this] n(3) float64_256ths [of "256 * n"] show ?thesis by simp
  qed
  moreover have "float64 (d + 1 / 2) \<le> of_nat (256 * n + 255) / 256"
  proof -
    have "d + 1 / 2 \<le> of_nat (256 * n + 255) / 256" using hi by simp
    from float64_mono [OF _ this] \<open>0 \<le> d\<close> n(3) float64_256ths [of "256 * n + 255"] show ?thesis by simp
  qed
  ultimately have "\<lfloor>float64 (d + 1 / 2)\<rfloor> = int n" by (intro floor_unique) simp_all
  then have "timeout_float t = float64 (of_nat (n * 100) * 2 ^ 0)"
    using assms float64_nat [of u 0] unfolding timeout_float_def go_round_def u_def [symmetric] by (simp add: d_def)
  also have "\<dots> = of_nat (n * 100)" using n(3) by (subst float64_nat) simp_all
  finally show ?thesis by (simp only: n_def u_def)
qed

text \<open>Near the end of the range: the last timeout whose value a \<^verbatim>\<open>uint\<close> has, and those after it.\<close>

lemma timeout_float_last:
  "timeout_float (word_of_nat (too_long - 1)) = 2 ^ 64 - 2048"
  "timeout_float (word_of_nat too_long) = 2 ^ 64"
  "timeout_float (word_of_nat (2 ^ 64 - 1)) = 2 ^ 64"
proof -
  have a: "float64 18446744073709550591 = 18446744073709549568"
    using float64_valueI [of 11 18446744073709550591 9007199254740991] by simp
  have b: "float64 (18446744073709549568 / 100) = 184467440737095488"
    using float64_valueI [of 5 "18446744073709549568 / 100" 5764607523034234] by simp
  have c: "go_round 184467440737095488 = 184467440737095488"
    unfolding go_round_def using float64_valueI [of 5 "184467440737095488 + 1 / 2" 5764607523034234] by simp
  have d: "float64 18446744073709548800 = 2 ^ 64 - 2048"
    using float64_valueI [of 11 "18446744073709548800" 9007199254740991] by simp
  have e: "float64 18446744073709550592 = 18446744073709551616" "float64 18446744073709551615 = 18446744073709551616"
    using float64_valueI [of 11 18446744073709550592 9007199254740992] float64_valueI [of 11 18446744073709551615 9007199254740992] by simp_all
  have f: "float64 (18446744073709551616 / 100) = 184467440737095520"
    using float64_valueI [of 5 "18446744073709551616 / 100" 5764607523034235] by simp
  have g: "go_round 184467440737095520 = 184467440737095520"
    unfolding go_round_def using float64_valueI [of 5 "184467440737095520 + 1 / 2" 5764607523034235] by simp
  have h: "float64 18446744073709552000 = 2 ^ 64"
    using float64_valueI [of 12 18446744073709552000 4503599627370496] by simp
  show "timeout_float (word_of_nat (too_long - 1)) = 2 ^ 64 - 2048"
    using a b c d by (simp add: timeout_float_def)
  show "timeout_float (word_of_nat too_long) = 2 ^ 64" "timeout_float (word_of_nat (2 ^ 64 - 1)) = 2 ^ 64"
    using e f g h by (simp_all add: timeout_float_def)
qed

lemma uint_of_small:
  assumes "0 \<le> f" and "f < 2 ^ 64"
  shows "int (unat (uint_of_float large f)) = \<lfloor>f\<rfloor>"
proof -
  have "\<lfloor>f\<rfloor> < 2 ^ 64" using assms(2) by (simp add: floor_less_iff)
  moreover have "0 \<le> \<lfloor>f\<rfloor>" using assms(1) by simp
  ultimately show ?thesis using assms(2) by (simp add: uint_of_float_def unsigned_of_int take_bit_int_eq_self)
qed

lemma round_timeout_small:
  assumes "unat t < 2 ^ 50"
  shows "unat (round_timeout large t) = (unat t + 50) div 100 * 100"
proof -
  let ?n = "(unat t + 50) div 100 * 100"
  have "?n < 2 ^ 64" using assms by simp
  then have "(of_nat ?n :: rat) < 2 ^ 64" by (metis of_nat_less_iff of_nat_numeral of_nat_power)
  then have "int (unat (uint_of_float large (of_nat ?n))) = \<lfloor>of_nat ?n :: rat\<rfloor>" by (intro uint_of_small of_nat_0_le_iff)
  then show ?thesis unfolding round_timeout_def timeout_float_exact [OF assms] by (simp only: floor_of_nat of_nat_eq_iff)
qed

lemma round_timeout_mid:
  assumes "25550 \<le> unat t" and "unat t < too_long"
  shows "25500 < unat (round_timeout large t)"
proof -
  have "timeout_float (word_of_nat 25550) \<le> timeout_float t"
    by (rule timeout_float_mono) (use assms(1) in simp)
  moreover have "timeout_float (word_of_nat 25550) = 25600" by (subst timeout_float_exact) simp_all
  ultimately have lo: "25600 \<le> timeout_float t" by simp
  have "timeout_float t \<le> timeout_float (word_of_nat (too_long - 1))"
    by (rule timeout_float_mono) (use assms(2) in simp)
  then have "timeout_float t < 2 ^ 64" unfolding timeout_float_last(1) by simp
  with lo have "int (unat (round_timeout large t)) = \<lfloor>timeout_float t\<rfloor>" unfolding round_timeout_def by (intro uint_of_small) simp_all
  moreover have "25600 \<le> \<lfloor>timeout_float t\<rfloor>" using lo by (simp add: le_floor_iff)
  ultimately show ?thesis by linarith
qed

lemma round_timeout_large:
  assumes "too_long \<le> unat t"
  shows "round_timeout large t = large (2 ^ 64)"
proof -
  have "unat t < 2 ^ LENGTH(64)" by (rule unsigned_less)
  then have t: "unat t \<le> 2 ^ 64 - 1" by simp
  have "timeout_float (word_of_nat too_long) \<le> timeout_float t"
    by (rule timeout_float_mono) (use assms in simp)
  moreover have "timeout_float t \<le> timeout_float (word_of_nat (2 ^ 64 - 1))"
    by (rule timeout_float_mono) (use t in simp)
  ultimately have "timeout_float t = 2 ^ 64" unfolding timeout_float_last by simp
  then show ?thesis by (simp add: round_timeout_def uint_of_float_def)
qed

lemma timeout_bounds:
  "round_timeout large t < 100 \<longleftrightarrow> (if unat t < too_long then unat t < 50 else unat (large (2 ^ 64)) < 100)"
  "25500 < round_timeout large t \<longleftrightarrow> (if unat t < too_long then 25550 \<le> unat t else 25500 < unat (large (2 ^ 64)))"
proof -
  consider "unat t < 25550" | "25550 \<le> unat t" "unat t < too_long" | "too_long \<le> unat t" by linarith
  then have "(round_timeout large t < 100 \<longleftrightarrow> (if unat t < too_long then unat t < 50 else unat (large (2 ^ 64)) < 100)) \<and>
    (25500 < round_timeout large t \<longleftrightarrow> (if unat t < too_long then 25550 \<le> unat t else 25500 < unat (large (2 ^ 64))))"
  proof cases
    case 1
    with round_timeout_small [of t large] show ?thesis by (simp add: word_less_nat_alt) linarith
  next
    case 2
    with round_timeout_mid [OF 2, of large] show ?thesis by (simp add: word_less_nat_alt)
  next
    case 3
    with round_timeout_large [OF 3, of large] show ?thesis by (simp add: word_less_nat_alt)
  qed
  then show "round_timeout large t < 100 \<longleftrightarrow> (if unat t < too_long then unat t < 50 else unat (large (2 ^ 64)) < 100)"
    "25500 < round_timeout large t \<longleftrightarrow> (if unat t < too_long then 25550 \<le> unat t else 25500 < unat (large (2 ^ 64)))" by blast+
qed

lemma line_flags:
  assumes "stop_flags n = Inr s" and "parity_flags p = Inr q" and "data_flags m = Inr d"
    and "c = (CLOCAL OR CREAD OR kBOTHER) OR s OR q OR d OR (if b then CRTSCTS else 0)"
  shows "(c AND CSTOPB \<noteq> 0 \<longleftrightarrow> n = 2) \<and> (c AND PARENB \<noteq> 0 \<longleftrightarrow> p \<noteq> 0) \<and> (c AND PARODD \<noteq> 0 \<longleftrightarrow> p = 1) \<and>
    c AND CSIZE = d \<and> (c AND CRTSCTS \<noteq> 0 \<longleftrightarrow> b) \<and> c AND kBOTHER \<noteq> 0"
  using assms by (auto simp: stop_flags_def parity_flags_def data_flags_def split: if_splits)

lemma data_flags_value: "data_flags n = Inr d \<Longrightarrow> unat d = 16 * (unat n - 5)"
  by (auto simp: data_flags_def split: if_splits)

lemma flags_ok:
  "(\<exists>s. stop_flags n = Inr s) \<longleftrightarrow> n \<in> {1, 2}" "(\<exists>q. parity_flags p = Inr q) \<longleftrightarrow> p \<in> {0, 1, 2}"
  "(\<exists>d. data_flags m = Inr d) \<longleftrightarrow> m \<in> {5, 6, 7, 8}"
  by (simp_all add: stop_flags_def parity_flags_def data_flags_def)

lemma valid_options_alt:
  "valid_options large opts \<longleftrightarrow> StopBits opts \<in> {1, 2} \<and> ParityMode opts \<in> {0, 1, 2} \<and> DataBits opts \<in> {5, 6, 7, 8} \<and>
     \<not> 25500 < round_timeout large (InterCharacterTimeout opts) \<and>
     \<not> (MinimumReadSize opts = 0 \<and> round_timeout large (InterCharacterTimeout opts) < 100)"
  unfolding timeout_bounds valid_options_def Let_def by (simp add: not_less) (auto simp: not_less)

text \<open>\<^bold>\<open>C29.\<close> Connection options are accepted exactly when the stop bits, the parity, the data bits and the
  timeout are in range and a read has something to wait for. A timeout is rounded in floating point
  to the nearest tenth of a second, exactly as far as it is in range; only of the last 1024 values of
  the type is the rounded value no \<^verbatim>\<open>uint\<close>, and the checks see what the machine converts it to, so that
  such options may be accepted. The structure then says what the options say: each flag is set
  exactly when its option is, the character size and the timeout in tenths of a second are exact, but
  the minimum read size and the speed keep only their low 8 and 32 bits.\<close>

theorem getTermios2_spec:
  "case getTermios2 large opts of
     Inl _ \<Rightarrow> \<not> valid_options large opts
   | Inr t \<Rightarrow> valid_options large opts \<and>
       (c_cflag t AND CSTOPB \<noteq> 0 \<longleftrightarrow> StopBits opts = 2) \<and>
       (c_cflag t AND PARENB \<noteq> 0 \<longleftrightarrow> ParityMode opts \<noteq> 0) \<and> (c_cflag t AND PARODD \<noteq> 0 \<longleftrightarrow> ParityMode opts = 1) \<and>
       unat (c_cflag t AND CSIZE) = 16 * (unat (DataBits opts) - 5) \<and>
       (c_cflag t AND CRTSCTS \<noteq> 0 \<longleftrightarrow> RTSCTSFlowControl opts) \<and> length (c_cc t) = kNCCS \<and>
       unat (c_cc t ! VTIME) = (if unat (InterCharacterTimeout opts) < too_long
         then (unat (InterCharacterTimeout opts) + 50) div 100 else unat (large (2 ^ 64)) div 100) \<and>
       unat (c_cc t ! VMIN) = unat (MinimumReadSize opts) mod 256 \<and>
       unat (c_ispeed t) = unat (BaudRate opts) mod 2 ^ 32 \<and> c_ospeed t = c_ispeed t"
proof (cases "getTermios2 large opts")
  case (Inl e)
  then show ?thesis using flags_ok(1) [of "StopBits opts"] flags_ok(2) [of "ParityMode opts"] flags_ok(3) [of "DataBits opts"]
    by (auto simp: getTermios2_def valid_options_alt Let_def split: if_splits sum.splits)
next
  case (Inr t)
  let ?v = "round_timeout large (InterCharacterTimeout opts)"
  from Inr obtain s q d where f: "stop_flags (StopBits opts) = Inr s" "parity_flags (ParityMode opts) = Inr q" "data_flags (DataBits opts) = Inr d"
    and t: "t = \<lparr>c_iflag = 0, c_oflag = 0,
            c_cflag = (CLOCAL OR CREAD OR kBOTHER) OR s OR q OR d OR (if RTSCTSFlowControl opts then CRTSCTS else 0),
            c_lflag = 0, c_line = 0,
            c_cc = (replicate kNCCS 0)[VTIME := ucast (?v div 100), VMIN := ucast (MinimumReadSize opts)],
            c_ispeed = ucast (BaudRate opts), c_ospeed = ucast (BaudRate opts)\<rparr>"
    and g: "\<not> (MinimumReadSize opts = 0 \<and> ?v < 100)" "\<not> 25500 < ?v"
    by (auto simp: getTermios2_def Let_def split: if_splits sum.splits)
  have ok: "valid_options large opts" using f g flags_ok(1) [of "StopBits opts"] flags_ok(2) [of "ParityMode opts"] flags_ok(3) [of "DataBits opts"]
    by (auto simp: valid_options_alt)
  have "unat ?v div 100 = (if unat (InterCharacterTimeout opts) < too_long
         then (unat (InterCharacterTimeout opts) + 50) div 100 else unat (large (2 ^ 64)) div 100)"
    using g(2) round_timeout_small [of "InterCharacterTimeout opts" large] round_timeout_large [of "InterCharacterTimeout opts" large]
    unfolding timeout_bounds by (cases "unat (InterCharacterTimeout opts) < too_long") simp_all
  moreover have "unat (c_cc t ! VTIME) = unat ?v div 100"
    using g(2) by (simp add: t unsigned_ucast_eq take_bit_eq_mod unat_div word_less_nat_alt)
  ultimately have cc: "unat (c_cc t ! VTIME) = (if unat (InterCharacterTimeout opts) < too_long
         then (unat (InterCharacterTimeout opts) + 50) div 100 else unat (large (2 ^ 64)) div 100)" by simp
  from line_flags [OF f refl, where b = "RTSCTSFlowControl opts"] data_flags_value [OF f(3)] show ?thesis
    unfolding Inr sum.case cc using ok by (simp add: t unsigned_ucast_eq take_bit_eq_mod)
qed

text \<open>On a machine that converts the value to 0, the longest timeout is accepted and sets none.\<close>

lemma longest_timeout_accepted:
  assumes "large (2 ^ 64) = 0" and "StopBits opts = 1" and "ParityMode opts = 0" and "DataBits opts = 8"
    and "MinimumReadSize opts = 1" and "InterCharacterTimeout opts = - 1"
  shows "\<exists>t. getTermios2 large opts = Inr t \<and> unat (c_cc t ! VTIME) = 0"
proof -
  have "round_timeout large (InterCharacterTimeout opts) = 0"
    using round_timeout_large [of "InterCharacterTimeout opts" large] assms(1,6) by (simp add: unsigned_minus_1_eq_mask mask_eq_exp_minus_1)

  then show ?thesis using assms by (simp add: getTermios2_def stop_flags_def parity_flags_def data_flags_def)
qed

section \<open>The plugin cannot start\<close>

lemma hc_options_refused: "getTermios2 large hc_options = Inl ''invalid values for InterCharacterTimeout and MinimumReadSize''"
proof -
  have "round_timeout large 0 < 100" unfolding timeout_bounds by simp
  then show ?thesis by (simp add: getTermios2_def hc_options_def)
qed

lemma hcSerial_Open_fails:
  "\<exists>e. hcSerial_Open sys s = Ret (Inl e) (s\<lparr>files := files s @ (if open_file sys '''' = None then [True] else [])\<rparr>)"
proof -
  have "PortName hc_options = ''''" by (simp add: hc_options_def)
  then show ?thesis
    by (cases "open_file sys ''''"; cases "set_nonblock sys")
      (simp_all add: hcSerial_Open_def open_with_def serial_setup_def hc_options_refused)
qed

text \<open>The serial health check never starts: whatever the system calls answer, opening the port with the
  options that are written into the plugin reports an error, leaves the port open when it could be
  opened, and the plugin then stops the whole daemon in a panic.\<close>

theorem hcSerial_never_starts:
  "(\<exists>e t. hcSerial_Open sys s = Ret (Inl e) t \<and> open_files t = open_files s + (if open_file sys '''' = None then 1 else 0)) \<and>
   (\<exists>c. hcSerial_Run sys (w, s) = Crash c)"
proof -
  obtain e where e: "hcSerial_Open sys s = Ret (Inl e) (s\<lparr>files := files s @ (if open_file sys '''' = None then [True] else [])\<rparr>)"
    using hcSerial_Open_fails by blast
  have "\<exists>c. hcSerial_Run sys (w, s) = Crash c"
    by (simp add: hcSerial_Run_def on_daemon_def on_port_def thn_def bnd_def e crash_with_def modify_def split: outcome.split)
  moreover from e have "\<exists>e t. hcSerial_Open sys s = Ret (Inl e) t \<and> open_files t = open_files s + (if open_file sys '''' = None then 1 else 0)"
    by (simp add: open_files_def)
  ultimately show ?thesis by blast
qed

subsection \<open>Nor could it send\<close>

lemma call_ioctl_files: "call_ioctl sys req arg n u s = Ret x t \<Longrightarrow> files t = files s"
  by (auto simp: call_ioctl_def)

lemma serial_setup_Inr:
  assumes "serial_setup sys opts s = Ret (Inr file) t"
  shows "file = length (files s) \<and> files t = files s @ [True]"
  using assms by (auto simp: serial_setup_def bnd_def split: option.splits sum.splits if_splits outcome.splits dest!: call_ioctl_files)

lemma setupListener_files: "setupListener sys file s = Ret () t \<Longrightarrow> files t = files s"
  by (auto simp: setupListener_def file_read_def split: sum.splits if_splits)

lemma open_with_closed:
  assumes "open_with sys opts s = Ret (Inr file) t"
  shows "\<not> file_open file t \<and> open_files t = open_files s"
proof -
  from assms obtain u v where u: "serial_setup sys opts s = Ret (Inr file) u" and v: "setupListener sys file u = Ret () v"
      and t: "t = v\<lparr>files := (files v)[file := False]\<rparr>"
    by (auto simp: open_with_def file_close_def bnd_def thn_def split: outcome.splits sum.splits)
  from setupListener_files [OF v] serial_setup_Inr [OF u] t show ?thesis by (simp add: file_open_def open_files_def list_update_append)
qed

text \<open>With other options, valid ones, the plugin would still send nothing: a port that was opened is closed
  again by the time the plugin has it, so that writing to it writes nothing and reports an error, which a
  health check drops: it succeeds without having sent anything. Before the plugin has run, a health check
  panics.\<close>

theorem hcSerial_sends_nothing:
  assumes "open_with sys opts s = Ret (Inr file) t"
  shows "hcSerial_Write sys file b t = Ret (0, Some ErrClosed) t \<and>
    hcSerial_Send sys (t\<lparr>serial := Some file\<rparr>) = Ret None (t\<lparr>serial := Some file\<rparr>) \<and>
    hcSerial_Send sys (t\<lparr>serial := None\<rparr>) = Crash NilDeref"
  using open_with_closed [OF assms]
  by (auto simp: hcSerial_Write_def file_write_def hcSerial_Send_def file_open_def)

definition ex_sys :: Sys where
  "ex_sys = \<lparr>open_file = (\<lambda>_. None), set_nonblock = None, ioctl = (\<lambda>_ _. (0, None)), read_file = Inr ''ok'', write_file = (\<lambda>b. (length b, None)),
     uint_large = (\<lambda>_. 0)\<rparr>"

lemma ex_serial_open:
  "\<exists>t. open_with ex_sys (hc_options\<lparr>DataBits := 8, StopBits := 1, MinimumReadSize := 1\<rparr>) \<lparr>files = [], ioctls = [], written = [], printed = [], serial = None\<rparr>
     = Ret (Inr 0) t \<and> printed t = [''Rx:  6f6b''] \<and> hcSerial_Send ex_sys (t\<lparr>serial := Some 0\<rparr>) = Ret None (t\<lparr>serial := Some 0\<rparr>)"
proof -
  have "\<not> 25500 < round_timeout large 0" for large unfolding timeout_bounds by simp
  then show ?thesis
    by (simp add: ex_sys_def hc_options_def open_with_def serial_setup_def call_ioctl_def getTermios2_def stop_flags_def
      parity_flags_def data_flags_def setupListener_def file_read_def file_open_def file_close_def EncodeToString_def hex_digit_def
      digit_char_def char_of_def bit_0 hcSerial_Send_def hcSerial_Write_def file_write_def)
qed


end
