(* ===== verification/HcPing.thy ===== *)
theory HcPing
  imports Network ConfigPkg
begin

text \<open>
  The ping health check plugin, \<^verbatim>\<open>plugins/hcPing\<close>. Its section of the config is an interface value:
  the decoded JSON of the file, or, after the plugin has stored its default, the struct that it
  put there, which is no \<^verbatim>\<open>map[string]interface{}\<close>. Numbers of a section are whole numbers.
\<close>

section \<open>Definitions\<close>

record PingGroup =
  PingGroupName :: string
  PingGroupIps :: "string list"

record PingConfig =
  PingGroups :: "PingGroup list"
  PingWeight :: int
  PingThreshold :: int
  PingFailureCount :: int

definition ping_default :: PingConfig where
  "ping_default = \<lparr>PingGroups = [], PingWeight = 10, PingThreshold = 1, PingFailureCount = 1\<rparr>"

definition ping_group_json :: "PingGroup \<Rightarrow> json" where
  "ping_group_json g = JObject [(''name'', JString (PingGroupName g)), (''ips'', JArray (map JString (PingGroupIps g)))]"

definition ping_json :: "PingConfig \<Rightarrow> json" where
  "ping_json c = JObject [(''groups'', JArray (map ping_group_json (PingGroups c))), (''weight'', JNum (PingWeight c)),
     (''threshold'', JNum (PingThreshold c)), (''failureCount'', JNum (PingFailureCount c))]"

record ping_state =
  ping_section :: "plugin_value option"
  PluginWeight :: int
  Threshold :: int
  FailureCount :: int
  shell :: "unit host"

text \<open>What \<^verbatim>\<open>GetPluginConfig\<close> answers for the section.\<close>

definition get_section :: "ping_state \<Rightarrow> plugin_value option" where
  "get_section s = (if ping_section s = Some (JsonValue JNull) then None else ping_section s)"

text \<open>The type assertions of the plugin; a missing key of a map gives nil, which no assertion accepts.\<close>

fun as_object :: "plugin_value \<Rightarrow> (string \<times> json) list option" where
  "as_object (JsonValue (JObject m)) = Some m"
| "as_object _ = None"

fun as_number :: "json option \<Rightarrow> int option" where
  "as_number (Some (JNum n)) = Some n"
| "as_number _ = None"

fun as_array :: "json option \<Rightarrow> json list option" where
  "as_array (Some (JArray xs)) = Some xs"
| "as_array _ = None"

fun as_string :: "json \<Rightarrow> string option" where
  "as_string (JString s) = Some s"
| "as_string _ = None"

definition assert_type :: "'a option \<Rightarrow> ('a \<Rightarrow> ('s, 'b) prog) \<Rightarrow> ('s, 'b) prog" where
  "assert_type x k = (case x of None \<Rightarrow> crash_with TypeAssertion | Some y \<Rightarrow> k y)"

definition hcPing_Run :: "(ping_state, string option) prog" where
  "hcPing_Run = reading get_section (\<lambda>conf. case conf of
     None \<Rightarrow> thn (modify (\<lambda>s. s\<lparr>ping_section := Some (StructValue (ping_json ping_default))\<rparr>)) (ret None)
   | Some conf \<Rightarrow> assert_type (as_object conf) (\<lambda>confC.
       assert_type (as_number (map_of confC ''weight'')) (\<lambda>weight.
       thn (modify (\<lambda>s. s\<lparr>PluginWeight := weight\<rparr>))
      (assert_type (as_number (map_of confC ''threshold'')) (\<lambda>threshold.
       thn (modify (\<lambda>s. s\<lparr>Threshold := threshold\<rparr>))
      (assert_type (as_number (map_of confC ''failureCount'')) (\<lambda>failureCount.
       thn (modify (\<lambda>s. s\<lparr>FailureCount := failureCount\<rparr>)) (ret None))))))))"

definition on_shell :: "(unit host, 'a) prog \<Rightarrow> (ping_state, 'a) prog" where
  "on_shell m = (\<lambda>s. case m (shell s) of Ret x h \<Rightarrow> Ret x (s\<lparr>shell := h\<rparr>) | Crash c \<Rightarrow> Crash c)"

definition ping_group :: "exec \<Rightarrow> json \<Rightarrow> (ping_state, string option) prog" where
  "ping_group exec grp = assert_type (as_object (JsonValue grp)) (\<lambda>g.
     assert_type (as_array (map_of g ''ips'')) (\<lambda>ips.
     for_return ips (\<lambda>ip. assert_type (as_string ip) (\<lambda>ip. on_shell (ICMPv4 exec ip)))))"

definition hcPing_Send :: "exec \<Rightarrow> (ping_state, string option) prog" where
  "hcPing_Send exec = reading get_section (\<lambda>conf. case conf of
     None \<Rightarrow> ret None
   | Some conf \<Rightarrow> assert_type (as_object conf) (\<lambda>confC.
       assert_type (as_array (map_of confC ''groups'')) (\<lambda>groups. for_return groups (ping_group exec))))"

section \<open>Which hosts are asked\<close>

text \<open>The addresses of a section whose parts all have the types that the plugin asserts.\<close>

definition group_ips :: "json \<Rightarrow> string list option" where
  "group_ips grp = (case as_object (JsonValue grp) of None \<Rightarrow> None | Some g \<Rightarrow> (case as_array (map_of g ''ips'') of
     None \<Rightarrow> None | Some ips \<Rightarrow> those (map as_string ips)))"

definition section_groups :: "json \<Rightarrow> string list list option" where
  "section_groups sec = (case as_object (JsonValue sec) of None \<Rightarrow> None | Some m \<Rightarrow> (case as_array (map_of m ''groups'') of
     None \<Rightarrow> None | Some groups \<Rightarrow> those (map group_ips groups)))"

definition ping_command :: "string \<Rightarrow> string \<times> string list" where
  "ping_command ip = (''bash'', [''-c'', ''ping -c 1 -W 1 '' @ ip @ '' &> /dev/null ; echo $?''])"

definition ping_answer :: "exec \<Rightarrow> string \<Rightarrow> string option" where
  "ping_answer exec ip = (case case_prod exec (ping_command ip) of
     Inl err \<Rightarrow> Some err
   | Inr out \<Rightarrow> if CHR ''0'' \<notin> set out then Some ''failed to reach host'' else None)"

text \<open>The reference: the answer of the first address that cannot be reached, and the commands up to it.\<close>

fun ping_all :: "exec \<Rightarrow> string list \<Rightarrow> string option \<times> (string \<times> string list) list" where
  "ping_all exec [] = (None, [])"
| "ping_all exec (ip # ips) = (case ping_answer exec ip of
     Some e \<Rightarrow> (Some e, [ping_command ip])
   | None \<Rightarrow> (case ping_all exec ips of (r, cs) \<Rightarrow> (r, ping_command ip # cs)))"

definition ran :: "(string \<times> string list) list \<Rightarrow> ping_state \<Rightarrow> ping_state" where
  "ran cs s = s\<lparr>shell := (shell s)\<lparr>commands := commands (shell s) @ cs\<rparr>\<rparr>"


lemma ran_simps [simp]: "ran [] s = s" "ran cs (ran ds s) = ran (ds @ cs) s"
  by (simp_all add: ran_def)

lemma ICMPv4_run: "on_shell (ICMPv4 exec ip) s = Ret (ping_answer exec ip) (ran [ping_command ip] s)"
  by (simp add: on_shell_def ICMPv4_def Execute_def ping_answer_def ping_command_def ran_def)

lemma ping_all_append:
  "ping_all exec (xs @ ys) = (case ping_all exec xs of
     (Some e, cs) \<Rightarrow> (Some e, cs) | (None, cs) \<Rightarrow> (case ping_all exec ys of (r, ds) \<Rightarrow> (r, cs @ ds)))"
  by (induction xs) (auto split: option.split prod.split)

lemma ping_all_first:
  "ping_all exec ips = (case dropWhile (\<lambda>ip. ping_answer exec ip = None) ips of
     [] \<Rightarrow> (None, map ping_command ips)
   | ip # _ \<Rightarrow> (ping_answer exec ip, map ping_command (takeWhile (\<lambda>ip. ping_answer exec ip = None) ips @ [ip])))"
  by (induction ips) (auto simp del: dropWhile_eq_Nil_conv split: option.split prod.split list.split)

lemma those_Cons: "those (x # xs) = Some zs \<longleftrightarrow> (\<exists>y ys. x = Some y \<and> those xs = Some ys \<and> zs = y # ys)"
  by (auto split: option.splits)

lemma ping_ips_run:
  "those (map as_string js) = Some ips \<Longrightarrow>
   for_return js (\<lambda>ip. assert_type (as_string ip) (\<lambda>ip. on_shell (ICMPv4 exec ip))) s =
     (case ping_all exec ips of (r, cs) \<Rightarrow> Ret r (ran cs s))"
proof (induction js arbitrary: ips s)
  case Nil
  then show ?case by simp
next
  case (Cons j js)
  from Cons.prems obtain ip rest where j: "as_string j = Some ip" "those (map as_string js) = Some rest" "ips = ip # rest"
    unfolding list.map those_Cons by blast
  from Cons.IH [OF j(2)] j(1,3) show ?case by (simp add: assert_type_def ICMPv4_run split: option.split prod.split)
qed

lemma ping_group_run:
  assumes "group_ips grp = Some ips"
  shows "ping_group exec grp s = (case ping_all exec ips of (r, cs) \<Rightarrow> Ret r (ran cs s))"
proof -
  from assms obtain g js where "as_object (JsonValue grp) = Some g" "as_array (map_of g ''ips'') = Some js" "those (map as_string js) = Some ips"
    by (auto simp: group_ips_def split: option.splits)
  with ping_ips_run [of js ips exec s] show ?thesis by (simp add: ping_group_def assert_type_def)
qed

lemma ping_groups_run:
  "those (map group_ips gs) = Some ipss \<Longrightarrow>
   for_return gs (ping_group exec) s = (case ping_all exec (concat ipss) of (r, cs) \<Rightarrow> Ret r (ran cs s))"
proof (induction gs arbitrary: ipss s)
  case Nil
  then show ?case by simp
next
  case (Cons g gs)
  from Cons.prems obtain ips rest where g: "group_ips g = Some ips" "those (map group_ips gs) = Some rest" "ipss = ips # rest"
    unfolding list.map those_Cons by blast
  from Cons.IH [OF g(2)] g(3) ping_group_run [OF g(1)] show ?case
    by (simp add: ping_all_append split: option.split prod.split)
qed

lemma hcPing_Send_run:
  assumes "ping_section s = Some (JsonValue sec)" and "section_groups sec = Some ipss"
  shows "hcPing_Send exec s = Ret (fst (ping_all exec (concat ipss))) (ran (snd (ping_all exec (concat ipss))) s)"
proof -
  from assms(2) obtain m gs where m: "as_object (JsonValue sec) = Some m" "as_array (map_of m ''groups'') = Some gs"
    "those (map group_ips gs) = Some ipss"
    by (auto simp: section_groups_def split: option.splits)
  from m(1) have "sec \<noteq> JNull" by auto
  with assms(1) m ping_groups_run [OF m(3), of exec s] show ?thesis
    by (simp add: hcPing_Send_def get_section_def assert_type_def split: prod.split)
qed

text \<open>What the documentation of the plugin says of \<^verbatim>\<open>Threshold\<close>: that many addresses of each group can fail
  before the health check fails.\<close>

definition unanswered :: "exec \<Rightarrow> string list \<Rightarrow> string list" where
  "unanswered exec ips = filter (\<lambda>ip. ping_answer exec ip \<noteq> None) ips"

definition tolerated :: "int \<Rightarrow> exec \<Rightarrow> string list list \<Rightarrow> bool" where
  "tolerated t exec ipss \<longleftrightarrow> (\<forall>ips \<in> set ipss. int (length (unanswered exec ips)) \<le> t)"

text \<open>\<^bold>\<open>C30.\<close> The ping health check ignores the two limits that its documentation describes. On a section
  whose parts have the types that the plugin expects, and whatever \<^verbatim>\<open>Threshold\<close> and \<^verbatim>\<open>FailureCount\<close> are, it
  asks the addresses of all groups in order, one attempt each, up to the first that does not answer,
  and reports the error of that one. So it fails whenever one address does not answer, also when no
  group has more of them than the threshold allows.\<close>

theorem hcPing_ignores_limits:
  assumes "ping_section s = Some (JsonValue sec)" and "section_groups sec = Some ipss" and "ips = concat ipss"
    and "u = s\<lparr>Threshold := t, FailureCount := f\<rparr>"
  shows "hcPing_Send exec u = (case dropWhile (\<lambda>ip. ping_answer exec ip = None) ips of
       [] \<Rightarrow> Ret None (ran (map ping_command ips) u)
     | ip # _ \<Rightarrow> Ret (ping_answer exec ip) (ran (map ping_command (takeWhile (\<lambda>ip. ping_answer exec ip = None) ips @ [ip])) u)) \<and>
    (tolerated t exec ipss \<and> unanswered exec ips \<noteq> [] \<longrightarrow> (\<exists>e v. hcPing_Send exec u = Ret (Some e) v))"
proof -
  from assms(1,4) have "ping_section u = Some (JsonValue sec)" by simp
  from hcPing_Send_run [OF this assms(2), of exec] have run: "hcPing_Send exec u = (case dropWhile (\<lambda>ip. ping_answer exec ip = None) ips of
       [] \<Rightarrow> Ret None (ran (map ping_command ips) u)
     | ip # _ \<Rightarrow> Ret (ping_answer exec ip) (ran (map ping_command (takeWhile (\<lambda>ip. ping_answer exec ip = None) ips @ [ip])) u))"
    unfolding assms(3) [symmetric] ping_all_first
    by (cases "dropWhile (\<lambda>ip. ping_answer exec ip = None) ips") (simp_all del: dropWhile_eq_Nil_conv)

  moreover have "\<exists>e v. hcPing_Send exec u = Ret (Some e) v" if "unanswered exec ips \<noteq> []"
  proof -
    from that have "dropWhile (\<lambda>ip. ping_answer exec ip = None) ips \<noteq> []"
      by (auto simp: unanswered_def filter_empty_conv dropWhile_eq_Nil_conv)
    then obtain ip rest where d: "dropWhile (\<lambda>ip. ping_answer exec ip = None) ips = ip # rest" by (meson neq_Nil_conv)
    from hd_dropWhile [of "\<lambda>ip. ping_answer exec ip = None" ips] d obtain e where "ping_answer exec ip = Some e" by auto
    with run d show ?thesis by simp
  qed
  ultimately show ?thesis by blast
qed

definition ex_ping :: "plugin_value option \<Rightarrow> ping_state" where
  "ex_ping sec = \<lparr>ping_section = sec, PluginWeight = 10, Threshold = 1, FailureCount = 1,
     shell = \<lparr>kernel = (), commands = [], announced = []\<rparr>\<rparr>"

text \<open>A group of two addresses of which one may fail.\<close>

definition ex_ping_section :: json where
  "ex_ping_section = ping_json \<lparr>PingGroups = [\<lparr>PingGroupName = ''lan'', PingGroupIps = [''10.0.0.1'', ''10.0.0.2'']\<rparr>],
     PingWeight = 10, PingThreshold = 1, PingFailureCount = 1\<rparr>"

definition ex_exec :: exec where
  "ex_exec cmd args = (if args = snd (ping_command ''10.0.0.1'') then Inr ''1'' else Inr ''0'')"

theorem hcPing_ignores_limits_witness:
  "tolerated 1 ex_exec [[''10.0.0.1'', ''10.0.0.2'']] \<and>
   hcPing_Send ex_exec (ex_ping (Some (JsonValue ex_ping_section))) =
     Ret (Some ''failed to reach host'') (ran [ping_command ''10.0.0.1''] (ex_ping (Some (JsonValue ex_ping_section))))"
proof -
  have a: "ping_answer ex_exec ''10.0.0.1'' = Some ''failed to reach host''" "ping_answer ex_exec ''10.0.0.2'' = None"
    by (simp_all add: ping_answer_def ping_command_def ex_exec_def)
  have "section_groups ex_ping_section = Some [[''10.0.0.1'', ''10.0.0.2'']]"
    by (simp add: ex_ping_section_def ping_json_def ping_group_json_def section_groups_def group_ips_def)
  from hcPing_ignores_limits [OF _ this refl refl, of "ex_ping (Some (JsonValue ex_ping_section))" ex_exec 1 1] a show ?thesis
    by (simp add: ex_ping_def tolerated_def unanswered_def)
qed

text \<open>A ping plugin that finds no section writes its default as a struct and reports success; the next
  health check of the same process asserts that the section is a map and panics.\<close>

theorem hcPing_default_panics:
  assumes "ping_section s = None"
  shows "thn hcPing_Run (hcPing_Send exec) s = Crash TypeAssertion \<and>
    (\<exists>u. hcPing_Run s = Ret None u \<and> ping_section u = Some (StructValue (ping_json ping_default)))"
  using assms by (simp add: hcPing_Run_def hcPing_Send_def get_section_def assert_type_def)

theorem hcPing_default_panics_witness:
  "thn hcPing_Run (hcPing_Send (\<lambda>_ _. Inr ''0'')) (ex_ping None) = Crash TypeAssertion"
  using hcPing_default_panics [of "ex_ping None" "\<lambda>_ _. Inr ''0''"] by (simp add: ex_ping_def)

end
