(* ===== verification/Alerts.thy ===== *)
theory Alerts
  imports Plugins ConfigStore
begin

text \<open>
  The general plugin \<^verbatim>\<open>plugins/genEmailAlerts\<close>: its settings, its section of the config, its callbacks
  and the function that sends a mail, over an SMTP library that is a parameter. Then the plugins of the
  repository as the daemon loads them.
\<close>

section \<open>Settings and section\<close>

record EmailConfig =
  SmtpHost :: string
  SmtpPort :: string
  EmailUsername :: string
  EmailPassword :: string
  EmailAddress :: string

definition email_validate :: "EmailConfig \<Rightarrow> string option" where
  "email_validate c = None"

definition email_default :: EmailConfig where
  "email_default = \<lparr>SmtpHost = ''127.0.0.1'', SmtpPort = ''587'', EmailUsername = '''', EmailPassword = '''', EmailAddress = ''''\<rparr>"

text \<open>The struct has no tags, so that its JSON has the names of the fields.\<close>

definition email_json :: "EmailConfig \<Rightarrow> json" where
  "email_json c = JObject [(''SmtpHost'', JString (SmtpHost c)), (''SmtpPort'', JString (SmtpPort c)),
     (''Username'', JString (EmailUsername c)), (''Password'', JString (EmailPassword c)), (''Email'', JString (EmailAddress c))]"

definition email_name :: string where
  "email_name = ''genEmailAlerts''"

definition email_Run :: "string option go" where
  "email_Run = reading (\<lambda>w. GetPluginConfig (DBConfig w) email_name) (\<lambda>found.
     thn (case found of Inl _ \<Rightarrow> thn (SetPluginConfig email_name (StructValue (email_json email_default))) skip | Inr _ \<Rightarrow> skip) (ret None))"

section \<open>Mails\<close>

text \<open>What is given to \<^verbatim>\<open>smtp.SendMail\<close>; the authentication is what \<^verbatim>\<open>smtp.PlainAuth\<close> is made of.\<close>

record mail =
  MailServer :: string
  MailAuth :: "string \<times> string \<times> string \<times> string"
  MailFrom :: string
  MailTo :: "string list"
  MailMessage :: string

type_synonym smtp = "mail \<Rightarrow> string option"

definition SendEmail :: "smtp \<Rightarrow> string \<Rightarrow> string \<Rightarrow> string \<Rightarrow> string \<Rightarrow> string \<Rightarrow> string \<Rightarrow> (mail list, string option) prog" where
  "SendEmail smtp username password email host port message =
     (let m = \<lparr>MailServer = host @ '':'' @ port, MailAuth = ('''', username, password, host), MailFrom = username,
        MailTo = [email], MailMessage = message\<rparr>
      in thn (modify (\<lambda>ms. ms @ [m])) (ret (smtp m)))"

text \<open>The call of \<open>SendEmail\<close> in the callback of a takeover is commented out.\<close>

definition email_OnMemberListStatusChange :: "Member list \<Rightarrow> (mail list, unit) prog" where
  "email_OnMemberListStatusChange ms = skip"

definition email_OnMemberFailover :: "Member \<Rightarrow> (mail list, unit) prog" where
  "email_OnMemberFailover m = skip"

text \<open>What the plugin does when the daemon calls it back.\<close>

fun email_callback :: "effect \<Rightarrow> (mail list, unit) prog" where
  "email_callback (StatusChange p ms) = (if p = email_name then email_OnMemberListStatusChange ms else skip)"
| "email_callback (MemberFailover p m) = (if p = email_name then email_OnMemberFailover m else skip)"
| "email_callback _ = skip"

section \<open>What the plugin does\<close>

text \<open>Starting the plugin adds its default section when it has none, leaves an existing one alone, changes
  nothing else of the config, and a second start changes nothing. A config without a table of sections, as
  from a file that has none, makes it panic, and with it the daemon.\<close>

theorem email_Run_spec:
  assumes "\<not> cfg_lock w" and "c = with_section (DBConfig w) email_name (StructValue (email_json email_default))"
  shows "if has_section (DBConfig w) email_name \<or> \<not> is_nil (PluginConfigs (DBConfig w))
    then \<exists>v. email_Run w = Ret None v \<and> DBConfig v = c \<and> has_section c email_name \<and> email_Run v = Ret None v
    else email_Run w = Crash NilMapWrite"
proof (cases "has_section (DBConfig w) email_name")
  case True
  with assms(2) show ?thesis by (auto simp: email_Run_def with_section_def has_section_def)
next
  case False
  note no = False
  then obtain e where e: "GetPluginConfig (DBConfig w) email_name = Inl e" unfolding has_section_def by (metis sum.exhaust)
  show ?thesis
  proof (cases "is_nil (PluginConfigs (DBConfig w))")
    case True
    with SetPluginConfig_nil [OF assms(1) no] no e show ?thesis by (simp add: email_Run_def thn_def bnd_def)
  next
    case False
    with no assms(2) have "GetPluginConfig c email_name = Inr (StructValue (email_json email_default))"
      by (simp add: with_section_def GetPluginConfig_def email_json_def lookup_put)
    with SetPluginConfig_run [OF assms(1), of email_name "StructValue (email_json email_default)"] False e no assms(2) show ?thesis
      by (auto simp: email_Run_def has_section_def)
  qed
qed

text \<open>Nothing that happens to a daemon makes the plugin send a mail, a takeover neither.\<close>

lemma email_never_sent: "for_each es email_callback ms = Ret () ms"
proof (induction es)
  case (Cons e es)
  have "email_callback e ms = Ret () ms"
    by (cases e) (simp_all add: email_OnMemberListStatusChange_def email_OnMemberFailover_def)
  with Cons show ?case by simp
qed simp

section \<open>The plugins of the repository\<close>

text \<open>What the four plugins export. All of them have the methods of the interface that belongs to their symbol;
  the two health checks give themselves the same name.\<close>

definition hcPing_object :: shared_object where
  "hcPing_object = [(''PluginHC'', \<lparr>SymbolName = ''PingHC'', IsPluginHC = True, IsPluginNet = False, IsPluginGen = False\<rparr>)]"

definition hcSerial_object :: shared_object where
  "hcSerial_object = [(''PluginHC'', \<lparr>SymbolName = ''PingHC'', IsPluginHC = True, IsPluginNet = False, IsPluginGen = False\<rparr>)]"

definition netcore_object :: shared_object where
  "netcore_object = [(''PluginNet'', \<lparr>SymbolName = ''PulseHA-NetCore'', IsPluginHC = False, IsPluginNet = True, IsPluginGen = False\<rparr>)]"

definition email_object :: shared_object where
  "email_object = [(''PluginGeneral'', \<lparr>SymbolName = email_name, IsPluginHC = False, IsPluginNet = False, IsPluginGen = True\<rparr>)]"

definition repository_plugins :: "shared_object set" where
  "repository_plugins = {hcPing_object, hcSerial_object, netcore_object, email_object}"

lemmas object_defs = hcPing_object_def hcSerial_object_def netcore_object_def email_object_def email_name_def

definition health_checks :: "shared_object list \<Rightarrow> shared_object list" where
  "health_checks sos = filter (\<lambda>so. so = hcPing_object \<or> so = hcSerial_object) sos"

definition ping_plugin :: Plugin where
  "ping_plugin = \<lparr>PluginName = ''PingHC'', PluginKind = PluginHealthCheck\<rparr>"

definition netcore_plugin :: Plugin where
  "netcore_plugin = \<lparr>PluginName = ''PulseHA-NetCore'', PluginKind = PluginNetworking\<rparr>"

definition email_plugin :: Plugin where
  "email_plugin = \<lparr>PluginName = email_name, PluginKind = PluginGeneral\<rparr>"

lemmas plugin_defs = ping_plugin_def netcore_plugin_def email_plugin_def

lemma Load_Cons: "Load t (so # sos) st = Load t sos (load_one t so st)" and Load_Nil: "Load t [] st = st"
  by (simp_all add: Load_def)

lemma load_health_checks:
  "set sos \<subseteq> repository_plugins \<Longrightarrow> Load PluginHealthCheck sos (ms, rs) =
     (ms @ replicate (length (health_checks sos)) ping_plugin, rs @ replicate (length (health_checks sos)) ''PingHC'')"
proof (induction sos arbitrary: ms rs)
  case (Cons so sos)
  have "load_one PluginHealthCheck so (ms, rs) =
    (if so = hcPing_object \<or> so = hcSerial_object then (ms @ [ping_plugin], rs @ [''PingHC'']) else (ms, rs))"
    using Cons.prems by (auto simp: repository_plugins_def object_defs load_one_def ping_plugin_def)
  with Cons show ?case by (simp add: Load_Cons health_checks_def)
qed (simp add: Load_Nil health_checks_def)

lemma load_networking:
  "set sos \<subseteq> repository_plugins \<Longrightarrow> Load PluginNetworking sos (ms, rs) =
     (ms @ (if GetNetworkingPlugin ms = None \<and> netcore_object \<in> set sos then [netcore_plugin] else []), rs)"
proof (induction sos arbitrary: ms)
  case (Cons so sos)
  have "load_one PluginNetworking so (ms, rs) =
    (ms @ (if GetNetworkingPlugin ms = None \<and> so = netcore_object then [netcore_plugin] else []), rs)"
    using Cons.prems by (auto simp: repository_plugins_def object_defs load_one_def netcore_plugin_def)
  moreover have "GetNetworkingPlugin (ms @ [netcore_plugin]) \<noteq> None"
    by (simp add: GetNetworkingPlugin_hd networking_def netcore_plugin_def split: list.split)
  ultimately show ?case using Cons by (auto simp: Load_Cons)
qed (simp add: Load_Nil)

lemma load_general:
  "set sos \<subseteq> repository_plugins \<Longrightarrow> Load PluginGeneral sos (ms, rs) =
     (ms @ replicate (count_list sos email_object) email_plugin, rs @ replicate (count_list sos email_object) email_name)"
proof (induction sos arbitrary: ms rs)
  case (Cons so sos)
  have "load_one PluginGeneral so (ms, rs) = (if so = email_object then (ms @ [email_plugin], rs @ [email_name]) else (ms, rs))"
    using Cons.prems by (auto simp: repository_plugins_def object_defs load_one_def email_plugin_def)
  with Cons show ?case by (simp add: Load_Cons)
qed (simp add: Load_Nil)

text \<open>From any files of these plugins, in any order, the daemon loads every health check, all under one name,
  the networking plugin once, and every general plugin, and starts all but the networking plugin.\<close>

theorem repository_plugins_loaded:
  assumes "set sos \<subseteq> repository_plugins"
  defines "n \<equiv> length (health_checks sos)" and "k \<equiv> count_list sos email_object"
  shows "Plugins_Setup sos ([], []) =
    (replicate n ping_plugin @ (if netcore_object \<in> set sos then [netcore_plugin] else []) @ replicate k email_plugin,
     replicate n ''PingHC'' @ replicate k email_name)"
proof -
  have "GetNetworkingPlugin (replicate n ping_plugin) = None"
    by (simp add: GetNetworkingPlugin_def find_None_iff ping_plugin_def)
  then show ?thesis unfolding Plugins_Setup_def n_def k_def by (simp add: assms(1) load_health_checks load_networking load_general)
qed

end
