(* ===== verification/OsStat.thy ===== *)
theory OsStat
  imports Strconv "HOL-Library.Word"
begin

text \<open>
  \<^verbatim>\<open>packages/osStat\<close>: the readers of \<^verbatim>\<open>/proc/stat\<close>, \<^verbatim>\<open>/proc/meminfo\<close>, \<^verbatim>\<open>/proc/diskstats\<close>,
  \<^verbatim>\<open>/proc/net/dev\<close> and of the uptime. Numbers are 64 bit words, so sums and differences wrap as
  they do in Go. The text of these files is ASCII, so the functions of \<^verbatim>\<open>strings\<close> are modelled on
  characters; what \<^verbatim>\<open>bufio.Scanner\<close> makes of the text, its limit on the length of a line included, is
  modelled as well. A result is an error or a value, and where the code can panic also that.
\<close>

section \<open>The scanner and the functions on strings\<close>

text \<open>What \<^verbatim>\<open>os.Open\<close> and the reads of a file give: an error, or the text and the error that ends it.\<close>

datatype proc_file = OpenError string | File string "string option"

text \<open>\<^verbatim>\<open>bufio.ScanLines\<close>: the lines without their ends, a carriage return before the end dropped; an
  empty last line is no line. The scanner stops at the first line of 64 KiB or more.\<close>

definition raw_lines :: "string \<Rightarrow> string list" where
  "raw_lines text = (let ls = split_at newline text in if last ls = [] then butlast ls else ls)"

definition drop_cr :: "string \<Rightarrow> string" where
  "drop_cr l = (if l \<noteq> [] \<and> last l = CHR 0x0D then butlast l else l)"

definition MaxScanTokenSize :: nat where
  "MaxScanTokenSize = 65536"

definition scan :: "string \<Rightarrow> string option \<Rightarrow> string list \<times> string option" where
  "scan text err =
     (let ls = raw_lines text; ok = takeWhile (\<lambda>l. length l < MaxScanTokenSize) ls
      in (map drop_cr ok, if length ok < length ls then Some ''bufio.Scanner: token too long'' else err))"

definition is_space :: "char \<Rightarrow> bool" where
  "is_space c \<longleftrightarrow> c \<in> {CHR '' '', CHR 0x09, CHR 0x0A, CHR 0x0B, CHR 0x0C, CHR 0x0D}"

definition Fields :: "string \<Rightarrow> string list" where
  "Fields s = filter (\<lambda>w. w \<noteq> []) (split_at (CHR '' '') (map (\<lambda>c. if is_space c then CHR '' '' else c) s))"

definition TrimSpace :: "string \<Rightarrow> string" where
  "TrimSpace s = rev (dropWhile is_space (rev (dropWhile is_space s)))"

definition TrimRight :: "string \<Rightarrow> string \<Rightarrow> string" where
  "TrimRight s cutset = rev (dropWhile (\<lambda>c. c \<in> set cutset) (rev s))"

text \<open>The text before and after the first colon.\<close>

definition cut_colon :: "string \<Rightarrow> (string \<times> string) option" where
  "cut_colon s = (if CHR '':'' \<in> set s
     then Some (takeWhile (\<lambda>c. c \<noteq> CHR '':'') s, tl (dropWhile (\<lambda>c. c \<noteq> CHR '':'') s)) else None)"

definition HasPrefix :: "string \<Rightarrow> string \<Rightarrow> bool" where
  "HasPrefix s p \<longleftrightarrow> take (length p) s = p"

section \<open>CPU\<close>

record CpuStats =
  CpuUser :: "64 word"
  CpuNice :: "64 word"
  CpuSystem :: "64 word"
  CpuIdle :: "64 word"
  CpuIowait :: "64 word"
  CpuIrq :: "64 word"
  CpuSoftirq :: "64 word"
  CpuSteal :: "64 word"
  CpuGuest :: "64 word"
  CpuGuestNice :: "64 word"
  CpuTotal :: "64 word"
  CPUCount :: int
  StatCount :: int

definition zeroCpu :: CpuStats where
  "zeroCpu = \<lparr>CpuUser = 0, CpuNice = 0, CpuSystem = 0, CpuIdle = 0, CpuIowait = 0, CpuIrq = 0, CpuSoftirq = 0,
     CpuSteal = 0, CpuGuest = 0, CpuGuestNice = 0, CpuTotal = 0, CPUCount = 0, StatCount = 0\<rparr>"

text \<open>The table of names and pointers.\<close>

definition cpuStats :: "(string \<times> (64 word \<Rightarrow> CpuStats \<Rightarrow> CpuStats)) list" where
  "cpuStats = [(''user'', \<lambda>v s. s\<lparr>CpuUser := v\<rparr>), (''nice'', \<lambda>v s. s\<lparr>CpuNice := v\<rparr>),
     (''system'', \<lambda>v s. s\<lparr>CpuSystem := v\<rparr>), (''idle'', \<lambda>v s. s\<lparr>CpuIdle := v\<rparr>),
     (''iowait'', \<lambda>v s. s\<lparr>CpuIowait := v\<rparr>), (''irq'', \<lambda>v s. s\<lparr>CpuIrq := v\<rparr>),
     (''softirq'', \<lambda>v s. s\<lparr>CpuSoftirq := v\<rparr>), (''steal'', \<lambda>v s. s\<lparr>CpuSteal := v\<rparr>),
     (''guest'', \<lambda>v s. s\<lparr>CpuGuest := v\<rparr>), (''guest_nice'', \<lambda>v s. s\<lparr>CpuGuestNice := v\<rparr>)]"

fun cpu_values :: "nat \<Rightarrow> string list \<Rightarrow> CpuStats \<Rightarrow> crash + string + CpuStats" where
  "cpu_values i [] cpu = Inr (Inr cpu)"
| "cpu_values i (valStr # valStrs) cpu =
     (if i \<ge> length cpuStats then Inl OutOfRange
      else case ParseUint valStr of
        Inl _ \<Rightarrow> Inr (Inl (''failed to scan '' @ fst (cpuStats ! i) @ '' from /proc/stat''))
      | Inr val \<Rightarrow> cpu_values (i + 1) valStrs
          ((snd (cpuStats ! i) (of_nat val) cpu)\<lparr>CpuTotal := CpuTotal cpu + of_nat val\<rparr>))"

text \<open>A line that is just \<^verbatim>\<open>cpu\<close> has no fourth character.\<close>

fun count_cpus :: "string list \<Rightarrow> int \<Rightarrow> crash + int" where
  "count_cpus [] n = Inr n"
| "count_cpus (line # ls) n =
     (if HasPrefix line ''cpu''
      then if length line \<le> 3 then Inl OutOfRange
           else count_cpus ls (if is_digit (line ! 3) then n + 1 else n)
      else count_cpus ls n)"

definition collectCPUStats :: "string \<Rightarrow> string option \<Rightarrow> crash + string + CpuStats" where
  "collectCPUStats text rerr = (case scan text rerr of
     ([], _) \<Rightarrow> Inr (Inl ''failed to scan /proc/stat'')
   | (first # ls, err) \<Rightarrow>
       if Fields first = [] then Inl OutOfRange
       else let valStrs = tl (Fields first)
            in (case cpu_values 0 valStrs (zeroCpu\<lparr>StatCount := int (length valStrs)\<rparr>) of
                  Inl c \<Rightarrow> Inl c
                | Inr (Inl e) \<Rightarrow> Inr (Inl e)
                | Inr (Inr cpu) \<Rightarrow> (case count_cpus ls 0 of
                    Inl c \<Rightarrow> Inl c
                  | Inr n \<Rightarrow> (case err of
                      Some e \<Rightarrow> Inr (Inl (''scan error for /proc/stat: '' @ e))
                    | None \<Rightarrow> Inr (Inr (cpu\<lparr>CpuTotal := CpuTotal cpu - CpuGuest cpu - CpuGuestNice cpu, CPUCount := n\<rparr>))))))"

definition cpu_Get :: "proc_file \<Rightarrow> crash + string + CpuStats" where
  "cpu_Get f = (case f of OpenError e \<Rightarrow> Inr (Inl e) | File text rerr \<Rightarrow> collectCPUStats text rerr)"

section \<open>Memory\<close>

record MemStats =
  MemTotal :: "64 word"
  MemUsed :: "64 word"
  MemBuffers :: "64 word"
  MemCached :: "64 word"
  MemFree :: "64 word"
  MemAvailable :: "64 word"
  MemActive :: "64 word"
  MemInactive :: "64 word"
  SwapTotal :: "64 word"
  SwapUsed :: "64 word"
  SwapCached :: "64 word"
  SwapFree :: "64 word"
  MemAvailableEnabled :: bool

definition zeroMem :: MemStats where
  "zeroMem = \<lparr>MemTotal = 0, MemUsed = 0, MemBuffers = 0, MemCached = 0, MemFree = 0, MemAvailable = 0, MemActive = 0,
     MemInactive = 0, SwapTotal = 0, SwapUsed = 0, SwapCached = 0, SwapFree = 0, MemAvailableEnabled = False\<rparr>"

definition memStats :: "(string \<times> (64 word \<Rightarrow> MemStats \<Rightarrow> MemStats)) list" where
  "memStats = [(''MemTotal'', \<lambda>v m. m\<lparr>MemTotal := v\<rparr>), (''MemFree'', \<lambda>v m. m\<lparr>MemFree := v\<rparr>),
     (''MemAvailable'', \<lambda>v m. m\<lparr>MemAvailable := v\<rparr>), (''Buffers'', \<lambda>v m. m\<lparr>MemBuffers := v\<rparr>),
     (''Cached'', \<lambda>v m. m\<lparr>MemCached := v\<rparr>), (''Active'', \<lambda>v m. m\<lparr>MemActive := v\<rparr>),
     (''Inactive'', \<lambda>v m. m\<lparr>MemInactive := v\<rparr>), (''SwapCached'', \<lambda>v m. m\<lparr>SwapCached := v\<rparr>),
     (''SwapTotal'', \<lambda>v m. m\<lparr>SwapTotal := v\<rparr>), (''SwapFree'', \<lambda>v m. m\<lparr>SwapFree := v\<rparr>)]"

definition memory_line :: "string \<Rightarrow> MemStats \<Rightarrow> MemStats" where
  "memory_line line memory = (case cut_colon line of
     None \<Rightarrow> memory
   | Some (fld, rest) \<Rightarrow> (case map_of memStats fld of
       None \<Rightarrow> memory
     | Some ptr \<Rightarrow>
         let memory = (case ParseUint (TrimSpace (TrimRight rest ''kB'')) of
               Inr v \<Rightarrow> ptr (of_nat v * 1024) memory
             | Inl _ \<Rightarrow> memory)
         in if fld = ''MemAvailable'' then memory\<lparr>MemAvailableEnabled := True\<rparr> else memory))"

definition memory_used :: "MemStats \<Rightarrow> MemStats" where
  "memory_used memory = memory\<lparr>SwapUsed := SwapTotal memory - SwapFree memory,
     MemUsed := (if MemAvailableEnabled memory then MemTotal memory - MemAvailable memory
                 else MemTotal memory - MemFree memory - MemBuffers memory - MemCached memory)\<rparr>"

definition collectMemoryStats :: "string \<Rightarrow> string option \<Rightarrow> string + MemStats" where
  "collectMemoryStats text rerr = (case scan text rerr of (ls, err) \<Rightarrow>
     let memory = fold memory_line ls zeroMem
     in (case err of
           Some e \<Rightarrow> Inl (''scan error for /proc/meminfo: '' @ e)
         | None \<Rightarrow> Inr (memory_used memory)))"

definition memory_Get :: "proc_file \<Rightarrow> string + MemStats" where
  "memory_Get f = (case f of OpenError e \<Rightarrow> Inl e | File text rerr \<Rightarrow> collectMemoryStats text rerr)"

section \<open>Disks, interfaces and uptime\<close>

record DiskStats =
  DiskName :: string
  ReadsCompleted :: "64 word"
  WritesCompleted :: "64 word"

record NetStats =
  NetName :: string
  RxBytes :: "64 word"
  TxBytes :: "64 word"

text \<open>Both readers go through the lines, skip some, and stop at the first that does not parse.\<close>

fun rows :: "(string \<Rightarrow> (string + 'a) option) \<Rightarrow> string list \<Rightarrow> 'a list \<Rightarrow> string + 'a list" where
  "rows f [] acc = Inr acc"
| "rows f (line # ls) acc = (case f line of
     None \<Rightarrow> rows f ls acc
   | Some (Inl e) \<Rightarrow> Inl e
   | Some (Inr r) \<Rightarrow> rows f ls (acc @ [r]))"

definition disk_line :: "string \<Rightarrow> (string + DiskStats) option" where
  "disk_line line = (let fields = Fields line in
     if length fields < 14 then None
     else let name = fields ! 2 in
       Some (case ParseUint (fields ! 3) of
         Inl _ \<Rightarrow> Inl (''failed to parse reads completed of '' @ name)
       | Inr r \<Rightarrow> (case ParseUint (fields ! 7) of
           Inl _ \<Rightarrow> Inl (''failed to parse writes completed of '' @ name)
         | Inr w \<Rightarrow> Inr \<lparr>DiskName = name, ReadsCompleted = of_nat r, WritesCompleted = of_nat w\<rparr>)))"

definition network_line :: "string \<Rightarrow> (string + NetStats) option" where
  "network_line line = (case cut_colon line of
     None \<Rightarrow> None
   | Some (key, val) \<Rightarrow> (let fields = Fields val; name = TrimSpace key in
       if length fields < 16 \<or> name = ''lo'' then None
       else Some (case ParseUint (fields ! 0) of
         Inl _ \<Rightarrow> Inl (''failed to parse rxBytes of '' @ name)
       | Inr r \<Rightarrow> (case ParseUint (fields ! 8) of
           Inl _ \<Rightarrow> Inl (''failed to parse txBytes of '' @ name)
         | Inr t \<Rightarrow> Inr \<lparr>NetName = name, RxBytes = of_nat r, TxBytes = of_nat t\<rparr>))))"

definition collect_rows :: "(string \<Rightarrow> (string + 'a) option) \<Rightarrow> string \<Rightarrow> string \<Rightarrow> string option \<Rightarrow> string + 'a list" where
  "collect_rows f path text rerr = (case scan text rerr of (ls, err) \<Rightarrow>
     (case rows f ls [] of
        Inl e \<Rightarrow> Inl e
      | Inr rs \<Rightarrow> (case err of Some e \<Rightarrow> Inl (''scan error for '' @ path @ '': '' @ e) | None \<Rightarrow> Inr rs)))"

definition collectDiskStats :: "string \<Rightarrow> string option \<Rightarrow> string + DiskStats list" where
  "collectDiskStats = collect_rows disk_line ''/proc/diskstats''"

definition collectNetworkStats :: "string \<Rightarrow> string option \<Rightarrow> string + NetStats list" where
  "collectNetworkStats = collect_rows network_line ''/proc/net/dev''"

definition disk_Get :: "proc_file \<Rightarrow> string + DiskStats list" where
  "disk_Get f = (case f of OpenError e \<Rightarrow> Inl e | File text rerr \<Rightarrow> collectDiskStats text rerr)"

definition network_Get :: "proc_file \<Rightarrow> string + NetStats list" where
  "network_Get f = (case f of OpenError e \<Rightarrow> Inl e | File text rerr \<Rightarrow> collectNetworkStats text rerr)"

text \<open>\<^verbatim>\<open>uptime.Get\<close>: seconds to nanoseconds, in 64 bits. The argument is what \<^verbatim>\<open>sysinfo\<close> gives.\<close>

definition uptime_Get :: "string + int \<Rightarrow> string + int" where
  "uptime_Get info = (case info of Inl e \<Rightarrow> Inl e | Inr up \<Rightarrow> Inr (int64 (up * 1000000000)))"

section \<open>Reading what was written\<close>

text \<open>The shape in which the kernel writes these files: lines that end in a newline, and words separated by
  blanks.\<close>

definition unlines :: "string list \<Rightarrow> string" where
  "unlines ls = concat (map (\<lambda>l. l @ [newline]) ls)"

definition plain_line :: "string \<Rightarrow> bool" where
  "plain_line l \<longleftrightarrow> newline \<notin> set l \<and> CHR 0x0D \<notin> set l \<and> length l < MaxScanTokenSize"

definition word_ok :: "string \<Rightarrow> bool" where
  "word_ok w \<longleftrightarrow> w \<noteq> [] \<and> (\<forall>c \<in> set w. \<not> is_space c)"

lemma split_at_line: "c \<notin> set l \<Longrightarrow> split_at c (l @ c # rest) = l # split_at c rest"
  by (induction l) auto

lemma split_at_single: "c \<notin> set l \<Longrightarrow> split_at c l = [l]"
  by (induction l) auto

lemma split_unlines:
  assumes "\<And>l. l \<in> set ls \<Longrightarrow> newline \<notin> set l"
  shows "split_at newline (unlines ls) = ls @ [[]]"
  using assms by (induction ls) (simp_all add: unlines_def split_at_line)

lemma scan_unlines:
  assumes "\<And>l. l \<in> set ls \<Longrightarrow> plain_line l"
  shows "scan (unlines ls) err = (ls, err)"
proof -
  have "raw_lines (unlines ls) = ls"
    using assms by (simp add: raw_lines_def split_unlines plain_line_def)
  moreover have tw: "takeWhile (\<lambda>l. length l < MaxScanTokenSize) ls = ls"
    using assms by (auto simp: takeWhile_eq_all_conv plain_line_def)
  moreover have "drop_cr l = l" if "l \<in> set ls" for l
    using assms [OF that] unfolding drop_cr_def plain_line_def by (metis last_in_set)

  then have "map drop_cr ls = ls" by (simp add: map_idI)
  ultimately show ?thesis by (simp only: scan_def Let_def tw less_irrefl if_False)
qed

lemma Fields_empty [simp]: "Fields [] = []"
  by (simp add: Fields_def)

lemma space_blank [simp]: "is_space (CHR '' '')"
  by (simp add: is_space_def)

lemma Fields_blank: "is_space c \<Longrightarrow> Fields (c # s) = Fields s"
  by (simp add: Fields_def)

lemma Fields_word:
  assumes "word_ok w"
  shows "Fields (w @ CHR '' '' # s) = w # Fields s" and "Fields w = [w]"
proof -
  from assms have ok: "\<And>c. c \<in> set w \<Longrightarrow> \<not> is_space c" by (simp add: word_ok_def)
  then have m: "map (\<lambda>c. if is_space c then CHR '' '' else c) w = w" by (intro map_idI) simp
  have b: "CHR '' '' \<notin> set w" using ok space_blank by blast
  have ne: "w \<noteq> []" using assms by (simp add: word_ok_def)
  show "Fields (w @ CHR '' '' # s) = w # Fields s"
    unfolding Fields_def map_append list.map m if_P [OF space_blank] split_at_line [OF b] using ne by simp
  show "Fields w = [w]"
    unfolding Fields_def m split_at_single [OF b] using ne by simp
qed

fun words :: "string list \<Rightarrow> string" where
  "words [] = []"
| "words (w # ws) = CHR '' '' # w @ words ws"

lemma Fields_words: "(\<And>w. w \<in> set ws \<Longrightarrow> word_ok w) \<Longrightarrow> Fields (words ws) = ws"
proof (induction ws)
  case Nil
  show ?case by simp
next
  case (Cons w ws)
  then have w: "word_ok w" and ws: "Fields (words ws) = ws" by auto
  have "Fields (w @ words ws) = w # Fields (words ws)"
    using Fields_word [OF w] by (cases ws) (simp_all add: Fields_blank)
  then show ?case using ws by (simp add: Fields_blank)
qed

lemma newline_char: "newline = CHR 0x0A"
  by code_simp

lemma utoa_char: "c \<in> set (utoa n) \<Longrightarrow> \<not> is_space c \<and> c \<noteq> newline \<and> c \<noteq> CHR 0x0D"
  by (drule utoa_digits) (auto simp: is_digit_def is_space_def newline_char)

lemma word_ok_utoa: "word_ok (utoa n)"
  using utoa_char by (simp add: word_ok_def)

lemma ParseUint_utoa: "n < 2 ^ 64 \<Longrightarrow> ParseUint (utoa n) = Inr n"
  by (simp add: ParseUint_def parse_loop_utoa)

subsection \<open>CPU\<close>

definition counters :: "CpuStats \<Rightarrow> 64 word list" where
  "counters s = [CpuUser s, CpuNice s, CpuSystem s, CpuIdle s, CpuIowait s, CpuIrq s, CpuSoftirq s, CpuSteal s, CpuGuest s, CpuGuestNice s]"

lemma length_counters: "length (counters s) = 10" "length cpuStats = 10"
  by (simp_all add: counters_def cpuStats_def)

lemma cpu_store:
  assumes "i < 10"
  shows "counters ((snd (cpuStats ! i) v s)\<lparr>CpuTotal := t\<rparr>) = (counters s)[i := v]"
    "StatCount ((snd (cpuStats ! i) v s)\<lparr>CpuTotal := t\<rparr>) = StatCount s"
proof -
  have "i = 0 \<or> i = 1 \<or> i = 2 \<or> i = 3 \<or> i = 4 \<or> i = 5 \<or> i = 6 \<or> i = 7 \<or> i = 8 \<or> i = 9" using assms by arith
  then show "counters ((snd (cpuStats ! i) v s)\<lparr>CpuTotal := t\<rparr>) = (counters s)[i := v]"
    "StatCount ((snd (cpuStats ! i) v s)\<lparr>CpuTotal := t\<rparr>) = StatCount s"
    by (elim disjE; simp add: cpuStats_def counters_def)+
qed

lemma cpu_values_run:
  assumes "\<And>v. v \<in> set vs \<Longrightarrow> v < 2 ^ 64" and "i + length vs \<le> 10"
  shows "\<exists>t. cpu_values i (map utoa vs) s = Inr (Inr t) \<and>
    counters t = take i (counters s) @ map of_nat vs @ drop (i + length vs) (counters s) \<and>
    CpuTotal t = CpuTotal s + of_nat (sum_list vs) \<and> StatCount t = StatCount s"
  using assms
proof (induction vs arbitrary: i s)
  case Nil
  then show ?case by simp
next
  case (Cons v vs)
  let ?s = "(snd (cpuStats ! i) (of_nat v) s)\<lparr>CpuTotal := CpuTotal s + of_nat v\<rparr>"
  from Cons.prems have i: "i < 10" and v: "v < 2 ^ 64" by auto
  from Cons.IH [of "i + 1" ?s] Cons.prems obtain t where t: "cpu_values (i + 1) (map utoa vs) ?s = Inr (Inr t)"
    "counters t = take (i + 1) (counters ?s) @ map of_nat vs @ drop (i + 1 + length vs) (counters ?s)"
    "CpuTotal t = CpuTotal s + of_nat v + of_nat (sum_list vs)" "StatCount t = StatCount s"
    using cpu_store(2) [OF i] by auto
  have "counters t = take i (counters s) @ map of_nat (v # vs) @ drop (i + length (v # vs)) (counters s)"
    using t(2) i length_counters(1) [of s] by (simp add: cpu_store(1) [OF i] take_Suc_conv_app_nth drop_update_cancel)
  with t i v show ?case by (auto simp: ParseUint_utoa length_counters add.assoc)
qed

lemma cpu_values_overrun:
  assumes "\<And>v. v \<in> set vs \<Longrightarrow> v < 2 ^ 64" and "i + length vs > 10" and "i \<le> 10"
  shows "cpu_values i (map utoa vs) s = Inl OutOfRange"
  using assms
proof (induction vs arbitrary: i s)
  case (Cons v vs)
  then show ?case by (cases "i = 10") (auto simp: length_counters ParseUint_utoa)
qed simp

lemma counters_guests: "CpuGuest s = counters s ! 8" "CpuGuestNice s = counters s ! 9"
  by (simp_all add: counters_def)

lemma guests_sum:
  assumes "length vs \<le> 10"
  shows "of_nat (sum_list vs) - (map of_nat vs @ replicate (10 - length vs) 0) ! 8 - (map of_nat vs @ replicate (10 - length vs) 0) ! 9
    = (of_nat (sum_list (take 8 vs)) :: 64 word)"
proof -
  have s: "sum_list vs = sum_list (take 8 vs) + sum_list (drop 8 vs)" by (metis append_take_drop_id sum_list_append)
  consider "length vs \<le> 8" | "length vs = 9" | "length vs = 10" using assms by linarith
  then show ?thesis
  proof cases
    case 1
    then show ?thesis by (simp add: nth_append)
  next
    case 2
    then have "drop 8 vs = [vs ! 8]" using Cons_nth_drop_Suc [of 8 vs] by simp
    with 2 s show ?thesis by (simp add: nth_append)
  next
    case 3
    then have "drop 8 vs = [vs ! 8, vs ! 9]" using Cons_nth_drop_Suc [of 8 vs] Cons_nth_drop_Suc [of 9 vs] by simp
    with 3 s show ?thesis by (simp add: nth_append)
  qed
qed

definition cpu_line :: "string \<Rightarrow> bool" where
  "cpu_line l \<longleftrightarrow> HasPrefix l ''cpu'' \<and> is_digit (l ! 3)"

lemma count_cpus_run:
  assumes "''cpu'' \<notin> set ls"
  shows "count_cpus ls n = Inr (n + int (length (filter cpu_line ls)))"
  using assms
proof (induction ls arbitrary: n)
  case (Cons l ls)
  have "length l > 3" if p: "HasPrefix l ''cpu''"
  proof (rule ccontr)
    assume "\<not> length l > 3"
    then have "take (length ''cpu'') l = l" by simp
    with p Cons.prems show False by (auto simp: HasPrefix_def)
  qed
  with Cons show ?case by (auto simp: cpu_line_def)
qed simp

definition stat_text :: "nat list \<Rightarrow> string list \<Rightarrow> string" where
  "stat_text vs ls = unlines ((''cpu '' @ words (map utoa vs)) # ls)"

lemma plain_words: "c \<in> set (words (map utoa vs)) \<Longrightarrow> c \<noteq> newline \<and> c \<noteq> CHR 0x0D"
  by (induction vs) (auto simp: newline_char dest: utoa_char)

lemma scan_stat:
  assumes "length (words (map utoa vs)) < 65532" and "\<And>l. l \<in> set ls \<Longrightarrow> plain_line l"
  shows "scan (stat_text vs ls) err = ((''cpu '' @ words (map utoa vs)) # ls, err)"
    and "Fields (''cpu '' @ words (map utoa vs)) = ''cpu'' # map utoa vs"
proof -
  have "plain_line (''cpu '' @ words (map utoa vs))"
    using plain_words [of _ vs] assms(1) by (auto simp: plain_line_def MaxScanTokenSize_def newline_char)
  with assms(2) show "scan (stat_text vs ls) err = ((''cpu '' @ words (map utoa vs)) # ls, err)"
    unfolding stat_text_def by (intro scan_unlines) auto
  have "word_ok ''cpu''" by (simp add: word_ok_def is_space_def)
  moreover have "Fields (words (map utoa vs)) = map utoa vs" by (rule Fields_words) (auto simp: word_ok_utoa)
  ultimately show "Fields (''cpu '' @ words (map utoa vs)) = ''cpu'' # map utoa vs"
    using Fields_word(1) [of "''cpu''" "words (map utoa vs)"] by simp
qed

text \<open>\<^bold>\<open>C39.\<close> What the kernel writes into \<^verbatim>\<open>/proc/stat\<close> is read back exactly, for up to ten columns: every
  column is in its field, missing ones are 0, the total is the sum of the first eight columns (the
  last two, the guest times, are part of the first two) modulo 2 to the 64th, and the processors
  are counted. A kernel that writes more than ten columns makes the reader panic.\<close>

theorem cpu_stats_read:
  assumes "\<And>v. v \<in> set vs \<Longrightarrow> v < 2 ^ 64" and "length (words (map utoa vs)) < 65532"
    and "\<And>l. l \<in> set ls \<Longrightarrow> plain_line l" and "''cpu'' \<notin> set ls"
  shows "if length vs \<le> 10
    then \<exists>s. cpu_Get (File (stat_text vs ls) None) = Inr (Inr s) \<and> counters s = map of_nat vs @ replicate (10 - length vs) 0 \<and>
      CpuTotal s = of_nat (sum_list (take 8 vs)) \<and> StatCount s = int (length vs) \<and> CPUCount s = int (length (filter cpu_line ls))
    else cpu_Get (File (stat_text vs ls) None) = Inl OutOfRange"
proof (cases "length vs \<le> 10")
  case True
  let ?s = "zeroCpu\<lparr>StatCount := int (length vs)\<rparr>"
  from cpu_values_run [OF assms(1), of vs 0 ?s] True obtain t where t: "cpu_values 0 (map utoa vs) ?s = Inr (Inr t)"
    "counters t = map of_nat vs @ drop (length vs) (counters ?s)" "CpuTotal t = of_nat (sum_list vs)" "StatCount t = int (length vs)"
    by (auto simp: zeroCpu_def)
  have "counters ?s = replicate 10 0" by (simp add: counters_def zeroCpu_def numeral_eq_Suc)
  with t(2) have c: "counters t = map of_nat vs @ replicate (10 - length vs) 0" by simp
  let ?t = "t\<lparr>CpuTotal := CpuTotal t - CpuGuest t - CpuGuestNice t, CPUCount := int (length (filter cpu_line ls))\<rparr>"
  have "counters ?t = counters t" by (simp add: counters_def)
  moreover have "CpuTotal ?t = of_nat (sum_list (take 8 vs))"
    using guests_sum [OF True] by (simp add: t(3) counters_guests c)
  moreover have "cpu_Get (File (stat_text vs ls) None) = Inr (Inr ?t)"
    using t(1) count_cpus_run [OF assms(4), of 0]
    by (simp add: cpu_Get_def collectCPUStats_def scan_stat [OF assms(2,3)] del: append.simps)
  ultimately show ?thesis using True c t(4) by auto
next
  case False
  with cpu_values_overrun [OF assms(1), of vs 0] show ?thesis
    by (simp add: cpu_Get_def collectCPUStats_def scan_stat [OF assms(2,3)] del: append.simps)
qed

theorem cpu_stats_read_witness:
  "\<exists>s. cpu_Get (File (stat_text [10, 2, 3, 40, 5, 6, 7, 8, 4, 1] [''cpu0 10 2'', ''intr 7'']) None) = Inr (Inr s) \<and>
     CpuTotal s = 81 \<and> CPUCount s = 1 \<and> CpuGuest s = 4"
proof -
  let ?vs = "[10, 2, 3, 40, 5, 6, 7, 8, 4, 1] :: nat list" and ?ls = "[''cpu0 10 2'', ''intr 7'']"
  have f: "filter cpu_line ?ls = [''cpu0 10 2'']" by (simp add: cpu_line_def HasPrefix_def is_digit_def)
  have "if length ?vs \<le> 10
    then \<exists>s. cpu_Get (File (stat_text ?vs ?ls) None) = Inr (Inr s) \<and> counters s = map of_nat ?vs @ replicate (10 - length ?vs) 0 \<and>
      CpuTotal s = of_nat (sum_list (take 8 ?vs)) \<and> StatCount s = int (length ?vs) \<and> CPUCount s = int (length (filter cpu_line ?ls))
    else cpu_Get (File (stat_text ?vs ?ls) None) = Inl OutOfRange"
    by (rule cpu_stats_read) (auto simp: utoa.simps plain_line_def MaxScanTokenSize_def newline_char)
  then show ?thesis unfolding f by (auto simp: counters_def)
qed

subsection \<open>Memory\<close>

text \<open>A line of \<^verbatim>\<open>/proc/meminfo\<close>: name, colon, blanks, number, unit.\<close>

definition mem_entry :: "string \<times> nat \<times> nat \<Rightarrow> string" where
  "mem_entry = (\<lambda>(f, k, v). f @ '':'' @ replicate k (CHR '' '') @ utoa v @ '' kB'')"

definition memFields :: "(string \<times> (MemStats \<Rightarrow> 64 word)) list" where
  "memFields = [(''MemTotal'', MemTotal), (''MemFree'', MemFree), (''MemAvailable'', MemAvailable), (''Buffers'', MemBuffers),
     (''Cached'', MemCached), (''Active'', MemActive), (''Inactive'', MemInactive), (''SwapCached'', SwapCached),
     (''SwapTotal'', SwapTotal), (''SwapFree'', SwapFree)]"

definition mem_field :: "MemStats \<Rightarrow> string \<Rightarrow> 64 word" where
  "mem_field m f = (case map_of memFields f of Some get \<Rightarrow> get m | None \<Rightarrow> 0)"

lemma mem_field_eq:
  "mem_field m f = (if f = ''MemTotal'' then MemTotal m else if f = ''MemFree'' then MemFree m
     else if f = ''MemAvailable'' then MemAvailable m else if f = ''Buffers'' then MemBuffers m
     else if f = ''Cached'' then MemCached m else if f = ''Active'' then MemActive m
     else if f = ''Inactive'' then MemInactive m else if f = ''SwapCached'' then SwapCached m
     else if f = ''SwapTotal'' then SwapTotal m else if f = ''SwapFree'' then SwapFree m else 0)"
  by (simp add: mem_field_def memFields_def)

lemma mem_store:
  assumes "map_of memStats g = Some ptr"
  shows "mem_field (ptr v m) f = (if f = g then v else mem_field m f)"
    "MemAvailableEnabled (ptr v m) = MemAvailableEnabled m"
  using map_of_SomeD [OF assms] unfolding memStats_def list.set insert_iff prod.inject empty_iff
  by (elim disjE conjE FalseE; hypsubst; simp add: mem_field_eq)+

lemma mem_field_enabled: "mem_field (m\<lparr>MemAvailableEnabled := b\<rparr>) f = mem_field m f"
  by (simp add: mem_field_eq)

lemma trim_entry: "TrimSpace (TrimRight (replicate k (CHR '' '') @ utoa v @ '' kB'') ''kB'') = utoa v"
proof -
  have r: "TrimRight (replicate k (CHR '' '') @ utoa v @ '' kB'') ''kB'' = replicate k (CHR '' '') @ utoa v @ '' ''"
    by (simp add: TrimRight_def)
  have "dropWhile is_space (replicate k (CHR '' '') @ utoa v @ '' '') = utoa v @ '' ''"
  proof (induction k)
    case 0
    show ?case using utoa_char [of "hd (utoa v)" v] by (cases "utoa v") simp_all
  qed simp
  moreover have "dropWhile is_space (rev (utoa v @ '' '')) = rev (utoa v)"
  proof (cases "rev (utoa v)")
    case (Cons c cs)
    then have "c \<in> set (utoa v)" by (metis list.set_intros(1) set_rev)
    with Cons show ?thesis using utoa_char [of c v] by simp
  qed simp
  ultimately show ?thesis by (simp add: TrimSpace_def r)
qed

lemma cut_colon_entry: "CHR '':'' \<notin> set f \<Longrightarrow> cut_colon (f @ '':'' @ rest) = Some (f, rest)"
proof -
  assume "CHR '':'' \<notin> set f"
  then have "takeWhile (\<lambda>c. c \<noteq> CHR '':'') (f @ '':'' @ rest) = f" "dropWhile (\<lambda>c. c \<noteq> CHR '':'') (f @ '':'' @ rest) = '':'' @ rest"
    by (induction f) auto
  then show ?thesis by (simp add: cut_colon_def)
qed

lemma memory_line_entry:
  assumes "CHR '':'' \<notin> set g" and "v < 2 ^ 64"
  shows "mem_field (memory_line (mem_entry (g, k, v)) m) f = (if f = g \<and> map_of memStats g \<noteq> None then of_nat v * 1024 else mem_field m f)"
    "MemAvailableEnabled (memory_line (mem_entry (g, k, v)) m) \<longleftrightarrow> g = ''MemAvailable'' \<or> MemAvailableEnabled m"
proof -
  have c: "cut_colon (mem_entry (g, k, v)) = Some (g, replicate k (CHR '' '') @ utoa v @ '' kB'')"
    using cut_colon_entry [OF assms(1), of "replicate k (CHR '' '') @ utoa v @ '' kB''"] by (simp add: mem_entry_def)
  have l: "memory_line (mem_entry (g, k, v)) m = (case map_of memStats g of None \<Rightarrow> m
     | Some ptr \<Rightarrow> let m = ptr (of_nat v * 1024) m in if g = ''MemAvailable'' then m\<lparr>MemAvailableEnabled := True\<rparr> else m)"
    unfolding memory_line_def c option.case prod.case trim_entry ParseUint_utoa [OF assms(2)] sum.case ..
  show "mem_field (memory_line (mem_entry (g, k, v)) m) f = (if f = g \<and> map_of memStats g \<noteq> None then of_nat v * 1024 else mem_field m f)"
    unfolding l by (cases "map_of memStats g") (simp_all add: mem_store mem_field_enabled Let_def)
  show "MemAvailableEnabled (memory_line (mem_entry (g, k, v)) m) \<longleftrightarrow> g = ''MemAvailable'' \<or> MemAvailableEnabled m"
  proof (cases "map_of memStats g")
    case None
    then have "g \<noteq> ''MemAvailable''" by (auto simp: memStats_def)
    with None show ?thesis by (simp add: l)
  next
    case (Some ptr)
    then show ?thesis by (simp add: l mem_store Let_def)
  qed
qed

text \<open>The amount that the file gives for a field, in bytes.\<close>

definition amount :: "(string \<times> nat \<times> nat) list \<Rightarrow> string \<Rightarrow> nat" where
  "amount es f = (case map_of es f of Some (k, v) \<Rightarrow> v * 1024 | None \<Rightarrow> 0)"

lemma plain_mem_entry:
  "plain_line (mem_entry (g, k, v)) \<longleftrightarrow> newline \<notin> set g \<and> CHR 0x0D \<notin> set g \<and> length g + k + length (utoa v) + 4 < MaxScanTokenSize"
  using utoa_char [of _ v] by (auto simp: plain_line_def mem_entry_def newline_char set_replicate_conv_if)

definition entries_ok :: "(string \<times> nat \<times> nat) list \<Rightarrow> bool" where
  "entries_ok es \<longleftrightarrow> distinct (map fst es) \<and> (\<forall>(g, k, v) \<in> set es. CHR '':'' \<notin> set g \<and> v < 2 ^ 54 \<and> plain_line (mem_entry (g, k, v)))"

lemma entries_ok_Cons:
  assumes "entries_ok ((g, k, v) # es)"
  shows "CHR '':'' \<notin> set g" "v < 2 ^ 64" "g \<notin> fst ` set es" "entries_ok es"
  using assms by (auto simp: entries_ok_def)

lemma fold_field:
  assumes "entries_ok es" and "map_of memStats f \<noteq> None"
  shows "mem_field (fold memory_line (map mem_entry es) m) f = (if f \<in> fst ` set es then of_nat (amount es f) else mem_field m f)"
  using assms(1)
proof (induction es arbitrary: m)
  case (Cons e es)
  obtain g k v where e: "e = (g, k, v)" by (cases e)
  note ok = entries_ok_Cons [OF Cons.prems [unfolded e]]
  have "amount (e # es) f = (if f = g then v * 1024 else amount es f)" by (simp add: e amount_def)
  then show ?case
    using Cons.IH [OF ok(4), of "memory_line (mem_entry e) m"] memory_line_entry(1) [OF ok(1,2), of k m f] ok(3) assms(2) e by auto
qed simp

lemma fold_enabled:
  assumes "entries_ok es"
  shows "MemAvailableEnabled (fold memory_line (map mem_entry es) m) \<longleftrightarrow> ''MemAvailable'' \<in> fst ` set es \<or> MemAvailableEnabled m"
  using assms
proof (induction es arbitrary: m)
  case (Cons e es)
  obtain g k v where e: "e = (g, k, v)" by (cases e)
  note ok = entries_ok_Cons [OF Cons.prems [unfolded e]]
  from Cons.IH [OF ok(4), of "memory_line (mem_entry e) m"] memory_line_entry(2) [OF ok(1,2), of k m] e show ?case by auto
qed simp

lemma unat_amount:
  assumes "entries_ok es"
  shows "unat (of_nat (amount es f) :: 64 word) = amount es f" and "amount es f < 2 ^ 64"
proof -
  show l: "amount es f < 2 ^ 64"
  proof (cases "map_of es f")
    case (Some p)
    then have "(f, fst p, snd p) \<in> set es" by (simp add: map_of_SomeD)
    with assms have "snd p < 2 ^ 54" by (auto simp: entries_ok_def)
    then have "snd p * 1024 < 2 ^ 54 * 1024" by (intro mult_strict_right_mono) simp_all
    also have "(2 :: nat) ^ 54 * 1024 = 2 ^ 64" by simp
    finally show ?thesis using Some by (cases p) (simp add: amount_def)
  qed (simp add: amount_def)
  show "unat (of_nat (amount es f) :: 64 word) = amount es f"
    using l by (simp add: unat_of_nat)
qed

lemma unat_difference:
  fixes a b :: nat
  assumes "a < 2 ^ 64" and "b < 2 ^ 64"
  shows "unat (of_nat a - of_nat b :: 64 word) = (if b \<le> a then a - b else 2 ^ 64 + a - b)"
proof (cases "b \<le> a")
  case True
  then have "(of_nat a - of_nat b :: 64 word) = of_nat (a - b)" by (simp add: of_nat_diff)
  then have "unat (of_nat a - of_nat b :: 64 word) = unat (of_nat (a - b) :: 64 word)" by (rule arg_cong)
  also have "\<dots> = a - b" unfolding unat_of_nat using assms(1) by simp
  finally show ?thesis using True by simp
next
  case False
  have "(of_nat (2 ^ 64 + a - b) :: 64 word) = of_nat (2 ^ 64 + a) - of_nat b" using assms False by (intro of_nat_diff) simp
  also have "(of_nat (2 ^ 64 + a) :: 64 word) = of_nat a" by simp
  finally have "(of_nat a - of_nat b :: 64 word) = of_nat (2 ^ 64 + a - b)" ..
  then have "unat (of_nat a - of_nat b :: 64 word) = unat (of_nat (2 ^ 64 + a - b) :: 64 word)" by (rule arg_cong)
  also have "\<dots> = 2 ^ 64 + a - b" unfolding unat_of_nat using assms False by simp
  finally show ?thesis using False by simp
qed

text \<open>The memory figures are read exactly: as long as the kernel gives less than 2 to the 54th kilobytes
  for every entry, each field is the number of bytes that the file gives for it, and 0 when the
  file has no such entry. When the file has the available memory, the used memory is the total less
  the available one, which wraps around to almost 2 to the 64th bytes when more is available than
  there is in total; used swap likewise.\<close>

theorem memory_stats_read:
  assumes "entries_ok es"
  shows "\<exists>m. memory_Get (File (unlines (map mem_entry es)) None) = Inr m \<and>
    (\<forall>f get. map_of memFields f = Some get \<longrightarrow> unat (get m) = amount es f) \<and>
    (''MemAvailable'' \<in> fst ` set es \<longrightarrow> unat (MemUsed m) =
      (if amount es ''MemAvailable'' \<le> amount es ''MemTotal'' then amount es ''MemTotal'' - amount es ''MemAvailable''
       else 2 ^ 64 + amount es ''MemTotal'' - amount es ''MemAvailable'')) \<and>
    unat (SwapUsed m) = (if amount es ''SwapFree'' \<le> amount es ''SwapTotal'' then amount es ''SwapTotal'' - amount es ''SwapFree''
       else 2 ^ 64 + amount es ''SwapTotal'' - amount es ''SwapFree'')"
proof -
  let ?m = "fold memory_line (map mem_entry es) zeroMem"
  have "scan (unlines (map mem_entry es)) None = (map mem_entry es, None)"
    using assms by (intro scan_unlines) (auto simp: entries_ok_def)
  then have run: "memory_Get (File (unlines (map mem_entry es)) None) = Inr (memory_used ?m)"
    by (simp add: memory_Get_def collectMemoryStats_def)
  have zero: "mem_field zeroMem f = 0" for f by (simp add: mem_field_eq zeroMem_def)
  have fld: "mem_field ?m f = of_nat (amount es f)" if "map_of memStats f \<noteq> None" for f
  proof (cases "f \<in> fst ` set es")
    case True
    with fold_field [OF assms that, of zeroMem] show ?thesis by simp
  next
    case False
    then have "map_of es f = None" by (simp add: map_of_eq_None_iff)
    with False fold_field [OF assms that, of zeroMem] zero [of f] show ?thesis by (simp add: amount_def)
  qed
  have used: "mem_field (memory_used ?m) f = mem_field ?m f" for f by (simp add: mem_field_eq memory_used_def)
  have known: "map_of memStats f \<noteq> None" if "map_of memFields f \<noteq> None" for f
    using that by (auto simp: memFields_def memStats_def split: if_splits)
  have "unat (get (memory_used ?m)) = amount es f" if "map_of memFields f = Some get" for f get
    using fld [OF known, of f] used [of f] that unat_amount(1) [OF assms, of f] by (simp add: mem_field_def)
  moreover have "MemTotal ?m = of_nat (amount es ''MemTotal'')" "MemAvailable ?m = of_nat (amount es ''MemAvailable'')"
    "SwapTotal ?m = of_nat (amount es ''SwapTotal'')" "SwapFree ?m = of_nat (amount es ''SwapFree'')"
    using fld [of "''MemTotal''"] fld [of "''MemAvailable''"] fld [of "''SwapTotal''"] fld [of "''SwapFree''"]
    by (simp_all add: memStats_def mem_field_eq)
  ultimately show ?thesis
    using run fold_enabled [OF assms, of zeroMem] unat_difference [OF unat_amount(2) unat_amount(2), OF assms assms]
    by (auto simp: memory_used_def)
qed

theorem memory_stats_read_witness:
  "\<exists>m. memory_Get (File (unlines (map mem_entry [(''MemTotal'', 7, 2000), (''MemFree'', 8, 300), (''MemAvailable'', 3, 1500)])) None) = Inr m \<and>
     unat (MemTotal m) = 2048000 \<and> unat (MemUsed m) = 512000"
proof -
  let ?es = "[(''MemTotal'', 7, 2000), (''MemFree'', 8, 300), (''MemAvailable'', 3, 1500)]"
  have ok: "entries_ok ?es"
    by (simp add: entries_ok_def plain_mem_entry MaxScanTokenSize_def newline_char utoa.simps)
  have a: "amount ?es ''MemTotal'' = 2048000" "amount ?es ''MemAvailable'' = 1536000" by (simp_all add: amount_def)
  have g: "map_of memFields ''MemTotal'' = Some MemTotal" by (simp add: memFields_def)
  from memory_stats_read [OF ok] obtain m where m: "memory_Get (File (unlines (map mem_entry ?es)) None) = Inr m"
    "unat (MemTotal m) = amount ?es ''MemTotal''" "unat (MemUsed m) = amount ?es ''MemTotal'' - amount ?es ''MemAvailable''"
    using g by (auto simp: a)
  then show ?thesis by (auto simp: a)
qed

subsection \<open>Disks and interfaces\<close>

text \<open>The reference for both readers: the relevant lines, each of which parses. The loop computes it, up to
  the first line that does not parse.\<close>

definition reference_rows :: "(string \<Rightarrow> (string + 'a) option) \<Rightarrow> string list \<Rightarrow> 'a list" where
  "reference_rows f ls = map projr (map the (filter (\<lambda>x. x \<noteq> None) (map f ls)))"

lemma rows_ok:
  assumes "\<And>l e. l \<in> set ls \<Longrightarrow> f l \<noteq> Some (Inl e)"
  shows "rows f ls acc = Inr (acc @ reference_rows f ls)"
  using assms
proof (induction ls arbitrary: acc)
  case (Cons l ls)
  then have IH: "rows f ls acc = Inr (acc @ reference_rows f ls)" for acc by simp
  show ?case
  proof (cases "f l")
    case None
    then show ?thesis by (simp add: IH reference_rows_def)
  next
    case (Some x)
    with Cons.prems [of l] obtain r where "x = Inr r" by (cases x) auto
    with Some show ?thesis by (simp add: IH reference_rows_def)
  qed
qed (simp add: reference_rows_def)

lemma rows_first_error:
  assumes "\<And>l e. l \<in> set ls \<Longrightarrow> f l \<noteq> Some (Inl e)" and "f l = Some (Inl e)"
  shows "rows f (ls @ l # ls') acc = Inl e"
  using assms(1)
proof (induction ls arbitrary: acc)
  case Nil
  show ?case by (simp add: assms(2))
next
  case (Cons k ls)
  then have IH: "rows f (ls @ l # ls') acc = Inl e" for acc by simp
  from Cons.prems [of k] show ?case by (auto simp: IH split: option.split sum.split)
qed

lemma collect_rows_ok:
  assumes "\<And>l. l \<in> set ls \<Longrightarrow> plain_line l" and "\<And>l e. l \<in> set ls \<Longrightarrow> f l \<noteq> Some (Inl e)"
  shows "collect_rows f path (unlines ls) None = Inr (reference_rows f ls)"
  by (simp add: collect_rows_def scan_unlines [OF assms(1)] rows_ok [OF assms(2)])

text \<open>What a reader of lines and a writer of lines have to agree on, and what then holds of a whole file.\<close>

locale line_format =
  fixes parse :: "string \<Rightarrow> (string + 'a) option" and render :: "'e \<Rightarrow> string"
    and ok :: "'e \<Rightarrow> bool" and wanted :: "'e \<Rightarrow> bool" and row :: "'e \<Rightarrow> 'a"
  assumes plain: "ok e \<Longrightarrow> plain_line (render e)"
    and parsed: "ok e \<Longrightarrow> parse (render e) = (if wanted e then Some (Inr (row e)) else None)"
begin

lemma rows_rendered: "(\<And>e. e \<in> set es \<Longrightarrow> ok e) \<Longrightarrow> reference_rows parse (map render es) = map row (filter wanted es)"
  by (induction es) (auto simp: reference_rows_def parsed)

lemma file_read_back:
  assumes "\<And>h. h \<in> set heading \<Longrightarrow> plain_line h \<and> parse h = None" and "\<And>e. e \<in> set es \<Longrightarrow> ok e"
  shows "collect_rows parse path (unlines (heading @ map render es)) None = Inr (map row (filter wanted es))"
proof -
  have "reference_rows parse heading = []" using assms(1) by (induction heading) (auto simp: reference_rows_def)
  then have "reference_rows parse (heading @ map render es) = map row (filter wanted es)"
    using rows_rendered [OF assms(2)] by (simp add: reference_rows_def)
  moreover have "collect_rows parse path (unlines (heading @ map render es)) None = Inr (reference_rows parse (heading @ map render es))"
    by (rule collect_rows_ok) (use assms plain parsed in \<open>auto split: if_splits\<close>)
  ultimately show ?thesis by simp
qed

end

definition net_entry :: "nat \<times> string \<times> nat list \<Rightarrow> string" where
  "net_entry = (\<lambda>(k, name, vs). replicate k (CHR '' '') @ name @ '':'' @ words (map utoa vs))"

lemma plain_net_entry:
  "plain_line (net_entry (k, name, vs)) \<longleftrightarrow> newline \<notin> set name \<and> CHR 0x0D \<notin> set name \<and>
     k + length name + length (words (map utoa vs)) + 1 < MaxScanTokenSize"
  using plain_words [of _ vs] by (auto simp: plain_line_def net_entry_def newline_char set_replicate_conv_if)

definition net_row :: "nat \<times> string \<times> nat list \<Rightarrow> NetStats" where
  "net_row = (\<lambda>(k, name, vs). \<lparr>NetName = name, RxBytes = of_nat (vs ! 0), TxBytes = of_nat (vs ! 8)\<rparr>)"

definition net_ok :: "nat \<times> string \<times> nat list \<Rightarrow> bool" where
  "net_ok = (\<lambda>(k, name, vs). word_ok name \<and> CHR '':'' \<notin> set name \<and> length vs \<ge> 16 \<and> (\<forall>v \<in> set vs. v < 2 ^ 64) \<and>
     plain_line (net_entry (k, name, vs)))"

lemma TrimSpace_word:
  assumes "word_ok w"
  shows "TrimSpace (replicate k (CHR '' '') @ w) = w"
proof -
  from assms have ok: "\<And>c. c \<in> set w \<Longrightarrow> \<not> is_space c" and ne: "w \<noteq> []" by (simp_all add: word_ok_def)
  have "dropWhile is_space w = w" using ok [of "hd w"] ne by (cases w) simp_all
  then have "dropWhile is_space (replicate k (CHR '' '') @ w) = w" by (induction k) simp_all
  moreover have "dropWhile is_space (rev w) = rev w"
  proof (cases "rev w")
    case (Cons c cs)
    then have "c \<in> set w" by (metis list.set_intros(1) set_rev)
    with Cons ok show ?thesis by simp
  qed simp
  ultimately show ?thesis by (simp add: TrimSpace_def)
qed

lemma network_line_entry:
  assumes "net_ok (k, name, vs)"
  shows "network_line (net_entry (k, name, vs)) = (if name = ''lo'' then None else Some (Inr (net_row (k, name, vs))))"
proof -
  from assms have n: "word_ok name" "CHR '':'' \<notin> set name" and l: "length vs \<ge> 16" and v: "\<And>i. i < 16 \<Longrightarrow> vs ! i < 2 ^ 64"
    by (auto simp: net_ok_def)
  have "CHR '':'' \<notin> set (replicate k (CHR '' '') @ name)" using n(2) by (auto simp: set_replicate_conv_if)
  from cut_colon_entry [OF this, of "words (map utoa vs)"]
  have c: "cut_colon (net_entry (k, name, vs)) = Some (replicate k (CHR '' '') @ name, words (map utoa vs))"
    by (simp add: net_entry_def)
  have f: "Fields (words (map utoa vs)) = map utoa vs" by (rule Fields_words) (auto simp: word_ok_utoa)
  have i: "map utoa vs ! 0 = utoa (vs ! 0)" "map utoa vs ! 8 = utoa (vs ! 8)" using l by (auto intro!: nth_map)
  show ?thesis
    unfolding network_line_def c option.case prod.case Let_def f TrimSpace_word [OF n(1)] i
    using l v [of 0] v [of 8] by (simp add: ParseUint_utoa net_row_def)
qed

interpretation net_format: line_format network_line net_entry net_ok "\<lambda>(k, name, vs). name \<noteq> ''lo''" net_row
proof unfold_locales
  fix e :: "nat \<times> string \<times> nat list" assume ok: "net_ok e"
  obtain k name vs where e: "e = (k, name, vs)" by (cases e)
  from ok show "plain_line (net_entry e)" by (simp add: e net_ok_def)
  from network_line_entry [OF ok [unfolded e]]
  show "network_line (net_entry e) = (if case e of (k, name, vs) \<Rightarrow> name \<noteq> ''lo'' then Some (Inr (net_row e)) else None)"
    by (simp add: e)
qed

text \<open>The byte counters of \<^verbatim>\<open>/proc/net/dev\<close> are read exactly: after any heading without a colon there
  is one row for every interface except \<^verbatim>\<open>lo\<close>, in the order of the file, with its name, its first
  counter and its ninth.\<close>

theorem network_stats_read:
  assumes "\<And>h. h \<in> set heading \<Longrightarrow> plain_line h \<and> CHR '':'' \<notin> set h" and "\<And>e. e \<in> set es \<Longrightarrow> net_ok e"
  shows "network_Get (File (unlines (heading @ map net_entry es)) None) =
    Inr (map net_row (filter (\<lambda>(k, name, vs). name \<noteq> ''lo'') es))"
proof -
  have "plain_line h \<and> network_line h = None" if "h \<in> set heading" for h
    using assms(1) [OF that] by (simp add: network_line_def cut_colon_def)
  from net_format.file_read_back [OF this assms(2)] show ?thesis
    by (simp add: network_Get_def collectNetworkStats_def)
qed

theorem network_stats_read_witness:
  "network_Get (File (unlines ([''face |bytes''] @ map net_entry [(4, ''lo'', [5, 5, 5, 5, 5, 5, 5, 5, 5, 5, 5, 5, 5, 5, 5, 5]), (2, ''eth0'', [100, 0, 0, 0, 0, 0, 0, 0, 70, 0, 0, 0, 0, 0, 0, 0])])) None)
     = Inr [\<lparr>NetName = ''eth0'', RxBytes = 100, TxBytes = 70\<rparr>]"
proof -
  let ?es = "[(4, ''lo'', [5, 5, 5, 5, 5, 5, 5, 5, 5, 5, 5, 5, 5, 5, 5, 5]), (2, ''eth0'', [100, 0, 0, 0, 0, 0, 0, 0, 70, 0, 0, 0, 0, 0, 0, 0])]"
  have "net_ok e" if "e \<in> set ?es" for e
    using that by (auto simp: net_ok_def plain_net_entry word_ok_def is_space_def MaxScanTokenSize_def newline_char utoa.simps)
  moreover have "plain_line ''face |bytes''" by (simp add: plain_line_def MaxScanTokenSize_def newline_char)
  ultimately show ?thesis using network_stats_read [of "[''face |bytes'']" ?es] by (simp add: net_row_def)
qed

text \<open>A line of \<^verbatim>\<open>/proc/diskstats\<close>: two device numbers, the name and at least eleven counters.\<close>

definition disk_entry :: "nat \<times> nat \<times> string \<times> nat list \<Rightarrow> string" where
  "disk_entry = (\<lambda>(major, minor, name, vs). words (utoa major # utoa minor # name # map utoa vs))"

definition disk_row :: "nat \<times> nat \<times> string \<times> nat list \<Rightarrow> DiskStats" where
  "disk_row = (\<lambda>(major, minor, name, vs). \<lparr>DiskName = name, ReadsCompleted = of_nat (vs ! 0), WritesCompleted = of_nat (vs ! 4)\<rparr>)"

definition disk_ok :: "nat \<times> nat \<times> string \<times> nat list \<Rightarrow> bool" where
  "disk_ok = (\<lambda>(major, minor, name, vs). word_ok name \<and> length vs \<ge> 11 \<and> (\<forall>v \<in> set vs. v < 2 ^ 64) \<and>
     plain_line (disk_entry (major, minor, name, vs)))"

interpretation disk_format: line_format disk_line disk_entry disk_ok "\<lambda>_. True" disk_row
proof unfold_locales
  fix e assume ok: "disk_ok e"
  obtain major minor name vs where e: "e = (major, minor, name, vs)" by (cases e)
  from ok have n: "word_ok name" and l: "length vs \<ge> 11" and v: "\<And>i. i < 11 \<Longrightarrow> vs ! i < 2 ^ 64"
    by (auto simp: disk_ok_def e)
  have f: "Fields (disk_entry e) = utoa major # utoa minor # name # map utoa vs"
    unfolding e disk_entry_def prod.case by (rule Fields_words) (auto simp: word_ok_utoa n)
  have i: "map utoa vs ! 0 = utoa (vs ! 0)" "map utoa vs ! 4 = utoa (vs ! 4)" using l by (auto intro!: nth_map)
  have j: "(utoa major # utoa minor # name # map utoa vs) ! 2 = name"
    "(utoa major # utoa minor # name # map utoa vs) ! 3 = utoa (vs ! 0)"
    "(utoa major # utoa minor # name # map utoa vs) ! 7 = utoa (vs ! 4)" using i by (simp_all add: numeral_eq_Suc)
  show "disk_line (disk_entry e) = (if True then Some (Inr (disk_row e)) else None)"
    unfolding disk_line_def f Let_def j using l v [of 0] v [of 4] by (simp add: ParseUint_utoa disk_row_def e)
  from ok show "plain_line (disk_entry e)" by (simp add: disk_ok_def e)
qed

lemma disk_stats_read:
  "(\<And>e. e \<in> set es \<Longrightarrow> disk_ok e) \<Longrightarrow> disk_Get (File (unlines (map disk_entry es)) None) = Inr (map disk_row es)"
  using disk_format.file_read_back [of "[]" es] by (simp add: disk_Get_def collectDiskStats_def)

text \<open>The uptime in nanoseconds is exact for almost 292 years.\<close>

lemma uptime_exact: "0 \<le> up \<Longrightarrow> up \<le> 9223372036 \<Longrightarrow> uptime_Get (Inr up) = Inr (up * 1000000000)"
  by (simp add: uptime_Get_def int64_id)

end
