(* ===== verification/Spec2Isabelle.thy ===== *)
theory Spec2Isabelle
  imports Takeover Joining Accessors Usage Network Serial HcPing Alerts OsStat
begin

text \<open>
  \<^bold>\<open>PulseHA: a verification development.\<close>

  PulseHA keeps a group of machines highly available. A daemon on each machine
  (\<^verbatim>\<open>src/pulseha\<close>) shares a config with the others, holds a list of members, one of which is the active
  node, and moves floating IP addresses to another machine when the active node no longer answers.
  An administrator talks to the daemon of a machine with \<^verbatim>\<open>pulsectl\<close> (\<^verbatim>\<open>src/pulsectl\<close>); plugins
  (\<^verbatim>\<open>plugins\<close>) bring addresses up and down and check the health of the machine.

  \<^bold>\<open>The model.\<close> One daemon is a value of the record \<open>world\<close> (\<open>World\<close>): the global \<^verbatim>\<open>DB\<close> with config,
  plugins and member list, the config file, the certificate directory, the two mutexes that are held across
  calls, and the trace of what the daemon did (calls to other daemons, addresses brought up or down,
  routines started, files written). Members are pointers in the sources and live in a heap. A Go function with
  effects is a function from \<open>world\<close> to an \<open>outcome\<close> (\<open>Prelude\<close>): it returns a value and a new state, or it
  stops in a crash, which says whether it was a nil dereference, an index out of range, a failed type
  assertion, a write to a nil map, a panic, an exit, or a lock of a mutex that the goroutine already holds.
  Errors that the sources return are values (\<open>Inl\<close>, or \<open>Some\<close> for an \<^verbatim>\<open>error\<close> result). Maps are nil or finite
  tables, and the order of a loop over a map is a parameter for each loop. Everything outside the sources (the answers
  of other daemons, of gRPC, TLS and the operating system, clocks, random numbers, plugins that are shared objects) is
  a field of the record \<open>Env\<close> or an argument, and theorems hold for every value of it unless they name a
  hypothesis.

  \<^bold>\<open>The theories.\<close>
  \<^item> \<open>Prelude\<close>: outcomes, sequencing, loops, the logic of \<open>safe\<close> computations, Go maps (locale \<open>table\<close>, with the
    laws of a table and its interpretation on \<open>gomap\<close>), machine integers. \<open>Strconv\<close>: \<^verbatim>\<open>strconv\<close> and \<^verbatim>\<open>strings\<close>.
  \<^item> \<open>JsonHelper\<close>, \<open>ConfigPkg\<close>, \<open>ConfigStore\<close>: \<^verbatim>\<open>packages/jsonHelper\<close> and \<^verbatim>\<open>packages/config\<close>, data and
    queries first, then the operations on the file. A section of a plugin is a struct that the plugin stored or a value decoded from JSON; saving and loading
    is a round trip up to that, and every reload decodes the sections.
  \<^item> \<open>Rpc\<close>: the messages between daemons. \<open>World\<close>: the state, the well-formedness invariant and the locale
    \<open>core_property\<close>, whose interpretations say which properties depend on config and members only; the locale
    \<open>mutex\<close>, interpreted on the mutexes of the member list and of the config.
  \<^item> \<open>Certs\<close>: \<^verbatim>\<open>packages/security\<close>. \<open>Comms\<close>: \<^verbatim>\<open>packages/client\<close> and \<^verbatim>\<open>packages/logging\<close>. \<open>IpAddr\<close>: the address
    helpers of \<^verbatim>\<open>packages/utils\<close>. \<open>Plugins\<close>: \<^verbatim>\<open>plugins.go\<close>.
  \<^item> \<open>Registry\<close>, \<open>RegistryOps\<close>: \<^verbatim>\<open>nodes.go\<close> and \<^verbatim>\<open>groups.go\<close>; every sequence of group operations keeps the registry sound.
  \<^item> \<open>MemberList\<close>, \<open>Links\<close>: \<^verbatim>\<open>member_list.go\<close>: loading, looking up, removing and updating members, broadcasts.
  \<^item> \<open>NetActions\<close>, \<open>Failover\<close>: \<^verbatim>\<open>utils.go\<close>, \<^verbatim>\<open>member.go\<close>, \<^verbatim>\<open>healthcheck_list.go\<close> and the rest of \<^verbatim>\<open>member_list.go\<close>: promotion,
    health checks, takeover. At most one member is recorded as active, a silent active node is replaced, and not before its time.
  \<^item> \<open>Server\<close>: \<^verbatim>\<open>server.go\<close>, the handlers for calls of other daemons: who may call, what a join or a config sync changes.
  \<^item> \<open>CliServer\<close>: \<^verbatim>\<open>cli_server.go\<close>, the commands of the administrator.
  \<^item> \<open>Daemon\<close>: \<^verbatim>\<open>cmd/pulseha\<close>, the start of a daemon and its signals, and the daemon as a transition system of calls, commands,
    routines, signals and changes of its surroundings; every reachable state is well formed.
  \<^item> \<open>Cluster\<close>, \<open>Joining\<close>, \<open>SplitBrain\<close>: two daemons side by side. What the one is answered is what the handler of the other returns in the
    state it has by then, and the abstract view of the pair is which nodes are active and which addresses each machine holds.
    A promotion hands the active role and the addresses over, in an order in which the old node has given its addresses up before it asks
    the new one; a change of the groups and a join leave both with the same nodes and groups; a health check between two
    active nodes makes one of them step down, except in the cases that the theorem names, and two that cross can make both step down. For a node that
    returns after a takeover, and the health checks of both in turn, the theorem says for every order of the two member lists and every setting which node is
    active in the end: with automatic failback the returned node gets its role back when both lists have it first and it was not checked
    before, and does not when the one that took over is first in its own list.
  \<^item> \<open>Rotation\<close>: the same pair over time, as a step relation whose steps are handovers, watches over the connections, health checks, the waiting of
    a standby that is not overdue, and the clock. The invariant, that one leads and the other follows, is kept by every step, so that
    every reachable state has one active node, which holds its addresses, and another one that holds none; and from
    every reachable state a handover can be made and settles, with both member lists in agreement. \<open>Takeover\<close>: when the active machine is lost, the
    standby takes over once its limit has passed, with its addresses, unless the loss follows a handover so closely that it does not know the active node yet.
  \<^item> \<open>Accessors\<close>: the getters and setters of \<^verbatim>\<open>member.go\<close>, with the locales \<open>accessor\<close> and \<open>disjoint_fields\<close>, interpreted on every field.
  \<^item> \<open>Pulsectl\<close>, \<open>Usage\<close>: \<^verbatim>\<open>src/pulsectl\<close> and \<^verbatim>\<open>cmd/pulsectl\<close>, run against the daemon of \<open>CliServer\<close>; the help texts and \<^verbatim>\<open>realMain\<close>.
  \<^item> \<open>Network\<close>: \<^verbatim>\<open>packages/network\<close> and the plugin \<^verbatim>\<open>netcore\<close>, over a netlink library that is a parameter.
    An address that it deletes may take its secondary addresses with it, as on Linux.
    \<open>HcPing\<close> and \<open>Serial\<close>: the health check plugins. \<open>Float64\<close>: rounding to a \<^verbatim>\<open>float64\<close> and the conversion to \<^verbatim>\<open>uint\<close>, for the timeouts of \<open>Serial\<close>;
    what the machine makes of a value that no \<^verbatim>\<open>uint\<close> has is a parameter. \<open>Alerts\<close>: the plugin \<^verbatim>\<open>genEmailAlerts\<close>, and which plugins of the
    repository a daemon loads.
  \<^item> \<open>OsStat\<close>: \<^verbatim>\<open>packages/osStat\<close>, the readers of \<^verbatim>\<open>/proc\<close>: what the kernel writes is read back, with the locale \<open>line_format\<close> for
    the files of one record per line.
  \<^item> \<open>Example\<close>: a cluster of two nodes, on which the witnesses of the theorems are computed.

  \<^bold>\<open>Concurrency.\<close> A handler of the server and a command hold a mutex of their server for their whole body, so each
  is one step. The routines that the daemon starts are steps of their own, one per tick; interleavings inside one
  run are not modelled. The mutexes of the member list and of the config are explicit, so that a lock by its holder is a deadlock
  in the model. The scheduler is a loop over a finite list of ticks.

  \<^bold>\<open>Bounds.\<close> No definition needs fuel: loops run over lists, and the scheduler over the ticks it is given. Scores, counters and
  times are integers, with the conversion to 32 bits where the sources convert; the serial options are words of the width
  that Go gives them, and their timeout goes through a \<^verbatim>\<open>float64\<close>.


  \<^bold>\<open>Not modelled.\<close> Generated code (\<^verbatim>\<open>rpc/pulse.pb.go\<close>) but for its messages; gRPC, TLS, SMTP, netlink and JSON as libraries (a JSON document is
  a value or an error); messages of the process-local logger; \<^verbatim>\<open>MyCaller\<close>, which only names a
  caller for the log; versions of plugins; table rendering of \<^verbatim>\<open>pulsectl\<close> and its library \<^verbatim>\<open>mitchellh/cli\<close>;
  mutexes of single members, which are held inside an accessor only.

  \<^bold>\<open>Beyond the development.\<close> Clusters of more than two daemons are covered one pair of daemons at a time; the interleaving of the routines of one
  daemon inside the calls of another, and the takeover by a standby that is overdue while the active node still runs, which leads into
  the split brain of \<open>SplitBrain\<close>, are not steps of \<open>Rotation\<close>. The takeover after the limit is stated for
  limits up to \<open>4 * 10^12\<close> milliseconds, because Go measures intervals with 64 bits.
\<close>

end
